(* ===== verification/Orion_Prelude.thy ===== *)
theory Orion_Prelude
  imports
    Main
    "HOL-Library.Word"
    "HOL-Library.AList"
    "HOL-Library.Char_ord"
    "HOL-Library.List_Lexorder"
    "HOL-Library.Product_Lexorder"
    "HOL-Library.Sublist"
    "HOL-Library.Multiset"
begin

text \<open>
  Shared vocabulary of the OrionMesh development: the machine integers, identifiers and
  time stamps of the Rust code, the parts of the Rust standard library the sources use
  (options, ranges, sets, stable sorting, string scanning, decimal printing), and the two
  map types \<^verbatim>\<open>HashMap\<close> and \<^verbatim>\<open>BTreeMap\<close>.

  Both maps are association lists. A \<^verbatim>\<open>HashMap\<close> is an association list with distinct
  keys whose list order is the iteration order: a theorem about every such list holds for
  every iteration order the hash table may show. A \<^verbatim>\<open>BTreeMap\<close> is an association list
  whose keys strictly increase, so two equal maps are equal lists and iteration is in key
  order. The locale \<open>map_impl\<close> states the contract both satisfy; what the clients need
  from it is proved once there and used through the two interpretations \<open>hm\<close> and
  \<open>bt\<close>.

  Strings are character lists. Rust compares strings by their bytes, which is the
  lexicographic order used here.
\<close>

subsection \<open>Scalar types\<close>

type_synonym u8 = "8 word"
type_synonym u16 = "16 word"
type_synonym u32 = "32 word"
type_synonym u64 = "64 word"
type_synonym i32 = "32 word"
type_synonym i64 = "64 word"
type_synonym uuid = "128 word"

text \<open>A time stamp counts nanoseconds since the epoch.\<close>

type_synonym datetime = int

named_theorems reg_simps \<open>lookup equations of the controller's registries\<close>
named_theorems inv_intros \<open>preservation of the registry and state invariants\<close>

subsection \<open>Options, ranges and sets\<close>

definition unwrap_or :: "'a option \<Rightarrow> 'a \<Rightarrow> 'a" where
  "unwrap_or x d = (case x of None \<Rightarrow> d | Some v \<Rightarrow> v)"

definition option_or :: "'a option \<Rightarrow> 'a option \<Rightarrow> 'a option" where
  "option_or x y = (case x of None \<Rightarrow> y | Some v \<Rightarrow> Some v)"

definition ok_or :: "'a option \<Rightarrow> 'e \<Rightarrow> 'e + 'a" where
  "ok_or x e = (case x of None \<Rightarrow> Inl e | Some v \<Rightarrow> Inr v)"

definition result_ok :: "'e + 'a \<Rightarrow> 'a option" where
  "result_ok r = (case r of Inl _ \<Rightarrow> None | Inr v \<Rightarrow> Some v)"

definition saturating_add :: "'a::len word \<Rightarrow> 'a word \<Rightarrow> 'a word" where
  "saturating_add a b = (if unat a + unat b < 2 ^ LENGTH('a) then a + b else -1)"

text \<open>The half-open range \<^verbatim>\<open>0..n\<close> over \<^verbatim>\<open>u32\<close>.\<close>

definition range_u32 :: "u32 \<Rightarrow> u32 list" where
  "range_u32 n = map of_nat [0..<unat n]"

lemma unwrap_or_simps [simp]:
  "unwrap_or None d = d" "unwrap_or (Some v) d = v"
  by (simp_all add: unwrap_or_def)

lemma option_or_simps [simp]:
  "option_or None y = y" "option_or (Some v) y = Some v"
  by (simp_all add: option_or_def)

lemma ok_or_simps [simp]:
  "ok_or None e = Inl e" "ok_or (Some v) e = Inr v"
  by (simp_all add: ok_or_def)

lemma result_ok_simps [simp]:
  "result_ok (Inl e) = None" "result_ok (Inr v) = Some v"
  by (simp_all add: result_ok_def)

lemma result_ok_eq_Some [simp]: "result_ok r = Some v \<longleftrightarrow> r = Inr v"
  by (cases r) auto

lemma case_Inr_iff: "(case x of Inl _ \<Rightarrow> False | Inr r \<Rightarrow> P r) \<longleftrightarrow> (\<exists>r. x = Inr r \<and> P r)"
  by (cases x) auto

lemma unat_lt_word: "unat (w :: 'a::len word) < 2 ^ LENGTH('a)"
  by (rule unsigned_less)

lemma unat_saturating_add:
  "unat (saturating_add a (b :: 'a::len word)) = min (unat a + unat b) (2 ^ LENGTH('a) - 1)"
  using unat_lt_word [of a] unat_lt_word [of b]
  by (auto simp: saturating_add_def unat_word_ariths unsigned_minus_1_eq_mask mask_eq_exp_minus_1 min_def)

lemma unat_lt_u32 [simp]: "unat (n :: u32) < 2 ^ 32"
  using unat_lt_word [of n] by simp

lemma unat_of_nat_u32: "k < 2 ^ 32 \<Longrightarrow> unat (of_nat k :: u32) = k"
  by (simp add: unat_of_nat take_bit_nat_eq_self)

lemma set_range_u32: "set (range_u32 n) = {i. i < n}"
proof -
  have "of_nat k < n" if "k < unat n" for k
    using that less_trans [OF that unat_lt_u32]
    by (simp add: word_less_nat_alt unat_of_nat_u32)
  moreover have "i \<in> of_nat ` {0..<unat n}" if "i < n" for i
    using that by (intro image_eqI [of _ _ "unat i"]) (auto simp: word_less_nat_alt)
  ultimately show ?thesis by (auto simp: range_u32_def)
qed

lemma length_range_u32 [simp]: "length (range_u32 n) = unat n"
  by (simp add: range_u32_def)

lemma sorted_wrt_range_u32: "sorted_wrt (<) (range_u32 n)"
proof -
  have "(of_nat i :: u32) < of_nat j" if "i < j" "j < unat n" for i j
    using that less_trans [OF that(2) unat_lt_u32] less_trans [OF that(1) less_trans [OF that(2) unat_lt_u32]]
    by (simp add: word_less_nat_alt unat_of_nat_u32)
  then show ?thesis
    by (auto simp: range_u32_def sorted_wrt_iff_nth_less)
qed

lemma distinct_range_u32 [simp]: "distinct (range_u32 n)"
  using sorted_wrt_range_u32 by (simp add: strict_sorted_iff)

subsection \<open>Strings\<close>

definition starts_with :: "string \<Rightarrow> string \<Rightarrow> bool" where
  "starts_with s p = prefix p s"

definition ends_with :: "string \<Rightarrow> string \<Rightarrow> bool" where
  "ends_with s p = suffix p s"

definition strip_prefix :: "string \<Rightarrow> string \<Rightarrow> string option" where
  "strip_prefix p s = (if prefix p s then Some (drop (length p) s) else None)"

text \<open>Substring test, as \<^verbatim>\<open>str::contains\<close>.\<close>

fun str_contains :: "string \<Rightarrow> string \<Rightarrow> bool" where
  "str_contains [] q = (q = [])"
| "str_contains (c # cs) q = (prefix q (c # cs) \<or> str_contains cs q)"

definition is_ascii_digit :: "char \<Rightarrow> bool" where
  "is_ascii_digit c \<longleftrightarrow> of_char c \<ge> (48::nat) \<and> of_char c \<le> (57::nat)"

definition is_ascii_upper :: "char \<Rightarrow> bool" where
  "is_ascii_upper c \<longleftrightarrow> of_char c \<ge> (65::nat) \<and> of_char c \<le> (90::nat)"

definition is_ascii_lower :: "char \<Rightarrow> bool" where
  "is_ascii_lower c \<longleftrightarrow> of_char c \<ge> (97::nat) \<and> of_char c \<le> (122::nat)"

definition is_ascii_alphanumeric :: "char \<Rightarrow> bool" where
  "is_ascii_alphanumeric c \<longleftrightarrow> is_ascii_digit c \<or> is_ascii_upper c \<or> is_ascii_lower c"

definition to_ascii_uppercase :: "char \<Rightarrow> char" where
  "to_ascii_uppercase c = (if is_ascii_lower c then char_of (of_char c - 32 :: nat) else c)"

definition is_ascii_ws :: "char \<Rightarrow> bool" where
  "is_ascii_ws c \<longleftrightarrow> of_char c = (32::nat) \<or> (9::nat) \<le> of_char c \<and> of_char c \<le> (13::nat)"

definition str_trim :: "string \<Rightarrow> string" where
  "str_trim s = rev (dropWhile is_ascii_ws (rev (dropWhile is_ascii_ws s)))"

text \<open>\<^verbatim>\<open>str::split_whitespace\<close>: the maximal runs of non-blank characters.\<close>

fun split_ws :: "string \<Rightarrow> string \<Rightarrow> string list" where
  "split_ws acc [] = (if acc = [] then [] else [rev acc])"
| "split_ws acc (c # cs) =
     (if is_ascii_ws c
      then (if acc = [] then split_ws [] cs else rev acc # split_ws [] cs)
      else split_ws (c # acc) cs)"

definition split_whitespace :: "string \<Rightarrow> string list" where
  "split_whitespace s = split_ws [] s"

text \<open>The first component of \<^verbatim>\<open>str::split(c)\<close>.\<close>

definition split_first :: "char \<Rightarrow> string \<Rightarrow> string" where
  "split_first c s = takeWhile (\<lambda>x. x \<noteq> c) s"

text \<open>\<^verbatim>\<open>str::split(c)\<close>: the pieces between the separators, at least one.\<close>

fun split_on :: "char \<Rightarrow> string \<Rightarrow> string list" where
  "split_on c [] = [[]]"
| "split_on c (x # xs) =
     (if x = c then [] # split_on c xs
      else (case split_on c xs of p # ps \<Rightarrow> (x # p) # ps | [] \<Rightarrow> [[x]]))"

text \<open>\<^verbatim>\<open>str::split_once\<close>: the text before and after the first occurrence of the pattern.\<close>

fun split_once :: "string \<Rightarrow> string \<Rightarrow> (string \<times> string) option" where
  "split_once p [] = (if p = [] then Some ([], []) else None)"
| "split_once p (c # cs) =
     (if prefix p (c # cs) then Some ([], drop (length p) (c # cs))
      else map_option (\<lambda>(a, b). (c # a, b)) (split_once p cs))"

text \<open>\<^verbatim>\<open>str::lines\<close>: lines end at a newline, with a carriage return before it dropped; the
  last line may lack the newline, and an empty rest is no line.\<close>

definition newline :: char where
  "newline = CHR 0x0A"

definition chomp_cr :: "string \<Rightarrow> string" where
  "chomp_cr s = (if s \<noteq> [] \<and> last s = CHR 0x0D then butlast s else s)"

fun lines_acc :: "string \<Rightarrow> string \<Rightarrow> string list" where
  "lines_acc acc [] = (if acc = [] then [] else [rev acc])"
| "lines_acc acc (c # cs) =
     (if c = newline then chomp_cr (rev acc) # lines_acc [] cs else lines_acc (c # acc) cs)"

definition str_lines :: "string \<Rightarrow> string list" where
  "str_lines s = lines_acc [] s"

definition to_ascii_lowercase :: "char \<Rightarrow> char" where
  "to_ascii_lowercase c = (if is_ascii_upper c then char_of (of_char c + 32 :: nat) else c)"

definition to_lowercase :: "string \<Rightarrow> string" where
  "to_lowercase s = map to_ascii_lowercase s"

lemma split_on_neq_Nil [simp]: "split_on c s \<noteq> []"
  by (cases s) (auto split: list.split)

lemma split_on_notin: "c \<notin> set s \<Longrightarrow> split_on c s = [s]"
  by (induction s) auto

lemma split_on_append: "c \<notin> set s \<Longrightarrow> split_on c (s @ c # t) = s # split_on c t"
  by (induction s) auto

lemma split_once_Some_iff:
  "p \<noteq> [] \<Longrightarrow> split_once p s = Some (a, b) \<Longrightarrow> s = a @ p @ b"
proof (induction s arbitrary: a b)
  case (Cons c cs)
  then show ?case by (auto split: if_splits simp: prefix_def)
qed simp

lemma lines_acc_line:
  "newline \<notin> set l \<Longrightarrow> lines_acc acc (l @ newline # rest) = chomp_cr (rev acc @ l) # lines_acc [] rest"
  by (induction l arbitrary: acc) auto

lemma str_lines_line:
  "newline \<notin> set l \<Longrightarrow> str_lines (l @ newline # rest) = chomp_cr l # str_lines rest"
  by (simp add: str_lines_def lines_acc_line)

lemma str_lines_Nil [simp]: "str_lines [] = []"
  by (simp add: str_lines_def)

lemma str_contains_iff: "str_contains s q \<longleftrightarrow> (\<exists>a b. s = a @ q @ b)"
proof (induction s)
  case Nil
  then show ?case by auto
next
  case (Cons c cs)
  have "(\<exists>a b. c # cs = a @ q @ b) \<longleftrightarrow> prefix q (c # cs) \<or> (\<exists>a b. cs = a @ q @ b)"
    by (auto simp: prefix_def Cons_eq_append_conv)
  with Cons show ?case by simp
qed

subsection \<open>Decimal printing and reading\<close>

definition digit_char :: "nat \<Rightarrow> char" where
  "digit_char d = char_of (48 + d)"

fun show_nat :: "nat \<Rightarrow> string" where
  "show_nat n = (if n < 10 then [digit_char n] else show_nat (n div 10) @ [digit_char (n mod 10)])"

declare show_nat.simps [simp del]

definition show_int :: "int \<Rightarrow> string" where
  "show_int i = (if i < 0 then ''-'' @ show_nat (nat (- i)) else show_nat (nat i))"

definition read_nat_acc :: "nat \<Rightarrow> string \<Rightarrow> nat" where
  "read_nat_acc = foldl (\<lambda>n c. 10 * n + (of_char c - 48))"

definition read_nat :: "string \<Rightarrow> nat option" where
  "read_nat s = (if s \<noteq> [] \<and> list_all is_ascii_digit s then Some (read_nat_acc 0 s) else None)"

lemma of_char_digit_char [simp]: "d < 10 \<Longrightarrow> (of_char (digit_char d) :: nat) = 48 + d"
  by (simp add: digit_char_def)

lemma is_ascii_digit_digit_char [simp]: "d < 10 \<Longrightarrow> is_ascii_digit (digit_char d)"
  by (simp add: is_ascii_digit_def)

lemma show_nat_neq_Nil [simp]: "show_nat n \<noteq> []"
  by (subst show_nat.simps) simp

lemma show_nat_digits: "list_all is_ascii_digit (show_nat n)"
proof (induction n rule: show_nat.induct)
  case (1 n)
  then show ?case by (subst show_nat.simps) (simp add: list_all_iff)
qed

lemma read_nat_acc_show_nat: "read_nat_acc 0 (show_nat n) = n"
proof (induction n rule: show_nat.induct)
  case (1 n)
  then show ?case
    by (subst show_nat.simps) (auto simp: read_nat_acc_def)
qed

lemma read_show_nat: "read_nat (show_nat n) = Some n"
  by (simp add: read_nat_def show_nat_digits read_nat_acc_show_nat)

lemma show_nat_inject: "show_nat m = show_nat n \<longleftrightarrow> m = n"
  by (metis option.inject read_show_nat)

text \<open>\<^verbatim>\<open>str::parse\<close> for the machine integers: an optional sign, then decimal digits in range.\<close>

definition strip_plus :: "string \<Rightarrow> string" where
  "strip_plus s = (case s of c # cs \<Rightarrow> (if c = CHR ''+'' then cs else s) | [] \<Rightarrow> [])"

definition parse_u32 :: "string \<Rightarrow> u32 option" where
  "parse_u32 s =
     (case read_nat (strip_plus s) of
        None \<Rightarrow> None
      | Some n \<Rightarrow> if n < 2 ^ 32 then Some (of_nat n) else None)"

definition parse_i32 :: "string \<Rightarrow> i32 option" where
  "parse_i32 s =
     (if s \<noteq> [] \<and> hd s = CHR ''-'' then
        (case read_nat (tl s) of
           None \<Rightarrow> None
         | Some n \<Rightarrow> if n \<le> 2 ^ 31 then Some (- of_nat n) else None)
      else
        (case read_nat (strip_plus s) of
           None \<Rightarrow> None
         | Some n \<Rightarrow> if n < 2 ^ 31 then Some (of_nat n) else None))"

lemma digit_neq_char:
  "is_ascii_digit c \<Longrightarrow> of_char d < (48::nat) \<or> (57::nat) < of_char d \<Longrightarrow> c \<noteq> d"
  by (auto simp: is_ascii_digit_def)

lemma hd_show_nat_digit: "is_ascii_digit (hd (show_nat n))"
  using show_nat_digits [of n] by (cases "show_nat n") auto

lemma strip_plus_show_nat [simp]: "strip_plus (show_nat n) = show_nat n"
  using digit_neq_char [OF hd_show_nat_digit [of n], of "CHR ''+''"]
  by (cases "show_nat n") (auto simp: strip_plus_def)

lemma parse_u32_show: "parse_u32 (show_nat (unat w)) = Some w"
  using unat_lt_u32 [of w] by (simp add: parse_u32_def read_show_nat)

lemma str_trim_after:
  assumes "s \<noteq> []" and "\<not> is_ascii_ws (hd s)" and "\<not> is_ascii_ws (last s)" and "list_all is_ascii_ws w"
  shows "str_trim (s @ w) = s"
proof -
  have "dropWhile is_ascii_ws (s @ w) = s @ w"
    using assms(1,2) by (cases s) auto
  moreover have "dropWhile is_ascii_ws (rev w @ rev s) = dropWhile is_ascii_ws (rev s)"
    using assms(4) by (intro dropWhile_append2) (simp add: list_all_iff)
  moreover have "dropWhile is_ascii_ws (rev s) = rev s"
    using assms(1,3) by (cases s rule: rev_cases) auto
  ultimately show ?thesis by (simp add: str_trim_def)
qed

lemma digit_not_ws: "is_ascii_digit c \<Longrightarrow> \<not> is_ascii_ws c"
  by (auto simp: is_ascii_digit_def is_ascii_ws_def)

lemma str_trim_show_nat:
  assumes "list_all is_ascii_ws w"
  shows "str_trim (show_nat n @ w) = show_nat n"
proof -
  have "is_ascii_digit (last (show_nat n))"
    using show_nat_digits [of n] by (simp add: list_all_iff)
  then show ?thesis
    by (intro str_trim_after assms) (simp_all add: digit_not_ws hd_show_nat_digit)
qed

lemma parse_i32_show_line:
  assumes "n < 2 ^ 31"
  shows "parse_i32 (str_trim (show_nat n @ [newline])) = Some (of_nat n)"
proof -
  have "hd (show_nat n) \<noteq> CHR ''-''"
    by (rule digit_neq_char [OF hd_show_nat_digit]) simp
  moreover have "str_trim (show_nat n @ [newline]) = show_nat n"
    by (rule str_trim_show_nat) (simp add: newline_def is_ascii_ws_def)
  ultimately show ?thesis
    using assms by (simp add: parse_i32_def read_show_nat)
qed

subsection \<open>Maps: the contract and its two providers\<close>

locale map_impl =
  fixes get :: "'m \<Rightarrow> 'k \<Rightarrow> 'v option"
    and put :: "'k \<Rightarrow> 'v \<Rightarrow> 'm \<Rightarrow> 'm"
    and del :: "'k \<Rightarrow> 'm \<Rightarrow> 'm"
    and entries :: "'m \<Rightarrow> ('k \<times> 'v) list"
    and none :: 'm
    and wf :: "'m \<Rightarrow> bool"
  assumes get_none: "get none k = None"
    and get_put: "wf m \<Longrightarrow> get (put k v m) j = (if j = k then Some v else get m j)"
    and get_del: "wf m \<Longrightarrow> get (del k m) j = (if j = k then None else get m j)"
    and entries_iff: "wf m \<Longrightarrow> (k, v) \<in> set (entries m) \<longleftrightarrow> get m k = Some v"
    and distinct_entries: "wf m \<Longrightarrow> distinct (map fst (entries m))"
    and wf_none: "wf none"
    and wf_put: "wf m \<Longrightarrow> wf (put k v m)"
    and wf_del: "wf m \<Longrightarrow> wf (del k m)"
begin

lemma wf_fold_del: "wf m \<Longrightarrow> wf (fold del ks m)"
  by (induction ks arbitrary: m) (simp_all add: wf_del)

lemma get_fold_del: "wf m \<Longrightarrow> get (fold del ks m) j = (if j \<in> set ks then None else get m j)"
  by (induction ks arbitrary: m) (auto simp: wf_del get_del)

lemma wf_fold_put: "wf m \<Longrightarrow> wf (fold (\<lambda>(k, v). put k v) kvs m)"
  by (induction kvs arbitrary: m) (auto simp: wf_put)

lemma get_fold_put_notin:
  "wf m \<Longrightarrow> j \<notin> fst ` set kvs \<Longrightarrow> get (fold (\<lambda>(k, v). put k v) kvs m) j = get m j"
  by (induction kvs arbitrary: m) (auto simp: wf_put get_put)

lemma all_entries_iff: "wf m \<Longrightarrow> (\<forall>(k, v) \<in> set (entries m). P k v) \<longleftrightarrow> (\<forall>k v. get m k = Some v \<longrightarrow> P k v)"
  by (auto simp: entries_iff)

lemma del_absent: "wf m \<Longrightarrow> get m k = None \<Longrightarrow> get (del k m) = get m"
  by (auto simp: fun_eq_iff get_del)

lemma put_put_commute:
  "wf m \<Longrightarrow> j \<noteq> k \<Longrightarrow> get (put j v (put k w m)) = get (put k w (put j v m))"
  by (auto simp: fun_eq_iff get_put wf_put)

end

type_synonym ('k, 'v) hash_map = "('k \<times> 'v) list"

definition hm_get :: "('k, 'v) hash_map \<Rightarrow> 'k \<Rightarrow> 'v option" where
  "hm_get m k = map_of m k"

definition hm_insert :: "'k \<Rightarrow> 'v \<Rightarrow> ('k, 'v) hash_map \<Rightarrow> ('k, 'v) hash_map" where
  "hm_insert k v m = AList.update k v m"

definition hm_remove :: "'k \<Rightarrow> ('k, 'v) hash_map \<Rightarrow> ('k, 'v) hash_map" where
  "hm_remove k m = AList.delete k m"

definition hm_wf :: "('k, 'v) hash_map \<Rightarrow> bool" where
  "hm_wf m = distinct (map fst m)"

definition hm_values :: "('k, 'v) hash_map \<Rightarrow> 'v list" where
  "hm_values m = map snd m"

interpretation hm: map_impl hm_get hm_insert hm_remove "\<lambda>m. m" "[]" hm_wf
proof unfold_locales
  show "hm_get (hm_remove k m) j = (if j = k then None else hm_get m j)"
    for m :: "('a \<times> 'b) list" and k j
    by (simp add: hm_get_def hm_remove_def AList.delete_conv)
qed (auto simp: hm_get_def hm_insert_def hm_remove_def hm_wf_def AList.update_conv
       AList.distinct_update AList.distinct_delete)

lemma hm_get_insert [simp]: "hm_get (hm_insert k v m) j = (if j = k then Some v else hm_get m j)"
  by (simp add: hm_get_def hm_insert_def AList.update_conv)

lemma hm_filter_key:
  assumes "hm_wf m" and "hm_get m k = Some v"
  shows "filter (\<lambda>x. fst x = k) m = [(k, v)]"
  using assms
proof (induction m)
  case (Cons kv m)
  have none: "filter (\<lambda>x. fst x = j) xs = []" if "j \<notin> fst ` set xs" for j and xs :: "('a \<times> 'b) list"
    using that by (induction xs) auto
  from Cons show ?case by (cases kv) (auto simp: hm_wf_def hm_get_def none split: if_splits)
qed (simp add: hm_get_def)

lemma hm_get_remove [simp]: "hm_get (hm_remove k m) j = (if j = k then None else hm_get m j)"
  by (simp add: hm_get_def hm_remove_def AList.delete_conv)

lemma hm_get_Nil [simp]: "hm_get [] k = None"
  by (simp add: hm_get_def)

lemma hm_wf_simps [simp]:
  "hm_wf []" "hm_wf m \<Longrightarrow> hm_wf (hm_insert k v m)" "hm_wf m \<Longrightarrow> hm_wf (hm_remove k m)"
  by (simp_all add: hm.wf_none hm.wf_put hm.wf_del)

lemma set_hm_values: "hm_wf m \<Longrightarrow> set (hm_values m) = {v. \<exists>k. hm_get m k = Some v}"
  by (force simp: hm_values_def hm.entries_iff [symmetric])

type_synonym ('k, 'v) btree_map = "('k \<times> 'v) list"

definition bt_get :: "('k, 'v) btree_map \<Rightarrow> 'k \<Rightarrow> 'v option" where
  "bt_get m k = map_of m k"

fun bt_insert :: "'k::linorder \<Rightarrow> 'v \<Rightarrow> ('k, 'v) btree_map \<Rightarrow> ('k, 'v) btree_map" where
  "bt_insert k v [] = [(k, v)]"
| "bt_insert k v ((j, w) # m) =
     (if k < j then (k, v) # (j, w) # m
      else if k = j then (k, v) # m
      else (j, w) # bt_insert k v m)"

definition bt_remove :: "'k \<Rightarrow> ('k, 'v) btree_map \<Rightarrow> ('k, 'v) btree_map" where
  "bt_remove k m = filter (\<lambda>(j, _). j \<noteq> k) m"

definition bt_wf :: "('k::linorder, 'v) btree_map \<Rightarrow> bool" where
  "bt_wf m = sorted_wrt (<) (map fst m)"

lemma bt_get_insert [simp]: "bt_get (bt_insert k v m) j = (if j = k then Some v else bt_get m j)"
  by (induction k v m rule: bt_insert.induct) (auto simp: bt_get_def)

lemma bt_get_remove: "bt_get (bt_remove k m) j = (if j = k then None else bt_get m j)"
  by (induction m) (auto simp: bt_get_def bt_remove_def)

lemma fst_set_bt_insert: "fst ` set (bt_insert k v m) = insert k (fst ` set m)"
  by (induction k v m rule: bt_insert.induct) auto

lemma bt_wf_Cons: "bt_wf ((k, v) # m) \<longleftrightarrow> (\<forall>j \<in> fst ` set m. k < j) \<and> bt_wf m"
  by (auto simp: bt_wf_def)

lemma bt_wf_insert: "bt_wf m \<Longrightarrow> bt_wf (bt_insert k v m)"
proof (induction k v m rule: bt_insert.induct)
  case (1 k v)
  show ?case by (simp add: bt_wf_def)
next
  case (2 k v j w m)
  then show ?case by (auto simp: bt_wf_Cons fst_set_bt_insert)
qed

lemma bt_wf_remove: "bt_wf m \<Longrightarrow> bt_wf (bt_remove k m)"
  by (auto simp: bt_wf_def bt_remove_def sorted_wrt_map intro: sorted_wrt_filter)

lemma bt_wf_distinct: "bt_wf m \<Longrightarrow> distinct (map fst m)"
  by (simp add: bt_wf_def strict_sorted_iff)

interpretation bt: map_impl bt_get bt_insert bt_remove "\<lambda>m. m" "[]" bt_wf
proof unfold_locales
  show "bt_get [] k = None" for k :: 'a and v :: 'b
    by (simp add: bt_get_def)
  show "(k, v) \<in> set m \<longleftrightarrow> bt_get m k = Some v" if "bt_wf m"
    for m :: "('a::linorder \<times> 'b) list" and k v
    using bt_wf_distinct [OF that] by (simp add: bt_get_def)
  show "bt_wf ([] :: ('a::linorder \<times> 'b) list)"
    by (simp add: bt_wf_def)
qed (simp_all add: bt_get_remove bt_wf_insert bt_wf_remove bt_wf_distinct)

subsection \<open>Runs of a state machine\<close>

text \<open>A component that reacts to a sequence of events, and a property of its state that every
  reaction keeps.\<close>

locale invariant_machine =
  fixes step :: "'s \<Rightarrow> 'e \<Rightarrow> 's"
    and inv :: "'s \<Rightarrow> bool"
  assumes inv_step: "inv s \<Longrightarrow> inv (step s e)"
begin

lemma inv_run: "inv s \<Longrightarrow> inv (foldl step s es)"
  by (induction es arbitrary: s) (simp_all add: inv_step)

lemma inv_prefix: "inv s \<Longrightarrow> prefix fs es \<Longrightarrow> inv (foldl step s fs)"
  by (rule inv_run)

end

end
