(* ===== verification/Orion_Json.thy ===== *)
theory Orion_Json
  imports Complex_Main Orion_Prelude
begin

text \<open>
  JSON values as the sources use them (\<^verbatim>\<open>serde_json::Value\<close>): the free-form attributes
  of capabilities, resource configuration and message bodies. A number is an unsigned
  64-bit integer, a negative 64-bit integer or a finite float; the three are different
  values even where they denote the same number. A finite float is the rational it denotes.

  Reading an integer as a float (\<^verbatim>\<open>as f64\<close>) rounds to the nearest value with a 53-bit
  significand, ties to even; \<open>round_f64\<close> computes it on integers.
\<close>

datatype json_number =
    PosInt u64
  | NegInt int
  | Float rat

datatype json =
    JNull
  | JBool bool
  | JNumber json_number
  | JString string
  | JArray "json list"
  | JObject "(string \<times> json) list"

text \<open>How many low bits an integer loses when only 53 significant bits are kept.\<close>

fun f64_shift :: "nat \<Rightarrow> nat" where
  "f64_shift n = (if n < 2 ^ 53 then 0 else Suc (f64_shift (n div 2)))"

declare f64_shift.simps [simp del]

definition round_f64 :: "nat \<Rightarrow> nat" where
  "round_f64 n =
     (let u = 2 ^ f64_shift n; q = n div u; r = n mod u
      in if u < 2 * r \<or> u = 2 * r \<and> odd q then (q + 1) * u else q * u)"

definition number_as_f64 :: "json_number \<Rightarrow> rat" where
  "number_as_f64 n =
     (case n of
        PosInt w \<Rightarrow> of_nat (round_f64 (unat w))
      | NegInt i \<Rightarrow> - of_nat (round_f64 (nat (- i)))
      | Float x \<Rightarrow> x)"

definition as_f64 :: "json \<Rightarrow> rat option" where
  "as_f64 v = (case v of JNumber n \<Rightarrow> Some (number_as_f64 n) | _ \<Rightarrow> None)"

definition as_str :: "json \<Rightarrow> string option" where
  "as_str v = (case v of JString s \<Rightarrow> Some s | _ \<Rightarrow> None)"

definition as_array :: "json \<Rightarrow> json list option" where
  "as_array v = (case v of JArray xs \<Rightarrow> Some xs | _ \<Rightarrow> None)"

definition as_u64 :: "json \<Rightarrow> u64 option" where
  "as_u64 v = (case v of JNumber (PosInt w) \<Rightarrow> Some w | _ \<Rightarrow> None)"

definition json_get :: "json \<Rightarrow> string \<Rightarrow> json option" where
  "json_get v k = (case v of JObject m \<Rightarrow> bt_get m k | _ \<Rightarrow> None)"

definition is_null :: "json \<Rightarrow> bool" where
  "is_null v \<longleftrightarrow> v = JNull"

text \<open>The value denoted by a number, without rounding.\<close>

definition number_value :: "json_number \<Rightarrow> rat" where
  "number_value n =
     (case n of PosInt w \<Rightarrow> of_nat (unat w) | NegInt i \<Rightarrow> of_int i | Float x \<Rightarrow> x)"

text \<open>Numbers the float reading keeps exactly: integers up to \<open>2 ^ 53\<close> in size, and floats.\<close>

definition small_number :: "json_number \<Rightarrow> bool" where
  "small_number n \<longleftrightarrow>
     (case n of PosInt w \<Rightarrow> unat w \<le> 2 ^ 53 | NegInt i \<Rightarrow> i < 0 \<and> - i \<le> 2 ^ 53 | Float _ \<Rightarrow> True)"

lemma f64_shift_small: "n < 2 ^ 53 \<Longrightarrow> f64_shift n = 0"
  by (subst f64_shift.simps) simp

lemma f64_shift_step: "\<not> n < 2 ^ 53 \<Longrightarrow> f64_shift n = Suc (f64_shift (n div 2))"
  by (subst f64_shift.simps) simp

lemma f64_shift_upper: "n < 2 ^ (53 + f64_shift n)"
proof (induction n rule: f64_shift.induct)
  case (1 n)
  show ?case
  proof (cases "n < 2 ^ 53")
    case True
    then show ?thesis by (simp add: f64_shift_small)
  next
    case False
    then have "n div 2 < 2 ^ (53 + f64_shift (n div 2))" by (rule 1)
    then have "n < 2 * 2 ^ (53 + f64_shift (n div 2))" by linarith
    then show ?thesis by (simp only: f64_shift_step [OF False] add_Suc_right power_Suc)
  qed
qed

lemma f64_shift_lower: "2 ^ 53 \<le> n \<Longrightarrow> 2 ^ (52 + f64_shift n) \<le> n"
proof (induction n rule: f64_shift.induct)
  case (1 n)
  show ?case
  proof (cases "n div 2 < 2 ^ 53")
    case True
    moreover have "\<not> n < 2 ^ 53" using 1 by simp
    ultimately have "f64_shift n = Suc 0"
      using f64_shift_step [of n] f64_shift_small [of "n div 2"] by simp
    then show ?thesis using "1.prems" by simp
  next
    case False
    with 1 have "2 ^ (52 + f64_shift (n div 2)) \<le> n div 2" by simp
    then have "2 * 2 ^ (52 + f64_shift (n div 2)) \<le> n" by linarith
    moreover have "f64_shift n = Suc (f64_shift (n div 2))"
      using 1 by (intro f64_shift_step) simp
    ultimately show ?thesis by (simp only: add_Suc_right power_Suc)
  qed
qed

lemma f64_shift_mono: "m \<le> n \<Longrightarrow> f64_shift m \<le> f64_shift n"
proof (cases "m < 2 ^ 53")
  case True
  then show ?thesis by (simp add: f64_shift_small)
next
  case False
  assume "m \<le> n"
  then have "(2::nat) ^ (52 + f64_shift m) < 2 ^ (53 + f64_shift n)"
    using f64_shift_lower [of m] f64_shift_upper [of n] False by linarith
  then have "52 + f64_shift m < 53 + f64_shift n"
    by (rule power_less_imp_less_exp [rotated]) simp
  then show ?thesis by simp
qed

lemma round_f64_exact: "n \<le> 2 ^ 53 \<Longrightarrow> round_f64 n = n"
proof (cases "n = 2 ^ 53")
  case True
  have "f64_shift (2 ^ 53) = 1"
    by (subst f64_shift.simps) (simp add: f64_shift_small)
  with True show ?thesis by (simp add: round_f64_def)
next
  case False
  assume "n \<le> 2 ^ 53"
  with False have "f64_shift n = 0" by (simp add: f64_shift_small)
  then show ?thesis by (simp add: round_f64_def)
qed

text \<open>Rounding to the grid \<open>u\<close> is monotone, and never leaves the enclosing grid interval.\<close>

definition round_to :: "nat \<Rightarrow> nat \<Rightarrow> nat" where
  "round_to u n =
     (if u < 2 * (n mod u) \<or> u = 2 * (n mod u) \<and> odd (n div u)
      then (n div u + 1) * u else (n div u) * u)"

lemma round_f64_round_to: "round_f64 n = round_to (2 ^ f64_shift n) n"
  by (simp add: round_f64_def round_to_def Let_def)

lemma round_to_le: "0 < u \<Longrightarrow> round_to u n \<le> (n div u + 1) * u"
  by (simp add: round_to_def)

lemma round_to_ge: "(n div u) * u \<le> round_to u n"
  by (simp add: round_to_def)

lemma round_to_mono: "0 < u \<Longrightarrow> m \<le> n \<Longrightarrow> round_to u m \<le> round_to u n"
proof -
  assume u: "0 < u" and mn: "m \<le> n"
  show ?thesis
  proof (cases "m div u = n div u")
    case True
    have "m mod u \<le> n mod u"
      using True mn div_mult_mod_eq [of m u] div_mult_mod_eq [of n u] by (metis nat_add_left_cancel_le)
    with True show ?thesis by (auto simp: round_to_def)
  next
    case False
    with div_le_mono [OF mn, of u] have "m div u + 1 \<le> n div u" by linarith
    then have "(m div u + 1) * u \<le> (n div u) * u" by (rule mult_le_mono1)
    then show ?thesis using round_to_le [OF u, of m] round_to_ge [of n u] by linarith
  qed
qed

lemma round_f64_mono: "m \<le> n \<Longrightarrow> round_f64 m \<le> round_f64 n"
proof -
  assume mn: "m \<le> n"
  let ?a = "f64_shift m" and ?b = "f64_shift n"
  show ?thesis
  proof (cases "?a = ?b")
    case True
    with mn show ?thesis by (simp add: round_f64_round_to round_to_mono)
  next
    case False
    with f64_shift_mono [OF mn] have ab: "?a < ?b" by simp
    then have n: "2 ^ 53 \<le> n" using f64_shift_small [of n] by (rule_tac ccontr) simp
    have "m div 2 ^ ?a < 2 ^ 53"
      using f64_shift_upper [of m] by (simp add: power_add less_mult_imp_div_less)
    then have "(m div 2 ^ ?a + 1) * 2 ^ ?a \<le> 2 ^ 53 * 2 ^ ?a"
      by (intro mult_le_mono1) simp
    then have up: "round_f64 m \<le> 2 ^ (53 + ?a)"
      using round_to_le [of "2 ^ ?a" m] unfolding round_f64_round_to power_add
      by (meson order_trans zero_less_numeral zero_less_power)
    have "(2 :: nat) ^ (53 + ?a) \<le> 2 ^ (52 + ?b)"
      using ab by (intro power_increasing) simp_all
    also have "\<dots> = (2 ^ (52 + ?b) div 2 ^ ?b) * 2 ^ ?b"
      by (simp add: power_add)
    also have "\<dots> \<le> (n div 2 ^ ?b) * 2 ^ ?b"
      using f64_shift_lower [OF n] by (intro mult_le_mono1 div_le_mono)
    also have "\<dots> \<le> round_f64 n"
      by (simp add: round_f64_round_to round_to_ge)
    finally show ?thesis using up by linarith
  qed
qed

lemma number_as_f64_exact: "small_number n \<Longrightarrow> number_as_f64 n = number_value n"
  by (cases n) (auto simp: number_as_f64_def number_value_def small_number_def round_f64_exact)

lemma json_get_object [simp]: "json_get (JObject m) k = bt_get m k"
  by (simp add: json_get_def)

end
