(* ===== verification/Orion_Types.thy ===== *)
theory Orion_Types
  imports Orion_Json
begin

text \<open>
  The resource model (\<^verbatim>\<open>crates/orion-types\<close>): metadata, placement constraints, runtimes,
  capabilities and their selectors, the \<open>spec\<close> of every resource kind, observed status,
  and the tagged union \<open>resource_body\<close> with the operations on a resource
  (\<open>kind_str\<close>, \<open>validate\<close>, the default queue subject and stream).

  Field names carry a short prefix of their struct, because a record field is a constant
  of the theory; otherwise structs and enums keep the shape of the source.
\<close>

subsection \<open>Metadata (\<^verbatim>\<open>metadata.rs\<close>)\<close>

type_synonym resource_name = string
type_synonym node_id = string
type_synonym labels = "(string, string) btree_map"

record metadata =
  md_name :: resource_name
  md_namespace :: "string option"
  md_labels :: labels
  md_annotations :: labels
  md_generation :: "u64 option"

subsection \<open>Placement (\<^verbatim>\<open>placement.rs\<close>)\<close>

datatype arch = X86_64 | Arm64

datatype operating_system = Linux | Macos

datatype gpu_vendor = Nvidia | Amd | Apple | Intel

datatype acceleration = Acc_None | Metal | Cuda | Rocm | Coreml

record node_gpu =
  ng_vendor :: gpu_vendor
  ng_vram_gb :: u32
  ng_name :: "string option"

record gpu_requirement =
  gr_vendor :: "gpu_vendor option"
  gr_min_vram_gb :: "u32 option"

record placement_preferences =
  pp_node_labels :: labels
  pp_data_locality :: bool

record placement =
  pl_arch :: "arch list"
  pl_os :: "operating_system list"
  pl_gpu :: "gpu_requirement option"
  pl_acceleration :: "acceleration option"
  pl_node_labels :: labels
  pl_prefer :: placement_preferences

definition prefs_is_empty :: "placement_preferences \<Rightarrow> bool" where
  "prefs_is_empty p \<longleftrightarrow> pp_node_labels p = [] \<and> \<not> pp_data_locality p"

definition default_prefs :: placement_preferences where
  "default_prefs = \<lparr>pp_node_labels = [], pp_data_locality = False\<rparr>"

definition default_placement :: placement where
  "default_placement = \<lparr>pl_arch = [], pl_os = [], pl_gpu = None, pl_acceleration = None,
     pl_node_labels = [], pl_prefer = default_prefs\<rparr>"

subsection \<open>Runtimes (\<^verbatim>\<open>runtime.rs\<close>)\<close>

datatype runtime_kind =
    Kind_Native | Kind_Docker | Kind_Python | Kind_Java | Kind_Node
  | Kind_Spark | Kind_Llm | Kind_HomeAssistant | Kind_Wasm | Kind_Peer

datatype runtime =
    Runtime_Native string "string list" labels
  | Runtime_Docker string "string list" labels "u16 list"
  | Runtime_Python string "string option" "string list"
  | Runtime_Java string "string list"
  | Runtime_Node string "string list"
  | Runtime_Spark string "string list"
  | Runtime_Llm string "string option"
  | Runtime_HomeAssistant string
  | Runtime_Wasm string
  | Runtime_Peer string string

fun runtime_kind_of :: "runtime \<Rightarrow> runtime_kind" where
  "runtime_kind_of (Runtime_Native _ _ _) = Kind_Native"
| "runtime_kind_of (Runtime_Docker _ _ _ _) = Kind_Docker"
| "runtime_kind_of (Runtime_Python _ _ _) = Kind_Python"
| "runtime_kind_of (Runtime_Java _ _) = Kind_Java"
| "runtime_kind_of (Runtime_Node _ _) = Kind_Node"
| "runtime_kind_of (Runtime_Spark _ _) = Kind_Spark"
| "runtime_kind_of (Runtime_Llm _ _) = Kind_Llm"
| "runtime_kind_of (Runtime_HomeAssistant _) = Kind_HomeAssistant"
| "runtime_kind_of (Runtime_Wasm _) = Kind_Wasm"
| "runtime_kind_of (Runtime_Peer _ _) = Kind_Peer"

subsection \<open>Capabilities (\<^verbatim>\<open>capability.rs\<close>)\<close>

record capability =
  cap_name :: string
  cap_attributes :: json

definition capability_new :: "string \<Rightarrow> capability" where
  "capability_new n = \<lparr>cap_name = n, cap_attributes = JNull\<rparr>"

definition capability_with_attributes :: "string \<Rightarrow> json \<Rightarrow> capability" where
  "capability_with_attributes n a = \<lparr>cap_name = n, cap_attributes = a\<rparr>"

record attr_op =
  op_eq :: "json option"
  op_ne :: "json option"
  op_gt :: "json_number option"
  op_gte :: "json_number option"
  op_lt :: "json_number option"
  op_lte :: "json_number option"

datatype attr_match =
    AM_Op attr_op
  | AM_OneOf "json list"
  | AM_Equals json

type_synonym attr_checks = "(string, attr_match) btree_map"
type_synonym capability_selector = "(string, attr_checks) btree_map"

subsection \<open>Specs (\<^verbatim>\<open>specs.rs\<close>)\<close>

datatype node_role = Role_Controller | Role_Worker | Role_Workstation | Role_Edge | Role_Llm | Role_Storage

record node_resources =
  nr_cpu_cores :: u32
  nr_memory_gb :: u32
  nr_disk_gb :: "u32 option"

record node_spec =
  ns_node_id :: node_id
  ns_roles :: "node_role list"
  ns_arch :: "arch option"
  ns_os :: "operating_system option"
  ns_gpus :: "node_gpu list"
  ns_acceleration :: "acceleration option"
  ns_resources :: "node_resources option"
  ns_runtimes :: "string list"
  ns_address :: "string option"
  ns_labels :: labels

datatype port_protocol = Tcp | Udp

record port_spec =
  port_name :: string
  port_port :: u16
  port_protocol :: port_protocol

datatype health_check =
    HC_Http string u16 u32 u32
  | HC_Tcp u16 u32 u32
  | HC_Exec "string list" u32 u32

definition default_health_interval :: u32 where
  "default_health_interval = 10"

definition default_failure_threshold :: u32 where
  "default_failure_threshold = 3"

datatype restart_policy = Always | OnFailure | Never

record service_spec =
  sv_runtime :: "runtime option"
  sv_replicas :: "u32 option"
  sv_placement :: placement
  sv_requires :: capability_selector
  sv_capabilities :: "capability list"
  sv_ports :: "port_spec list"
  sv_health :: "health_check option"
  sv_restart_policy :: restart_policy

record retry_policy =
  rp_max_attempts :: u32
  rp_backoff_seconds :: "u32 option"

record task_spec =
  tk_runtime :: "runtime option"
  tk_placement :: placement
  tk_requires :: capability_selector
  tk_prefer_data_locality :: bool
  tk_timeout_seconds :: "u32 option"
  tk_retry :: "retry_policy option"

record schedule_spec =
  sc_cron :: string
  sc_task :: "resource_name option"
  sc_task_template :: "task_spec option"

datatype dataset_access = Ro | Rw | Wo

record dataset_location =
  dl_node :: node_id
  dl_path :: string
  dl_access :: dataset_access

record dataset_spec =
  ds_locations :: "dataset_location list"
  ds_formats :: "string list"
  ds_capabilities :: "string list"
  ds_size_bytes :: "u64 option"
  ds_description :: "string option"

record model_variant =
  mv_format :: string
  mv_quant :: "string option"
  mv_memory_gb :: "rat option"
  mv_context_window :: "u32 option"
  mv_preferred_runtime :: "string option"

record model_spec =
  mo_model_id :: string
  mo_variants :: "model_variant list"
  mo_served_by :: "node_id list"
  mo_description :: "string option"

record project_build =
  pb_type :: string
  pb_command :: "string option"

record project_service =
  ps_name :: resource_name
  ps_port :: "u16 option"

record project_spec =
  pj_asset_id :: "string option"
  pj_repo_url :: "string option"
  pj_languages :: "string list"
  pj_capabilities :: "string list"
  pj_build :: "project_build option"
  pj_runtimes :: "string list"
  pj_services :: "project_service list"

record secret_spec =
  se_vault_ref :: string

record volume_spec =
  vo_path :: string
  vo_mounted_on :: "node_id list"
  vo_size_gb :: "u32 option"

datatype queue_type = Topic_Queue | Work_Queue

record queue_spec =
  qs_queue_type :: queue_type
  qs_subject :: "string option"
  qs_stream :: "string option"
  qs_max_age_seconds :: "u64 option"
  qs_max_msgs :: "u64 option"
  qs_max_bytes :: "u64 option"
  qs_replicas :: "u32 option"
  qs_description :: "string option"

record workflow_step =
  st_name :: string
  st_task :: resource_name
  st_depends_on :: "string list"

record workflow_spec =
  wf_steps :: "workflow_step list"
  wf_continue_on_error :: bool
  wf_description :: "string option"

record network_spec =
  nw_cidr :: string
  nw_sites :: "string list"

record job_spec =
  jb_task :: resource_name
  jb_node :: node_id
  jb_started_at :: datetime
  jb_finished_at :: "datetime option"
  jb_exit_code :: "i32 option"
  jb_attempt :: u32
  jb_error :: "string option"

record runtime_resource_spec =
  rr_runtime_kind :: string
  rr_base_url :: string
  rr_admin_ui_url :: "string option"
  rr_config :: json

record capability_resource_spec =
  cr_capability :: string
  cr_attribute_schema :: json
  cr_description :: "string option"

record policy_spec =
  po_policy_kind :: string
  po_rules :: json

record integration_spec =
  in_integration_kind :: string
  in_config :: json

definition placement_is_default :: "placement \<Rightarrow> bool" where
  "placement_is_default p \<longleftrightarrow> p = default_placement"

definition selector_is_default :: "capability_selector \<Rightarrow> bool" where
  "selector_is_default s \<longleftrightarrow> s = []"

definition default_service_spec :: service_spec where
  "default_service_spec = \<lparr>sv_runtime = None, sv_replicas = None, sv_placement = default_placement,
     sv_requires = [], sv_capabilities = [], sv_ports = [], sv_health = None,
     sv_restart_policy = Always\<rparr>"

definition default_task_spec :: task_spec where
  "default_task_spec = \<lparr>tk_runtime = None, tk_placement = default_placement, tk_requires = [],
     tk_prefer_data_locality = False, tk_timeout_seconds = None, tk_retry = None\<rparr>"

definition default_queue_spec :: queue_spec where
  "default_queue_spec = \<lparr>qs_queue_type = Work_Queue, qs_subject = None, qs_stream = None,
     qs_max_age_seconds = None, qs_max_msgs = None, qs_max_bytes = None, qs_replicas = None,
     qs_description = None\<rparr>"

subsection \<open>Status (\<^verbatim>\<open>status.rs\<close>)\<close>

datatype phase = Phase_Pending | Phase_Running | Phase_Succeeded | Phase_Failed | Phase_Unknown

datatype condition_status = Cond_True | Cond_False | Cond_Unknown

record condition =
  co_type :: string
  co_status :: condition_status
  co_reason :: "string option"
  co_message :: "string option"
  co_last_transition :: datetime

record status =
  su_phase :: phase
  su_observed_generation :: "u64 option"
  su_conditions :: "condition list"
  su_node :: "node_id option"
  su_message :: "string option"

subsection \<open>Resources (\<^verbatim>\<open>resource.rs\<close>, \<^verbatim>\<open>lib.rs\<close>)\<close>

definition API_VERSION :: string where
  "API_VERSION = ''orionmesh.dev/v1''"

datatype resource_body =
    Body_Node node_spec "status option"
  | Body_Service service_spec "status option"
  | Body_Task task_spec "status option"
  | Body_Job job_spec "status option"
  | Body_Schedule schedule_spec "status option"
  | Body_Dataset dataset_spec "status option"
  | Body_Model model_spec "status option"
  | Body_Project project_spec "status option"
  | Body_Secret secret_spec "status option"
  | Body_Volume volume_spec "status option"
  | Body_Network network_spec "status option"
  | Body_Queue queue_spec "status option"
  | Body_Workflow workflow_spec "status option"
  | Body_Runtime runtime_resource_spec "status option"
  | Body_Capability capability_resource_spec "status option"
  | Body_Policy policy_spec "status option"
  | Body_Integration integration_spec "status option"

record resource =
  rs_api_version :: string
  rs_metadata :: metadata
  rs_body :: resource_body

fun body_kind_str :: "resource_body \<Rightarrow> string" where
  "body_kind_str (Body_Node _ _) = ''Node''"
| "body_kind_str (Body_Service _ _) = ''Service''"
| "body_kind_str (Body_Task _ _) = ''Task''"
| "body_kind_str (Body_Job _ _) = ''Job''"
| "body_kind_str (Body_Schedule _ _) = ''Schedule''"
| "body_kind_str (Body_Dataset _ _) = ''Dataset''"
| "body_kind_str (Body_Model _ _) = ''Model''"
| "body_kind_str (Body_Project _ _) = ''Project''"
| "body_kind_str (Body_Secret _ _) = ''Secret''"
| "body_kind_str (Body_Volume _ _) = ''Volume''"
| "body_kind_str (Body_Network _ _) = ''Network''"
| "body_kind_str (Body_Queue _ _) = ''Queue''"
| "body_kind_str (Body_Workflow _ _) = ''Workflow''"
| "body_kind_str (Body_Runtime _ _) = ''Runtime''"
| "body_kind_str (Body_Capability _ _) = ''Capability''"
| "body_kind_str (Body_Policy _ _) = ''Policy''"
| "body_kind_str (Body_Integration _ _) = ''Integration''"

definition kind_str :: "resource \<Rightarrow> string" where
  "kind_str r = body_kind_str (rs_body r)"

definition resource_name_of :: "resource \<Rightarrow> string" where
  "resource_name_of r = md_name (rs_metadata r)"

datatype resource_error =
    Err_Yaml string
  | Err_Json string
  | Err_ScheduleAmbiguous
  | Err_QueueNameInvalid string

definition queue_name_char :: "char \<Rightarrow> bool" where
  "queue_name_char c \<longleftrightarrow> is_ascii_alphanumeric c \<or> c = CHR ''-'' \<or> c = CHR ''_''"

text \<open>The semantic checks of \<^verbatim>\<open>Resource::validate\<close>, in order: a schedule sets exactly one
  of its two targets, and a queue has a non-empty name over \<open>[a-zA-Z0-9_-]\<close>.\<close>

definition validate_schedule :: "schedule_spec \<Rightarrow> resource_error + unit" where
  "validate_schedule sp =
     (case (sc_task sp, sc_task_template sp) of
        (Some _, None) \<Rightarrow> Inr ()
      | (None, Some _) \<Rightarrow> Inr ()
      | _ \<Rightarrow> Inl Err_ScheduleAmbiguous)"

definition validate_queue_name :: "string \<Rightarrow> resource_error + unit" where
  "validate_queue_name n =
     (if n = [] \<or> \<not> list_all queue_name_char n then Inl (Err_QueueNameInvalid n) else Inr ())"

definition validate :: "resource \<Rightarrow> resource_error + unit" where
  "validate r =
     (case rs_body r of
        Body_Schedule sp _ \<Rightarrow> validate_schedule sp
      | Body_Queue _ _ \<Rightarrow> validate_queue_name (md_name (rs_metadata r))
      | _ \<Rightarrow> Inr ())"

definition default_queue_subject :: "string \<Rightarrow> string" where
  "default_queue_subject n = ''orion.queue.'' @ n"

definition queue_stream_char :: "char \<Rightarrow> char" where
  "queue_stream_char c = (if is_ascii_alphanumeric c then to_ascii_uppercase c else CHR ''_'')"

definition default_queue_stream :: "string \<Rightarrow> string" where
  "default_queue_stream n = ''ORION_QUEUE_'' @ map queue_stream_char n"

end
