(* ===== verification/Bus.thy ===== *)
theory Bus
  imports Orion_Types
begin

text \<open>
  The message bus contract (\<^verbatim>\<open>crates/orion-bus\<close>): the subject namespace (\<^verbatim>\<open>topics.rs\<close>),
  the payload of every message and the envelope around it (\<^verbatim>\<open>messages/\<close>), and the stream
  configuration derived from a queue resource (\<^verbatim>\<open>client.rs\<close>). Signed 64-bit fields are words
  read with \<open>sint\<close>. Connecting to the server and the acknowledgement of a publish are the
  client library's and are not modelled here.
\<close>

subsection \<open>Topics\<close>

datatype topic =
    Topic_Heartbeat | Topic_NodeInventory | Topic_Capabilities | Topic_ServiceRegister
  | Topic_ServiceUnregister | Topic_ServiceHealth | Topic_TaskEvents | Topic_Logs | Topic_Metrics
  | Topic_ControlRun | Topic_ControlStop | Topic_ControlRestart | Topic_ControlDrain

fun topic_as_str :: "topic \<Rightarrow> string" where
  "topic_as_str Topic_Heartbeat = ''orion.heartbeat''"
| "topic_as_str Topic_NodeInventory = ''orion.node.inventory''"
| "topic_as_str Topic_Capabilities = ''orion.capabilities''"
| "topic_as_str Topic_ServiceRegister = ''orion.service.register''"
| "topic_as_str Topic_ServiceUnregister = ''orion.service.unregister''"
| "topic_as_str Topic_ServiceHealth = ''orion.service.health''"
| "topic_as_str Topic_TaskEvents = ''orion.task.events''"
| "topic_as_str Topic_Logs = ''orion.logs.*''"
| "topic_as_str Topic_Metrics = ''orion.metrics.*''"
| "topic_as_str Topic_ControlRun = ''orion.control.*.run''"
| "topic_as_str Topic_ControlStop = ''orion.control.*.stop''"
| "topic_as_str Topic_ControlRestart = ''orion.control.*.restart''"
| "topic_as_str Topic_ControlDrain = ''orion.control.*.drain''"

fun for_node :: "topic \<Rightarrow> string \<Rightarrow> string" where
  "for_node Topic_Logs n = ''orion.logs.'' @ n"
| "for_node Topic_Metrics n = ''orion.metrics.'' @ n"
| "for_node Topic_ControlRun n = ''orion.control.'' @ n @ ''.run''"
| "for_node Topic_ControlStop n = ''orion.control.'' @ n @ ''.stop''"
| "for_node Topic_ControlRestart n = ''orion.control.'' @ n @ ''.restart''"
| "for_node Topic_ControlDrain n = ''orion.control.'' @ n @ ''.drain''"
| "for_node t n = topic_as_str t"

definition control_subjects_for_node :: "string \<Rightarrow> string list" where
  "control_subjects_for_node n =
     [for_node Topic_ControlRun n, for_node Topic_ControlStop n,
      for_node Topic_ControlRestart n, for_node Topic_ControlDrain n]"

definition requires_jetstream :: "topic \<Rightarrow> bool" where
  "requires_jetstream t \<longleftrightarrow>
     t \<in> {Topic_ServiceRegister, Topic_ServiceUnregister, Topic_TaskEvents, Topic_ControlRun,
          Topic_ControlStop, Topic_ControlRestart, Topic_ControlDrain}"

subsection \<open>Messages\<close>

definition PROTOCOL_VERSION :: u32 where
  "PROTOCOL_VERSION = 1"

record 'p envelope =
  en_protocol :: u32
  en_id :: uuid
  en_source :: "node_id option"
  en_at :: datetime
  en_payload :: 'p

text \<open>The fresh identifier and the clock reading are arguments.\<close>

definition envelope_new :: "uuid \<Rightarrow> datetime \<Rightarrow> node_id option \<Rightarrow> 'p \<Rightarrow> 'p envelope" where
  "envelope_new i now source payload =
     \<lparr>en_protocol = PROTOCOL_VERSION, en_id = i, en_source = source, en_at = now, en_payload = payload\<rparr>"

datatype workload_kind = WK_Service | WK_Task

record control_run =
  cr_instance_id :: uuid
  cr_kind :: workload_kind
  cr_name :: resource_name
  cr_runtime :: runtime
  cr_generation :: u64
  cr_replicas :: u32
  cr_health_check :: "health_check option"
  cr_slot_indices :: "u32 list"

record control_stop =
  cs_instance_id :: uuid
  cs_reason :: "string option"
  cs_grace_seconds :: "u32 option"

record control_restart =
  ct_instance_id :: uuid

record control_drain =
  cd_reason :: "string option"

record capabilities_msg =
  ca_node_id :: node_id
  ca_service :: resource_name
  ca_capabilities :: "capability list"

record heartbeat =
  hb_node_id :: node_id
  hb_agent_version :: string
  hb_uptime_seconds :: u64
  hb_cpu_load_1m :: rat
  hb_mem_used_bytes :: u64
  hb_mem_total_bytes :: u64
  hb_labels :: labels

record node_inventory =
  iv_node_id :: node_id
  iv_agent_version :: string
  iv_arch :: arch
  iv_os :: operating_system
  iv_acceleration :: "acceleration option"
  iv_gpus :: "node_gpu list"
  iv_cpu_cores :: u32
  iv_mem_total_bytes :: u64
  iv_disk_gb :: "u32 option"
  iv_runtimes :: "string list"
  iv_roles :: "node_role list"
  iv_labels :: labels
  iv_address :: "string option"

datatype log_stream = Stdout | Stderr

record log_line =
  ll_node_id :: node_id
  ll_service :: resource_name
  ll_instance_id :: "uuid option"
  ll_replica_index :: u32
  ll_stream :: log_stream
  ll_line :: string

record metric_sample =
  ms_name :: string
  ms_value :: rat
  ms_service :: "resource_name option"
  ms_labels :: "(string \<times> string) list"

record metric =
  mt_node_id :: node_id
  mt_samples :: "metric_sample list"

record service_register =
  sr_node_id :: node_id
  sr_service :: resource_name
  sr_instance_id :: string
  sr_runtime :: runtime
  sr_endpoints :: "string list"

record service_unregister =
  su_node_id :: node_id
  su_service :: resource_name
  su_instance_id :: string
  su_reason :: string

datatype health_status = Healthy | Unhealthy | Unknown_Health

record service_health =
  sh_node_id :: node_id
  sh_service :: resource_name
  sh_instance_id :: string
  sh_status :: health_status
  sh_message :: "string option"
  sh_consecutive_failures :: u32

record task_submit =
  ts_task_id :: uuid
  ts_task :: resource_name
  ts_assigned_to :: node_id
  ts_runtime :: runtime
  ts_deadline_seconds :: "u64 option"

datatype task_outcome =
    Accepted
  | Started
  | Progress u8
  | Outcome_Succeeded i32
  | Outcome_Failed i32 string
  | Cancelled string

record task_event =
  te_task_id :: uuid
  te_node_id :: node_id
  te_outcome :: task_outcome

subsection \<open>The stream behind a queue resource\<close>

record stream_config =
  sg_name :: string
  sg_subjects :: "string list"
  sg_max_age :: u64
  sg_max_messages :: i64
  sg_max_bytes :: i64
  sg_num_replicas :: u64

definition queue_stream_config :: "string \<Rightarrow> queue_spec \<Rightarrow> string \<times> stream_config" where
  "queue_stream_config name spec =
     (let subject = unwrap_or (qs_subject spec) (default_queue_subject name);
          stream_name = unwrap_or (qs_stream spec) (default_queue_stream name)
      in (subject,
          \<lparr>sg_name = stream_name, sg_subjects = [subject],
           sg_max_age = unwrap_or (qs_max_age_seconds spec) 0,
           sg_max_messages = unwrap_or (qs_max_msgs spec) (- 1),
           sg_max_bytes = unwrap_or (qs_max_bytes spec) (- 1),
           sg_num_replicas = ucast (max (unwrap_or (qs_replicas spec) 1) 1)\<rparr>))"

subsection \<open>Lemmas\<close>

definition per_node :: "topic \<Rightarrow> bool" where
  "per_node t \<longleftrightarrow> t \<in> {Topic_Logs, Topic_Metrics, Topic_ControlRun, Topic_ControlStop, Topic_ControlRestart, Topic_ControlDrain}"

lemma append_eq_suffix: "n @ u = m @ v \<Longrightarrow> last u \<noteq> last v \<Longrightarrow> u \<noteq> [] \<Longrightarrow> v \<noteq> [] \<Longrightarrow> False"
  by (metis last_appendR)

lemma append_eq_suffix2: "n @ u = m @ v \<Longrightarrow> rev u ! 1 \<noteq> rev v ! 1 \<Longrightarrow> 2 \<le> length u \<Longrightarrow> 2 \<le> length v \<Longrightarrow> False"
  by (metis Suc_1 Suc_le_lessD length_rev nth_append rev_append)

lemma control_suffix_neq [simp]:
  "n @ ''.run'' \<noteq> m @ ''.stop''" "n @ ''.run'' \<noteq> m @ ''.restart''" "n @ ''.run'' \<noteq> m @ ''.drain''"
  "n @ ''.stop'' \<noteq> m @ ''.run''" "n @ ''.stop'' \<noteq> m @ ''.restart''" "n @ ''.stop'' \<noteq> m @ ''.drain''"
  "n @ ''.restart'' \<noteq> m @ ''.run''" "n @ ''.restart'' \<noteq> m @ ''.stop''" "n @ ''.restart'' \<noteq> m @ ''.drain''"
  "n @ ''.drain'' \<noteq> m @ ''.run''" "n @ ''.drain'' \<noteq> m @ ''.stop''" "n @ ''.drain'' \<noteq> m @ ''.restart''"
  using append_eq_suffix [of n _ m] append_eq_suffix2 [of n "''.run''" m "''.drain''"]
    append_eq_suffix2 [of n "''.drain''" m "''.run''"]
  by fastforce+

lemma sint_u64_eq: "sint (w :: u64) = (if uint w < 2 ^ 63 then uint w else uint w - 2 ^ 64)"
proof -
  have lt: "0 \<le> uint w" "uint w < 2 ^ 64" using unsigned_less [of w] by simp_all
  have "sint w = signed_take_bit 63 (uint w)"
    by (simp add: sint_uint)
  also have "\<dots> = take_bit 64 (uint w) - 2 ^ 64 * of_bool (bit (uint w) 63)"
    by (simp add: signed_take_bit_eq_take_bit_minus)
  also have "take_bit 64 (uint w) = uint w"
    using lt by (simp add: take_bit_int_eq_self)
  also have "bit (uint w) 63 \<longleftrightarrow> \<not> uint w < 2 ^ 63"
  proof -
    have "uint w div 2 ^ 63 = (if uint w < 2 ^ 63 then 0 else 1)"
      using lt by (auto simp: div_pos_pos_trivial intro!: int_div_pos_eq [where r = "uint w - 2 ^ 63"])
    then show ?thesis by (simp add: bit_iff_odd)
  qed
  finally show ?thesis by simp
qed

lemma one_le_ucast_max: "1 \<le> (ucast (max r (1 :: u32)) :: u64)"
proof -
  have "1 \<le> max r (1 :: u32)" by simp
  then have "1 \<le> unat (max r 1)" unfolding word_le_nat_alt by simp
  moreover have "take_bit 64 (unat (max r 1)) = unat (max r 1)"
    using unat_lt_u32 [of "max r 1"] by (intro take_bit_nat_eq_self) simp
  ultimately show ?thesis unfolding word_le_nat_alt by (simp add: unsigned_ucast_eq)
qed

subsection \<open>Properties\<close>

text \<open>Further: subjects are unambiguous: two topics never share a subject, and a per-node topic
  has a different subject on every node, whatever characters the node names contain.\<close>

theorem for_node_inject:
  "for_node t n = for_node t' n' \<longleftrightarrow> t = t' \<and> (per_node t \<longrightarrow> n = n')"
  by (cases t; cases t') (simp_all add: per_node_def)

theorem for_node_inject_witness:
  "for_node Topic_ControlRun ''mini'' \<noteq> for_node Topic_ControlRun ''rack'' \<and>
   for_node Topic_Heartbeat ''mini'' = for_node Topic_Heartbeat ''rack''"
  using for_node_inject [of Topic_ControlRun "''mini''" Topic_ControlRun "''rack''"]
    for_node_inject [of Topic_Heartbeat "''mini''" Topic_Heartbeat "''rack''"]
  by (simp add: per_node_def)

text \<open>Further: the limits of a queue reach the stream unchanged when they are below \<open>2 ^ 63\<close>; a
  larger message limit becomes a negative number, and the largest one becomes \<open>-1\<close>, which is
  the value used for no limit. The replica count is at least one.\<close>

theorem queue_stream_limits:
  "(qs_max_msgs spec = Some m \<longrightarrow>
      (sint (sg_max_messages (snd (queue_stream_config name spec))) =
         (if uint m < 2 ^ 63 then uint m else uint m - 2 ^ 64))) \<and>
   (qs_max_msgs spec = Some (- 1) \<longrightarrow>
      snd (queue_stream_config name spec) = snd (queue_stream_config name (spec\<lparr>qs_max_msgs := None\<rparr>))) \<and>
   1 \<le> sg_num_replicas (snd (queue_stream_config name spec))"
  by (simp add: queue_stream_config_def Let_def sint_u64_eq one_le_ucast_max)

theorem queue_stream_limits_witness:
  "sg_max_messages (snd (queue_stream_config ''jobs'' (default_queue_spec\<lparr>qs_max_msgs := Some (- 1)\<rparr>))) = - 1"
proof -
  have "sg_max_messages (snd (queue_stream_config ''jobs'' default_queue_spec)) = - 1"
    by (simp add: queue_stream_config_def default_queue_spec_def Let_def)
  moreover have "default_queue_spec\<lparr>qs_max_msgs := Some (- 1)\<rparr>\<lparr>qs_max_msgs := None\<rparr> = default_queue_spec"
    by (simp add: default_queue_spec_def)
  ultimately show ?thesis
    using queue_stream_limits [of "default_queue_spec\<lparr>qs_max_msgs := Some (- 1)\<rparr>" "- 1" "''jobs''"]
    by simp
qed

text \<open>Further: two queues have different default subjects, but not always different streams:
  stream names agree exactly when the queue names agree after letters are made upper case and
  every other character is made an underscore. For the valid names \<open>a-b\<close> and \<open>a_B\<close> they agree.\<close>

theorem queue_stream_collision:
  "(default_queue_subject a = default_queue_subject b \<longleftrightarrow> a = b) \<and>
   (default_queue_stream a = default_queue_stream b \<longleftrightarrow>
      list_all2 (\<lambda>c d. queue_stream_char c = queue_stream_char d) a b) \<and>
   validate_queue_name ''a-b'' = Inr () \<and> validate_queue_name ''a_B'' = Inr () \<and>
   default_queue_stream ''a-b'' = default_queue_stream ''a_B''"
proof -
  have "map queue_stream_char a = map queue_stream_char b \<longleftrightarrow>
      list_all2 (\<lambda>c d. queue_stream_char c = queue_stream_char d) a b"
    by (auto simp: list_all2_conv_all_nth list_eq_iff_nth_eq)
  moreover have "default_queue_stream ''a-b'' = default_queue_stream ''a_B''"
    by (simp add: default_queue_stream_def queue_stream_char_def is_ascii_alphanumeric_def
        is_ascii_digit_def is_ascii_upper_def is_ascii_lower_def to_ascii_uppercase_def char_of_def bit_0)
  ultimately show ?thesis
    by (simp add: default_queue_subject_def default_queue_stream_def validate_queue_name_def queue_name_char_def
        is_ascii_alphanumeric_def is_ascii_digit_def is_ascii_upper_def is_ascii_lower_def)
qed

end
