(* ===== verification/Scheduler.thy ===== *)
theory Scheduler
  imports Orion_Types
begin

text \<open>
  The placement scheduler (\<^verbatim>\<open>crates/orion-scheduler\<close>): the hard-constraint filter
  \<open>filter_nodes_by_placement\<close>, the soft score \<open>score_node\<close> and \<open>pick_best\<close>, which
  sorts the scored candidates and takes the first. Scores are small integers (bounded by
  \<open>score_bounds\<close>), so the model computes them in \<open>int\<close>.

  \<open>best_candidate\<close> is the specification of the choice: a feasible node that no feasible
  node beats in score, then in load, then in name.
\<close>

record candidate_node =
  cn_node_id :: string
  cn_arch :: arch
  cn_os :: operating_system
  cn_gpus :: "node_gpu list"
  cn_roles :: "node_role list"
  cn_labels :: labels

record node_load =
  running_instances :: u32

definition default_load :: node_load where
  "default_load = \<lparr>running_instances = 0\<rparr>"

definition gpu_matches :: "node_gpu list \<Rightarrow> gpu_requirement \<Rightarrow> bool" where
  "gpu_matches have need =
     list_ex (\<lambda>g.
       if (case gr_vendor need of None \<Rightarrow> False | Some v \<Rightarrow> ng_vendor g \<noteq> v) then False
       else if (case gr_min_vram_gb need of None \<Rightarrow> False | Some m \<Rightarrow> ng_vram_gb g < m) then False
       else True) have"

definition node_passes :: "placement \<Rightarrow> candidate_node \<Rightarrow> bool" where
  "node_passes p n =
     (if pl_arch p \<noteq> [] \<and> cn_arch n \<notin> set (pl_arch p) then False
      else if pl_os p \<noteq> [] \<and> cn_os n \<notin> set (pl_os p) then False
      else if (case pl_gpu p of None \<Rightarrow> False | Some req \<Rightarrow> \<not> gpu_matches (cn_gpus n) req) then False
      else list_all (\<lambda>(k, v). bt_get (cn_labels n) k = Some v) (pl_node_labels p))"

definition filter_nodes_by_placement :: "candidate_node list \<Rightarrow> placement \<Rightarrow> candidate_node list" where
  "filter_nodes_by_placement nodes p = filter (node_passes p) nodes"

definition score_node :: "candidate_node \<Rightarrow> placement \<Rightarrow> node_load \<Rightarrow> int" where
  "score_node n p load =
     fold (\<lambda>(k, v) score. if bt_get (cn_labels n) k = Some v then score + 100 else score)
       (pp_node_labels (pl_prefer p)) 0
     - int (unat (running_instances load))"

text \<open>The tuple the source sorts, and the order of its comparator: higher score first, then
  fewer running instances, then the smaller node id.\<close>

type_synonym scored = "int \<times> u32 \<times> string"

definition score_entry :: "placement \<Rightarrow> (string \<Rightarrow> node_load) \<Rightarrow> candidate_node \<Rightarrow> scored" where
  "score_entry p load_of n =
     (let load = load_of (cn_node_id n)
      in (score_node n p load, running_instances load, cn_node_id n))"

definition scored_key :: "scored \<Rightarrow> int \<times> u32 \<times> string" where
  "scored_key e = (case e of (s, r, i) \<Rightarrow> (- s, r, i))"

definition pick_best :: "candidate_node list \<Rightarrow> placement \<Rightarrow> (string \<Rightarrow> node_load) \<Rightarrow> string option" where
  "pick_best candidates p load_of =
     (let filtered = filter_nodes_by_placement candidates p;
          scored = sort_key scored_key (map (score_entry p load_of) filtered)
      in case scored of [] \<Rightarrow> None | (_, _, i) # _ \<Rightarrow> Some i)"

definition best_candidate ::
  "candidate_node list \<Rightarrow> placement \<Rightarrow> (string \<Rightarrow> node_load) \<Rightarrow> candidate_node \<Rightarrow> bool" where
  "best_candidate candidates p load_of n \<longleftrightarrow>
     n \<in> set candidates \<and> node_passes p n \<and>
     (\<forall>m \<in> set candidates. node_passes p m \<longrightarrow>
        scored_key (score_entry p load_of n) \<le> scored_key (score_entry p load_of m))"

subsection \<open>Lemmas\<close>

definition label_matches :: "candidate_node \<Rightarrow> placement \<Rightarrow> nat" where
  "label_matches n p =
     length (filter (\<lambda>(k, v). bt_get (cn_labels n) k = Some v) (pp_node_labels (pl_prefer p)))"

lemma score_node_eq:
  "score_node n p load = 100 * int (label_matches n p) - int (unat (running_instances load))"
proof -
  have "fold (\<lambda>(k, v) score. if bt_get (cn_labels n) k = Some v then score + 100 else score) kvs s
      = s + 100 * int (length (filter (\<lambda>(k, v). bt_get (cn_labels n) k = Some v) kvs))" for kvs s
    by (induction kvs arbitrary: s) auto
  then show ?thesis by (simp add: score_node_def label_matches_def)
qed

text \<open>The score fits the \<^verbatim>\<open>i64\<close> of the source for every placement that fits in memory.\<close>

lemma score_bounds:
  assumes "length (pp_node_labels (pl_prefer p)) < 2 ^ 56"
  shows "- (2 ^ 63) \<le> score_node n p load \<and> score_node n p load < 2 ^ 63"
proof -
  have "label_matches n p \<le> length (pp_node_labels (pl_prefer p))"
    by (simp add: label_matches_def)
  moreover have "int (unat (running_instances load)) < 2 ^ 32"
    using unat_lt_u32 [of "running_instances load"] by (metis of_nat_less_iff of_nat_numeral of_nat_power)
  ultimately have "int (label_matches n p) < 2 ^ 56" "int (unat (running_instances load)) < 2 ^ 32"
    using assms by auto
  moreover have "0 \<le> int (label_matches n p)" "0 \<le> int (unat (running_instances load))" by auto
  moreover have "- (2 ^ 63) \<le> 100 * a - b \<and> 100 * a - b < 2 ^ 63"
    if "a < 2 ^ 56" "b < 2 ^ 32" "0 \<le> a" "0 \<le> b" for a b :: int
    using that by simp
  ultimately show ?thesis unfolding score_node_eq by blast
qed

lemma scored_key_le:
  "scored_key (s, r, i) \<le> scored_key (s', r', i') \<longleftrightarrow>
     s > s' \<or> s = s' \<and> (r < r' \<or> r = r' \<and> i \<le> i')"
  by (auto simp: scored_key_def less_eq_prod_def less_prod_def)

lemma scored_key_inj: "scored_key x = scored_key y \<longleftrightarrow> x = y"
  by (auto simp: scored_key_def split: prod.splits)

lemma hd_sort_key_le:
  assumes "sort_key f xs = y # ys"
  shows "y \<in> set xs \<and> (\<forall>x \<in> set xs. f y \<le> f x)"
proof -
  have "y \<in> set xs"
    using assms by (metis list.set_intros(1) set_sort)
  moreover have "sorted (map f (y # ys))"
    using sorted_sort_key [of f xs] assms by simp
  then have "\<forall>x \<in> set (y # ys). f y \<le> f x" by auto
  ultimately show ?thesis
    using assms by (metis set_sort)
qed

lemma pick_best_cases:
  "(pick_best cs p load_of = None \<and> filter (node_passes p) cs = []) \<or>
   (\<exists>n. best_candidate cs p load_of n \<and> pick_best cs p load_of = Some (cn_node_id n))"
proof (cases "sort_key scored_key (map (score_entry p load_of) (filter (node_passes p) cs))")
  case Nil
  then have "filter (node_passes p) cs = []"
    by (metis length_0_conv length_map length_sort)
  with Nil show ?thesis by (simp add: pick_best_def filter_nodes_by_placement_def)
next
  case (Cons y ys)
  from hd_sort_key_le [OF this] obtain n where
    n: "n \<in> set cs" "node_passes p n" "y = score_entry p load_of n" and
    le: "\<forall>m \<in> set cs. node_passes p m \<longrightarrow> scored_key y \<le> scored_key (score_entry p load_of m)"
    by auto
  then have "best_candidate cs p load_of n" by (simp add: best_candidate_def)
  with Cons n(3) show ?thesis
    by (auto simp: pick_best_def filter_nodes_by_placement_def score_entry_def Let_def)
qed

lemma best_candidate_unique_id:
  assumes "best_candidate cs p load_of m" and "best_candidate cs p load_of n"
  shows "cn_node_id m = cn_node_id n"
proof -
  have "scored_key (score_entry p load_of m) = scored_key (score_entry p load_of n)"
    using assms by (auto simp: best_candidate_def intro: antisym)
  then show ?thesis by (simp add: scored_key_inj score_entry_def Let_def)
qed

lemma gpu_matches_iff:
  "gpu_matches have need \<longleftrightarrow>
     (\<exists>g \<in> set have. (\<forall>v. gr_vendor need = Some v \<longrightarrow> ng_vendor g = v) \<and>
        (\<forall>m. gr_min_vram_gb need = Some m \<longrightarrow> m \<le> ng_vram_gb g))"
  by (auto simp: gpu_matches_def list_ex_iff not_less split: option.splits)

lemma node_passes_iff:
  "node_passes p n \<longleftrightarrow>
     (pl_arch p = [] \<or> cn_arch n \<in> set (pl_arch p)) \<and>
     (pl_os p = [] \<or> cn_os n \<in> set (pl_os p)) \<and>
     (\<forall>req. pl_gpu p = Some req \<longrightarrow> gpu_matches (cn_gpus n) req) \<and>
     (\<forall>(k, v) \<in> set (pl_node_labels p). bt_get (cn_labels n) k = Some v)"
  by (auto simp: node_passes_def list_all_iff split: option.splits)

subsection \<open>Properties\<close>


text \<open>C29: the choice does not depend on the order in which the candidates are listed.\<close>

theorem pick_best_permutation:
  assumes "set cs = set ds"
  shows "pick_best cs p load_of = pick_best ds p load_of"
proof -
  have "best_candidate cs p load_of = best_candidate ds p load_of"
    using assms by (simp add: best_candidate_def fun_eq_iff)
  then have "pick_best cs p load_of = Some i \<longleftrightarrow> pick_best ds p load_of = Some i" for i
    using pick_best_cases [of cs p load_of] pick_best_cases [of ds p load_of]
      best_candidate_unique_id [of cs p load_of] by (metis option.sel option.distinct(1)
        best_candidate_def filter_empty_conv)
  then show ?thesis by (metis option.exhaust)
qed

theorem pick_best_permutation_witness:
  "pick_best [\<lparr>cn_node_id = ''a'', cn_arch = Arm64, cn_os = Linux, cn_gpus = [], cn_roles = [], cn_labels = []\<rparr>,
      \<lparr>cn_node_id = ''b'', cn_arch = Arm64, cn_os = Linux, cn_gpus = [], cn_roles = [], cn_labels = []\<rparr>]
     default_placement (\<lambda>_. default_load) =
   pick_best [\<lparr>cn_node_id = ''b'', cn_arch = Arm64, cn_os = Linux, cn_gpus = [], cn_roles = [], cn_labels = []\<rparr>,
      \<lparr>cn_node_id = ''a'', cn_arch = Arm64, cn_os = Linux, cn_gpus = [], cn_roles = [], cn_labels = []\<rparr>]
     default_placement (\<lambda>_. default_load)"
  by (rule pick_best_permutation) auto

text \<open>Further: a preferred label outweighs load only below one hundred running instances: a
  feasible node with one more matching preferred label wins when it runs fewer than a hundred
  instances more than its rival, and loses when it runs more than a hundred more.\<close>

theorem score_label_versus_load:
  assumes "label_matches n p = label_matches m p + 1"
  shows "(score_node n p la > score_node m p lb \<longleftrightarrow>
            unat (running_instances la) < unat (running_instances lb) + 100) \<and>
         (score_node n p la < score_node m p lb \<longleftrightarrow>
            unat (running_instances la) > unat (running_instances lb) + 100)"
  using assms by (simp add: score_node_eq of_nat_less_iff [where 'a = int, symmetric]
      del: of_nat_less_iff uint_nat) linarith

theorem score_label_versus_load_witness:
  "\<exists>n m p. score_node n p \<lparr>running_instances = 101\<rparr> < score_node m p \<lparr>running_instances = 0\<rparr>
     \<and> label_matches n p = label_matches m p + 1"
proof -
  let ?n = "\<lparr>cn_node_id = ''a'', cn_arch = Arm64, cn_os = Linux, cn_gpus = [], cn_roles = [],
     cn_labels = [(''site'', ''x'')]\<rparr>"
  let ?m = "?n\<lparr>cn_labels := []\<rparr>"
  let ?p = "default_placement\<lparr>pl_prefer := \<lparr>pp_node_labels = [(''site'', ''x'')], pp_data_locality = False\<rparr>\<rparr>"
  have lm: "label_matches ?n ?p = label_matches ?m ?p + 1"
    by (simp add: label_matches_def bt_get_def)
  have "unat (running_instances \<lparr>running_instances = 101\<rparr>) >
      unat (running_instances \<lparr>running_instances = 0\<rparr>) + 100" by simp
  with score_label_versus_load [OF lm]
  have "score_node ?n ?p \<lparr>running_instances = 101\<rparr> < score_node ?m ?p \<lparr>running_instances = 0\<rparr>"
    by blast
  with lm show ?thesis by blast
qed

end
