(* ===== verification/Reconciler.thy ===== *)
theory Reconciler
  imports Orion_Types
begin

text \<open>
  The reconciler's decision function (\<^verbatim>\<open>decide_reconcile\<close> of
  \<^verbatim>\<open>orion-controller/src/decisions.rs\<close>). The hash sets of slot indices are duplicate-free
  lists in insertion order; the source sorts what it takes out of them, so no result depends on
  that order. Counts are cut to 32 bits where the source casts them.

  \<open>reconcile_plan\<close> is the specification, over finite sets and without casts;
  \<open>carry_out\<close> is the ideal effect of an action on the observed instances, used to state
  that one action settles a service.
\<close>

subsection \<open>The decision\<close>

record instance_observation =
  io_instance_id :: uuid
  io_replica_index :: u32
  io_exited :: bool
  io_exit_code :: "i32 option"
  io_unhealthy :: bool

datatype reconcile_action =
    NoOp
  | RedispatchAll u32 "uuid list"
  | DispatchPartial "u32 list" "uuid list"

record slot_sets =
  alive_slots :: "u32 list"
  terminal_slots :: "u32 list"
  restart_slots :: "u32 list"
  want_restart_ids :: "uuid list"

definition io_live :: "instance_observation \<Rightarrow> bool" where
  "io_live i \<longleftrightarrow> \<not> io_exited i \<and> \<not> io_unhealthy i"

definition effective_code :: "instance_observation \<Rightarrow> i32" where
  "effective_code i = (if io_exited i then unwrap_or (io_exit_code i) 0 else 1)"

definition restart_wanted :: "service_spec \<Rightarrow> instance_observation \<Rightarrow> bool" where
  "restart_wanted spec i =
     (case sv_restart_policy spec of
        Always \<Rightarrow> True
      | OnFailure \<Rightarrow> effective_code i \<noteq> 0
      | Never \<Rightarrow> False)"

definition observe_instance :: "service_spec \<Rightarrow> instance_observation \<Rightarrow> slot_sets \<Rightarrow> slot_sets" where
  "observe_instance spec i acc =
     (if io_live i then acc\<lparr>alive_slots := List.insert (io_replica_index i) (alive_slots acc)\<rparr>
      else if restart_wanted spec i then
        acc\<lparr>want_restart_ids := want_restart_ids acc @ [io_instance_id i],
            restart_slots := List.insert (io_replica_index i) (restart_slots acc)\<rparr>
      else acc\<lparr>terminal_slots := List.insert (io_replica_index i) (terminal_slots acc)\<rparr>)"

definition observe_all :: "service_spec \<Rightarrow> instance_observation list \<Rightarrow> slot_sets" where
  "observe_all spec obs =
     fold (observe_instance spec) obs
       \<lparr>alive_slots = [], terminal_slots = [], restart_slots = [], want_restart_ids = []\<rparr>"

definition desired_replicas :: "service_spec \<Rightarrow> u32" where
  "desired_replicas spec = max (unwrap_or (sv_replicas spec) 1) 1"

definition decide_reconcile :: "service_spec \<Rightarrow> instance_observation list \<Rightarrow> reconcile_action" where
  "decide_reconcile spec instances =
     (let desired = desired_replicas spec;
          acc = observe_all spec instances;
          alive = (of_nat (length (alive_slots acc)) :: u32);
          terminal = (of_nat (length (terminal_slots acc)) :: u32);
          want_restart = (of_nat (length (restart_slots acc)) :: u32);
          missing_slots = sort (filter (\<lambda>i. i \<notin> set (alive_slots acc) \<and> i \<notin> set (terminal_slots acc)
                                          \<and> i \<notin> set (restart_slots acc)) (range_u32 desired));
          to_launch = of_nat (length missing_slots) + want_restart
      in if to_launch = 0 then NoOp
         else if alive = 0 \<and> terminal < desired then RedispatchAll desired (want_restart_ids acc)
         else DispatchPartial (sort (missing_slots @ sort (restart_slots acc))) (want_restart_ids acc))"

subsection \<open>The specification\<close>

definition restarting :: "service_spec \<Rightarrow> instance_observation list \<Rightarrow> instance_observation list" where
  "restarting spec obs = filter (\<lambda>i. \<not> io_live i \<and> restart_wanted spec i) obs"

definition slots_where :: "(instance_observation \<Rightarrow> bool) \<Rightarrow> instance_observation list \<Rightarrow> u32 set" where
  "slots_where P obs = io_replica_index ` {i \<in> set obs. P i}"

definition slots_to_launch :: "service_spec \<Rightarrow> instance_observation list \<Rightarrow> u32 set" where
  "slots_to_launch spec obs =
     {s. s < desired_replicas spec \<and> s \<notin> io_replica_index ` set obs}
     \<union> io_replica_index ` set (restarting spec obs)"

definition reconcile_plan :: "service_spec \<Rightarrow> instance_observation list \<Rightarrow> reconcile_action" where
  "reconcile_plan spec obs =
     (let purge = map io_instance_id (restarting spec obs);
          terminal = slots_where (\<lambda>i. \<not> io_live i \<and> \<not> restart_wanted spec i) obs
      in if slots_to_launch spec obs = {} then NoOp
         else if (\<forall>i \<in> set obs. \<not> io_live i) \<and> card terminal < unat (desired_replicas spec)
         then RedispatchAll (desired_replicas spec) purge
         else DispatchPartial (sorted_list_of_set (slots_to_launch spec obs)) purge)"

text \<open>A fresh, live instance in a slot, and the instances observed after an action took effect.\<close>

definition launched :: "(u32 \<Rightarrow> uuid) \<Rightarrow> u32 \<Rightarrow> instance_observation" where
  "launched ids s = \<lparr>io_instance_id = ids s, io_replica_index = s, io_exited = False,
     io_exit_code = None, io_unhealthy = False\<rparr>"

fun carry_out ::
  "(u32 \<Rightarrow> uuid) \<Rightarrow> reconcile_action \<Rightarrow> instance_observation list \<Rightarrow> instance_observation list" where
  "carry_out ids NoOp obs = obs"
| "carry_out ids (RedispatchAll n purge) obs =
     filter (\<lambda>i. io_instance_id i \<notin> set purge) obs @ map (launched ids) (range_u32 n)"
| "carry_out ids (DispatchPartial slots purge) obs =
     filter (\<lambda>i. io_instance_id i \<notin> set purge) obs @ map (launched ids) slots"

subsection \<open>Lemmas\<close>

lemma length_insert_le: "length (List.insert x xs) \<le> Suc (length xs)"
  by (simp add: List.insert_def)

lemma observe_all_snoc:
  "observe_all spec (obs @ [i]) = observe_instance spec i (observe_all spec obs)"
  by (simp add: observe_all_def)

lemma observe_all_Nil:
  "observe_all spec [] = \<lparr>alive_slots = [], terminal_slots = [], restart_slots = [], want_restart_ids = []\<rparr>"
  by (simp add: observe_all_def)

lemmas observe_simps = observe_all_snoc observe_all_Nil observe_instance_def slots_where_def restarting_def

lemma observe_alive: "set (alive_slots (observe_all spec obs)) = slots_where io_live obs"
  by (induction obs rule: rev_induct) (auto simp: observe_simps)

lemma observe_terminal:
  "set (terminal_slots (observe_all spec obs)) = slots_where (\<lambda>i. \<not> io_live i \<and> \<not> restart_wanted spec i) obs"
  by (induction obs rule: rev_induct) (auto simp: observe_simps)

lemma observe_restart:
  "set (restart_slots (observe_all spec obs)) = io_replica_index ` set (restarting spec obs)"
  by (induction obs rule: rev_induct) (auto simp: observe_simps)

lemma observe_ids: "want_restart_ids (observe_all spec obs) = map io_instance_id (restarting spec obs)"
  by (induction obs rule: rev_induct) (auto simp: observe_simps)

lemma observe_distinct:
  "distinct (alive_slots (observe_all spec obs)) \<and> distinct (terminal_slots (observe_all spec obs)) \<and>
   distinct (restart_slots (observe_all spec obs))"
  by (induction obs rule: rev_induct) (auto simp: observe_simps)

lemma observe_lengths:
  "length (alive_slots (observe_all spec obs)) \<le> length obs \<and>
   length (terminal_slots (observe_all spec obs)) \<le> length obs \<and>
   length (restart_slots (observe_all spec obs)) \<le> length obs"
  by (induction obs rule: rev_induct)
    (auto simp: observe_simps intro: order_trans [OF length_insert_le])

lemmas observe_facts = observe_alive observe_terminal observe_restart observe_ids

lemma sort_append_distinct:
  assumes "distinct xs" and "distinct ys" and "set xs \<inter> set ys = {}"
  shows "sort (xs @ ys) = sorted_list_of_set (set xs \<union> set ys)"
  using assms sorted_list_of_set_sort_remdups [of "xs @ ys"] by (simp add: distinct_remdups_id)

lemma of_nat_u32_eq_0: "k < 2 ^ 32 \<Longrightarrow> (of_nat k :: u32) = 0 \<longleftrightarrow> k = 0"
  by (auto simp: word_of_nat_eq_0_iff dest: dvd_imp_le)

lemma slots_accounted:
  "slots_where io_live obs \<union> slots_where (\<lambda>i. \<not> io_live i \<and> \<not> restart_wanted spec i) obs
     \<union> io_replica_index ` set (restarting spec obs) = io_replica_index ` set obs"
  by (auto simp: slots_where_def restarting_def image_iff)

lemma finite_slots_to_launch [simp]: "finite (slots_to_launch spec obs)"
  by (rule finite_subset [OF subset_UNIV]) (rule finite)

lemma desired_positive [simp]: "desired_replicas spec \<noteq> 0"
  by (auto simp: desired_replicas_def max_def split: if_splits)

lemma sort_range_u32_filter: "sort (filter P (range_u32 n)) = filter P (range_u32 n)"
proof -
  have "sorted (filter P (range_u32 n))"
    using sorted_wrt_range_u32 [of n] by (intro sorted_wrt_filter) (simp add: strict_sorted_iff)
  then show ?thesis by (rule sorted_sort_id)
qed

lemma no_launch_occupied:
  "slots_to_launch spec obs = {} \<longleftrightarrow>
     restarting spec obs = [] \<and> (\<forall>s < desired_replicas spec. s \<in> io_replica_index ` set obs)"
  by (auto simp: slots_to_launch_def)

lemma decide_reconcile_plan:
  assumes "length obs + unat (desired_replicas spec) < 2 ^ 32"
  shows "decide_reconcile spec obs = reconcile_plan spec obs"
proof -
  let ?a = "observe_all spec obs" and ?d = "desired_replicas spec"
  define missing where "missing = filter (\<lambda>i. i \<notin> set (alive_slots ?a) \<and> i \<notin> set (terminal_slots ?a)
      \<and> i \<notin> set (restart_slots ?a)) (range_u32 ?d)"
  have missing_set: "set missing = {s. s < ?d \<and> s \<notin> io_replica_index ` set obs}"
    using slots_accounted [of obs spec] by (auto simp: missing_def observe_facts set_range_u32)
  have launch: "set missing \<union> set (restart_slots ?a) = slots_to_launch spec obs"
    by (simp add: missing_set slots_to_launch_def observe_restart)
  have len: "length missing \<le> unat ?d" "length (restart_slots ?a) \<le> length obs"
      "length (alive_slots ?a) \<le> length obs" "length (terminal_slots ?a) \<le> length obs"
    using observe_lengths [of spec obs] length_filter_le [of _ "range_u32 ?d"] by (auto simp: missing_def)
  have small: "length missing + length (restart_slots ?a) < 2 ^ 32" "length (alive_slots ?a) < 2 ^ 32"
      "length (terminal_slots ?a) < 2 ^ 32"
    using assms len by linarith+
  have none: "(of_nat (length missing) + of_nat (length (restart_slots ?a)) :: u32) = 0
      \<longleftrightarrow> slots_to_launch spec obs = {}"
    using of_nat_u32_eq_0 [OF small(1)] launch by auto
  have alive: "(of_nat (length (alive_slots ?a)) :: u32) = 0 \<longleftrightarrow> (\<forall>i \<in> set obs. \<not> io_live i)"
    unfolding of_nat_u32_eq_0 [OF small(2)] length_0_conv set_empty [symmetric] observe_alive
    by (auto simp: slots_where_def)
  have terminal: "(of_nat (length (terminal_slots ?a)) :: u32) < ?d \<longleftrightarrow>
      card (slots_where (\<lambda>i. \<not> io_live i \<and> \<not> restart_wanted spec i) obs) < unat ?d"
    using distinct_card [of "terminal_slots ?a"] observe_distinct [of spec obs]
    by (simp add: word_less_nat_alt unat_of_nat_u32 [OF small(3)] observe_terminal)
  have "distinct missing" by (simp add: missing_def)
  moreover have "set missing \<inter> set (restart_slots ?a) = {}" by (auto simp: missing_def)
  ultimately have slots: "sort (missing @ sort (restart_slots ?a)) = sorted_list_of_set (slots_to_launch spec obs)"
    using observe_distinct [of spec obs] by (subst sort_append_distinct) (simp_all add: launch)
  show ?thesis
    unfolding decide_reconcile_def reconcile_plan_def Let_def sort_range_u32_filter
      missing_def [symmetric] none alive terminal slots observe_ids ..
qed

lemma reconcile_plan_NoOp: "reconcile_plan spec obs = NoOp \<longleftrightarrow> slots_to_launch spec obs = {}"
  by (simp add: reconcile_plan_def Let_def)

lemma reconcile_plan_PartialD:
  "reconcile_plan spec obs = DispatchPartial slots purge \<Longrightarrow>
     set slots = slots_to_launch spec obs \<and> purge = map io_instance_id (restarting spec obs)"
  by (auto simp: reconcile_plan_def Let_def split: if_splits)

lemma reconcile_plan_AllD:
  "reconcile_plan spec obs = RedispatchAll n purge \<Longrightarrow>
     n = desired_replicas spec \<and> purge = map io_instance_id (restarting spec obs) \<and> (\<forall>i \<in> set obs. \<not> io_live i)"
  by (auto simp: reconcile_plan_def Let_def split: if_splits)

lemma io_live_launched [simp]: "io_live (launched ids s)" "io_replica_index (launched ids s) = s"
  by (simp_all add: launched_def io_live_def)

lemma restarting_launched [simp]: "restarting spec (xs @ map (launched ids) ss) = restarting spec xs"
  by (auto simp: restarting_def filter_empty_conv)

lemma restarting_purged:
  "restarting spec (filter (\<lambda>i. io_instance_id i \<notin> io_instance_id ` set (restarting spec obs)) obs) = []"
  by (auto simp: restarting_def filter_empty_conv)

lemma card_slots_to_launch:
  "card (slots_to_launch spec obs) \<le> unat (desired_replicas spec) + length obs"
proof -
  let ?miss = "{s. s < desired_replicas spec \<and> s \<notin> io_replica_index ` set obs}"
  have "card ?miss \<le> card (set (range_u32 (desired_replicas spec)))"
    by (rule card_mono) (auto simp: set_range_u32)
  also have "\<dots> \<le> unat (desired_replicas spec)"
    using card_length [of "range_u32 (desired_replicas spec)"] by simp
  finally have m: "card ?miss \<le> unat (desired_replicas spec)" .
  have "card (io_replica_index ` set (restarting spec obs)) \<le> length (restarting spec obs)"
    by (metis card_length length_map set_map)
  also have "\<dots> \<le> length obs" by (simp add: restarting_def)
  finally show ?thesis
    using m card_Un_le [of ?miss "io_replica_index ` set (restarting spec obs)"]
    unfolding slots_to_launch_def by linarith
qed

text \<open>After a plan is carried out nothing is left to launch.\<close>

lemma launch_after_partial:
  assumes "distinct (map io_instance_id obs)" and "set slots = slots_to_launch spec obs"
    and "purge = map io_instance_id (restarting spec obs)"
  shows "slots_to_launch spec (carry_out ids (DispatchPartial slots purge) obs) = {}"
proof -
  have "s \<in> io_replica_index ` set (carry_out ids (DispatchPartial slots purge) obs)"
    if "s < desired_replicas spec" for s
  proof (cases "s \<in> slots_to_launch spec obs")
    case True
    with assms(2) have "launched ids s \<in> set (carry_out ids (DispatchPartial slots purge) obs)" by auto
    then show ?thesis by (metis image_eqI io_live_launched(2))
  next
    case False
    with that obtain i where i: "i \<in> set obs" "io_replica_index i = s" "i \<notin> set (restarting spec obs)"
      by (auto simp: slots_to_launch_def)
    have "io_instance_id i \<notin> io_instance_id ` set (restarting spec obs)"
      using assms(1) i(1,3) by (auto simp: distinct_map restarting_def dest: inj_onD)
    with i(1) assms(3) have "i \<in> set (carry_out ids (DispatchPartial slots purge) obs)" by simp
    with i(2) show ?thesis by blast
  qed
  then show ?thesis
    unfolding no_launch_occupied using assms(3) by (simp add: restarting_purged)
qed

lemma launch_after_all:
  assumes "purge = map io_instance_id (restarting spec obs)"
  shows "slots_to_launch spec (carry_out ids (RedispatchAll (desired_replicas spec) purge) obs) = {}"
  unfolding no_launch_occupied using assms
  by (auto simp: restarting_purged set_range_u32 image_Un image_image)

lemma length_carry_out:
  "length (carry_out ids (reconcile_plan spec obs) obs) \<le> 2 * length obs + unat (desired_replicas spec)"
proof (cases "reconcile_plan spec obs")
  case (RedispatchAll n purge)
  then show ?thesis
    using reconcile_plan_AllD [OF RedispatchAll] by (simp add: order_trans [OF length_filter_le])
next
  case (DispatchPartial slots purge)
  then have "slots = sorted_list_of_set (slots_to_launch spec obs)"
    by (auto simp: reconcile_plan_def Let_def split: if_splits)
  then have "length slots \<le> unat (desired_replicas spec) + length obs"
    using card_slots_to_launch [of spec obs] by simp
  from add_mono [OF length_filter_le [of "\<lambda>i. io_instance_id i \<notin> set purge" obs] this]
  show ?thesis using DispatchPartial by simp
qed simp

subsection \<open>Properties\<close>

text \<open>C4: \<open>decide_reconcile\<close> computes the specified plan as long as the number of observed
  instances and desired replicas together stays below \<open>2 ^ 32\<close>, where the casts to 32 bits lose
  nothing: nothing is done exactly when every desired slot is occupied and no instance wants a
  restart; the slots of a partial dispatch are the unoccupied ones and those wanting a restart,
  ascending and without repetition; exactly the instances wanting a restart are purged.\<close>

theorem decide_reconcile_refines:
  assumes "length obs + unat (desired_replicas spec) < 2 ^ 32"
  shows "decide_reconcile spec obs = reconcile_plan spec obs"
  using assms by (rule decide_reconcile_plan)

theorem decide_reconcile_refines_witness:
  "decide_reconcile (default_service_spec\<lparr>sv_replicas := Some 2\<rparr>)
     [\<lparr>io_instance_id = 7, io_replica_index = 0, io_exited = False, io_exit_code = None, io_unhealthy = False\<rparr>]
   = reconcile_plan (default_service_spec\<lparr>sv_replicas := Some 2\<rparr>)
     [\<lparr>io_instance_id = 7, io_replica_index = 0, io_exited = False, io_exit_code = None, io_unhealthy = False\<rparr>]"
  by (rule decide_reconcile_refines) (simp add: desired_replicas_def default_service_spec_def)

text \<open>C17: one round settles a service: when the action decided on is carried out (the purged
  instances gone, a live instance in every slot launched), the next decision is to do nothing.\<close>

theorem reconcile_settles:
  assumes "distinct (map io_instance_id obs)"
    and "2 * length obs + 2 * unat (desired_replicas spec) < 2 ^ 32"
  shows "decide_reconcile spec (carry_out ids (decide_reconcile spec obs) obs) = NoOp"
proof -
  have dec: "decide_reconcile spec obs = reconcile_plan spec obs"
    using assms(2) by (intro decide_reconcile_plan) simp
  have "slots_to_launch spec (carry_out ids (reconcile_plan spec obs) obs) = {}"
  proof (cases "reconcile_plan spec obs")
    case NoOp
    then show ?thesis using reconcile_plan_NoOp [of spec obs] by simp
  next
    case (RedispatchAll n purge)
    from reconcile_plan_AllD [OF this] launch_after_all [OF refl] show ?thesis
      unfolding RedispatchAll by blast
  next
    case (DispatchPartial slots purge)
    from reconcile_plan_PartialD [OF this] launch_after_partial [OF assms(1)] show ?thesis
      unfolding DispatchPartial by blast
  qed
  moreover have "length (carry_out ids (reconcile_plan spec obs) obs) + unat (desired_replicas spec) < 2 ^ 32"
    using length_carry_out [of ids spec obs] assms(2) by linarith
  ultimately show ?thesis
    unfolding dec by (simp add: decide_reconcile_plan reconcile_plan_NoOp)
qed

theorem reconcile_settles_witness:
  "decide_reconcile (default_service_spec\<lparr>sv_replicas := Some 2\<rparr>)
     (carry_out (\<lambda>s. 100 + ucast s)
       (decide_reconcile (default_service_spec\<lparr>sv_replicas := Some 2\<rparr>)
         [\<lparr>io_instance_id = 7, io_replica_index = 0, io_exited = True, io_exit_code = Some 1, io_unhealthy = False\<rparr>])
       [\<lparr>io_instance_id = 7, io_replica_index = 0, io_exited = True, io_exit_code = Some 1, io_unhealthy = False\<rparr>])
   = NoOp"
  by (rule reconcile_settles) (simp_all add: desired_replicas_def default_service_spec_def)

text \<open>Further: a live replica is left alone: when every observed instance has its own slot and
  identifier, no action relaunches the slot of a live instance or purges it.\<close>

theorem decide_reconcile_keeps_live:
  assumes "distinct (map io_replica_index obs)" and "distinct (map io_instance_id obs)"
    and "length obs + unat (desired_replicas spec) < 2 ^ 32"
    and "i \<in> set obs" and "io_live i"
  shows "case decide_reconcile spec obs of
           NoOp \<Rightarrow> True
         | RedispatchAll n purge \<Rightarrow> False
         | DispatchPartial slots purge \<Rightarrow> io_replica_index i \<notin> set slots \<and> io_instance_id i \<notin> set purge"
proof -
  have "io_replica_index i \<notin> slots_to_launch spec obs"
    using assms(1,4,5) by (auto simp: slots_to_launch_def restarting_def distinct_map dest: inj_onD)
  moreover have "io_instance_id i \<notin> io_instance_id ` set (restarting spec obs)"
    using assms(2,4,5) by (auto simp: restarting_def distinct_map dest: inj_onD)
  ultimately show ?thesis
    unfolding decide_reconcile_plan [OF assms(3)]
    using assms(4,5) reconcile_plan_AllD [of spec obs] reconcile_plan_PartialD [of spec obs]
    by (fastforce split: reconcile_action.split)
qed

theorem decide_reconcile_keeps_live_witness:
  "case decide_reconcile (default_service_spec\<lparr>sv_replicas := Some 2\<rparr>)
     [\<lparr>io_instance_id = 7, io_replica_index = 1, io_exited = False, io_exit_code = None, io_unhealthy = False\<rparr>] of
       NoOp \<Rightarrow> True | RedispatchAll n purge \<Rightarrow> False
     | DispatchPartial slots purge \<Rightarrow> (1 :: u32) \<notin> set slots \<and> (7 :: uuid) \<notin> set purge"
  using decide_reconcile_keeps_live [of
      "[\<lparr>io_instance_id = 7, io_replica_index = 1, io_exited = False, io_exit_code = None, io_unhealthy = False\<rparr>]"
      "default_service_spec\<lparr>sv_replicas := Some 2\<rparr>"
      "\<lparr>io_instance_id = 7, io_replica_index = 1, io_exited = False, io_exit_code = None, io_unhealthy = False\<rparr>"]
  by (simp add: desired_replicas_def default_service_spec_def io_live_def split: reconcile_action.splits)

text \<open>Further: scaling a service down never removes a replica, and an excess replica that dies
  while another lives is even started again: its slot, at or above the desired count, is among
  the slots to launch.\<close>

theorem excess_replica_relaunched:
  assumes "length obs + unat (desired_replicas spec) < 2 ^ 32"
    and "j \<in> set obs" and "io_live j"
    and "i \<in> set obs" and "\<not> io_live i" and "restart_wanted spec i"
    and "desired_replicas spec \<le> io_replica_index i"
  shows "\<exists>slots purge. decide_reconcile spec obs = DispatchPartial slots purge \<and> io_replica_index i \<in> set slots"
proof -
  have "io_replica_index i \<in> slots_to_launch spec obs"
    using assms(4-6) by (auto simp: slots_to_launch_def restarting_def)
  with assms(2,3) show ?thesis
    unfolding decide_reconcile_plan [OF assms(1)] reconcile_plan_def Let_def by auto
qed

theorem excess_replica_relaunched_witness:
  "\<exists>slots purge. decide_reconcile (default_service_spec\<lparr>sv_replicas := Some 1\<rparr>)
     [\<lparr>io_instance_id = 7, io_replica_index = 0, io_exited = False, io_exit_code = None, io_unhealthy = False\<rparr>,
      \<lparr>io_instance_id = 8, io_replica_index = 4, io_exited = True, io_exit_code = Some 1, io_unhealthy = False\<rparr>]
     = DispatchPartial slots purge \<and> 4 \<in> set slots"
  using excess_replica_relaunched [of
     "[\<lparr>io_instance_id = 7, io_replica_index = 0, io_exited = False, io_exit_code = None, io_unhealthy = False\<rparr>,
       \<lparr>io_instance_id = 8, io_replica_index = 4, io_exited = True, io_exit_code = Some 1, io_unhealthy = False\<rparr>]"
     "default_service_spec\<lparr>sv_replicas := Some 1\<rparr>"
     "\<lparr>io_instance_id = 7, io_replica_index = 0, io_exited = False, io_exit_code = None, io_unhealthy = False\<rparr>"
     "\<lparr>io_instance_id = 8, io_replica_index = 4, io_exited = True, io_exit_code = Some 1, io_unhealthy = False\<rparr>"]
  by (simp add: desired_replicas_def default_service_spec_def io_live_def restart_wanted_def)

text \<open>Further: a service whose restart policy is \<open>Never\<close> runs its finished replicas again when some
  slot was never filled: with only finished instances observed, fewer than desired, the decision
  is to dispatch all replicas afresh, so the slot of every finished instance below the desired
  count is launched a second time.\<close>

theorem never_policy_reruns:
  assumes "sv_restart_policy spec = Never" and "\<forall>i \<in> set obs. \<not> io_live i"
    and "length obs < unat (desired_replicas spec)"
    and "length obs + unat (desired_replicas spec) < 2 ^ 32"
  shows "decide_reconcile spec obs = RedispatchAll (desired_replicas spec) []"
proof -
  have r: "restarting spec obs = []"
    using assms(1) by (simp add: restarting_def restart_wanted_def)
  have card: "card (io_replica_index ` set obs) \<le> length obs"
    by (metis card_length length_map set_map)
  have "\<not> set (range_u32 (desired_replicas spec)) \<subseteq> io_replica_index ` set obs"
    using card_mono [of "io_replica_index ` set obs" "set (range_u32 (desired_replicas spec))"]
      distinct_card [OF distinct_range_u32] card assms(3) by fastforce
  then have "slots_to_launch spec obs \<noteq> {}"
    by (auto simp: no_launch_occupied set_range_u32)
  moreover have "card (slots_where (\<lambda>i. \<not> io_live i \<and> \<not> restart_wanted spec i) obs) < unat (desired_replicas spec)"
    using card_mono [of "io_replica_index ` set obs" "slots_where (\<lambda>i. \<not> io_live i \<and> \<not> restart_wanted spec i) obs"]
      card assms(3) by (fastforce simp: slots_where_def)
  ultimately show ?thesis
    using assms(2) r unfolding decide_reconcile_plan [OF assms(4)] reconcile_plan_def Let_def by simp
qed

theorem never_policy_reruns_witness:
  "decide_reconcile (default_service_spec\<lparr>sv_replicas := Some 2, sv_restart_policy := Never\<rparr>)
     [\<lparr>io_instance_id = 7, io_replica_index = 0, io_exited = True, io_exit_code = Some 0, io_unhealthy = False\<rparr>]
   = RedispatchAll 2 []"
  using never_policy_reruns [of "default_service_spec\<lparr>sv_replicas := Some 2, sv_restart_policy := Never\<rparr>"
     "[\<lparr>io_instance_id = 7, io_replica_index = 0, io_exited = True, io_exit_code = Some 0, io_unhealthy = False\<rparr>]"]
  by (simp add: desired_replicas_def default_service_spec_def io_live_def)

end
