(* ===== verification/Workflow.thy ===== *)
theory Workflow
  imports Orion_Types
begin

text \<open>
  The workflow runner's planner (\<^verbatim>\<open>advance_workflow\<close> and \<^verbatim>\<open>plan_all_workflows\<close> of
  \<^verbatim>\<open>orion-controller/src/decisions.rs\<close>). One call takes the step statuses, applies the exits
  the tasks reported, and starts every pending step whose dependencies are ready.

  \<open>advance_run\<close> repeats the call with the reports of successive ticks; the theorems about
  whole runs (a step is started at most once, a finished step stays finished, an acyclic
  workflow finishes, a cycle never starts) are stated over it.
\<close>

subsection \<open>The planner\<close>

datatype step_status = Pending | Running | Succeeded | Failed

datatype task_exit_kind = Task_Succeeded | Task_Failed

type_synonym progress = "(string, step_status) hash_map"
type_synonym task_states = "(string, task_exit_kind) hash_map"

record workflow_advance =
  wa_next_progress :: progress
  wa_dispatch :: "string list"
  wa_finished :: bool

definition init_step :: "workflow_step \<Rightarrow> progress \<Rightarrow> progress" where
  "init_step s next =
     (case hm_get next (st_name s) of
        None \<Rightarrow> hm_insert (st_name s) Pending next
      | Some _ \<Rightarrow> next)"

definition promote_step :: "task_states \<Rightarrow> workflow_step \<Rightarrow> progress \<Rightarrow> progress" where
  "promote_step task_states s next =
     (if hm_get next (st_name s) = Some Running then
        (case hm_get task_states (st_task s) of
           None \<Rightarrow> next
         | Some Task_Succeeded \<Rightarrow> hm_insert (st_name s) Succeeded next
         | Some Task_Failed \<Rightarrow> hm_insert (st_name s) Failed next)
      else next)"

definition dep_status :: "progress \<Rightarrow> string \<Rightarrow> step_status" where
  "dep_status next d = unwrap_or (hm_get next d) Pending"

definition blocked_by_failure :: "workflow_spec \<Rightarrow> progress \<Rightarrow> workflow_step \<Rightarrow> bool" where
  "blocked_by_failure spec next s =
     list_ex (\<lambda>d. \<not> wf_continue_on_error spec \<and> dep_status next d = Failed) (st_depends_on s)"

definition deps_ready :: "workflow_spec \<Rightarrow> progress \<Rightarrow> workflow_step \<Rightarrow> bool" where
  "deps_ready spec next s =
     list_all (\<lambda>d. dep_status next d = Succeeded \<or> wf_continue_on_error spec \<and> dep_status next d = Failed)
       (st_depends_on s)"

definition visit_step :: "workflow_spec \<Rightarrow> workflow_step \<Rightarrow> progress \<times> string list \<Rightarrow> progress \<times> string list" where
  "visit_step spec s = (\<lambda>(next, dispatch).
     if hm_get next (st_name s) \<noteq> Some Pending then (next, dispatch)
     else if blocked_by_failure spec next s then (hm_insert (st_name s) Failed next, dispatch)
     else if deps_ready spec next s then (hm_insert (st_name s) Running next, dispatch @ [st_name s])
     else (next, dispatch))"

definition is_terminal :: "step_status \<Rightarrow> bool" where
  "is_terminal st \<longleftrightarrow> st = Succeeded \<or> st = Failed"

definition advance_workflow :: "workflow_spec \<Rightarrow> progress \<Rightarrow> task_states \<Rightarrow> workflow_advance" where
  "advance_workflow spec progress task_states =
     (let next0 = fold init_step (wf_steps spec) progress;
          next1 = fold (promote_step task_states) (wf_steps spec) next0;
          (next, dispatch) = fold (visit_step spec) (wf_steps spec) (next1, [])
      in \<lparr>wa_next_progress = next, wa_dispatch = dispatch,
          wa_finished = (list_all is_terminal (hm_values next) \<and> next \<noteq> [])\<rparr>)"

record dispatch_spec =
  dp_step_name :: string
  dp_task_name :: string

record workflow_plan_entry =
  pe_workflow :: string
  pe_next_progress :: progress
  pe_dispatch :: "dispatch_spec list"
  pe_finished :: bool

definition step_dispatch_spec :: "workflow_spec \<Rightarrow> string \<Rightarrow> dispatch_spec option" where
  "step_dispatch_spec spec step_name =
     map_option (\<lambda>s. \<lparr>dp_step_name = step_name, dp_task_name = st_task s\<rparr>)
       (List.find (\<lambda>s. st_name s = step_name) (wf_steps spec))"

definition plan_workflow ::
  "(string, progress) hash_map \<Rightarrow> task_states \<Rightarrow> resource \<Rightarrow> workflow_plan_entry option" where
  "plan_workflow progress task_states w =
     (case rs_body w of
        Body_Workflow spec _ \<Rightarrow>
          (let name = md_name (rs_metadata w);
               current = unwrap_or (hm_get progress name) [];
               plan = advance_workflow spec current task_states
           in Some \<lparr>pe_workflow = name, pe_next_progress = wa_next_progress plan,
                    pe_dispatch = List.map_filter (step_dispatch_spec spec) (wa_dispatch plan),
                    pe_finished = wa_finished plan\<rparr>)
      | _ \<Rightarrow> None)"

definition plan_all_workflows ::
  "resource list \<Rightarrow> (string, progress) hash_map \<Rightarrow> task_states \<Rightarrow> workflow_plan_entry list" where
  "plan_all_workflows workflows progress task_states =
     List.map_filter (plan_workflow progress task_states) workflows"

subsection \<open>Runs\<close>

text \<open>The state of a run: the step statuses and everything dispatched so far. An event is what
  the tasks report at one tick.\<close>

definition advance_tick :: "workflow_spec \<Rightarrow> progress \<times> string list \<Rightarrow> task_states \<Rightarrow> progress \<times> string list" where
  "advance_tick spec = (\<lambda>(p, sent) ts.
     (wa_next_progress (advance_workflow spec p ts), sent @ wa_dispatch (advance_workflow spec p ts)))"

definition advance_run :: "workflow_spec \<Rightarrow> progress \<times> string list \<Rightarrow> task_states list \<Rightarrow> progress \<times> string list" where
  "advance_run spec = foldl (advance_tick spec)"

subsection \<open>Lemmas: how one tick changes a step\<close>

definition status_le :: "step_status option \<Rightarrow> step_status option \<Rightarrow> bool" where
  "status_le a b \<longleftrightarrow>
     (case a of
        None \<Rightarrow> True
      | Some Pending \<Rightarrow> b \<noteq> None
      | Some Running \<Rightarrow> b \<noteq> None \<and> b \<noteq> Some Pending
      | Some st \<Rightarrow> b = Some st)"

lemma status_le_refl [simp]: "status_le a a"
  by (auto simp: status_le_def split: option.split step_status.split)

lemma status_le_trans: "status_le a b \<Longrightarrow> status_le b c \<Longrightarrow> status_le a c"
  by (auto simp: status_le_def split: option.splits step_status.splits)

lemma status_le_simps [simp]:
  "status_le None b" "status_le (Some Pending) (Some st)" "status_le (Some Running) (Some Succeeded)"
  "status_le (Some Running) (Some Failed)"
  by (auto simp: status_le_def split: step_status.split)

lemma status_le_terminal: "status_le (Some st) b \<Longrightarrow> is_terminal st \<Longrightarrow> b = Some st"
  by (auto simp: status_le_def is_terminal_def split: step_status.splits)

lemma status_le_SomeD: "status_le (Some st) b \<Longrightarrow> \<exists>st'. b = Some st'"
  by (cases b) (auto simp: status_le_def split: step_status.splits)

lemma started_mono:
  "status_le a b \<Longrightarrow> a \<noteq> None \<and> a \<noteq> Some Pending \<Longrightarrow> b \<noteq> None \<and> b \<noteq> Some Pending"
  by (auto simp: status_le_def split: option.splits step_status.splits)

lemma init_step_le: "status_le (hm_get p n) (hm_get (init_step s p) n)"
  by (auto simp: init_step_def split: option.split)

lemma promote_step_le: "status_le (hm_get p n) (hm_get (promote_step ts s p) n)"
  by (auto simp: promote_step_def split: option.split task_exit_kind.split)

lemma visit_step_le: "status_le (hm_get (fst pd) n) (hm_get (fst (visit_step spec s pd)) n)"
  by (auto simp: visit_step_def split: prod.split)

lemma fold_le:
  assumes "\<And>s x. status_le (hm_get (g x) n) (hm_get (g (f s x)) n)"
  shows "status_le (hm_get (g x) n) (hm_get (g (fold f ss x)) n)"
  by (induction ss arbitrary: x) (auto intro: status_le_trans assms)

definition seeded :: "workflow_spec \<Rightarrow> progress \<Rightarrow> progress" where
  "seeded spec p = fold init_step (wf_steps spec) p"

definition promoted :: "workflow_spec \<Rightarrow> task_states \<Rightarrow> progress \<Rightarrow> progress" where
  "promoted spec ts p = fold (promote_step ts) (wf_steps spec) (seeded spec p)"

lemma advance_workflow_eq:
  "advance_workflow spec p ts =
     (let r = fold (visit_step spec) (wf_steps spec) (promoted spec ts p, [])
      in \<lparr>wa_next_progress = fst r, wa_dispatch = snd r,
          wa_finished = (list_all is_terminal (hm_values (fst r)) \<and> fst r \<noteq> [])\<rparr>)"
  by (simp add: advance_workflow_def promoted_def seeded_def Let_def split_beta)

lemma hm_get_seeded:
  "hm_get (seeded spec p) n =
     (case hm_get p n of
        None \<Rightarrow> if n \<in> st_name ` set (wf_steps spec) then Some Pending else None
      | Some st \<Rightarrow> Some st)"
proof -
  have "hm_get (fold init_step ss p) n =
     (case hm_get p n of None \<Rightarrow> if n \<in> st_name ` set ss then Some Pending else None | Some st \<Rightarrow> Some st)" for ss
    by (induction ss arbitrary: p) (auto simp: init_step_def split: option.splits)
  then show ?thesis by (simp add: seeded_def)
qed

lemma promoted_le: "status_le (hm_get (seeded spec p) n) (hm_get (promoted spec ts p) n)"
  unfolding promoted_def by (rule fold_le [where g = "\<lambda>x. x"]) (rule promote_step_le)

lemma advance_le: "status_le (hm_get p n) (hm_get (wa_next_progress (advance_workflow spec p ts)) n)"
proof -
  have "status_le (hm_get p n) (hm_get (seeded spec p) n)"
    unfolding seeded_def by (rule fold_le [where g = "\<lambda>x. x"]) (rule init_step_le)
  moreover note promoted_le
  moreover have "status_le (hm_get (promoted spec ts p) n)
      (hm_get (wa_next_progress (advance_workflow spec p ts)) n)"
    using fold_le [where g = fst and x = "(promoted spec ts p, [])" and ss = "wf_steps spec", OF visit_step_le]
    by (simp add: advance_workflow_eq Let_def)
  ultimately show ?thesis by (blast intro: status_le_trans)
qed

definition dep_ok :: "workflow_spec \<Rightarrow> step_status \<Rightarrow> bool" where
  "dep_ok spec st \<longleftrightarrow> st = Succeeded \<or> wf_continue_on_error spec \<and> st = Failed"

lemma deps_ready_iff: "deps_ready spec p s \<longleftrightarrow> (\<forall>d \<in> set (st_depends_on s). dep_ok spec (dep_status p d))"
  by (simp add: deps_ready_def list_all_iff dep_ok_def)

lemma dep_ok_mono:
  assumes "status_le (hm_get p d) (hm_get q d)" and "dep_ok spec (dep_status p d)"
  shows "dep_ok spec (dep_status q d)"
  using assms by (cases "hm_get p d") (auto simp: dep_status_def dep_ok_def status_le_def)

abbreviation visits :: "workflow_spec \<Rightarrow> workflow_step list \<Rightarrow> progress \<Rightarrow> progress \<times> string list" where
  "visits spec ss p \<equiv> fold (visit_step spec) ss (p, [])"

lemma visits_snoc: "visits spec (ss @ [s]) p = visit_step spec s (visits spec ss p)"
  by simp

lemma visits_le: "status_le (hm_get p n) (hm_get (fst (visits spec ss p)) n)"
  using fold_le [where g = fst and x = "(p, [])", OF visit_step_le] by simp

lemma visit_step_Pending:
  "hm_get (fst (visit_step spec s pd)) n = Some Pending \<Longrightarrow> hm_get (fst pd) n = Some Pending"
  by (auto simp: visit_step_def split: prod.splits if_splits)

lemma visits_Pending: "hm_get (fst (visits spec ss p)) n = Some Pending \<Longrightarrow> hm_get p n = Some Pending"
proof (induction ss rule: rev_induct)
  case (snoc s ss)
  from snoc.prems visit_step_Pending [of spec s "visits spec ss p" n] snoc.IH show ?case
    unfolding visits_snoc by blast
qed simp

lemma visit_step_Running:
  "hm_get (fst pd) n = Some Running \<Longrightarrow> hm_get (fst (visit_step spec s pd)) n = Some Running"
  by (auto simp: visit_step_def split: prod.splits)

lemma visit_step_starts:
  "n = st_name s \<Longrightarrow> hm_get (fst pd) n = Some Pending \<Longrightarrow> \<not> blocked_by_failure spec (fst pd) s \<Longrightarrow>
     deps_ready spec (fst pd) s \<Longrightarrow> hm_get (fst (visit_step spec s pd)) n = Some Running"
  by (auto simp: visit_step_def split: prod.splits)

lemma set_visit_step_dispatch:
  "n \<in> set (snd (visit_step spec s pd)) \<longleftrightarrow>
     n \<in> set (snd pd) \<or>
     n = st_name s \<and> hm_get (fst pd) n = Some Pending \<and> \<not> blocked_by_failure spec (fst pd) s \<and>
       deps_ready spec (fst pd) s"
  by (auto simp: visit_step_def split: prod.splits)

text \<open>What the planner dispatches in one tick: steps that were pending, are now running, and
  whose dependencies are ready.\<close>

lemma visits_dispatch:
  assumes "n \<in> set (snd (visits spec ss p))"
  shows "hm_get p n = Some Pending \<and> hm_get (fst (visits spec ss p)) n = Some Running \<and>
     (\<exists>s \<in> set ss. st_name s = n \<and>
        (\<forall>d \<in> set (st_depends_on s). dep_ok spec (dep_status (fst (visits spec ss p)) d)))"
  using assms
proof (induction ss rule: rev_induct)
  case (snoc s ss)
  let ?q = "visits spec ss p" and ?r = "visit_step spec s (visits spec ss p)"
  have keep: "dep_ok spec (dep_status (fst ?q) d) \<Longrightarrow> dep_ok spec (dep_status (fst ?r) d)" for d
    by (rule dep_ok_mono [OF visit_step_le])
  from snoc.prems consider "n \<in> set (snd ?q)"
    | "n = st_name s" "hm_get (fst ?q) n = Some Pending" "\<not> blocked_by_failure spec (fst ?q) s"
      "deps_ready spec (fst ?q) s"
    unfolding visits_snoc set_visit_step_dispatch by blast
  then show ?case
  proof cases
    case 1
    note ih = snoc.IH [OF this]
    then have "hm_get (fst ?r) n = Some Running" by (blast intro: visit_step_Running)
    with ih keep show ?thesis unfolding visits_snoc by (metis (no_types, lifting) Un_iff set_append)
  next
    case 2
    then have "hm_get (fst ?r) n = Some Running" by (blast intro: visit_step_starts)
    with 2 keep visits_Pending [of spec ss p n] show ?thesis
      unfolding visits_snoc by (auto simp: deps_ready_iff)
  qed
qed simp

lemma visits_distinct: "distinct (snd (visits spec ss p))"
proof (induction ss rule: rev_induct)
  case (snoc s ss)
  have "st_name s \<notin> set (snd (visits spec ss p))" if "hm_get (fst (visits spec ss p)) (st_name s) = Some Pending"
    using visits_dispatch [of "st_name s" spec ss p] that by auto
  moreover have "distinct (snd (visit_step spec s pd))"
    if "hm_get (fst pd) (st_name s) = Some Pending \<longrightarrow> st_name s \<notin> set (snd pd)" "distinct (snd pd)" for pd
    using that by (auto simp: visit_step_def split: prod.splits)
  ultimately show ?case using snoc unfolding visits_snoc by blast
qed simp

lemma advance_dispatch:
  assumes "n \<in> set (wa_dispatch (advance_workflow spec p ts))"
  shows "hm_get (promoted spec ts p) n = Some Pending \<and>
     hm_get (wa_next_progress (advance_workflow spec p ts)) n = Some Running \<and>
     (\<exists>s \<in> set (wf_steps spec). st_name s = n \<and> (\<forall>d \<in> set (st_depends_on s).
        dep_ok spec (dep_status (wa_next_progress (advance_workflow spec p ts)) d)))"
  using visits_dispatch [of n spec "wf_steps spec" "promoted spec ts p"] assms
  by (simp add: advance_workflow_eq Let_def)

lemma advance_distinct: "distinct (wa_dispatch (advance_workflow spec p ts))"
  by (simp add: advance_workflow_eq Let_def visits_distinct)

lemma promote_step_Pending:
  "hm_get (promote_step ts s p) n = Some Pending \<longleftrightarrow> hm_get p n = Some Pending"
  by (auto simp: promote_step_def split: option.split task_exit_kind.split)

lemma promoted_Pending:
  "hm_get (promoted spec ts p) n = Some Pending \<longleftrightarrow> hm_get (seeded spec p) n = Some Pending"
proof -
  have "hm_get (fold (promote_step ts) ss q) n = Some Pending \<longleftrightarrow> hm_get q n = Some Pending" for ss q
    by (induction ss arbitrary: q) (simp_all add: promote_step_Pending)
  then show ?thesis by (simp add: promoted_def)
qed

lemma advance_dispatch_pending:
  assumes "n \<in> set (wa_dispatch (advance_workflow spec p ts))"
  shows "hm_get p n = None \<or> hm_get p n = Some Pending"
  using advance_dispatch [OF assms] by (auto simp: promoted_Pending hm_get_seeded split: option.splits)

lemma advance_has_step:
  assumes "s \<in> set (wf_steps spec)"
  shows "\<exists>st. hm_get (wa_next_progress (advance_workflow spec p ts)) (st_name s) = Some st"
proof -
  have "hm_get (seeded spec p) (st_name s) \<noteq> None"
    using assms by (auto simp: hm_get_seeded split: option.split)
  then obtain st where "hm_get (seeded spec p) (st_name s) = Some st" by blast
  with promoted_le [of spec p "st_name s" ts] obtain st' where "hm_get (promoted spec ts p) (st_name s) = Some st'"
    by (cases "hm_get (promoted spec ts p) (st_name s)") (auto dest: status_le_SomeD)
  then show ?thesis
    using status_le_SomeD visits_le [of "promoted spec ts p" "st_name s" spec "wf_steps spec"]
    by (metis advance_workflow_eq workflow_advance.select_convs(1))
qed

subsection \<open>Lemmas: runs\<close>

definition sent_once :: "progress \<times> string list \<Rightarrow> bool" where
  "sent_once = (\<lambda>(p, sent). distinct sent \<and> (\<forall>n \<in> set sent. hm_get p n \<noteq> None \<and> hm_get p n \<noteq> Some Pending))"

interpretation once: invariant_machine "advance_tick spec" sent_once for spec
proof unfold_locales
  fix pd ts
  assume "sent_once pd"
  then obtain p sent where pd: "pd = (p, sent)" and d: "distinct sent"
    and started: "\<forall>n \<in> set sent. hm_get p n \<noteq> None \<and> hm_get p n \<noteq> Some Pending"
    by (cases pd) (auto simp: sent_once_def)
  have "distinct (sent @ wa_dispatch (advance_workflow spec p ts))"
    using d started advance_dispatch_pending [of _ spec p ts] advance_distinct [of spec p ts]
    unfolding distinct_append by fastforce
  moreover have "hm_get (wa_next_progress (advance_workflow spec p ts)) n \<noteq> None \<and>
      hm_get (wa_next_progress (advance_workflow spec p ts)) n \<noteq> Some Pending"
    if "n \<in> set sent \<or> n \<in> set (wa_dispatch (advance_workflow spec p ts))" for n
    using that started_mono [OF advance_le [of p n spec ts]] started advance_dispatch [of n spec p ts] by auto
  ultimately show "sent_once (advance_tick spec pd ts)"
    by (simp add: sent_once_def advance_tick_def pd del: not_None_eq)
qed

text \<open>Progress of one tick: a running step whose task reported is finished, and a step whose
  dependencies are all finished is started or failed.\<close>

definition finished_step :: "progress \<Rightarrow> string \<Rightarrow> bool" where
  "finished_step p n \<longleftrightarrow> (\<exists>st. hm_get p n = Some st \<and> is_terminal st)"

definition started_step :: "progress \<Rightarrow> string \<Rightarrow> bool" where
  "started_step p n \<longleftrightarrow> hm_get p n \<noteq> None \<and> hm_get p n \<noteq> Some Pending"

lemma started_step_iff: "started_step p n \<longleftrightarrow> hm_get p n = Some Running \<or> finished_step p n"
proof (cases "hm_get p n")
  case (Some st)
  then show ?thesis by (cases st) (simp_all add: started_step_def finished_step_def is_terminal_def)
qed (simp add: started_step_def finished_step_def)

lemma finished_step_mono:
  "status_le (hm_get p n) (hm_get q n) \<Longrightarrow> finished_step p n \<Longrightarrow> finished_step q n"
  unfolding finished_step_def by (metis status_le_terminal)

lemma promote_step_finishes:
  "hm_get p (st_name s) = Some Running \<Longrightarrow> hm_get ts (st_task s) \<noteq> None \<Longrightarrow>
     finished_step (promote_step ts s p) (st_name s)"
  by (auto simp: promote_step_def finished_step_def is_terminal_def split: task_exit_kind.split)

lemma promote_finishes:
  assumes "s \<in> set ss" and "started_step p (st_name s)" and "hm_get ts (st_task s) \<noteq> None"
  shows "finished_step (fold (promote_step ts) ss p) (st_name s)"
proof -
  obtain as bs where ss: "ss = as @ s # bs" using split_list [OF assms(1)] by blast
  let ?q = "fold (promote_step ts) as p"
  have le: "status_le (hm_get q n) (hm_get (fold (promote_step ts) xs q) n)" for q n xs
    by (rule fold_le [where g = "\<lambda>x. x"]) (rule promote_step_le)
  have "started_step ?q (st_name s)"
    using started_mono [OF le] assms(2) by (simp add: started_step_def)
  then have "finished_step (promote_step ts s ?q) (st_name s)"
    using promote_step_finishes assms(3) finished_step_mono [OF promote_step_le] started_step_iff by blast
  then show ?thesis
    unfolding ss using finished_step_mono [OF le] by simp
qed

lemma promoted_finishes:
  assumes "s \<in> set (wf_steps spec)" and "started_step p (st_name s)" and "hm_get ts (st_task s) \<noteq> None"
  shows "finished_step (promoted spec ts p) (st_name s)"
proof -
  have "started_step (seeded spec p) (st_name s)"
    using assms(2) by (auto simp: started_step_def hm_get_seeded)
  with assms show ?thesis unfolding promoted_def by (blast intro: promote_finishes)
qed

lemma visit_step_moves:
  assumes "\<forall>d \<in> set (st_depends_on s). finished_step (fst pd) d"
  shows "hm_get (fst (visit_step spec s pd)) (st_name s) \<noteq> Some Pending"
proof -
  have "dep_status (fst pd) d = Succeeded \<or> dep_status (fst pd) d = Failed" if "d \<in> set (st_depends_on s)" for d
    using assms that by (auto simp: finished_step_def dep_status_def is_terminal_def)
  then have "blocked_by_failure spec (fst pd) s \<or> deps_ready spec (fst pd) s"
    unfolding blocked_by_failure_def deps_ready_def list_ex_iff list_all_iff by blast
  then show ?thesis by (auto simp: visit_step_def split: prod.splits)
qed

lemma visits_move:
  assumes "s \<in> set ss" and "\<forall>d \<in> set (st_depends_on s). finished_step p d"
  shows "hm_get (fst (visits spec ss p)) (st_name s) \<noteq> Some Pending"
proof -
  obtain as bs where ss: "ss = as @ s # bs" using split_list [OF assms(1)] by blast
  let ?q = "visits spec as p"
  have "\<forall>d \<in> set (st_depends_on s). finished_step (fst ?q) d"
    using assms(2) finished_step_mono [OF visits_le] by blast
  from visit_step_moves [OF this]
  have "hm_get (fst (visit_step spec s ?q)) (st_name s) \<noteq> Some Pending" .
  moreover have "hm_get (fst (fold (visit_step spec) bs x)) n = Some Pending \<longrightarrow> hm_get (fst x) n = Some Pending" for x n
  proof (induction bs arbitrary: x)
    case (Cons b bs)
    then show ?case using visit_step_Pending [of spec b x n] by (simp del: split_paired_All)
  qed simp
  ultimately show ?thesis
    unfolding ss by (simp only: fold_append fold_simps comp_apply) blast
qed

text \<open>The frontier after \<open>k\<close> ticks, by dependency rank.\<close>

definition ranked :: "workflow_spec \<Rightarrow> (string \<Rightarrow> nat) \<Rightarrow> bool" where
  "ranked spec rank \<longleftrightarrow> (\<forall>s \<in> set (wf_steps spec). \<forall>d \<in> set (st_depends_on s).
     d \<in> st_name ` set (wf_steps spec) \<and> rank d < rank (st_name s))"

definition all_reported :: "workflow_spec \<Rightarrow> task_states \<Rightarrow> bool" where
  "all_reported spec ts \<longleftrightarrow> (\<forall>s \<in> set (wf_steps spec). hm_get ts (st_task s) \<noteq> None)"

definition frontier :: "workflow_spec \<Rightarrow> (string \<Rightarrow> nat) \<Rightarrow> nat \<Rightarrow> progress \<Rightarrow> bool" where
  "frontier spec rank k p \<longleftrightarrow> (\<forall>s \<in> set (wf_steps spec).
     (rank (st_name s) + 2 \<le> k \<longrightarrow> finished_step p (st_name s)) \<and>
     (rank (st_name s) + 1 \<le> k \<longrightarrow> started_step p (st_name s)))"

lemma frontier_advance:
  assumes "ranked spec rank" and "all_reported spec ts" and "frontier spec rank k p"
  shows "frontier spec rank (Suc k) (wa_next_progress (advance_workflow spec p ts))"
proof -
  let ?n = "wa_next_progress (advance_workflow spec p ts)"
  have n: "?n = fst (visits spec (wf_steps spec) (promoted spec ts p))"
    by (simp add: advance_workflow_eq Let_def)
  have prom: "finished_step (promoted spec ts p) (st_name s)"
    if "s \<in> set (wf_steps spec)" "rank (st_name s) + 2 \<le> Suc k" for s
    using that assms(2,3) by (intro promoted_finishes) (auto simp: frontier_def all_reported_def)
  have fin: "finished_step ?n (st_name s)" if "s \<in> set (wf_steps spec)" "rank (st_name s) + 2 \<le> Suc k" for s
    unfolding n using finished_step_mono [OF visits_le] prom [OF that] by blast
  have st: "started_step ?n (st_name s)" if "s \<in> set (wf_steps spec)" "rank (st_name s) + 1 \<le> Suc k" for s
  proof -
    have "finished_step (promoted spec ts p) d" if d: "d \<in> set (st_depends_on s)" for d
    proof -
      obtain s' where "s' \<in> set (wf_steps spec)" "st_name s' = d" "rank d < rank (st_name s)"
        using assms(1) \<open>s \<in> set (wf_steps spec)\<close> d unfolding ranked_def by (metis imageE)
      then show ?thesis using prom [of s'] \<open>rank (st_name s) + 1 \<le> Suc k\<close> by auto
    qed
    with that(1) have "hm_get ?n (st_name s) \<noteq> Some Pending"
      unfolding n by (intro visits_move) auto
    with advance_has_step [OF that(1), of p ts] show ?thesis by (auto simp: started_step_def)
  qed
  from fin st show ?thesis by (simp add: frontier_def)
qed

lemma frontier_run:
  assumes "ranked spec rank" and "\<forall>ts \<in> set tss. all_reported spec ts" and "frontier spec rank k p"
  shows "frontier spec rank (k + length tss) (fst (advance_run spec (p, sent) tss))"
  using assms(2,3)
proof (induction tss arbitrary: k p sent)
  case (Cons ts tss)
  from Cons.prems have f: "frontier spec rank (Suc k) (wa_next_progress (advance_workflow spec p ts))"
    by (intro frontier_advance [OF assms(1)]) auto
  from Cons.IH [OF _ f] Cons.prems show ?case
    by (simp add: advance_run_def advance_tick_def)
qed (simp add: advance_run_def)

text \<open>The progress map of a run started empty has the workflow's steps as its keys.\<close>

definition keys_ok :: "workflow_spec \<Rightarrow> progress \<Rightarrow> bool" where
  "keys_ok spec p \<longleftrightarrow> hm_wf p \<and> (\<forall>n. hm_get p n \<noteq> None \<longrightarrow> n \<in> st_name ` set (wf_steps spec))"

lemma keys_ok_insert:
  "keys_ok spec p \<Longrightarrow> s \<in> set (wf_steps spec) \<Longrightarrow> keys_ok spec (hm_insert (st_name s) st p)"
  by (auto simp: keys_ok_def)

lemma keys_ok_fold:
  assumes "\<And>s x. s \<in> set (wf_steps spec) \<Longrightarrow> keys_ok spec (g x) \<Longrightarrow> keys_ok spec (g (f s x))"
    and "keys_ok spec (g x)" and "set ss \<subseteq> set (wf_steps spec)"
  shows "keys_ok spec (g (fold f ss x))"
  using assms(2,3) by (induction ss arbitrary: x) (auto intro: assms(1))

lemma keys_ok_advance:
  assumes "keys_ok spec p"
  shows "keys_ok spec (wa_next_progress (advance_workflow spec p ts))"
proof -
  have "keys_ok spec (seeded spec p)"
    unfolding seeded_def
    by (rule keys_ok_fold [where g = "\<lambda>x. x"])
      (auto simp: init_step_def assms intro: keys_ok_insert split: option.split)
  then have "keys_ok spec (promoted spec ts p)"
    unfolding promoted_def
    by (intro keys_ok_fold [where g = "\<lambda>x. x"])
      (auto simp: promote_step_def intro: keys_ok_insert split: option.split task_exit_kind.split)
  then have "keys_ok spec (fst (visits spec (wf_steps spec) (promoted spec ts p)))"
    by (intro keys_ok_fold [where g = fst])
      (auto simp: visit_step_def intro: keys_ok_insert split: prod.split)
  then show ?thesis by (simp add: advance_workflow_eq Let_def)
qed

interpretation wkeys: invariant_machine "advance_tick spec" "\<lambda>pd. keys_ok spec (fst pd)" for spec
  by unfold_locales (auto simp: advance_tick_def split_beta intro: keys_ok_advance)

lemma finished_iff:
  assumes "keys_ok spec p" and "wf_steps spec \<noteq> []"
  shows "wa_finished (advance_workflow spec p ts) \<longleftrightarrow>
     (\<forall>s \<in> set (wf_steps spec). finished_step (wa_next_progress (advance_workflow spec p ts)) (st_name s))"
proof -
  let ?n = "wa_next_progress (advance_workflow spec p ts)"
  note ok = keys_ok_advance [OF assms(1), of ts]
  have fin: "wa_finished (advance_workflow spec p ts) \<longleftrightarrow> list_all is_terminal (hm_values ?n) \<and> ?n \<noteq> []"
    by (simp add: advance_workflow_eq Let_def)
  have "list_all is_terminal (hm_values ?n) \<longleftrightarrow> (\<forall>n st. hm_get ?n n = Some st \<longrightarrow> is_terminal st)"
    using ok by (auto simp: list_all_iff set_hm_values keys_ok_def)
  also have "\<dots> \<longleftrightarrow> (\<forall>s \<in> set (wf_steps spec). finished_step ?n (st_name s))"
  proof
    assume "\<forall>n st. hm_get ?n n = Some st \<longrightarrow> is_terminal st"
    with advance_has_step [of _ spec p ts] show "\<forall>s \<in> set (wf_steps spec). finished_step ?n (st_name s)"
      by (fastforce simp: finished_step_def)
  next
    assume r: "\<forall>s \<in> set (wf_steps spec). finished_step ?n (st_name s)"
    show "\<forall>n st. hm_get ?n n = Some st \<longrightarrow> is_terminal st"
    proof (intro allI impI)
      fix n st
      assume st: "hm_get ?n n = Some st"
      with ok have "n \<in> st_name ` set (wf_steps spec)" by (simp add: keys_ok_def)
      with r st show "is_terminal st" by (auto simp: finished_step_def)
    qed
  qed
  finally have "list_all is_terminal (hm_values ?n) \<longleftrightarrow> (\<forall>s \<in> set (wf_steps spec). finished_step ?n (st_name s))" .
  moreover have "?n \<noteq> []"
    using assms(2) advance_has_step [of "hd (wf_steps spec)" spec p ts] by auto
  ultimately show ?thesis using fin by blast
qed

text \<open>A set of steps each of which waits for another of the set.\<close>

definition self_blocked :: "workflow_spec \<Rightarrow> string set \<Rightarrow> bool" where
  "self_blocked spec S \<longleftrightarrow>
     (\<forall>s \<in> set (wf_steps spec). st_name s \<in> S \<longrightarrow> (\<exists>d \<in> set (st_depends_on s). d \<in> S))"

definition stuck :: "workflow_spec \<Rightarrow> string set \<Rightarrow> progress \<Rightarrow> bool" where
  "stuck spec S p \<longleftrightarrow> self_blocked spec S \<and> (\<forall>n \<in> S.
     hm_get p n = None \<or> hm_get p n = Some Pending \<or> hm_get p n = Some Failed \<and> \<not> wf_continue_on_error spec)"

lemma stuck_not_ready:
  "stuck spec S p \<Longrightarrow> s \<in> set (wf_steps spec) \<Longrightarrow> st_name s \<in> S \<Longrightarrow> \<not> deps_ready spec p s"
  unfolding stuck_def self_blocked_def deps_ready_iff
  by (fastforce simp: dep_ok_def dep_status_def)

lemma stuck_fold:
  assumes "\<And>s x. s \<in> set (wf_steps spec) \<Longrightarrow> stuck spec S (g x) \<Longrightarrow> stuck spec S (g (f s x))"
    and "stuck spec S (g x)" and "set ss \<subseteq> set (wf_steps spec)"
  shows "stuck spec S (g (fold f ss x))"
  using assms(2,3) by (induction ss arbitrary: x) (auto intro: assms(1))

lemma blocked_needs_fail_fast: "blocked_by_failure spec p s \<Longrightarrow> \<not> wf_continue_on_error spec"
  by (auto simp: blocked_by_failure_def list_ex_iff)

lemma stuck_visit:
  assumes "s \<in> set (wf_steps spec)" and "stuck spec S (fst pd)"
  shows "stuck spec S (fst (visit_step spec s pd))"
  using assms stuck_not_ready [OF assms(2,1)] blocked_needs_fail_fast [of spec "fst pd" s]
  by (auto simp: visit_step_def stuck_def split: prod.splits)

lemma stuck_advance:
  assumes "stuck spec S p"
  shows "stuck spec S (wa_next_progress (advance_workflow spec p ts))"
proof -
  have "stuck spec S (seeded spec p)"
    unfolding seeded_def
    by (rule stuck_fold [where g = "\<lambda>x. x", OF _ assms]) (auto simp: init_step_def stuck_def split: option.split)
  then have "stuck spec S (promoted spec ts p)"
    unfolding promoted_def
    by (intro stuck_fold [where g = "\<lambda>x. x"])
      (auto simp: promote_step_def stuck_def split: option.split task_exit_kind.split)
  then have "stuck spec S (fst (visits spec (wf_steps spec) (promoted spec ts p)))"
    by (intro stuck_fold [where g = fst]) (auto intro: stuck_visit)
  then show ?thesis by (simp add: advance_workflow_eq Let_def)
qed

interpretation cyc: invariant_machine "advance_tick spec"
  "\<lambda>pd. stuck spec S (fst pd) \<and> set (snd pd) \<inter> S = {}" for spec S
proof unfold_locales
  fix pd ts
  assume i: "stuck spec S (fst pd) \<and> set (snd pd) \<inter> S = {}"
  then have "stuck spec S (wa_next_progress (advance_workflow spec (fst pd) ts))"
    by (blast intro: stuck_advance)
  with i advance_dispatch [of _ spec "fst pd" ts]
  show "stuck spec S (fst (advance_tick spec pd ts)) \<and> set (snd (advance_tick spec pd ts)) \<inter> S = {}"
    by (fastforce simp: advance_tick_def split_beta stuck_def)
qed

subsection \<open>Properties\<close>

text \<open>C6: in every run, whatever the tasks report, a step is dispatched at most once, and it
  is never dispatched before all its dependencies are ready: in the state after the tick they
  have succeeded (or failed, when the workflow continues on error).\<close>

theorem workflow_dispatch_sound:
  "distinct (snd (advance_run spec ([], []) tss)) \<and>
   list_all (\<lambda>n. hm_get (wa_next_progress (advance_workflow spec p ts)) n = Some Running \<and>
       list_ex (\<lambda>s. st_name s = n \<and>
         list_all (\<lambda>d. dep_ok spec (dep_status (wa_next_progress (advance_workflow spec p ts)) d))
           (st_depends_on s)) (wf_steps spec))
     (wa_dispatch (advance_workflow spec p ts))"
proof -
  have "sent_once (advance_run spec ([], []) tss)"
    unfolding advance_run_def by (rule once.inv_run) (simp add: sent_once_def)
  moreover have "list_all (\<lambda>n. hm_get (wa_next_progress (advance_workflow spec p ts)) n = Some Running \<and>
       list_ex (\<lambda>s. st_name s = n \<and>
         list_all (\<lambda>d. dep_ok spec (dep_status (wa_next_progress (advance_workflow spec p ts)) d))
           (st_depends_on s)) (wf_steps spec))
     (wa_dispatch (advance_workflow spec p ts))"
    unfolding list_all_iff list_ex_iff using advance_dispatch [of _ spec p ts] by blast
  ultimately show ?thesis by (simp add: sent_once_def split_beta)
qed

text \<open>Further: the status of a step only moves forward along a run: pending, running, then
  succeeded or failed; a step that succeeded or failed keeps that status for ever.\<close>

theorem workflow_status_monotone:
  "status_le (hm_get p n) (hm_get (fst (advance_run spec (p, sent) tss)) n)"
proof (induction tss arbitrary: p sent)
  case Nil
  then show ?case by (simp add: advance_run_def)
next
  case (Cons ts tss)
  let ?q = "wa_next_progress (advance_workflow spec p ts)"
  have "advance_run spec (p, sent) (ts # tss) =
      advance_run spec (?q, sent @ wa_dispatch (advance_workflow spec p ts)) tss"
    by (simp add: advance_run_def advance_tick_def)
  with Cons.IH [of ?q] advance_le [of p n spec ts] show ?case
    by (metis status_le_trans)
qed

text \<open>C5: a workflow without cyclic or dangling dependencies finishes. When the dependency
  depth is at most \<open>R\<close> and every task has reported an exit at each tick, the tick after \<open>R + 1\<close>
  ticks reports the workflow as finished, with every step succeeded or failed.\<close>

theorem workflow_finishes:
  assumes "wf_steps spec \<noteq> []" and "ranked spec rank"
    and "\<forall>s \<in> set (wf_steps spec). rank (st_name s) \<le> R"
    and "\<forall>ts' \<in> set tss. all_reported spec ts'" and "all_reported spec ts"
    and "R + 1 \<le> length tss"
  shows "wa_finished (advance_workflow spec (fst (advance_run spec ([], []) tss)) ts)"
proof -
  let ?p = "fst (advance_run spec ([], []) tss)"
  have "frontier spec rank 0 []" by (simp add: frontier_def)
  then have "frontier spec rank (length tss) ?p"
    using frontier_run [OF assms(2,4), of 0 "[]" "[]"] by simp
  from frontier_advance [OF assms(2,5) this]
  have "\<forall>s \<in> set (wf_steps spec). finished_step (wa_next_progress (advance_workflow spec ?p ts)) (st_name s)"
    using assms(3,6) by (fastforce simp: frontier_def)
  moreover have "keys_ok spec ?p"
    unfolding advance_run_def by (rule wkeys.inv_run) (simp add: keys_ok_def)
  ultimately show ?thesis using finished_iff [OF _ assms(1)] by blast
qed

text \<open>Further: a dependency cycle never starts: when each step of a set waits for some step of the
  same set (a cycle, or a step waiting for itself or for a name that is no step), no step of the
  set is ever dispatched, runs or succeeds, whatever the tasks report.\<close>

theorem workflow_cycle_never_starts:
  assumes "self_blocked spec S"
  shows "set (snd (advance_run spec ([], []) tss)) \<inter> S = {} \<and>
     (\<forall>n. n \<in> S \<longrightarrow> hm_get (fst (advance_run spec ([], []) tss)) n \<noteq> Some Running \<and>
        hm_get (fst (advance_run spec ([], []) tss)) n \<noteq> Some Succeeded)"
  using assms cyc.inv_run [of spec S "([], [])" tss] unfolding advance_run_def
  by (fastforce simp: stuck_def)

text \<open>Further: the plan for all workflows has one entry per workflow resource, in order, and every
  step its planner dispatches is named there with its task.\<close>

theorem plan_all_workflows_complete:
  "map pe_workflow (plan_all_workflows ws progress ts) =
     map (\<lambda>w. md_name (rs_metadata w)) (filter (\<lambda>w. body_kind_str (rs_body w) = ''Workflow'') ws) \<and>
   map dp_step_name (List.map_filter (step_dispatch_spec spec) (wa_dispatch (advance_workflow spec p ts))) =
     wa_dispatch (advance_workflow spec p ts)"
proof
  have "body_kind_str (rs_body w) = ''Workflow'' \<longleftrightarrow> (\<exists>e. plan_workflow progress ts w = Some e)" for w
    by (cases "rs_body w") (simp_all add: plan_workflow_def Let_def)
  moreover have "pe_workflow e = md_name (rs_metadata w)" if "plan_workflow progress ts w = Some e" for w e
    using that by (cases "rs_body w") (auto simp: plan_workflow_def Let_def)
  ultimately show "map pe_workflow (plan_all_workflows ws progress ts) =
     map (\<lambda>w. md_name (rs_metadata w)) (filter (\<lambda>w. body_kind_str (rs_body w) = ''Workflow'') ws)"
    unfolding plan_all_workflows_def
    by (induction ws) (auto simp: List.map_filter_simps split: option.split)
next
  have "\<exists>s. List.find (\<lambda>s. st_name s = n) (wf_steps spec) = Some s"
    if "n \<in> set (wa_dispatch (advance_workflow spec p ts))" for n
    using advance_dispatch [OF that] by (auto simp: find_None_iff not_None_eq [symmetric] simp del: not_None_eq)
  then have "\<forall>n \<in> set (wa_dispatch (advance_workflow spec p ts)).
      map_option dp_step_name (step_dispatch_spec spec n) = Some n"
    by (fastforce simp: step_dispatch_spec_def)
  moreover have "map dp_step_name (List.map_filter f ns) = ns" if "\<forall>n \<in> set ns. map_option dp_step_name (f n) = Some n" for f ns
    using that by (induction ns) (auto simp: List.map_filter_simps)
  ultimately show "map dp_step_name (List.map_filter (step_dispatch_spec spec) (wa_dispatch (advance_workflow spec p ts))) =
     wa_dispatch (advance_workflow spec p ts)" by blast
qed

subsection \<open>Witnesses\<close>

definition diamond :: workflow_spec where
  "diamond = \<lparr>wf_steps =
     [\<lparr>st_name = ''load'', st_task = ''t-load'', st_depends_on = []\<rparr>,
      \<lparr>st_name = ''left'', st_task = ''t-left'', st_depends_on = [''load'']\<rparr>,
      \<lparr>st_name = ''right'', st_task = ''t-right'', st_depends_on = [''load'']\<rparr>,
      \<lparr>st_name = ''join'', st_task = ''t-join'', st_depends_on = [''left'', ''right'']\<rparr>],
     wf_continue_on_error = False, wf_description = None\<rparr>"

definition diamond_reports :: task_states where
  "diamond_reports = [(''t-load'', Task_Succeeded), (''t-left'', Task_Succeeded),
     (''t-right'', Task_Failed), (''t-join'', Task_Succeeded)]"

theorem workflow_finishes_witness:
  "wa_finished (advance_workflow diamond
     (fst (advance_run diamond ([], []) [diamond_reports, diamond_reports, diamond_reports])) diamond_reports)"
proof (rule workflow_finishes [where R = 2 and
      rank = "\<lambda>n. if n = ''load'' then 0 else if n = ''join'' then 2 else 1"])
  show "all_reported diamond diamond_reports"
    "\<forall>ts' \<in> set [diamond_reports, diamond_reports, diamond_reports]. all_reported diamond ts'"
    by (simp_all add: all_reported_def diamond_def diamond_reports_def hm_get_def)
qed (simp_all add: diamond_def ranked_def)

theorem workflow_cycle_never_starts_witness:
  "set (snd (advance_run (diamond\<lparr>wf_steps := [\<lparr>st_name = ''a'', st_task = ''t'', st_depends_on = [''b'']\<rparr>,
       \<lparr>st_name = ''b'', st_task = ''t'', st_depends_on = [''a'']\<rparr>]\<rparr>) ([], []) [diamond_reports]))
     \<inter> {''a'', ''b''} = {}"
  using workflow_cycle_never_starts [of "diamond\<lparr>wf_steps := [\<lparr>st_name = ''a'', st_task = ''t'', st_depends_on = [''b'']\<rparr>,
       \<lparr>st_name = ''b'', st_task = ''t'', st_depends_on = [''a'']\<rparr>]\<rparr>" "{''a'', ''b''}" "[diamond_reports]"]
  by (simp add: self_blocked_def)

end
