(* ===== verification/Registries.thy ===== *)
theory Registries
  imports Workflow
begin

text \<open>
  The controller's in-memory registries (\<^verbatim>\<open>orion-controller/src/main.rs\<close>): the log ring per
  workload (\<^verbatim>\<open>LogBuffer\<close>), the instances it believes to exist (\<^verbatim>\<open>InstanceRegistry\<close>), what it
  observed of schedules, health probes, nodes and workflows. Each registry is behind its own
  mutex, so one operation is one atomic step; a clock reading is the argument \<open>now\<close>.

  \<open>reg_wf\<close> is the invariant of the instance registry; \<open>reg_step\<close> collects its operations as
  events, and the interpretation \<open>reg\<close> of \<open>invariant_machine\<close> gives the invariant for every
  sequence of them.
\<close>

subsection \<open>Log rings\<close>

definition LOG_RING_CAPACITY :: nat where
  "LOG_RING_CAPACITY = 500"

record log_entry =
  le_at :: datetime
  le_node_id :: string
  le_stream :: string
  le_line :: string

type_synonym log_buffer = "(string \<times> string, log_entry list) hash_map"

record search_hit =
  hit_kind :: string
  hit_name :: string
  hit_at :: datetime
  hit_node_id :: string
  hit_stream :: string
  hit_line :: string

definition lb_push :: "string \<Rightarrow> string \<Rightarrow> log_entry \<Rightarrow> log_buffer \<Rightarrow> log_buffer" where
  "lb_push kind name e rings =
     (let ring = unwrap_or (hm_get rings (kind, name)) [];
          ring = (if LOG_RING_CAPACITY \<le> length ring then tl ring else ring)
      in hm_insert (kind, name) (ring @ [e]) rings)"

definition lb_snapshot :: "log_buffer \<Rightarrow> string \<Rightarrow> string \<Rightarrow> nat \<Rightarrow> log_entry list \<times> nat" where
  "lb_snapshot rings kind name since_seq =
     (case hm_get rings (kind, name) of
        Some ring \<Rightarrow>
          (let total = length ring; start = min since_seq total in (drop start ring, total))
      | None \<Rightarrow> ([], 0))"

definition lb_line_count :: "log_buffer \<Rightarrow> nat" where
  "lb_line_count rings = sum_list (map length (hm_values rings))"

definition ring_hits ::
  "string \<Rightarrow> string option \<Rightarrow> string option \<Rightarrow> (string \<times> string) \<times> log_entry list \<Rightarrow> search_hit list" where
  "ring_hits q kind_filter name_filter = (\<lambda>((kind, name), ring).
     if (case kind_filter of None \<Rightarrow> False | Some k \<Rightarrow> k \<noteq> kind) then []
     else if (case name_filter of None \<Rightarrow> False | Some n \<Rightarrow> n \<noteq> name) then []
     else map (\<lambda>e. \<lparr>hit_kind = kind, hit_name = name, hit_at = le_at e, hit_node_id = le_node_id e,
                    hit_stream = le_stream e, hit_line = le_line e\<rparr>)
            (filter (\<lambda>e. str_contains (le_line e) q) ring))"

definition lb_search ::
  "log_buffer \<Rightarrow> string \<Rightarrow> string option \<Rightarrow> string option \<Rightarrow> nat \<Rightarrow> search_hit list" where
  "lb_search rings q kind_filter name_filter limit =
     take limit (sort_key (\<lambda>h. - hit_at h) (concat (map (ring_hits q kind_filter name_filter) rings)))"

subsection \<open>Instances\<close>

record instance_record =
  ir_instance_id :: uuid
  ir_kind :: string
  ir_name :: string
  ir_node :: "string option"
  ir_replica_index :: u32
  ir_dispatched_at :: "datetime option"
  ir_first_seen_at :: "datetime option"
  ir_last_seen_at :: "datetime option"
  ir_line_count :: u32
  ir_exited_at :: "datetime option"
  ir_exit_code :: "i32 option"
  ir_exit_kind :: "string option"

record instance_registry =
  by_id :: "(uuid, instance_record) hash_map"
  by_workload :: "(string \<times> string, uuid list) hash_map"

definition instance_registry_default :: instance_registry where
  "instance_registry_default = \<lparr>by_id = [], by_workload = []\<rparr>"

definition index_instance ::
  "string \<times> string \<Rightarrow> uuid \<Rightarrow> (string \<times> string, uuid list) hash_map \<Rightarrow> (string \<times> string, uuid list) hash_map" where
  "index_instance key i m =
     (let ids = unwrap_or (hm_get m key) []
      in hm_insert key (if i \<in> set ids then ids else ids @ [i]) m)"

definition record_dispatch ::
  "datetime \<Rightarrow> uuid \<Rightarrow> string \<Rightarrow> string \<Rightarrow> string option \<Rightarrow> instance_registry \<Rightarrow> instance_registry" where
  "record_dispatch now i kind name node reg =
     (let r' = (case hm_get (by_id reg) i of
                  Some r \<Rightarrow> r\<lparr>ir_dispatched_at := Some now, ir_node := option_or node (ir_node r)\<rparr>
                | None \<Rightarrow> \<lparr>ir_instance_id = i, ir_kind = kind, ir_name = name, ir_node = node,
                    ir_replica_index = 0, ir_dispatched_at = Some now, ir_first_seen_at = None,
                    ir_last_seen_at = None, ir_line_count = 0, ir_exited_at = None,
                    ir_exit_code = None, ir_exit_kind = None\<rparr>)
      in \<lparr>by_id = hm_insert i r' (by_id reg), by_workload = index_instance (kind, name) i (by_workload reg)\<rparr>)"

definition note_line ::
  "uuid \<Rightarrow> string \<Rightarrow> string \<Rightarrow> string \<Rightarrow> u32 \<Rightarrow> datetime \<Rightarrow> instance_registry \<Rightarrow> instance_registry" where
  "note_line i kind name node replica_index seen reg =
     (let r' = (case hm_get (by_id reg) i of
                  Some r \<Rightarrow> r\<lparr>ir_first_seen_at := Some (unwrap_or (ir_first_seen_at r) seen),
                            ir_last_seen_at := Some seen,
                            ir_line_count := saturating_add (ir_line_count r) 1,
                            ir_replica_index := replica_index,
                            ir_node := option_or (ir_node r) (Some node)\<rparr>
                | None \<Rightarrow> \<lparr>ir_instance_id = i, ir_kind = kind, ir_name = name, ir_node = Some node,
                    ir_replica_index = replica_index, ir_dispatched_at = None,
                    ir_first_seen_at = Some seen, ir_last_seen_at = Some seen, ir_line_count = 1,
                    ir_exited_at = None, ir_exit_code = None, ir_exit_kind = None\<rparr>)
      in \<lparr>by_id = hm_insert i r' (by_id reg), by_workload = index_instance (kind, name) i (by_workload reg)\<rparr>)"

definition workload_ids :: "instance_registry \<Rightarrow> string \<Rightarrow> string \<Rightarrow> uuid list" where
  "workload_ids reg kind name = unwrap_or (hm_get (by_workload reg) (kind, name)) []"

definition workload_records :: "instance_registry \<Rightarrow> string \<Rightarrow> string \<Rightarrow> instance_record list" where
  "workload_records reg kind name = List.map_filter (hm_get (by_id reg)) (workload_ids reg kind name)"

definition snapshot_for :: "instance_registry \<Rightarrow> string \<Rightarrow> string \<Rightarrow> instance_record list" where
  "snapshot_for reg kind name = sort_key ir_replica_index (workload_records reg kind name)"

definition snapshot_all :: "instance_registry \<Rightarrow> instance_record list" where
  "snapshot_all reg = sort_key (\<lambda>r. (ir_kind r, ir_name r, ir_replica_index r)) (hm_values (by_id reg))"

definition drain_for :: "string \<Rightarrow> string \<Rightarrow> instance_registry \<Rightarrow> instance_record list \<times> instance_registry" where
  "drain_for kind name reg =
     (let ids = workload_ids reg kind name;
          (out, ids_left) = fold (\<lambda>i (out, m). case hm_get m i of
                None \<Rightarrow> (out, m) | Some r \<Rightarrow> (out @ [r], hm_remove i m)) ids ([], by_id reg)
      in (out, \<lparr>by_id = ids_left, by_workload = hm_remove (kind, name) (by_workload reg)\<rparr>))"

definition kind_for_name :: "instance_registry \<Rightarrow> string \<Rightarrow> string option" where
  "kind_for_name reg name = map_option ir_kind (find (\<lambda>r. ir_name r = name) (hm_values (by_id reg)))"

definition record_exit ::
  "datetime \<Rightarrow> uuid \<Rightarrow> i32 \<Rightarrow> string \<Rightarrow> instance_registry \<Rightarrow> instance_record option \<times> instance_registry" where
  "record_exit now i exit_code kind reg =
     (case hm_get (by_id reg) i of
        None \<Rightarrow> (None, reg)
      | Some r \<Rightarrow>
          (let r' = r\<lparr>ir_exited_at := Some now, ir_exit_code := Some exit_code, ir_exit_kind := Some kind\<rparr>
           in (Some r', reg\<lparr>by_id := hm_insert i r' (by_id reg)\<rparr>)))"

definition count_alive :: "instance_registry \<Rightarrow> string \<Rightarrow> string \<Rightarrow> u32" where
  "count_alive reg kind name =
     of_nat (length (filter (\<lambda>r. ir_exited_at r = None) (workload_records reg kind name)))"

definition purge_instance :: "uuid \<Rightarrow> instance_registry \<Rightarrow> instance_registry" where
  "purge_instance i reg =
     \<lparr>by_id = hm_remove i (by_id reg),
      by_workload = map (\<lambda>(k, ids). (k, filter (\<lambda>j. j \<noteq> i) ids)) (by_workload reg)\<rparr>"

subsection \<open>Schedules, health, nodes, workflows\<close>

record schedule_observation =
  so_armed_at :: datetime
  so_last_fired_at :: "datetime option"
  so_last_instance_id :: "uuid option"
  so_next_fire_at :: "datetime option"
  so_last_error :: "string option"
  so_fire_count :: u32

type_synonym schedule_registry = "(string, schedule_observation) hash_map"

definition fresh_observation :: "datetime \<Rightarrow> schedule_observation" where
  "fresh_observation now = \<lparr>so_armed_at = now, so_last_fired_at = None, so_last_instance_id = None,
     so_next_fire_at = None, so_last_error = None, so_fire_count = 0\<rparr>"

definition schedule_observe ::
  "datetime \<Rightarrow> string \<Rightarrow> (schedule_observation \<Rightarrow> schedule_observation) \<Rightarrow> schedule_registry \<Rightarrow> schedule_registry" where
  "schedule_observe now name f m =
     hm_insert name (f (unwrap_or (hm_get m name) (fresh_observation now))) m"

record health_snapshot =
  hs_service :: string
  hs_status :: string
  hs_consecutive_failures :: u32
  hs_last_at :: datetime
  hs_message :: "string option"

type_synonym health_registry = "(uuid, health_snapshot) hash_map"

definition health_record :: "uuid \<Rightarrow> health_snapshot \<Rightarrow> health_registry \<Rightarrow> health_registry" where
  "health_record i s m = hm_insert i s m"

definition health_purge :: "uuid \<Rightarrow> health_registry \<Rightarrow> health_registry" where
  "health_purge i m = hm_remove i m"

record workflow_progress =
  wp_steps :: progress
  wp_started_at :: datetime
  wp_finished_at :: "datetime option"

type_synonym workflow_registry = "(string, workflow_progress) hash_map"

subsection \<open>Lemmas: log rings\<close>

definition ring_of :: "log_buffer \<Rightarrow> string \<times> string \<Rightarrow> log_entry list" where
  "ring_of rings key = unwrap_or (hm_get rings key) []"

definition last_lines :: "'a list \<Rightarrow> 'a list" where
  "last_lines xs = drop (length xs - LOG_RING_CAPACITY) xs"

definition push_all :: "(string \<times> string \<times> log_entry) list \<Rightarrow> log_buffer \<Rightarrow> log_buffer" where
  "push_all ls rings = fold (\<lambda>(kind, name, e). lb_push kind name e) ls rings"

definition lines_of :: "string \<times> string \<Rightarrow> (string \<times> string \<times> log_entry) list \<Rightarrow> log_entry list" where
  "lines_of key ls = map (\<lambda>(_, _, e). e) (filter (\<lambda>(k, n, _). (k, n) = key) ls)"

lemma last_lines_snoc:
  "last_lines (xs @ [x]) =
     (if LOG_RING_CAPACITY \<le> length (last_lines xs) then tl (last_lines xs) else last_lines xs) @ [x]"
proof (cases "LOG_RING_CAPACITY \<le> length xs")
  case True
  then have "length (xs @ [x]) - LOG_RING_CAPACITY = Suc (length xs - LOG_RING_CAPACITY)" by simp
  then have "last_lines (xs @ [x]) = drop (Suc (length xs - LOG_RING_CAPACITY)) xs @ [x]"
    using True by (simp add: last_lines_def LOG_RING_CAPACITY_def)
  with True show ?thesis by (simp add: last_lines_def drop_Suc tl_drop)
qed (auto simp: last_lines_def)

lemma last_lines_append: "last_lines (last_lines xs @ ys) = last_lines (xs @ ys)"
proof (induction ys rule: rev_induct)
  case Nil
  show ?case by (simp add: last_lines_def)
next
  case (snoc y ys)
  then show ?case
    using last_lines_snoc [of "last_lines xs @ ys" y] last_lines_snoc [of "xs @ ys" y] by simp
qed

lemma last_lines_short: "length xs \<le> LOG_RING_CAPACITY \<Longrightarrow> last_lines xs = xs"
  by (simp add: last_lines_def)

lemma length_last_lines: "length (last_lines xs) = min (length xs) LOG_RING_CAPACITY"
  by (simp add: last_lines_def)

lemma ring_of_push:
  assumes "length (ring_of rings key) \<le> LOG_RING_CAPACITY"
  shows "ring_of (lb_push kind name e rings) key =
     (if key = (kind, name) then last_lines (ring_of rings key @ [e]) else ring_of rings key)"
  using assms last_lines_snoc [of "ring_of rings key" e] last_lines_short [of "ring_of rings key"]
  by (auto simp: lb_push_def ring_of_def Let_def)

lemma ring_of_push_all:
  assumes "length (ring_of rings key) \<le> LOG_RING_CAPACITY"
  shows "ring_of (push_all ls rings) key = last_lines (ring_of rings key @ lines_of key ls)"
  using assms
proof (induction ls arbitrary: rings)
  case Nil
  then show ?case by (simp add: push_all_def lines_of_def last_lines_short)
next
  case (Cons l ls)
  obtain kind name e where l: "l = (kind, name, e)" by (cases l)
  let ?r = "lb_push kind name e rings"
  have len: "length (ring_of ?r key) \<le> LOG_RING_CAPACITY"
    using Cons.prems by (simp add: ring_of_push length_last_lines)
  have "ring_of (push_all (l # ls) rings) key = last_lines (ring_of ?r key @ lines_of key ls)"
    using Cons.IH [OF len] by (simp add: push_all_def l)
  also have "\<dots> = last_lines (ring_of rings key @ lines_of key (l # ls))"
    using Cons.prems last_lines_append [of "ring_of rings key @ [e]" "lines_of key ls"]
    by (auto simp: ring_of_push lines_of_def l)
  finally show ?case .
qed

lemma lb_snapshot_eq:
  "lb_snapshot rings kind name since =
     (drop (min since (length (ring_of rings (kind, name)))) (ring_of rings (kind, name)),
      length (ring_of rings (kind, name)))"
  by (simp add: lb_snapshot_def ring_of_def Let_def split: option.split)

subsection \<open>Lemmas: the instance registry\<close>

definition reg_wf :: "instance_registry \<Rightarrow> bool" where
  "reg_wf reg \<longleftrightarrow>
     hm_wf (by_id reg) \<and> hm_wf (by_workload reg) \<and>
     (\<forall>kind name. distinct (workload_ids reg kind name)) \<and>
     (\<forall>i r. hm_get (by_id reg) i = Some r \<longrightarrow>
        ir_instance_id r = i \<and> i \<in> set (workload_ids reg (ir_kind r) (ir_name r)))"

lemma workload_ids_index [reg_simps]:
  "workload_ids \<lparr>by_id = b, by_workload = index_instance (kind, name) i m\<rparr> k n =
     (let ids = workload_ids \<lparr>by_id = b, by_workload = m\<rparr> k n
      in if (k, n) = (kind, name) \<and> i \<notin> set ids then ids @ [i] else ids)"
  by (auto simp: workload_ids_def index_instance_def Let_def)

lemma workload_ids_by_id [simp]: "workload_ids (reg\<lparr>by_id := b\<rparr>) = workload_ids reg"
  by (simp add: workload_ids_def fun_eq_iff)

lemma workload_ids_ext [simp]: "workload_ids \<lparr>by_id = b, by_workload = by_workload reg\<rparr> = workload_ids reg"
  by (simp add: workload_ids_def fun_eq_iff)

lemma workload_ids_purge [reg_simps]:
  "workload_ids (purge_instance i reg) kind name = filter (\<lambda>j. j \<noteq> i) (workload_ids reg kind name)"
proof -
  have "hm_get (map (\<lambda>(k, ids). (k, filter (\<lambda>j. j \<noteq> i) ids)) m) k = map_option (filter (\<lambda>j. j \<noteq> i)) (hm_get m k)"
    for m :: "(string \<times> string, uuid list) hash_map" and k
    by (induction m) (auto simp: hm_get_def)
  then show ?thesis
    by (cases "hm_get (by_workload reg) (kind, name)") (simp_all add: workload_ids_def purge_instance_def)
qed

lemma index_instance_wf: "hm_wf m \<Longrightarrow> hm_wf (index_instance key i m)"
  by (simp add: index_instance_def Let_def)

lemma reg_wf_put:
  assumes "reg_wf reg" and "ir_instance_id r = i"
    and "case hm_get (by_id reg) i of None \<Rightarrow> ir_kind r = kind \<and> ir_name r = name
         | Some old \<Rightarrow> ir_kind r = ir_kind old \<and> ir_name r = ir_name old"
  shows "reg_wf \<lparr>by_id = hm_insert i r (by_id reg), by_workload = index_instance (kind, name) i (by_workload reg)\<rparr>"
  using assms
  by (auto simp: reg_wf_def index_instance_wf workload_ids_index Let_def split: option.splits) metis

lemma reg_wf_default [inv_intros]: "reg_wf instance_registry_default"
  by (simp add: reg_wf_def instance_registry_default_def workload_ids_def)

lemma reg_wf_dispatch [inv_intros]: "reg_wf reg \<Longrightarrow> reg_wf (record_dispatch now i kind name node reg)"
  unfolding record_dispatch_def Let_def
  by (rule reg_wf_put) (auto simp: reg_wf_def split: option.splits)

lemma reg_wf_note [inv_intros]: "reg_wf reg \<Longrightarrow> reg_wf (note_line i kind name node ri seen reg)"
  unfolding note_line_def Let_def
  by (rule reg_wf_put) (auto simp: reg_wf_def split: option.splits)

lemma reg_wf_exit [inv_intros]: "reg_wf reg \<Longrightarrow> reg_wf (snd (record_exit now i code kind reg))"
  by (auto simp: record_exit_def reg_wf_def Let_def split: option.split)

lemma reg_wf_purge [inv_intros]: "reg_wf reg \<Longrightarrow> reg_wf (purge_instance i reg)"
proof -
  assume wf: "reg_wf reg"
  have "hm_wf (by_workload (purge_instance i reg))"
    using wf by (auto simp: reg_wf_def purge_instance_def hm_wf_def comp_def split_beta)
  moreover have "by_id (purge_instance i reg) = hm_remove i (by_id reg)"
    by (simp add: purge_instance_def)
  ultimately show ?thesis
    using wf by (auto simp: reg_wf_def workload_ids_purge)
qed

lemma drain_fold:
  assumes "distinct ids"
  shows "\<exists>m'. fold (\<lambda>i (out, m). case hm_get m i of None \<Rightarrow> (out, m) | Some r \<Rightarrow> (out @ [r], hm_remove i m))
       ids (acc, m) = (acc @ List.map_filter (hm_get m) ids, m') \<and>
     (hm_wf m \<longrightarrow> hm_wf m') \<and> (\<forall>j. hm_get m' j = (if j \<in> set ids then None else hm_get m j))"
  using assms
proof (induction ids arbitrary: acc m)
  case (Cons i ids)
  have same: "List.map_filter (hm_get (hm_remove i m)) ids = List.map_filter (hm_get m) ids"
    using Cons.prems by (auto simp: List.map_filter_def intro!: map_cong filter_cong)
  show ?case
  proof (cases "hm_get m i")
    case None
    with Cons.IH [of acc m] Cons.prems show ?thesis by (fastforce simp: List.map_filter_simps)
  next
    case (Some r)
    from Cons.IH [of "acc @ [r]" "hm_remove i m"] Cons.prems obtain m' where
      "fold (\<lambda>i (out, m). case hm_get m i of None \<Rightarrow> (out, m) | Some r \<Rightarrow> (out @ [r], hm_remove i m))
         ids (acc @ [r], hm_remove i m) = ((acc @ [r]) @ List.map_filter (hm_get m) ids, m')"
      "hm_wf (hm_remove i m) \<longrightarrow> hm_wf m'" "\<forall>j. hm_get m' j = (if j \<in> set ids then None else hm_get (hm_remove i m) j)"
      unfolding same by auto
    then show ?thesis using Some by (auto simp: List.map_filter_simps)
  qed
qed (auto simp: List.map_filter_def)

lemma drain_for_eq:
  assumes "reg_wf reg"
  shows "fst (drain_for kind name reg) = workload_records reg kind name \<and>
     by_workload (snd (drain_for kind name reg)) = hm_remove (kind, name) (by_workload reg) \<and>
     hm_wf (by_id (snd (drain_for kind name reg))) \<and>
     (\<forall>j. hm_get (by_id (snd (drain_for kind name reg))) j =
        (if j \<in> set (workload_ids reg kind name) then None else hm_get (by_id reg) j))"
proof -
  have "distinct (workload_ids reg kind name)" "hm_wf (by_id reg)"
    using assms by (auto simp: reg_wf_def)
  with drain_fold [of "workload_ids reg kind name" "[]" "by_id reg"] show ?thesis
    by (auto simp: drain_for_def workload_records_def Let_def)
qed

lemma reg_wf_drain [inv_intros]:
  assumes "reg_wf reg"
  shows "reg_wf (snd (drain_for kind name reg))"
proof -
  let ?reg' = "snd (drain_for kind name reg)"
  note d = drain_for_eq [OF assms, of kind name]
  have ids: "workload_ids ?reg' k n = (if (k, n) = (kind, name) then [] else workload_ids reg k n)" for k n
    using d by (simp add: workload_ids_def)
  show ?thesis
    unfolding reg_wf_def using assms d by (auto simp: ids reg_wf_def split: if_splits)
qed

text \<open>The operations as events.\<close>

datatype reg_event =
    Ev_Dispatch datetime uuid string string "string option"
  | Ev_Line uuid string string string u32 datetime
  | Ev_Exit datetime uuid i32 string
  | Ev_Purge uuid
  | Ev_Drain string string

fun reg_step :: "instance_registry \<Rightarrow> reg_event \<Rightarrow> instance_registry" where
  "reg_step reg (Ev_Dispatch now i kind name node) = record_dispatch now i kind name node reg"
| "reg_step reg (Ev_Line i kind name node ri seen) = note_line i kind name node ri seen reg"
| "reg_step reg (Ev_Exit now i code kind) = snd (record_exit now i code kind reg)"
| "reg_step reg (Ev_Purge i) = purge_instance i reg"
| "reg_step reg (Ev_Drain kind name) = snd (drain_for kind name reg)"

interpretation reg: invariant_machine reg_step reg_wf
proof unfold_locales
  show "reg_wf (reg_step r e)" if "reg_wf r" for r e
    using that by (cases e) (simp_all add: inv_intros)
qed

lemma set_map_filter: "set (List.map_filter f xs) = {y. \<exists>x \<in> set xs. f x = Some y}"
  by (force simp: List.map_filter_def)

lemma distinct_workload_records:
  assumes "reg_wf reg"
  shows "distinct (map ir_instance_id (workload_records reg kind name))"
proof -
  have "map ir_instance_id (List.map_filter (hm_get (by_id reg)) ids) = filter (\<lambda>i. hm_get (by_id reg) i \<noteq> None) ids" for ids
    using assms by (induction ids) (auto simp: List.map_filter_simps reg_wf_def split: option.split)
  then show ?thesis using assms by (simp add: workload_records_def reg_wf_def)
qed

lemma exited_stays:
  assumes "hm_get (by_id reg) i = Some r" and "ir_exited_at r \<noteq> None"
    and "hm_get (by_id (reg_step reg e)) i = Some r'" and "reg_wf reg"
  shows "ir_exited_at r' \<noteq> None"
proof (cases e)
  case (Ev_Drain kind name)
  with assms drain_for_eq [OF assms(4), of kind name] show ?thesis by (auto split: if_splits)
qed (use assms in \<open>auto simp: record_dispatch_def note_line_def record_exit_def purge_instance_def Let_def
       split: option.splits if_splits\<close>)

subsection \<open>Properties\<close>

text \<open>C13: the ring buffer of a workload holds exactly its last five hundred lines, in order,
  whatever lines of other workloads were interleaved.\<close>

theorem log_ring_refines:
  "ring_of (push_all ls []) (kind, name) = last_lines (lines_of (kind, name) ls) \<and>
   length (ring_of (push_all ls []) (kind, name)) \<le> LOG_RING_CAPACITY"
  using ring_of_push_all [of "[]" "(kind, name)" ls] by (simp add: ring_of_def length_last_lines)

text \<open>Further: following a log by passing the returned total as the next \<open>since\<close>: while at most
  five hundred lines were logged, each poll returns exactly the new lines; once five hundred
  were logged, no later poll returns any line at all.\<close>

theorem log_follow:
  "(length (lines_of (kind, name) (ls @ new)) \<le> LOG_RING_CAPACITY \<longrightarrow>
      lb_snapshot (push_all (ls @ new) []) kind name (snd (lb_snapshot (push_all ls []) kind name s))
        = (lines_of (kind, name) new, length (lines_of (kind, name) (ls @ new)))) \<and>
   (LOG_RING_CAPACITY \<le> length (lines_of (kind, name) ls) \<longrightarrow>
      lb_snapshot (push_all (ls @ new) []) kind name (snd (lb_snapshot (push_all ls []) kind name s))
        = ([], LOG_RING_CAPACITY))"
proof -
  have ring: "ring_of (push_all xs []) (kind, name) = last_lines (lines_of (kind, name) xs)" for xs
    using ring_of_push_all [of "[]" "(kind, name)" xs] by (simp add: ring_of_def)
  have app: "lines_of (kind, name) (ls @ new) = lines_of (kind, name) ls @ lines_of (kind, name) new"
    by (simp add: lines_of_def)
  show ?thesis
    unfolding lb_snapshot_eq ring by (auto simp: length_last_lines last_lines_short app min_def)
qed

theorem log_follow_witness:
  "lb_snapshot (push_all ([(''Task'', ''t'', \<lparr>le_at = 1, le_node_id = ''n'', le_stream = ''stdout'', le_line = ''a''\<rparr>)]
      @ [(''Task'', ''t'', \<lparr>le_at = 2, le_node_id = ''n'', le_stream = ''stdout'', le_line = ''b''\<rparr>)]) []) ''Task'' ''t''
      (snd (lb_snapshot (push_all [(''Task'', ''t'', \<lparr>le_at = 1, le_node_id = ''n'', le_stream = ''stdout'', le_line = ''a''\<rparr>)] [])
         ''Task'' ''t'' 0))
   = ([\<lparr>le_at = 2, le_node_id = ''n'', le_stream = ''stdout'', le_line = ''b''\<rparr>], 2)"
  using log_follow [of "''Task''" "''t''"
      "[(''Task'', ''t'', \<lparr>le_at = 1, le_node_id = ''n'', le_stream = ''stdout'', le_line = ''a''\<rparr>)]"
      "[(''Task'', ''t'', \<lparr>le_at = 2, le_node_id = ''n'', le_stream = ''stdout'', le_line = ''b''\<rparr>)]" 0]
  by (simp add: lines_of_def LOG_RING_CAPACITY_def)

text \<open>Further: a log search returns at most the requested number of hits, newest first; every hit is
  a buffered line that contains the text and passes the filters, and nothing is left out when
  fewer lines match than were asked for.\<close>

theorem log_search_spec:
  "length (lb_search rings q kf nf limit) \<le> limit \<and>
   sorted (map (\<lambda>h. - hit_at h) (lb_search rings q kf nf limit)) \<and>
   set (lb_search rings q kf nf limit) \<subseteq> \<Union> ((set \<circ> ring_hits q kf nf) ` set rings) \<and>
   (length (concat (map (ring_hits q kf nf) rings)) \<le> limit \<longrightarrow>
      set (lb_search rings q kf nf limit) = \<Union> ((set \<circ> ring_hits q kf nf) ` set rings))"
proof -
  let ?all = "sort_key (\<lambda>h. - hit_at h) (concat (map (ring_hits q kf nf) rings))"
  have "set ?all = \<Union> ((set \<circ> ring_hits q kf nf) ` set rings)" by auto
  moreover have "set (take limit ?all) \<subseteq> set ?all" by (rule set_take_subset)
  moreover have "sorted (map (\<lambda>h. - hit_at h) (take limit ?all))"
    unfolding take_map [symmetric] by (rule sorted_wrt_take) (rule sorted_sort_key)
  moreover have "set (take limit ?all) = set ?all" if "length (concat (map (ring_hits q kf nf) rings)) \<le> limit"
    using that by simp
  ultimately show ?thesis unfolding lb_search_def by auto
qed

theorem log_search_spec_witness:
  "set (lb_search [((''Task'', ''t''), [\<lparr>le_at = 1, le_node_id = ''n'', le_stream = ''stdout'', le_line = ''abc''\<rparr>])]
      ''b'' None (Some ''t'') 5) =
   set (ring_hits ''b'' None (Some ''t'')
      ((''Task'', ''t''), [\<lparr>le_at = 1, le_node_id = ''n'', le_stream = ''stdout'', le_line = ''abc''\<rparr>]))"
  using log_search_spec [of "[((''Task'', ''t''), [\<lparr>le_at = 1, le_node_id = ''n'', le_stream = ''stdout'', le_line = ''abc''\<rparr>])]"
      "''b''" None "Some ''t''" 5]
  by (simp add: ring_hits_def)

text \<open>Further: after any sequence of dispatches, log lines, exits, purges and drains, the instances
  shown for a workload contain every registered instance of it, no instance twice, ordered by
  replica index; and every registered instance is filed under its own identifier.\<close>

theorem registry_views:
  assumes "reg = foldl reg_step instance_registry_default es"
  shows "{r. r \<in> set (snapshot_all reg) \<and> ir_kind r = kind \<and> ir_name r = name} \<subseteq> set (snapshot_for reg kind name)
     \<and> distinct (map ir_instance_id (snapshot_for reg kind name))
     \<and> sorted (map ir_replica_index (snapshot_for reg kind name))
     \<and> distinct (map ir_instance_id (snapshot_all reg))"
proof -
  have wf: "reg_wf reg"
    unfolding assms by (rule reg.inv_run) (rule reg_wf_default)
  then have m: "hm_wf (by_id reg)" by (simp add: reg_wf_def)
  have "r \<in> set (workload_records reg kind name)"
    if "r \<in> set (hm_values (by_id reg))" "ir_kind r = kind" "ir_name r = name" for r
    using that wf m by (auto simp: workload_records_def set_map_filter set_hm_values reg_wf_def)
  moreover have "distinct (map ir_instance_id (sort_key f (workload_records reg kind name)))" for f :: "instance_record \<Rightarrow> u32"
    using distinct_workload_records [OF wf, of kind name] by (auto simp: distinct_map)
  moreover have "map ir_instance_id (hm_values (by_id reg)) = map fst (by_id reg)"
    using wf m by (auto simp: hm_values_def reg_wf_def hm.entries_iff [symmetric])
  then have "distinct (map ir_instance_id (hm_values (by_id reg)))"
    using m by (simp add: hm_wf_def)
  ultimately show ?thesis
    by (auto simp: snapshot_for_def snapshot_all_def distinct_map)
qed

theorem registry_views_witness:
  "\<exists>reg. sorted (map ir_replica_index (snapshot_for reg ''Service'' ''web'')) \<and> by_id reg \<noteq> []"
proof -
  let ?reg = "foldl reg_step instance_registry_default [Ev_Dispatch 1 7 ''Service'' ''web'' (Some ''n'')]"
  have "by_id ?reg \<noteq> []"
    by (simp add: record_dispatch_def instance_registry_default_def Let_def hm_insert_def)
  with registry_views [of ?reg "[Ev_Dispatch 1 7 ''Service'' ''web'' (Some ''n'')]" "''Service''" "''web''"]
  show ?thesis by blast
qed

text \<open>Further: an instance whose exit was recorded is never shown alive again while it stays
  registered, whatever arrives next; but a log line that arrives after the instance was purged
  registers it anew, as alive.\<close>

theorem exit_permanent_until_purged:
  assumes "reg = foldl reg_step instance_registry_default es"
    and "hm_get (by_id reg) i = Some r" and "ir_exited_at r \<noteq> None"
  shows "(\<forall>r'. hm_get (by_id (reg_step reg e)) i = Some r' \<longrightarrow> ir_exited_at r' \<noteq> None) \<and>
     (\<exists>r'. hm_get (by_id (foldl reg_step reg [Ev_Purge i, Ev_Line i kind name node ri seen])) i = Some r' \<and>
        ir_exited_at r' = None)"
proof -
  have "reg_wf reg"
    unfolding assms(1) by (rule reg.inv_run) (rule reg_wf_default)
  with exited_stays [OF assms(2,3)] show ?thesis
    by (auto simp: note_line_def purge_instance_def Let_def)
qed

theorem exit_permanent_until_purged_witness:
  "\<exists>r'. hm_get (by_id (foldl reg_step instance_registry_default
      [Ev_Dispatch 1 7 ''Service'' ''web'' (Some ''n''), Ev_Exit 2 7 0 ''succeeded'', Ev_Purge 7,
       Ev_Line 7 ''Service'' ''web'' ''n'' 0 3])) 7 = Some r' \<and> ir_exited_at r' = None"
  using exit_permanent_until_purged [OF refl, of "[Ev_Dispatch 1 7 ''Service'' ''web'' (Some ''n''), Ev_Exit 2 7 0 ''succeeded'']" 7
      _ "Ev_Purge 7" "''Service''" "''web''" "''n''" 0 3]
  by (simp add: record_dispatch_def record_exit_def instance_registry_default_def Let_def)

text \<open>Further: draining a workload returns its registered instances and leaves none of them, nor any
  other record of that workload, behind.\<close>

theorem drain_complete:
  assumes "reg = foldl reg_step instance_registry_default es"
  shows "fst (drain_for kind name reg) = workload_records reg kind name \<and>
     snapshot_for (snd (drain_for kind name reg)) kind name = [] \<and>
     (\<forall>i r. hm_get (by_id (snd (drain_for kind name reg))) i = Some r \<longrightarrow>
        hm_get (by_id reg) i = Some r \<and> (ir_kind r, ir_name r) \<noteq> (kind, name))"
proof -
  have wf: "reg_wf reg"
    unfolding assms by (rule reg.inv_run) (rule reg_wf_default)
  note d = drain_for_eq [OF this, of kind name]
  then have "workload_ids (snd (drain_for kind name reg)) kind name = []"
    by (simp add: workload_ids_def)
  then have "snapshot_for (snd (drain_for kind name reg)) kind name = []"
    by (simp add: snapshot_for_def workload_records_def List.map_filter_simps)
  moreover have "hm_get (by_id reg) i = Some r \<and> (ir_kind r, ir_name r) \<noteq> (kind, name)"
    if "hm_get (by_id (snd (drain_for kind name reg))) i = Some r" for i r
    using that d wf by (auto simp: reg_wf_def split: if_splits)
  ultimately show ?thesis using d by blast
qed

theorem drain_complete_witness:
  "snapshot_for (snd (drain_for ''Service'' ''web''
     (foldl reg_step instance_registry_default [Ev_Dispatch 1 7 ''Service'' ''web'' (Some ''n'')]))) ''Service'' ''web'' = []"
  using drain_complete [OF refl, where es = "[Ev_Dispatch 1 7 ''Service'' ''web'' (Some ''n'')]"
      and kind = "''Service''" and name = "''web''"]
  by blast

end
