(* ===== verification/Store.thy ===== *)
theory Store
  imports Orion_Types
begin

text \<open>
  The controller's persistence (\<^verbatim>\<open>crates/orion-store\<close>): declared resources, observed nodes and
  the log archive. A table with a primary key is a map from the key to the other columns, the
  archive is the list of its rows in the order of their identifiers; a missing table is
  \<open>None\<close>. A query against a missing table, or while the database reports a fault, returns the
  error and changes nothing.

  The JSON codec of resources and the RFC 3339 printing and parsing of time stamps belong to
  other crates and are fields of the record \<open>store_ext\<close>; columns hold the encoded strings, as in
  the database, so the archive compares time stamps as strings. A clock reading is the argument
  \<open>now\<close>.

  The locale \<open>resource_store\<close> is the contract the controller relies on; the store's own
  operations are its interpretation \<open>rst\<close>.
\<close>

subsection \<open>Tables\<close>

datatype store_error = Sql string | Json_Error string

type_synonym resource_key = "string \<times> string \<times> string"

record resource_row =
  row_generation :: i64
  row_body :: string
  row_updated_at :: string

record node_row =
  nd_agent_version :: string
  nd_inventory :: "string option"
  nd_last_seen_at :: string

record log_row =
  lr_at :: string
  lr_kind :: string
  lr_name :: string
  lr_node_id :: string
  lr_stream :: string
  lr_line :: string

record db =
  db_fault :: "string option"
  db_resource :: "(resource_key, resource_row) hash_map option"
  db_observed_node :: "(string, node_row) hash_map option"
  db_log_archive :: "log_row list option"

record store_ext =
  ex_encode_resource :: "resource \<Rightarrow> string + string"
  ex_decode_resource :: "string \<Rightarrow> string + resource"
  ex_to_rfc3339 :: "datetime \<Rightarrow> string"
  ex_parse_rfc3339 :: "string \<Rightarrow> datetime option"

definition ensure_tables :: "db \<Rightarrow> store_error + db" where
  "ensure_tables d =
     (case db_fault d of
        Some e \<Rightarrow> Inl (Sql e)
      | None \<Rightarrow> Inr (d\<lparr>db_resource := Some (unwrap_or (db_resource d) []),
                      db_observed_node := Some (unwrap_or (db_observed_node d) [])\<rparr>))"

definition query :: "(db \<Rightarrow> 't option) \<Rightarrow> db \<Rightarrow> store_error + 't" where
  "query table d =
     (case db_fault d of
        Some e \<Rightarrow> Inl (Sql e)
      | None \<Rightarrow> ok_or (table d) (Sql ''no such table''))"

subsection \<open>Resources\<close>

definition resource_key_of :: "resource \<Rightarrow> resource_key" where
  "resource_key_of r = (kind_str r, unwrap_or (md_namespace (rs_metadata r)) ''_'', md_name (rs_metadata r))"

definition next_generation :: "resource_row option \<Rightarrow> string \<Rightarrow> i64" where
  "next_generation existing body =
     (case existing of
        Some row \<Rightarrow> if row_body row = body then row_generation row else row_generation row + 1
      | None \<Rightarrow> 1)"

text \<open>The two statements of an upsert: read the existing row, then write.\<close>

definition upsert_read :: "store_ext \<Rightarrow> resource \<Rightarrow> db \<Rightarrow> store_error + (string \<times> i64)" where
  "upsert_read ext r d =
     (case ex_encode_resource ext r of
        Inl e \<Rightarrow> Inl (Json_Error e)
      | Inr body \<Rightarrow>
          (case query db_resource d of
             Inl e \<Rightarrow> Inl e
           | Inr rows \<Rightarrow> Inr (body, next_generation (hm_get rows (resource_key_of r)) body)))"

definition upsert_write ::
  "store_ext \<Rightarrow> datetime \<Rightarrow> resource \<Rightarrow> string \<Rightarrow> i64 \<Rightarrow> db \<Rightarrow> (store_error + u64) \<times> db" where
  "upsert_write ext now r body next_gen d =
     (case query db_resource d of
        Inl e \<Rightarrow> (Inl e, d)
      | Inr rows \<Rightarrow>
          (Inr next_gen,
           d\<lparr>db_resource := Some (hm_insert (resource_key_of r)
               \<lparr>row_generation = next_gen, row_body = body, row_updated_at = ex_to_rfc3339 ext now\<rparr> rows)\<rparr>))"

definition upsert_resource :: "store_ext \<Rightarrow> datetime \<Rightarrow> resource \<Rightarrow> db \<Rightarrow> (store_error + u64) \<times> db" where
  "upsert_resource ext now r d =
     (case upsert_read ext r d of
        Inl e \<Rightarrow> (Inl e, d)
      | Inr (body, next_gen) \<Rightarrow> upsert_write ext now r body next_gen d)"

definition get_resource :: "store_ext \<Rightarrow> db \<Rightarrow> resource_key \<Rightarrow> store_error + resource option" where
  "get_resource ext d k =
     (case query db_resource d of
        Inl e \<Rightarrow> Inl e
      | Inr rows \<Rightarrow>
          (case hm_get rows k of
             None \<Rightarrow> Inr None
           | Some row \<Rightarrow>
               (case ex_decode_resource ext (row_body row) of
                  Inl e \<Rightarrow> Inl (Json_Error e)
                | Inr r \<Rightarrow> Inr (Some r))))"

fun decode_all :: "store_ext \<Rightarrow> string list \<Rightarrow> store_error + resource list" where
  "decode_all ext [] = Inr []"
| "decode_all ext (b # bs) =
     (case ex_decode_resource ext b of
        Inl e \<Rightarrow> Inl (Json_Error e)
      | Inr r \<Rightarrow>
          (case decode_all ext bs of
             Inl e \<Rightarrow> Inl e
           | Inr rs \<Rightarrow> Inr (r # rs)))"

text \<open>\<^verbatim>\<open>ORDER BY name\<close>; rows of one name in different namespaces keep the table's order.\<close>

definition list_by_kind :: "store_ext \<Rightarrow> db \<Rightarrow> string \<Rightarrow> store_error + resource list" where
  "list_by_kind ext d kind =
     (case query db_resource d of
        Inl e \<Rightarrow> Inl e
      | Inr rows \<Rightarrow>
          decode_all ext
            (map (\<lambda>(k, row). row_body row)
               (sort_key (\<lambda>((_, _, name), _). name) (filter (\<lambda>((kd, _, _), _). kd = kind) rows))))"

definition delete_resource :: "resource_key \<Rightarrow> db \<Rightarrow> (store_error + bool) \<times> db" where
  "delete_resource k d =
     (case query db_resource d of
        Inl e \<Rightarrow> (Inl e, d)
      | Inr rows \<Rightarrow> (Inr (hm_get rows k \<noteq> None), d\<lparr>db_resource := Some (hm_remove k rows)\<rparr>))"

subsection \<open>Observed nodes (\<^verbatim>\<open>node_cache.rs\<close>)\<close>

record observed_node =
  on_node_id :: string
  on_agent_version :: string
  on_inventory_json :: "string option"
  on_last_seen_at :: datetime

definition touch_node :: "store_ext \<Rightarrow> datetime \<Rightarrow> string \<Rightarrow> string \<Rightarrow> db \<Rightarrow> (store_error + unit) \<times> db" where
  "touch_node ext now node_id agent_version d =
     (case query db_observed_node d of
        Inl e \<Rightarrow> (Inl e, d)
      | Inr rows \<Rightarrow>
          (let inv = (case hm_get rows node_id of None \<Rightarrow> None | Some row \<Rightarrow> nd_inventory row)
           in (Inr (), d\<lparr>db_observed_node := Some (hm_insert node_id
                 \<lparr>nd_agent_version = agent_version, nd_inventory = inv,
                  nd_last_seen_at = ex_to_rfc3339 ext now\<rparr> rows)\<rparr>)))"

definition set_node_inventory ::
  "store_ext \<Rightarrow> datetime \<Rightarrow> string \<Rightarrow> string \<Rightarrow> string \<Rightarrow> db \<Rightarrow> (store_error + unit) \<times> db" where
  "set_node_inventory ext now node_id agent_version inventory_json d =
     (case query db_observed_node d of
        Inl e \<Rightarrow> (Inl e, d)
      | Inr rows \<Rightarrow>
          (Inr (), d\<lparr>db_observed_node := Some (hm_insert node_id
             \<lparr>nd_agent_version = agent_version, nd_inventory = Some inventory_json,
              nd_last_seen_at = ex_to_rfc3339 ext now\<rparr> rows)\<rparr>))"

definition observed_of_row :: "store_ext \<Rightarrow> datetime \<Rightarrow> string \<times> node_row \<Rightarrow> observed_node" where
  "observed_of_row ext now = (\<lambda>(node_id, row).
     \<lparr>on_node_id = node_id, on_agent_version = nd_agent_version row,
      on_inventory_json = nd_inventory row,
      on_last_seen_at = unwrap_or (ex_parse_rfc3339 ext (nd_last_seen_at row)) now\<rparr>)"

definition list_nodes :: "store_ext \<Rightarrow> datetime \<Rightarrow> db \<Rightarrow> store_error + observed_node list" where
  "list_nodes ext now d =
     (case query db_observed_node d of
        Inl e \<Rightarrow> Inl e
      | Inr rows \<Rightarrow> Inr (map (observed_of_row ext now) (sort_key fst rows)))"

subsection \<open>The log archive (\<^verbatim>\<open>logs.rs\<close>)\<close>

record log_archive_entry =
  la_at :: datetime
  la_kind :: string
  la_name :: string
  la_node_id :: string
  la_stream :: string
  la_line :: string

definition append_log ::
  "store_ext \<Rightarrow> datetime \<Rightarrow> string \<Rightarrow> string \<Rightarrow> string \<Rightarrow> string \<Rightarrow> string \<Rightarrow> db \<Rightarrow> (store_error + unit) \<times> db" where
  "append_log ext now kind name node_id stream line d =
     (case query db_log_archive d of
        Inl e \<Rightarrow> (Inl e, d)
      | Inr rows \<Rightarrow>
          (Inr (), d\<lparr>db_log_archive := Some (rows @
             [\<lparr>lr_at = ex_to_rfc3339 ext now, lr_kind = kind, lr_name = name, lr_node_id = node_id,
               lr_stream = stream, lr_line = line\<rparr>])\<rparr>))"

definition clamp_limit :: "i64 \<Rightarrow> nat" where
  "clamp_limit limit = nat (max 1 (min 100000 (sint limit)))"

definition entry_of_row :: "store_ext \<Rightarrow> datetime \<Rightarrow> log_row \<Rightarrow> log_archive_entry" where
  "entry_of_row ext now row =
     \<lparr>la_at = unwrap_or (ex_parse_rfc3339 ext (lr_at row)) now, la_kind = lr_kind row,
      la_name = lr_name row, la_node_id = lr_node_id row, la_stream = lr_stream row, la_line = lr_line row\<rparr>"

definition read_logs ::
  "store_ext \<Rightarrow> datetime \<Rightarrow> string \<Rightarrow> string \<Rightarrow> datetime option \<Rightarrow> i64 \<Rightarrow> db \<Rightarrow>
     store_error + log_archive_entry list" where
  "read_logs ext now kind name since limit d =
     (case query db_log_archive d of
        Inl e \<Rightarrow> Inl e
      | Inr rows \<Rightarrow>
          (let hit = (\<lambda>row. lr_kind row = kind \<and> lr_name row = name \<and>
                 (case since of None \<Rightarrow> True | Some ts \<Rightarrow> ex_to_rfc3339 ext ts < lr_at row))
           in Inr (map (entry_of_row ext now) (take (clamp_limit limit) (rev (filter hit rows))))))"

definition purge_old_logs :: "store_ext \<Rightarrow> datetime \<Rightarrow> u32 \<Rightarrow> db \<Rightarrow> (store_error + u64) \<times> db" where
  "purge_old_logs ext now retention_days d =
     (case query db_log_archive d of
        Inl e \<Rightarrow> (Inl e, d)
      | Inr rows \<Rightarrow>
          (let cutoff = ex_to_rfc3339 ext (now - int (unat retention_days) * 86400 * 10 ^ 9);
               old = (\<lambda>row. lr_at row < cutoff)
           in (Inr (of_nat (length (filter old rows))),
               d\<lparr>db_log_archive := Some (filter (\<lambda>row. \<not> old row) rows)\<rparr>)))"

subsection \<open>The contract\<close>

text \<open>A resource the codec reads back as it was written; a database that answers queries and
  whose keys are unique.\<close>

definition storable :: "store_ext \<Rightarrow> resource \<Rightarrow> bool" where
  "storable ext r =
     (case ex_encode_resource ext r of Inl _ \<Rightarrow> False | Inr b \<Rightarrow> ex_decode_resource ext b = Inr r)"

definition db_ready :: "db \<Rightarrow> bool" where
  "db_ready d \<longleftrightarrow> db_fault d = None \<and>
     (case db_resource d of None \<Rightarrow> False | Some rows \<Rightarrow> hm_wf rows)"

locale resource_store =
  fixes ready :: "'d \<Rightarrow> bool"
    and good :: "'r \<Rightarrow> bool"
    and key :: "'r \<Rightarrow> 'k"
    and fetch :: "'d \<Rightarrow> 'k \<Rightarrow> 'e + 'r option"
    and save :: "'r \<Rightarrow> 'd \<Rightarrow> 'd"
    and erase :: "'k \<Rightarrow> 'd \<Rightarrow> 'd"
  assumes fetch_save: "ready d \<Longrightarrow> good r \<Longrightarrow>
      fetch (save r d) k = (if k = key r then Inr (Some r) else fetch d k)"
    and fetch_erase: "ready d \<Longrightarrow> fetch (erase k d) j = (if j = k then Inr None else fetch d j)"
    and ready_save: "ready d \<Longrightarrow> ready (save r d)"
    and ready_erase: "ready d \<Longrightarrow> ready (erase k d)"
begin

lemma ready_saves: "ready d \<Longrightarrow> ready (fold save rs d)"
  by (induction rs arbitrary: d) (auto simp: ready_save)

text \<open>A batch of saves: the last resource of a key wins, other keys are untouched.\<close>

lemma fetch_saves:
  assumes "ready d" and "list_all good rs"
  shows "fetch (fold save rs d) k =
    (case find (\<lambda>r. key r = k) (rev rs) of None \<Rightarrow> fetch d k | Some r \<Rightarrow> Inr (Some r))"
  using assms
proof (induction rs rule: rev_induct)
  case (snoc r rs)
  then show ?case by (auto simp: fetch_save ready_saves)
qed simp

lemma erase_after_save: "ready d \<Longrightarrow> good r \<Longrightarrow> fetch (erase (key r) (save r d)) (key r) = Inr None"
  by (simp add: fetch_erase ready_save)

lemma save_last_wins:
  "ready d \<Longrightarrow> good r \<Longrightarrow> good s \<Longrightarrow> key r = key s \<Longrightarrow> fetch (save s (save r d)) = fetch (save s d)"
  by (auto simp: fun_eq_iff fetch_save ready_save)

end

subsection \<open>Lemmas\<close>

lemma db_ready_query:
  "db_ready d \<Longrightarrow> \<exists>rows. query db_resource d = Inr rows \<and> db_resource d = Some rows \<and> hm_wf rows"
  by (auto simp: db_ready_def query_def split: option.splits)

lemma query_update [simp]:
  "query db_resource (d\<lparr>db_resource := Some rows\<rparr>) = (case db_fault d of Some e \<Rightarrow> Inl (Sql e) | None \<Rightarrow> Inr rows)"
  by (simp add: query_def split: option.split)

lemma db_ready_update: "db_ready d \<Longrightarrow> hm_wf rows \<Longrightarrow> db_ready (d\<lparr>db_resource := Some rows\<rparr>)"
  by (simp add: db_ready_def)

lemma db_ready_no_fault [simp]: "db_ready d \<Longrightarrow> db_fault d = None"
  by (simp add: db_ready_def)

interpretation rst: resource_store db_ready "storable ext" resource_key_of "get_resource ext"
  "\<lambda>r d. snd (upsert_resource ext now r d)" "\<lambda>k d. snd (delete_resource k d)" for ext now
proof unfold_locales
  fix d :: db and r :: resource and k j :: resource_key
  assume d: "db_ready d"
  then obtain rows where rows: "query db_resource d = Inr rows" "db_resource d = Some rows" "hm_wf rows"
    using db_ready_query by blast
  show "get_resource ext (snd (delete_resource k d)) j = (if j = k then Inr None else get_resource ext d j)"
    using d rows by (simp add: delete_resource_def get_resource_def)
  show "db_ready (snd (delete_resource k d))"
    using d rows by (simp add: delete_resource_def db_ready_update)
  show "db_ready (snd (upsert_resource ext now r d))"
    using d rows by (auto simp: upsert_resource_def upsert_read_def upsert_write_def
        intro: db_ready_update split: sum.split)
  show "get_resource ext (snd (upsert_resource ext now r d)) k
      = (if k = resource_key_of r then Inr (Some r) else get_resource ext d k)" if "storable ext r"
    using d rows that
    by (auto simp: upsert_resource_def upsert_read_def upsert_write_def get_resource_def storable_def
        split: sum.splits)
qed

text \<open>Every row holds a resource that decodes and sits under its own key. Upserts of storable
  resources and deletions keep it so.\<close>

definition rows_faithful :: "store_ext \<Rightarrow> db \<Rightarrow> bool" where
  "rows_faithful ext d =
     (case db_resource d of
        None \<Rightarrow> False
      | Some rows \<Rightarrow> list_all (\<lambda>(k, row). case ex_decode_resource ext (row_body row) of
             Inl _ \<Rightarrow> False | Inr r \<Rightarrow> resource_key_of r = k) rows)"

lemma rows_faithful_iff:
  assumes "db_resource d = Some rows" and "hm_wf rows"
  shows "rows_faithful ext d \<longleftrightarrow>
    (\<forall>k row. hm_get rows k = Some row \<longrightarrow> (\<exists>r. ex_decode_resource ext (row_body row) = Inr r \<and> resource_key_of r = k))"
proof -
  have "rows_faithful ext d \<longleftrightarrow> (\<forall>(k, row) \<in> set rows.
      (\<exists>r. ex_decode_resource ext (row_body row) = Inr r \<and> resource_key_of r = k))"
    using assms(1) by (simp add: rows_faithful_def list_all_iff case_Inr_iff)
  also have "\<dots> \<longleftrightarrow> (\<forall>k row. hm_get rows k = Some row \<longrightarrow>
      (\<exists>r. ex_decode_resource ext (row_body row) = Inr r \<and> resource_key_of r = k))"
    by (rule hm.all_entries_iff [OF assms(2)])
  finally show ?thesis .
qed

lemma rows_faithful_upsert [inv_intros]:
  assumes "db_ready d" and "rows_faithful ext d" and "storable ext r"
  shows "rows_faithful ext (snd (upsert_resource ext now r d))"
proof -
  obtain rows where rows: "query db_resource d = Inr rows" "db_resource d = Some rows" "hm_wf rows"
    using db_ready_query [OF assms(1)] by blast
  from assms(3) obtain b where b: "ex_encode_resource ext r = Inr b" "ex_decode_resource ext b = Inr r"
    by (auto simp: storable_def split: sum.splits)
  let ?row = "\<lparr>row_generation = next_generation (hm_get rows (resource_key_of r)) b, row_body = b,
      row_updated_at = ex_to_rfc3339 ext now\<rparr>"
  have d': "db_resource (snd (upsert_resource ext now r d)) = Some (hm_insert (resource_key_of r) ?row rows)"
    using rows b by (simp add: upsert_resource_def upsert_read_def upsert_write_def)
  show ?thesis
    unfolding rows_faithful_iff [OF d' hm.wf_put [OF rows(3)]]
    using assms(2) b(2) unfolding rows_faithful_iff [OF rows(2,3)] by auto
qed

lemma rows_faithful_delete [inv_intros]:
  assumes "db_ready d" and "rows_faithful ext d"
  shows "rows_faithful ext (snd (delete_resource k d))"
proof -
  obtain rows where rows: "query db_resource d = Inr rows" "db_resource d = Some rows" "hm_wf rows"
    using db_ready_query [OF assms(1)] by blast
  have d': "db_resource (snd (delete_resource k d)) = Some (hm_remove k rows)"
    using rows by (simp add: delete_resource_def)
  show ?thesis
    unfolding rows_faithful_iff [OF d' hm.wf_del [OF rows(3)]]
    using assms(2) unfolding rows_faithful_iff [OF rows(2,3)] by auto
qed

lemma decode_all_ok:
  assumes "list_all (\<lambda>b. \<exists>r. ex_decode_resource ext b = Inr r) bs"
  shows "decode_all ext bs = Inr (map (\<lambda>b. projr (ex_decode_resource ext b)) bs)"
  using assms by (induction bs) auto

lemma list_by_kind_ok:
  assumes "db_ready d" and "rows_faithful ext d"
  shows "\<exists>rs. list_by_kind ext d kind = Inr rs \<and>
     (\<forall>r. r \<in> set rs \<longleftrightarrow> kind_str r = kind \<and> get_resource ext d (resource_key_of r) = Inr (Some r)) \<and>
     sorted (map resource_name_of rs)"
proof -
  obtain rows where rows: "query db_resource d = Inr rows" "db_resource d = Some rows" "hm_wf rows"
    using db_ready_query [OF assms(1)] by blast
  define sel where "sel = sort_key (\<lambda>((_, _, name), _). name) (filter (\<lambda>((kd, _, _), _). kd = kind) rows)"
  let ?dec = "\<lambda>e. projr (ex_decode_resource ext (row_body (snd e)))"
  have ok: "\<exists>r. ex_decode_resource ext (row_body row) = Inr r \<and> resource_key_of r = k"
    if "(k, row) \<in> set rows" for k row
    using assms(2) that unfolding rows_faithful_iff [OF rows(2,3)] hm.entries_iff [OF rows(3)] by blast
  have sel: "set sel = {(k, row) \<in> set rows. fst k = kind}"
    by (auto simp: sel_def)
  have lst: "list_by_kind ext d kind = Inr (map ?dec sel)"
    using ok sel rows(1) by (simp add: list_by_kind_def sel_def [symmetric] split_beta)
      (subst decode_all_ok, fastforce simp: list_all_iff, simp)
  have mem: "r \<in> set (map ?dec sel) \<longleftrightarrow> kind_str r = kind \<and> get_resource ext d (resource_key_of r) = Inr (Some r)" for r
    using sel ok rows
    by (fastforce simp: get_resource_def hm.entries_iff resource_key_of_def image_iff split: option.splits sum.splits)
  have names: "map resource_name_of (map ?dec sel) = map (\<lambda>((_, _, name), _). name) sel"
    using sel ok by (fastforce simp: resource_key_of_def resource_name_of_def)
  moreover have "sorted (map (\<lambda>((_, _, name), _). name) sel)"
    unfolding sel_def by (rule sorted_sort_key)
  ultimately show ?thesis using lst mem by metis
qed

text \<open>Archive rows with their time stamps written in RFC 3339, and time stamps whose strings are
  ordered as the times are.\<close>

definition stamped :: "store_ext \<Rightarrow> (datetime \<times> log_row) list \<Rightarrow> log_row list" where
  "stamped ext es = map (\<lambda>(t, row). row\<lparr>lr_at := ex_to_rfc3339 ext t\<rparr>) es"

definition rfc_ordered :: "store_ext \<Rightarrow> datetime set \<Rightarrow> bool" where
  "rfc_ordered ext T \<longleftrightarrow>
     (\<forall>a \<in> T. ex_parse_rfc3339 ext (ex_to_rfc3339 ext a) = Some a \<and>
        (\<forall>b \<in> T. ex_to_rfc3339 ext a < ex_to_rfc3339 ext b \<longleftrightarrow> a < b))"

lemma clamp_limit_bounds: "1 \<le> clamp_limit limit \<and> clamp_limit limit \<le> 100000"
  unfolding clamp_limit_def by linarith

lemma filter_stamped:
  assumes "\<And>t row. (t, row) \<in> set es \<Longrightarrow> P (row\<lparr>lr_at := ex_to_rfc3339 ext t\<rparr>) \<longleftrightarrow> Q t row"
  shows "filter P (stamped ext es) = stamped ext (filter (\<lambda>(t, row). Q t row) es)"
  using assms by (induction es) (auto simp: stamped_def)

subsection \<open>Properties\<close>

text \<open>C11: what was applied is what is read: after a batch of upserts on a working database, a
  lookup returns the last resource applied under that kind, namespace and name, and every key
  that was not applied still reads as before.\<close>

theorem upserts_read_back:
  assumes "db_ready d" and "list_all (storable ext) rs"
  shows "get_resource ext (fold (\<lambda>r d. snd (upsert_resource ext now r d)) rs d) k =
    (case find (\<lambda>r. resource_key_of r = k) (rev rs) of
       None \<Rightarrow> get_resource ext d k
     | Some r \<Rightarrow> Inr (Some r))"
  using assms by (rule rst.fetch_saves)

text \<open>Further: the generation counter. Applying a resource whose stored body is the same returns
  the stored generation; a changed body returns the next one, and a new key starts at one; the
  returned number is the one stored.\<close>

theorem upsert_generation:
  assumes "db_ready d" and "ex_encode_resource ext r = Inr b" and "db_resource d = Some rows"
  shows "\<exists>g d' rows' row. upsert_resource ext now r d = (Inr g, d') \<and> db_resource d' = Some rows' \<and>
     hm_get rows' (resource_key_of r) = Some row \<and> row_generation row = g \<and> row_body row = b \<and>
     g = (case hm_get rows (resource_key_of r) of
            None \<Rightarrow> 1
          | Some old \<Rightarrow> row_generation old + (if row_body old = b then 0 else 1))"
proof -
  have "query db_resource d = Inr rows"
    using db_ready_query [OF assms(1)] assms(3) by auto
  then show ?thesis
    using assms
    by (simp add: upsert_resource_def upsert_read_def upsert_write_def next_generation_def split: option.split)
qed

text \<open>Further: an upsert is two statements outside a transaction. When two callers both read before
  either writes, two different new bodies are stored under the same generation number.\<close>

theorem concurrent_upserts_share_generation:
  assumes "db_ready d" and "resource_key_of r1 = resource_key_of r2"
    and "ex_encode_resource ext r1 = Inr b1" and "ex_encode_resource ext r2 = Inr b2"
    and "db_resource d = Some rows" and "hm_get rows (resource_key_of r1) = Some old"
    and "row_body old \<noteq> b1" and "row_body old \<noteq> b2"
  shows "\<exists>g. upsert_read ext r1 d = Inr (b1, g) \<and>
     (let d1 = snd (upsert_write ext now r1 b1 g d)
      in upsert_read ext r2 d = Inr (b2, g) \<and> fst (upsert_write ext now r2 b2 g d1) = Inr g \<and>
         fst (upsert_write ext now r1 b1 g d) = Inr g)"
proof -
  have q: "query db_resource d = Inr rows"
    using db_ready_query [OF assms(1)] assms(5) by auto
  have "upsert_read ext r1 d = Inr (b1, row_generation old + 1)"
    using assms q by (simp add: upsert_read_def next_generation_def)
  moreover have "upsert_read ext r2 d = Inr (b2, row_generation old + 1)"
    using assms q by (simp add: upsert_read_def next_generation_def)
  ultimately show ?thesis
    using assms(1) q by (auto simp: Let_def upsert_write_def)
qed

text \<open>Further: an operation that reports an error has changed nothing.\<close>

theorem store_error_unchanged:
  "(fst (upsert_resource ext now r d) = Inl e1 \<longrightarrow> snd (upsert_resource ext now r d) = d) \<and>
   (fst (delete_resource k d) = Inl e2 \<longrightarrow> snd (delete_resource k d) = d) \<and>
   (fst (touch_node ext now n v d) = Inl e3 \<longrightarrow> snd (touch_node ext now n v d) = d) \<and>
   (fst (set_node_inventory ext now n v j d) = Inl e4 \<longrightarrow> snd (set_node_inventory ext now n v j d) = d) \<and>
   (fst (append_log ext now a b n st l d) = Inl e5 \<longrightarrow> snd (append_log ext now a b n st l d) = d) \<and>
   (fst (purge_old_logs ext now days d) = Inl e6 \<longrightarrow> snd (purge_old_logs ext now days d) = d)"
  by (auto simp: upsert_resource_def upsert_write_def delete_resource_def touch_node_def
      set_node_inventory_def append_log_def purge_old_logs_def Let_def split: sum.splits)

text \<open>Further: listing a kind returns exactly the stored resources of that kind, ordered by name.\<close>

theorem list_by_kind_complete:
  assumes "db_ready d" and "rows_faithful ext d"
  shows "\<exists>rs. list_by_kind ext d kind = Inr rs \<and>
     (\<forall>r. r \<in> set rs \<longleftrightarrow> kind_str r = kind \<and> get_resource ext d (resource_key_of r) = Inr (Some r)) \<and>
     sorted (map resource_name_of rs)"
  using assms by (rule list_by_kind_ok)

text \<open>Further: reading the archive returns the matching lines after the given time, newest first,
  never more than the limit clamped to between one and a hundred thousand; purging drops exactly
  the lines older than the retention period and reports how many.\<close>

theorem log_archive_window:
  assumes "db_fault d = None" and "db_log_archive d = Some (stamped ext es)"
    and "rfc_ordered ext T" and "fst ` set es \<subseteq> T" and "since \<in> T"
    and "now - int (unat days) * 86400 * 10 ^ 9 \<in> T"
  shows "read_logs ext now kind name (Some since) limit d =
      Inr (map (entry_of_row ext now) (take (clamp_limit limit) (rev (stamped ext
        (filter (\<lambda>(t, row). lr_kind row = kind \<and> lr_name row = name \<and> since < t) es))))) \<and>
    1 \<le> clamp_limit limit \<and> clamp_limit limit \<le> 100000 \<and>
    purge_old_logs ext now days d =
      (Inr (of_nat (length (filter (\<lambda>(t, row). t < now - int (unat days) * 86400 * 10 ^ 9) es))),
       d\<lparr>db_log_archive := Some (stamped ext
          (filter (\<lambda>(t, row). now - int (unat days) * 86400 * 10 ^ 9 \<le> t) es))\<rparr>)"
proof -
  let ?cut = "now - int (unat days) * 86400 * 10 ^ 9"
  have q: "query db_log_archive d = Inr (stamped ext es)"
    using assms(1,2) by (simp add: query_def)
  have ord: "ex_to_rfc3339 ext a < ex_to_rfc3339 ext b \<longleftrightarrow> a < b" if "a \<in> T" "b \<in> T" for a b
    using assms(3) that by (simp add: rfc_ordered_def)
  have T: "t \<in> T" if "(t, row) \<in> set es" for t row
    using assms(4) that by force
  have hit: "filter (\<lambda>row. lr_kind row = kind \<and> lr_name row = name \<and> ex_to_rfc3339 ext since < lr_at row) (stamped ext es)
      = stamped ext (filter (\<lambda>(t, row). lr_kind row = kind \<and> lr_name row = name \<and> since < t) es)"
    using T assms(5) by (intro filter_stamped) (auto simp: ord)
  have old: "filter (\<lambda>row. lr_at row < ex_to_rfc3339 ext ?cut) (stamped ext es)
      = stamped ext (filter (\<lambda>(t, row). t < ?cut) es)"
    using T assms(6) by (intro filter_stamped) (auto simp: ord)
  have new: "filter (\<lambda>row. \<not> lr_at row < ex_to_rfc3339 ext ?cut) (stamped ext es)
      = stamped ext (filter (\<lambda>(t, row). ?cut \<le> t) es)"
    using T assms(6) by (intro filter_stamped) (auto simp: ord not_less)
  have "length (stamped ext xs) = length xs" for xs by (simp add: stamped_def)
  then show ?thesis
    using clamp_limit_bounds [of limit]
    unfolding read_logs_def purge_old_logs_def q Let_def sum.case option.case hit old new
    by simp
qed

text \<open>Further: the start-up guard recreates the resource and node tables but not the log archive:
  after the archive table is lost, the guard succeeds and every later archive write still
  fails.\<close>

theorem ensure_tables_skips_archive:
  assumes "db_fault d = None" and "db_log_archive d = None"
  shows "\<exists>d'. ensure_tables d = Inr d' \<and> db_resource d' \<noteq> None \<and> db_observed_node d' \<noteq> None \<and>
     append_log ext now kind name n stream line d' = (Inl (Sql ''no such table''), d')"
  using assms by (simp add: ensure_tables_def append_log_def query_def)

subsection \<open>Witnesses\<close>

text \<open>A codec that knows one resource, and time stamps written as strings of growing length.\<close>

definition demo_task :: resource where
  "demo_task = \<lparr>rs_api_version = API_VERSION,
     rs_metadata = \<lparr>md_name = ''backup'', md_namespace = None, md_labels = [], md_annotations = [],
       md_generation = None\<rparr>,
     rs_body = Body_Task default_task_spec None\<rparr>"

definition demo_ext :: store_ext where
  "demo_ext =
     \<lparr>ex_encode_resource = (\<lambda>r. if r = demo_task then Inr ''t'' else Inr ''other''),
      ex_decode_resource = (\<lambda>s. if s = ''t'' then Inr demo_task else Inl ''unknown''),
      ex_to_rfc3339 = (\<lambda>t. replicate (nat t) CHR ''a''),
      ex_parse_rfc3339 = (\<lambda>s. Some (int (length s)))\<rparr>"

definition demo_db :: db where
  "demo_db = \<lparr>db_fault = None,
     db_resource = Some [((''Task'', ''_'', ''backup''),
       \<lparr>row_generation = 4, row_body = ''old'', row_updated_at = []\<rparr>)],
     db_observed_node = Some [], db_log_archive = None\<rparr>"

definition demo_log :: "string \<Rightarrow> log_row" where
  "demo_log l = \<lparr>lr_at = [], lr_kind = ''Task'', lr_name = ''backup'', lr_node_id = ''n'',
     lr_stream = ''stdout'', lr_line = l\<rparr>"

lemma demo_facts:
  "db_ready demo_db" "storable demo_ext demo_task" "resource_key_of demo_task = (''Task'', ''_'', ''backup'')"
  by (simp_all add: demo_db_def db_ready_def storable_def demo_ext_def resource_key_of_def kind_str_def
      demo_task_def hm_wf_def)

lemma replicate_less: "(replicate m c :: string) < replicate n c \<longleftrightarrow> m < n"
proof (induction m arbitrary: n)
  case 0
  then show ?case by (cases n) simp_all
next
  case (Suc m)
  then show ?case by (cases n) simp_all
qed

lemma demo_ordered: "rfc_ordered demo_ext {t. 0 \<le> t}"
  by (auto simp: rfc_ordered_def demo_ext_def replicate_less)

theorem upserts_read_back_witness:
  "get_resource demo_ext (fold (\<lambda>r d. snd (upsert_resource demo_ext 3 r d)) [demo_task] demo_db)
     (''Task'', ''_'', ''backup'') = Inr (Some demo_task)"
  using upserts_read_back [of demo_db demo_ext "[demo_task]" 3 "(''Task'', ''_'', ''backup'')"] demo_facts
  by simp

theorem upsert_generation_witness:
  "\<exists>d'. upsert_resource demo_ext 3 demo_task demo_db = (Inr 5, d')"
  using upsert_generation [of demo_db demo_ext demo_task "''t''" "the (db_resource demo_db)" 3] demo_facts
  by (auto simp: demo_db_def demo_ext_def hm_get_def)

theorem concurrent_upserts_share_generation_witness:
  "\<exists>g. upsert_read demo_ext demo_task demo_db = Inr (''t'', g) \<and>
     upsert_read demo_ext (demo_task\<lparr>rs_api_version := ''v2''\<rparr>) demo_db = Inr (''other'', g)"
proof -
  have k: "resource_key_of demo_task = resource_key_of (demo_task\<lparr>rs_api_version := ''v2''\<rparr>)"
    "demo_task\<lparr>rs_api_version := ''v2''\<rparr> \<noteq> demo_task"
    by (simp_all add: resource_key_of_def kind_str_def demo_task_def API_VERSION_def)
  have enc: "ex_encode_resource demo_ext demo_task = Inr ''t''"
    "ex_encode_resource demo_ext (demo_task\<lparr>rs_api_version := ''v2''\<rparr>) = Inr ''other''"
    using k(2) by (simp_all add: demo_ext_def)
  have row: "db_resource demo_db = Some (the (db_resource demo_db))"
    "hm_get (the (db_resource demo_db)) (resource_key_of demo_task) =
       Some \<lparr>row_generation = 4, row_body = ''old'', row_updated_at = []\<rparr>"
    by (simp_all add: demo_db_def demo_facts(3) hm_get_def)
  from concurrent_upserts_share_generation [OF demo_facts(1) k(1) enc row] show ?thesis
    unfolding Let_def by force
qed

theorem store_error_unchanged_witness:
  "snd (delete_resource (''Task'', ''_'', ''x'') (demo_db\<lparr>db_fault := Some ''disk''\<rparr>)) = demo_db\<lparr>db_fault := Some ''disk''\<rparr>"
proof -
  have "fst (delete_resource (''Task'', ''_'', ''x'') (demo_db\<lparr>db_fault := Some ''disk''\<rparr>)) = Inl (Sql ''disk'')"
    by (simp add: delete_resource_def query_def)
  with store_error_unchanged [of demo_ext 0 demo_task "demo_db\<lparr>db_fault := Some ''disk''\<rparr>" "Sql ''disk''"
      "(''Task'', ''_'', ''x'')" "Sql ''disk''"] show ?thesis by blast
qed

theorem list_by_kind_complete_witness:
  "\<exists>rs. list_by_kind demo_ext (snd (upsert_resource demo_ext 3 demo_task demo_db)) ''Task'' = Inr rs \<and>
     demo_task \<in> set rs"
proof -
  let ?d = "snd (upsert_resource demo_ext 3 demo_task demo_db)"
  have ready: "db_ready ?d" by (rule rst.ready_save) (rule demo_facts)
  have rows: "rows_faithful demo_ext ?d"
    by (simp add: upsert_resource_def upsert_read_def upsert_write_def query_def demo_db_def demo_ext_def
        rows_faithful_def hm_insert_def demo_facts [unfolded demo_task_def] demo_task_def resource_key_of_def kind_str_def)
  have "get_resource demo_ext ?d (resource_key_of demo_task) = Inr (Some demo_task)"
    by (simp add: rst.fetch_save demo_facts)
  with list_by_kind_complete [OF ready rows, of "''Task''"] show ?thesis
    by (auto simp: kind_str_def demo_task_def)
qed

theorem log_archive_window_witness:
  "\<exists>es. read_logs demo_ext 9 ''Task'' ''backup'' (Some 3) 10
     (demo_db\<lparr>db_log_archive := Some (stamped demo_ext [(2, demo_log ''x''), (5, demo_log ''y'')])\<rparr>)
     = Inr es \<and> map la_line es = [''y'']"
proof -
  let ?es = "[(2, demo_log ''x''), (5, demo_log ''y'')]"
  let ?d = "demo_db\<lparr>db_log_archive := Some (stamped demo_ext ?es)\<rparr>"
  have "db_fault ?d = None" "db_log_archive ?d = Some (stamped demo_ext ?es)" "fst ` set ?es \<subseteq> {t :: int. 0 \<le> t}"
    "3 \<in> {t :: int. 0 \<le> t}" "9 - int (unat (0 :: u32)) * 86400 * 10 ^ 9 \<in> {t. 0 \<le> t}"
    by (simp_all add: demo_db_def)
  from log_archive_window [OF this(1,2) demo_ordered this(3-5), of "''Task''" "''backup''" 10]
  have "read_logs demo_ext 9 ''Task'' ''backup'' (Some 3) 10 ?d =
      Inr (map (entry_of_row demo_ext 9) (take (clamp_limit 10) (rev (stamped demo_ext [(5, demo_log ''y'')]))))"
    by (simp add: demo_log_def)
  then show ?thesis by (simp add: stamped_def clamp_limit_def entry_of_row_def demo_log_def)
qed

theorem ensure_tables_skips_archive_witness:
  "\<exists>d'. ensure_tables demo_db = Inr d' \<and>
     append_log demo_ext 1 ''Task'' ''backup'' ''n'' ''stdout'' ''x'' d' = (Inl (Sql ''no such table''), d')"
  using ensure_tables_skips_archive [of demo_db demo_ext 1 "''Task''" "''backup''" "''n''" "''stdout''" "''x''"]
  by (auto simp: demo_db_def)

end
