(* ===== verification/Capability_Match.thy ===== *)
theory Capability_Match
  imports Orion_Types
begin

text \<open>
  Capability selectors: reading a selector off its JSON form
  (\<^verbatim>\<open>capability.rs\<close>: \<^verbatim>\<open>AttrMatch::deserialize\<close> and the untagged serialiser) and
  evaluating it against what a service advertises (\<^verbatim>\<open>decisions.rs\<close>:
  \<^verbatim>\<open>capabilities_match\<close>, \<^verbatim>\<open>attr_op_matches\<close>, which the handler of
  \<^verbatim>\<open>POST /v1/find\<close> in \<^verbatim>\<open>main.rs\<close> repeats).
\<close>

subsection \<open>Evaluation\<close>

text \<open>The closure \<^verbatim>\<open>cmp\<close>: no bound accepts, a bound rejects a value that is no number.\<close>

definition cmp_bound :: "rat option \<Rightarrow> json_number option \<Rightarrow> (rat \<Rightarrow> rat \<Rightarrow> bool) \<Rightarrow> bool" where
  "cmp_bound actual_num lhs rel =
     (case lhs of
        None \<Rightarrow> True
      | Some n \<Rightarrow> (case actual_num of None \<Rightarrow> False | Some a \<Rightarrow> rel a (number_as_f64 n)))"

definition attr_op_matches :: "attr_op \<Rightarrow> json \<Rightarrow> bool" where
  "attr_op_matches p actual =
     (if (case op_eq p of None \<Rightarrow> False | Some v \<Rightarrow> actual \<noteq> v) then False
      else if (case op_ne p of None \<Rightarrow> False | Some v \<Rightarrow> actual = v) then False
      else (let num = as_f64 actual
            in cmp_bound num (op_gt p) (\<lambda>a x. a > x)
             \<and> cmp_bound num (op_gte p) (\<lambda>a x. a \<ge> x)
             \<and> cmp_bound num (op_lt p) (\<lambda>a x. a < x)
             \<and> cmp_bound num (op_lte p) (\<lambda>a x. a \<le> x)))"

definition attr_match_ok :: "attr_match \<Rightarrow> json \<Rightarrow> bool" where
  "attr_match_ok m actual =
     (case m of
        AM_Equals v \<Rightarrow> actual = v
      | AM_OneOf vs \<Rightarrow> list_ex (\<lambda>v. v = actual) vs
      | AM_Op p \<Rightarrow> attr_op_matches p actual)"

fun checks_match :: "json \<Rightarrow> (string \<times> attr_match) list \<Rightarrow> bool" where
  "checks_match attrs [] = True"
| "checks_match attrs ((k, m) # rest) =
     (case json_get attrs k of
        None \<Rightarrow> False
      | Some actual \<Rightarrow> (if attr_match_ok m actual then checks_match attrs rest else False))"

fun capabilities_match :: "capability list \<Rightarrow> capability_selector \<Rightarrow> bool" where
  "capabilities_match advertised [] = True"
| "capabilities_match advertised ((name, checks) # rest) =
     (case List.find (\<lambda>c. cap_name c = name) advertised of
        None \<Rightarrow> False
      | Some cap \<Rightarrow>
          (if checks_match (cap_attributes cap) checks
           then capabilities_match advertised rest else False))"

subsection \<open>The wire form of one attribute check\<close>

definition op_keys :: "string list" where
  "op_keys = [''eq'', ''ne'', ''gt'', ''gte'', ''lt'', ''lte'']"

text \<open>A numeric field of \<^verbatim>\<open>AttrOp\<close>: absent or null is no bound, a number is taken, anything
  else makes the document invalid (the result is \<open>None\<close>).\<close>

definition number_field :: "json \<Rightarrow> string \<Rightarrow> json_number option option" where
  "number_field v k =
     (case json_get v k of
        None \<Rightarrow> Some None
      | Some JNull \<Rightarrow> Some None
      | Some (JNumber n) \<Rightarrow> Some (Some n)
      | Some _ \<Rightarrow> None)"

definition value_field :: "json \<Rightarrow> string \<Rightarrow> json option" where
  "value_field v k = (case json_get v k of Some JNull \<Rightarrow> None | x \<Rightarrow> x)"

definition attr_op_of_json :: "json \<Rightarrow> attr_op option" where
  "attr_op_of_json v =
     (case (number_field v ''gt'', number_field v ''gte'', number_field v ''lt'', number_field v ''lte'') of
        (Some g, Some ge, Some l, Some le) \<Rightarrow>
          Some \<lparr>op_eq = value_field v ''eq'', op_ne = value_field v ''ne'',
               op_gt = g, op_gte = ge, op_lt = l, op_lte = le\<rparr>
      | _ \<Rightarrow> None)"

definition attr_match_deserialize :: "json \<Rightarrow> attr_match option" where
  "attr_match_deserialize v =
     (case v of
        JArray items \<Rightarrow> Some (AM_OneOf items)
      | JObject m \<Rightarrow>
          (if list_all (\<lambda>(k, _). k \<in> set op_keys) m \<and> m \<noteq> []
           then map_option AM_Op (attr_op_of_json v)
           else Some (AM_Equals v))
      | other \<Rightarrow> Some (AM_Equals other))"

text \<open>The derived serialiser: a field that is none is left out; \<^verbatim>\<open>untagged\<close> writes the
  payload alone. The object is a map, so its keys come out in order.\<close>

definition opt_field :: "string \<Rightarrow> json option \<Rightarrow> (string \<times> json) list" where
  "opt_field k x = (case x of None \<Rightarrow> [] | Some v \<Rightarrow> [(k, v)])"

definition attr_op_to_json :: "attr_op \<Rightarrow> json" where
  "attr_op_to_json p = JObject
     (opt_field ''eq'' (op_eq p)
      @ opt_field ''gt'' (map_option JNumber (op_gt p))
      @ opt_field ''gte'' (map_option JNumber (op_gte p))
      @ opt_field ''lt'' (map_option JNumber (op_lt p))
      @ opt_field ''lte'' (map_option JNumber (op_lte p))
      @ opt_field ''ne'' (op_ne p))"

definition attr_match_serialize :: "attr_match \<Rightarrow> json" where
  "attr_match_serialize m =
     (case m of AM_Op p \<Rightarrow> attr_op_to_json p | AM_OneOf vs \<Rightarrow> JArray vs | AM_Equals v \<Rightarrow> v)"

text \<open>The checks that have a wire form of their own: an equality check against an array or
  against an object that looks like an operator, an operator with no condition, and a
  comparison with null do not.\<close>

definition wire_faithful :: "attr_match \<Rightarrow> bool" where
  "wire_faithful m =
     (case m of
        AM_OneOf _ \<Rightarrow> True
      | AM_Op p \<Rightarrow>
          op_eq p \<noteq> Some JNull \<and> op_ne p \<noteq> Some JNull \<and>
          \<not> (op_eq p = None \<and> op_ne p = None \<and> op_gt p = None \<and> op_gte p = None
             \<and> op_lt p = None \<and> op_lte p = None)
      | AM_Equals v \<Rightarrow>
          (case v of
             JArray _ \<Rightarrow> False
           | JObject fs \<Rightarrow> \<not> (list_all (\<lambda>(k, _). k \<in> set op_keys) fs \<and> fs \<noteq> [])
           | _ \<Rightarrow> True))"

subsection \<open>Lemmas\<close>

lemma checks_match_iff:
  "checks_match attrs cs \<longleftrightarrow>
     (\<forall>(k, m) \<in> set cs. \<exists>actual. json_get attrs k = Some actual \<and> attr_match_ok m actual)"
  by (induction attrs cs rule: checks_match.induct) (auto split: option.splits)

lemma capabilities_match_list_iff:
  "capabilities_match adv sel \<longleftrightarrow>
     (\<forall>(name, checks) \<in> set sel.
        \<exists>cap. List.find (\<lambda>c. cap_name c = name) adv = Some cap \<and> checks_match (cap_attributes cap) checks)"
  by (induction adv sel rule: capabilities_match.induct) (auto split: option.splits)

lemma find_in_set: "List.find P xs = Some x \<Longrightarrow> x \<in> set xs \<and> P x"
  by (auto simp: find_Some_iff)

lemma find_distinct_name:
  assumes "distinct (map f xs)" and "x \<in> set xs"
  shows "List.find (\<lambda>c. f c = f x) xs = Some x"
  using assms by (induction xs) (auto simp: image_iff)

lemma cmp_bound_simps [simp]:
  "cmp_bound num None rel" "\<not> cmp_bound None (Some n) rel"
  "cmp_bound (Some a) (Some n) rel = rel a (number_as_f64 n)"
  by (simp_all add: cmp_bound_def)

lemma attr_op_matches_iff:
  "attr_op_matches p v \<longleftrightarrow>
     (\<forall>w. op_eq p = Some w \<longrightarrow> v = w) \<and> (\<forall>w. op_ne p = Some w \<longrightarrow> v \<noteq> w) \<and>
     cmp_bound (as_f64 v) (op_gt p) (\<lambda>a x. a > x) \<and> cmp_bound (as_f64 v) (op_gte p) (\<lambda>a x. a \<ge> x) \<and>
     cmp_bound (as_f64 v) (op_lt p) (\<lambda>a x. a < x) \<and> cmp_bound (as_f64 v) (op_lte p) (\<lambda>a x. a \<le> x)"
  by (auto simp: attr_op_matches_def Let_def split: option.splits)

lemma bt_get_Cons [simp]: "bt_get ((k, v) # m) j = (if j = k then Some v else bt_get m j)"
  by (simp add: bt_get_def)

lemma bt_get_empty [simp]: "bt_get [] k = None"
  by (simp add: bt_get_def)

lemma bt_get_append: "bt_get (m @ n) k = (case bt_get m k of None \<Rightarrow> bt_get n k | Some v \<Rightarrow> Some v)"
  by (auto simp: bt_get_def map_add_def split: option.splits)

lemma bt_get_opt_field [simp]: "bt_get (opt_field k x) j = (if j = k then x else None)"
  by (simp add: opt_field_def split: option.split)

lemma opt_field_eq_Nil [simp]: "opt_field k x = [] \<longleftrightarrow> x = None"
  by (simp add: opt_field_def split: option.split)

lemma opt_field_keys: "list_all (\<lambda>(j, _). j \<in> S) (opt_field k x) \<longleftrightarrow> x = None \<or> k \<in> S"
  by (auto simp: opt_field_def split: option.split)

lemma attr_op_json_round:
  assumes "op_eq p \<noteq> Some JNull" and "op_ne p \<noteq> Some JNull"
  shows "attr_op_of_json (attr_op_to_json p) = Some p"
  using assms
  by (cases p)
    (auto simp: attr_op_of_json_def attr_op_to_json_def number_field_def value_field_def
      bt_get_append split: option.splits json.splits)

lemma op_keys_opt_fields:
  "list_all (\<lambda>(k, _). k \<in> set op_keys)
     (opt_field ''eq'' a @ opt_field ''gt'' b @ opt_field ''gte'' c @ opt_field ''lt'' d
      @ opt_field ''lte'' e @ opt_field ''ne'' f)"
  by (simp only: list_all_append opt_field_keys) (simp add: op_keys_def)

lemma attr_op_nonempty:
  "(\<exists>fs. attr_op_to_json p = JObject fs \<and> fs \<noteq> [] \<and> list_all (\<lambda>(k, _). k \<in> set op_keys) fs)
     \<longleftrightarrow> wire_faithful (AM_Op p) \<or> op_eq p = Some JNull \<or> op_ne p = Some JNull"
  unfolding attr_op_to_json_def wire_faithful_def
  using op_keys_opt_fields by auto

subsection \<open>Properties\<close>

text \<open>C16: a service is found exactly when, for every capability the selector requires, it
  advertises that capability and every attribute check of the requirement holds of the
  advertised attribute (given that a service lists each capability name once).\<close>

theorem capabilities_match_spec:
  assumes "distinct (map cap_name adv)" and "bt_wf sel"
    and "\<forall>n cs. bt_get sel n = Some cs \<longrightarrow> bt_wf cs"
  shows "capabilities_match adv sel \<longleftrightarrow>
    (\<forall>n cs. bt_get sel n = Some cs \<longrightarrow>
       (\<exists>cap \<in> set adv. cap_name cap = n \<and>
          (\<forall>k m. bt_get cs k = Some m \<longrightarrow>
             (\<exists>v. json_get (cap_attributes cap) k = Some v \<and> attr_match_ok m v))))"
proof -
  have checks: "checks_match a cs \<longleftrightarrow>
      (\<forall>k m. bt_get cs k = Some m \<longrightarrow> (\<exists>v. json_get a k = Some v \<and> attr_match_ok m v))"
    if "bt_get sel n = Some cs" for a n cs
    using bt.all_entries_iff [of cs "\<lambda>k m. \<exists>v. json_get a k = Some v \<and> attr_match_ok m v"] assms(3) that
    by (simp add: checks_match_iff)
  have found: "(\<exists>cap. List.find (\<lambda>c. cap_name c = n) adv = Some cap \<and> P cap)
      \<longleftrightarrow> (\<exists>cap \<in> set adv. cap_name cap = n \<and> P cap)" for n P
    using find_distinct_name [OF assms(1)] find_in_set [of "\<lambda>c. cap_name c = n" adv] by metis
  show ?thesis
    unfolding capabilities_match_list_iff bt.all_entries_iff [OF assms(2)] found
    using checks by (metis (no_types, lifting))
qed

theorem capabilities_match_spec_witness:
  "capabilities_match [capability_with_attributes ''llm'' (JObject [(''vram'', JNumber (PosInt 24))])]
     [(''llm'', [(''vram'', AM_Equals (JNumber (PosInt 24)))])]"
proof -
  let ?adv = "[capability_with_attributes ''llm'' (JObject [(''vram'', JNumber (PosInt 24))])]"
  let ?sel = "[(''llm'', [(''vram'', AM_Equals (JNumber (PosInt 24)))])]"
  have "distinct (map cap_name ?adv)" "bt_wf ?sel" "\<forall>n cs. bt_get ?sel n = Some cs \<longrightarrow> bt_wf cs"
    by (simp_all add: capability_with_attributes_def bt_wf_def)
  from capabilities_match_spec [OF this] show ?thesis
    by (simp add: capability_with_attributes_def attr_match_ok_def split: if_splits)
qed

text \<open>Further: on integers up to \<open>2 ^ 53\<close> in size and on floats, the four order comparisons of a
  selector compare the numbers exactly, whatever mixture of integer and float the advertised
  value and the bound use.\<close>

theorem attr_op_compares_exactly:
  assumes "small_number n"
    and "\<forall>b \<in> set_option (op_gt p) \<union> set_option (op_gte p) \<union> set_option (op_lt p) \<union> set_option (op_lte p). small_number b"
    and "op_eq p = None" and "op_ne p = None"
  shows "attr_op_matches p (JNumber n) \<longleftrightarrow>
    (\<forall>b. op_gt p = Some b \<longrightarrow> number_value n > number_value b) \<and>
    (\<forall>b. op_gte p = Some b \<longrightarrow> number_value n \<ge> number_value b) \<and>
    (\<forall>b. op_lt p = Some b \<longrightarrow> number_value n < number_value b) \<and>
    (\<forall>b. op_lte p = Some b \<longrightarrow> number_value n \<le> number_value b)"
proof -
  have cmp: "cmp_bound (Some (number_as_f64 n)) lhs rel \<longleftrightarrow>
      (\<forall>b. lhs = Some b \<longrightarrow> rel (number_value n) (number_value b))"
    if "\<forall>b \<in> set_option lhs. small_number b" for lhs rel
    using that by (cases lhs) (simp_all add: number_as_f64_exact assms(1))
  show ?thesis
    using assms(2-4) by (simp add: attr_op_matches_iff as_f64_def cmp ball_Un)
qed

theorem attr_op_compares_exactly_witness:
  "attr_op_matches \<lparr>op_eq = None, op_ne = None, op_gt = None, op_gte = Some (PosInt 24), op_lt = None,
     op_lte = Some (Float 48)\<rparr> (JNumber (PosInt 24))"
proof -
  let ?p = "\<lparr>op_eq = None, op_ne = None, op_gt = None, op_gte = Some (PosInt 24), op_lt = None,
     op_lte = Some (Float 48)\<rparr>"
  have "small_number (PosInt 24)" "\<forall>b \<in> set_option (op_gt ?p) \<union> set_option (op_gte ?p)
      \<union> set_option (op_lt ?p) \<union> set_option (op_lte ?p). small_number b"
    "op_eq ?p = None" "op_ne ?p = None"
    by (simp_all add: small_number_def)
  from attr_op_compares_exactly [OF this] show ?thesis
    by (simp add: number_value_def)
qed

text \<open>Further: beyond \<open>2 ^ 53\<close> a lower bound on unsigned integers still never rejects a value that
  satisfies it (rounding is monotone), but it may accept one that does not: a service with
  \<open>2 ^ 53\<close> passes the bound \<open>2 ^ 53 + 1\<close>.\<close>

theorem attr_op_gte_large:
  "(unat b \<le> unat a \<longrightarrow>
      attr_op_matches \<lparr>op_eq = None, op_ne = None, op_gt = None, op_gte = Some (PosInt b),
        op_lt = None, op_lte = None\<rparr> (JNumber (PosInt a)))
   \<and> attr_op_matches \<lparr>op_eq = None, op_ne = None, op_gt = None,
        op_gte = Some (PosInt 9007199254740993), op_lt = None, op_lte = None\<rparr>
        (JNumber (PosInt 9007199254740992))"
proof -
  have sh: "f64_shift 9007199254740992 = Suc 0" "f64_shift 9007199254740993 = Suc 0"
    by (simp_all add: f64_shift_step f64_shift_small)
  have "round_f64 9007199254740993 = 9007199254740992"
    by (simp add: round_f64_def sh)
  then show ?thesis
    by (auto simp: attr_op_matches_iff as_f64_def number_as_f64_def round_f64_mono round_f64_exact)
qed

theorem attr_op_gte_large_witness:
  "attr_op_matches \<lparr>op_eq = None, op_ne = None, op_gt = None, op_gte = Some (PosInt 5),
     op_lt = None, op_lte = None\<rparr> (JNumber (PosInt 7))"
  using attr_op_gte_large [of 5 7] by simp

text \<open>Further: an attribute check survives a round trip through its JSON form, except for the
  checks that have no form of their own; an equality check against an array is one of them
  and comes back as a membership check.\<close>

theorem attr_match_roundtrip:
  "(wire_faithful m \<longrightarrow> attr_match_deserialize (attr_match_serialize m) = Some m) \<and>
   attr_match_deserialize (attr_match_serialize (AM_Equals (JArray vs))) = Some (AM_OneOf vs)"
proof -
  have "attr_match_deserialize (attr_op_to_json p) = Some (AM_Op p)" if p: "wire_faithful (AM_Op p)" for p
  proof -
    have "op_eq p \<noteq> Some JNull" "op_ne p \<noteq> Some JNull"
      using p by (simp_all add: wire_faithful_def)
    then have op: "attr_op_of_json (attr_op_to_json p) = Some p"
      by (rule attr_op_json_round)
    obtain fs where "attr_op_to_json p = JObject fs" "fs \<noteq> []"
        "list_all (\<lambda>(k, _). k \<in> set op_keys) fs"
      using attr_op_nonempty p by blast
    with op show ?thesis by (simp add: attr_match_deserialize_def)
  qed
  then show ?thesis
    by (cases m)
      (auto simp: attr_match_serialize_def attr_match_deserialize_def wire_faithful_def
         split: json.splits if_splits)
qed

theorem attr_match_roundtrip_witness:
  "attr_match_deserialize (attr_match_serialize (AM_Equals (JString ''nvidia''))) =
     Some (AM_Equals (JString ''nvidia''))"
  using attr_match_roundtrip [of "AM_Equals (JString ''nvidia'')"]
  by (simp add: wire_faithful_def)

end
