(* ===== verification/Controller.thy ===== *)
theory Controller
  imports Bus Scheduler Reconciler Registries Store Capability_Match
begin

text \<open>
  The controller's shared state, its access to the world, the bus subscribers and the dispatch
  path (\<^verbatim>\<open>orion-controller/src/main.rs\<close>). \<open>app_state\<close> collects what \<^verbatim>\<open>AppState\<close> points to, and
  three ghosts of the outside: how many identifiers were drawn, how many publishes were tried,
  and the messages the bus accepted, in order.

  What other crates and services compute is a field of \<open>ctl_ext\<close>: the codecs, the cron
  schedules, the identifiers drawn and the outcome of each publish (an error text or none). All
  clock readings of one handler are taken to be the same, its argument \<open>now\<close>.
\<close>

subsection \<open>State and world\<close>

datatype bus_msg =
    Msg_Run "control_run envelope"
  | Msg_Stop "control_stop envelope"

record archive_write =
  aw_kind :: string
  aw_name :: string
  aw_node :: string
  aw_stream :: string
  aw_line :: string

record app_state =
  as_store :: db
  as_nats_url :: string
  as_node_id :: "string option"
  as_logs :: log_buffer
  as_schedules :: schedule_registry
  as_instances :: instance_registry
  as_health :: health_registry
  as_workflows :: workflow_registry
  as_started_at :: datetime
  as_archive_tasks :: "archive_write list"
  as_drawn :: nat
  as_publishes :: nat
  as_sent :: "(string \<times> bus_msg) list"

record ctl_ext =
  cx_store :: store_ext
  cx_from_yaml :: "string \<Rightarrow> string + resource"
  cx_encode_inventory :: "node_inventory \<Rightarrow> string option"
  cx_decode_inventory :: "string \<Rightarrow> node_inventory option"
  cx_parse_json :: "string \<Rightarrow> json option"
  cx_parse_selector :: "string \<Rightarrow> string + capability_selector"
  cx_parse_uuid :: "string \<Rightarrow> uuid option"
  cx_cron :: "string \<Rightarrow> string + (datetime \<Rightarrow> datetime option)"
  cx_new_uuid :: "nat \<Rightarrow> uuid"
  cx_publish_error :: "nat \<Rightarrow> string option"

datatype status_code = BAD_REQUEST | NOT_FOUND | INTERNAL_SERVER_ERROR

record api_error =
  ae_status :: status_code
  ae_message :: string

definition api_bad_request :: "string \<Rightarrow> api_error" where
  "api_bad_request m = \<lparr>ae_status = BAD_REQUEST, ae_message = m\<rparr>"

definition api_not_found :: "string \<Rightarrow> api_error" where
  "api_not_found m = \<lparr>ae_status = NOT_FOUND, ae_message = m\<rparr>"

definition api_internal :: "string \<Rightarrow> api_error" where
  "api_internal m = \<lparr>ae_status = INTERNAL_SERVER_ERROR, ae_message = m\<rparr>"

fun store_error_text :: "store_error \<Rightarrow> string" where
  "store_error_text (Sql e) = ''sqlx: '' @ e"
| "store_error_text (Json_Error e) = ''serialize: '' @ e"

definition api_store :: "store_error \<Rightarrow> api_error" where
  "api_store e = \<lparr>ae_status = INTERNAL_SERVER_ERROR, ae_message = store_error_text e\<rparr>"

definition app_state_new :: "db \<Rightarrow> string \<Rightarrow> datetime \<Rightarrow> app_state" where
  "app_state_new d url now =
     \<lparr>as_store = d, as_nats_url = url, as_node_id = None, as_logs = [], as_schedules = [],
      as_instances = instance_registry_default, as_health = [], as_workflows = [],
      as_started_at = now, as_archive_tasks = [], as_drawn = 0, as_publishes = 0, as_sent = []\<rparr>"

definition draw_uuid :: "ctl_ext \<Rightarrow> app_state \<Rightarrow> uuid \<times> app_state" where
  "draw_uuid ext st = (cx_new_uuid ext (as_drawn st), st\<lparr>as_drawn := Suc (as_drawn st)\<rparr>)"

text \<open>One publish: the error, if any, and the message on the bus otherwise.\<close>

definition publish :: "ctl_ext \<Rightarrow> string \<Rightarrow> bus_msg \<Rightarrow> app_state \<Rightarrow> string option \<times> app_state" where
  "publish ext subject msg st =
     (let st' = st\<lparr>as_publishes := Suc (as_publishes st)\<rparr>
      in case cx_publish_error ext (as_publishes st) of
           Some e \<Rightarrow> (Some e, st')
         | None \<Rightarrow> (None, st'\<lparr>as_sent := as_sent st' @ [(subject, msg)]\<rparr>))"

definition lookup_resource :: "ctl_ext \<Rightarrow> app_state \<Rightarrow> string \<Rightarrow> string \<Rightarrow> store_error + resource option" where
  "lookup_resource ext st kind name = get_resource (cx_store ext) (as_store st) (kind, ''_'', name)"

text \<open>\<^verbatim>\<open>.ok().flatten()\<close> of a lookup.\<close>

definition lookup_ok :: "ctl_ext \<Rightarrow> app_state \<Rightarrow> string \<Rightarrow> string \<Rightarrow> resource option" where
  "lookup_ok ext st kind name =
     (case lookup_resource ext st kind name of Inl _ \<Rightarrow> None | Inr r \<Rightarrow> r)"

subsection \<open>Subscribers\<close>

text \<open>A message arrives decoded, or as \<open>None\<close> when its payload is malformed.\<close>

definition on_heartbeat :: "ctl_ext \<Rightarrow> datetime \<Rightarrow> heartbeat envelope option \<Rightarrow> app_state \<Rightarrow> app_state" where
  "on_heartbeat ext now m st =
     (case m of
        None \<Rightarrow> st
      | Some env \<Rightarrow>
          (let hb = en_payload env
           in st\<lparr>as_node_id := Some (hb_node_id hb),
                 as_store := snd (touch_node (cx_store ext) now (hb_node_id hb) (hb_agent_version hb) (as_store st))\<rparr>))"

definition on_inventory :: "ctl_ext \<Rightarrow> datetime \<Rightarrow> node_inventory envelope option \<Rightarrow> app_state \<Rightarrow> app_state" where
  "on_inventory ext now m st =
     (case m of
        None \<Rightarrow> st
      | Some env \<Rightarrow>
          (let inv = en_payload env
           in case cx_encode_inventory ext inv of
                None \<Rightarrow> st
              | Some s \<Rightarrow> st\<lparr>as_store := snd (set_node_inventory (cx_store ext) now (iv_node_id inv)
                                                  (iv_agent_version inv) s (as_store st))\<rparr>))"

definition log_stream_str :: "log_stream \<Rightarrow> string" where
  "log_stream_str s = (case s of Stdout \<Rightarrow> ''stdout'' | Stderr \<Rightarrow> ''stderr'')"

definition on_log_line :: "ctl_ext \<Rightarrow> log_line envelope option \<Rightarrow> app_state \<Rightarrow> app_state" where
  "on_log_line ext m st =
     (case m of
        None \<Rightarrow> st
      | Some env \<Rightarrow>
          (let line = en_payload env;
               stream = log_stream_str (ll_stream line);
               kind = unwrap_or (kind_for_name (as_instances st) (ll_service line)) ''Service'';
               entry = \<lparr>le_at = en_at env, le_node_id = ll_node_id line, le_stream = stream, le_line = ll_line line\<rparr>;
               logs = lb_push kind (ll_service line) entry (as_logs st);
               write = \<lparr>aw_kind = kind, aw_name = ll_service line, aw_node = ll_node_id line,
                        aw_stream = stream, aw_line = ll_line line\<rparr>;
               instances = (case ll_instance_id line of
                    None \<Rightarrow> as_instances st
                  | Some iid \<Rightarrow> note_line iid kind (ll_service line) (ll_node_id line) (ll_replica_index line)
                                 (en_at env) (as_instances st))
           in st\<lparr>as_logs := logs, as_archive_tasks := as_archive_tasks st @ [write], as_instances := instances\<rparr>))"

text \<open>The spawned archive writes finish in any order: the \<open>n\<close>-th pending one runs.\<close>

definition run_archive_task :: "ctl_ext \<Rightarrow> datetime \<Rightarrow> nat \<Rightarrow> app_state \<Rightarrow> app_state" where
  "run_archive_task ext now n st =
     (if n < length (as_archive_tasks st) then
        (let w = as_archive_tasks st ! n
         in st\<lparr>as_archive_tasks := take n (as_archive_tasks st) @ drop (Suc n) (as_archive_tasks st),
               as_store := snd (append_log (cx_store ext) now (aw_kind w) (aw_name w) (aw_node w)
                                  (aw_stream w) (aw_line w) (as_store st))\<rparr>)
      else st)"

definition task_exit_of :: "task_outcome \<Rightarrow> (i32 \<times> string) option" where
  "task_exit_of out =
     (case out of
        Outcome_Succeeded code \<Rightarrow> Some (code, ''succeeded'')
      | Outcome_Failed code _ \<Rightarrow> Some (code, ''failed'')
      | Cancelled _ \<Rightarrow> Some (- 1, ''cancelled'')
      | _ \<Rightarrow> None)"

definition on_task_event :: "datetime \<Rightarrow> task_event envelope option \<Rightarrow> app_state \<Rightarrow> app_state" where
  "on_task_event now m st =
     (case m of
        None \<Rightarrow> st
      | Some env \<Rightarrow>
          (case task_exit_of (te_outcome (en_payload env)) of
             None \<Rightarrow> st
           | Some (code, exit_kind) \<Rightarrow>
               st\<lparr>as_instances := snd (record_exit now (te_task_id (en_payload env)) code exit_kind (as_instances st))\<rparr>))"

definition health_status_str :: "health_status \<Rightarrow> string" where
  "health_status_str s = (case s of Healthy \<Rightarrow> ''healthy'' | Unhealthy \<Rightarrow> ''unhealthy'' | Unknown_Health \<Rightarrow> ''unknown'')"

definition on_service_health :: "ctl_ext \<Rightarrow> datetime \<Rightarrow> service_health envelope option \<Rightarrow> app_state \<Rightarrow> app_state" where
  "on_service_health ext now m st =
     (case m of
        None \<Rightarrow> st
      | Some env \<Rightarrow>
          (let h = en_payload env
           in case cx_parse_uuid ext (sh_instance_id h) of
                None \<Rightarrow> st
              | Some i \<Rightarrow> st\<lparr>as_health := health_record i
                   \<lparr>hs_service = sh_service h, hs_status = health_status_str (sh_status h),
                    hs_consecutive_failures = sh_consecutive_failures h, hs_last_at = now,
                    hs_message = sh_message h\<rparr> (as_health st)\<rparr>))"

subsection \<open>Dispatch\<close>

definition workload_kind_str :: "workload_kind \<Rightarrow> string" where
  "workload_kind_str k = (case k of WK_Service \<Rightarrow> ''Service'' | WK_Task \<Rightarrow> ''Task'')"

definition placement_for :: "ctl_ext \<Rightarrow> app_state \<Rightarrow> string \<Rightarrow> workload_kind \<Rightarrow> placement" where
  "placement_for ext st name kind =
     unwrap_or
       (case lookup_ok ext st (workload_kind_str kind) name of
          None \<Rightarrow> None
        | Some r \<Rightarrow>
            (case rs_body r of
               Body_Service spec _ \<Rightarrow> Some (sv_placement spec)
             | Body_Task spec _ \<Rightarrow> Some (tk_placement spec)
             | _ \<Rightarrow> None))
       default_placement"

definition NODE_TIMEOUT :: datetime where
  "NODE_TIMEOUT = 30 * 10 ^ 9"

definition candidate_of :: "ctl_ext \<Rightarrow> datetime \<Rightarrow> observed_node \<Rightarrow> candidate_node option" where
  "candidate_of ext cutoff n =
     (if on_last_seen_at n < cutoff then None
      else (case on_inventory_json n of
              None \<Rightarrow> None
            | Some s \<Rightarrow>
                (case cx_decode_inventory ext s of
                   None \<Rightarrow> None
                 | Some nv \<Rightarrow> Some \<lparr>cn_node_id = on_node_id n, cn_arch = iv_arch nv, cn_os = iv_os nv,
                                     cn_gpus = iv_gpus nv, cn_roles = [], cn_labels = []\<rparr>)))"

definition observed_nodes :: "ctl_ext \<Rightarrow> datetime \<Rightarrow> app_state \<Rightarrow> observed_node list" where
  "observed_nodes ext now st =
     (case list_nodes (cx_store ext) now (as_store st) of Inl _ \<Rightarrow> [] | Inr ns \<Rightarrow> ns)"

definition live_candidates :: "ctl_ext \<Rightarrow> datetime \<Rightarrow> app_state \<Rightarrow> candidate_node list" where
  "live_candidates ext now st =
     List.map_filter (candidate_of ext (now - NODE_TIMEOUT)) (observed_nodes ext now st)"

definition node_load_of :: "instance_record list \<Rightarrow> string \<Rightarrow> node_load" where
  "node_load_of instances i =
     \<lparr>running_instances =
        of_nat (length (filter (\<lambda>r. ir_node r = Some i \<and> ir_exited_at r = None) instances))\<rparr>"

definition pick_node_for_dispatch ::
  "ctl_ext \<Rightarrow> datetime \<Rightarrow> app_state \<Rightarrow> string \<Rightarrow> workload_kind \<Rightarrow> string option" where
  "pick_node_for_dispatch ext now st name kind =
     (let candidates = live_candidates ext now st
      in if candidates = [] then as_node_id st
         else pick_best candidates (placement_for ext st name kind)
                (node_load_of (snapshot_all (as_instances st))))"

definition service_health_check :: "ctl_ext \<Rightarrow> app_state \<Rightarrow> workload_kind \<Rightarrow> string \<Rightarrow> health_check option" where
  "service_health_check ext st kind name =
     (if kind = WK_Service then
        (case lookup_ok ext st ''Service'' name of
           None \<Rightarrow> None
         | Some r \<Rightarrow> (case rs_body r of Body_Service spec _ \<Rightarrow> sv_health spec | _ \<Rightarrow> None))
      else None)"

definition dispatch_workload_with_slots ::
  "ctl_ext \<Rightarrow> datetime \<Rightarrow> workload_kind \<Rightarrow> string \<Rightarrow> runtime \<Rightarrow> u64 \<Rightarrow> u32 \<Rightarrow> u32 list \<Rightarrow> app_state \<Rightarrow>
     (api_error + string \<times> uuid) \<times> app_state" where
  "dispatch_workload_with_slots ext now kind name runtime generation replicas slot_indices st =
     (case pick_node_for_dispatch ext now st name kind of
        None \<Rightarrow> (Inl (api_bad_request ''no live nodes match the workload's placement''), st)
      | Some node \<Rightarrow>
          (let (instance_id, st1) = draw_uuid ext st;
               health_check = service_health_check ext st1 kind name;
               (env_id, st2) = draw_uuid ext st1;
               envelope = envelope_new env_id now None
                 \<lparr>cr_instance_id = instance_id, cr_kind = kind, cr_name = name, cr_runtime = runtime,
                  cr_generation = generation, cr_replicas = replicas, cr_health_check = health_check,
                  cr_slot_indices = slot_indices\<rparr>
           in case publish ext (for_node Topic_ControlRun node) (Msg_Run envelope) st2 of
                (Some e, st3) \<Rightarrow> (Inl (api_internal (''publish control.run: '' @ e)), st3)
              | (None, st3) \<Rightarrow> (Inr (node, instance_id), st3)))"

definition dispatch_workload ::
  "ctl_ext \<Rightarrow> datetime \<Rightarrow> workload_kind \<Rightarrow> string \<Rightarrow> runtime \<Rightarrow> u64 \<Rightarrow> u32 \<Rightarrow> app_state \<Rightarrow>
     (api_error + string \<times> uuid) \<times> app_state" where
  "dispatch_workload ext now kind name runtime generation replicas st =
     dispatch_workload_with_slots ext now kind name runtime generation replicas [] st"

subsection \<open>Lemmas\<close>

lemma dispatch_with_slots_eq:
  "dispatch_workload_with_slots ext now kind name runtime generation replicas slots st =
     (case pick_node_for_dispatch ext now st name kind of
        None \<Rightarrow> (Inl (api_bad_request ''no live nodes match the workload's placement''), st)
      | Some node \<Rightarrow>
          (let i = cx_new_uuid ext (as_drawn st);
               st' = st\<lparr>as_drawn := as_drawn st + 2, as_publishes := as_publishes st + 1\<rparr>;
               msg = Msg_Run (envelope_new (cx_new_uuid ext (as_drawn st + 1)) now None
                 \<lparr>cr_instance_id = i, cr_kind = kind, cr_name = name, cr_runtime = runtime,
                  cr_generation = generation, cr_replicas = replicas,
                  cr_health_check = service_health_check ext st kind name, cr_slot_indices = slots\<rparr>)
           in case cx_publish_error ext (as_publishes st) of
                Some e \<Rightarrow> (Inl (api_internal (''publish control.run: '' @ e)), st')
              | None \<Rightarrow> (Inr (node, i), st'\<lparr>as_sent := as_sent st @ [(for_node Topic_ControlRun node, msg)]\<rparr>)))"
  by (simp add: dispatch_workload_with_slots_def draw_uuid_def publish_def Let_def
      service_health_check_def lookup_ok_def lookup_resource_def split: option.split)

lemma candidate_of_Some:
  "candidate_of ext cutoff n = Some c \<Longrightarrow>
     cn_labels c = [] \<and> cn_node_id c = on_node_id n \<and> cutoff \<le> on_last_seen_at n"
  by (auto simp: candidate_of_def split: if_splits option.splits)

lemma live_candidates_labels: "c \<in> set (live_candidates ext now st) \<Longrightarrow> cn_labels c = []"
  unfolding live_candidates_def set_map_filter using candidate_of_Some by blast

lemma live_candidates_fresh:
  assumes "c \<in> set (live_candidates ext now st)"
  shows "\<exists>n \<in> set (observed_nodes ext now st). on_node_id n = cn_node_id c \<and> now - NODE_TIMEOUT \<le> on_last_seen_at n"
  using assms candidate_of_Some unfolding live_candidates_def set_map_filter by fastforce

lemma no_labels_no_match:
  assumes "\<forall>c \<in> set cs. cn_labels c = []" and "pl_node_labels p \<noteq> []"
  shows "pick_best cs p load = None"
proof -
  have "\<not> node_passes p c" if "c \<in> set cs" for c
    using assms that by (cases "pl_node_labels p") (auto simp: node_passes_iff)
  with pick_best_cases [of cs p load] show ?thesis by (auto simp: best_candidate_def)
qed

lemma score_entry_no_labels:
  "cn_labels c = [] \<Longrightarrow> score_entry (p\<lparr>pl_prefer := q\<rparr>) load c = score_entry p load c"
  by (simp add: score_entry_def score_node_eq label_matches_def Let_def)

lemma pick_best_prefer_irrelevant:
  assumes "\<forall>c \<in> set cs. cn_labels c = []"
  shows "pick_best cs (p\<lparr>pl_prefer := q\<rparr>) load = pick_best cs p load"
proof -
  have "node_passes (p\<lparr>pl_prefer := q\<rparr>) = node_passes p"
    by (simp add: fun_eq_iff node_passes_iff)
  then have f: "filter_nodes_by_placement cs (p\<lparr>pl_prefer := q\<rparr>) = filter_nodes_by_placement cs p"
    by (simp add: filter_nodes_by_placement_def)
  have "map (score_entry (p\<lparr>pl_prefer := q\<rparr>) load) (filter_nodes_by_placement cs p)
      = map (score_entry p load) (filter_nodes_by_placement cs p)"
    using assms by (auto simp: filter_nodes_by_placement_def score_entry_no_labels)
  then show ?thesis unfolding pick_best_def Let_def f by (simp only:)
qed

subsection \<open>Properties\<close>

text \<open>Further: dispatching a workload. It succeeds exactly when a node is picked and the bus accepts
  the message; then one \<open>ControlRun\<close> for that node, with the returned fresh identifier and the
  requested slots, is on the bus. Otherwise no message is sent; in no case does the dispatch
  itself touch the store or a registry.\<close>

theorem dispatch_outcome_exact:
  "(\<exists>sent. snd (dispatch_workload_with_slots ext now kind name runtime g reps slots st) =
      st\<lparr>as_drawn := as_drawn (snd (dispatch_workload_with_slots ext now kind name runtime g reps slots st)),
         as_publishes := as_publishes (snd (dispatch_workload_with_slots ext now kind name runtime g reps slots st)),
         as_sent := as_sent st @ sent\<rparr> \<and>
    (case fst (dispatch_workload_with_slots ext now kind name runtime g reps slots st) of
       Inl e \<Rightarrow> sent = [] \<and>
         (pick_node_for_dispatch ext now st name kind = None \<and> ae_status e = BAD_REQUEST \<or>
          cx_publish_error ext (as_publishes st) \<noteq> None \<and> ae_status e = INTERNAL_SERVER_ERROR)
     | Inr (node, i) \<Rightarrow>
         pick_node_for_dispatch ext now st name kind = Some node \<and>
         cx_publish_error ext (as_publishes st) = None \<and> i = cx_new_uuid ext (as_drawn st) \<and>
         (\<exists>env. sent = [(for_node Topic_ControlRun node, Msg_Run env)] \<and>
            cr_instance_id (en_payload env) = i \<and> cr_name (en_payload env) = name \<and>
            cr_kind (en_payload env) = kind \<and> cr_runtime (en_payload env) = runtime \<and>
            cr_replicas (en_payload env) = reps \<and> cr_slot_indices (en_payload env) = slots)))"
  unfolding dispatch_with_slots_eq
  by (auto simp: Let_def api_bad_request_def api_internal_def envelope_new_def split: option.split)

text \<open>Further: a picked node was heard from in the last thirty seconds and satisfies the workload's
  placement, or no node with a readable inventory is alive and the pick is the last node that
  ever sent a heartbeat, however long ago.\<close>

theorem picked_node_alive:
  assumes "pick_node_for_dispatch ext now st name kind = Some i"
  shows "(\<exists>c \<in> set (live_candidates ext now st). cn_node_id c = i \<and> node_passes (placement_for ext st name kind) c \<and>
            (\<exists>n \<in> set (observed_nodes ext now st). on_node_id n = i \<and> now - NODE_TIMEOUT \<le> on_last_seen_at n)) \<or>
         live_candidates ext now st = [] \<and> as_node_id st = Some i"
proof (cases "live_candidates ext now st = []")
  case False
  let ?load = "node_load_of (snapshot_all (as_instances st))"
  have "pick_best (live_candidates ext now st) (placement_for ext st name kind) ?load = Some i"
    using assms False by (simp add: pick_node_for_dispatch_def Let_def)
  with pick_best_cases [of "live_candidates ext now st" "placement_for ext st name kind" ?load]
  obtain c where c: "best_candidate (live_candidates ext now st) (placement_for ext st name kind) ?load c" "cn_node_id c = i"
    by auto
  then have "c \<in> set (live_candidates ext now st)" "node_passes (placement_for ext st name kind) c"
    by (auto simp: best_candidate_def)
  with c(2) live_candidates_fresh show ?thesis by blast
qed (use assms in \<open>simp add: pick_node_for_dispatch_def\<close>)

text \<open>Further: the dispatcher drops node labels. Whenever a node is alive, a workload that requires
  any node label is never placed, whatever labels the nodes have; and its preferred labels never
  influence the choice.\<close>

theorem dispatch_ignores_labels:
  assumes "live_candidates ext now st \<noteq> []" and "pl_node_labels (placement_for ext st name kind) \<noteq> []"
  shows "dispatch_workload ext now kind name runtime g reps st =
           (Inl (api_bad_request ''no live nodes match the workload's placement''), st) \<and>
         pick_best (live_candidates ext now st) (p\<lparr>pl_prefer := q\<rparr>) load =
           pick_best (live_candidates ext now st) p load"
proof -
  have labels: "\<forall>c \<in> set (live_candidates ext now st). cn_labels c = []"
    using live_candidates_labels by blast
  have "pick_node_for_dispatch ext now st name kind = None"
    using no_labels_no_match [OF labels assms(2)] assms(1) by (simp add: pick_node_for_dispatch_def Let_def)
  then have "dispatch_workload ext now kind name runtime g reps st =
      (Inl (api_bad_request ''no live nodes match the workload's placement''), st)"
    by (simp add: dispatch_workload_def dispatch_with_slots_eq)
  with pick_best_prefer_irrelevant [OF labels] show ?thesis by blast
qed

subsection \<open>Witnesses\<close>

text \<open>A mesh with one live node, whose stored task asks for a label.\<close>

definition demo_inventory :: node_inventory where
  "demo_inventory = \<lparr>iv_node_id = ''mini'', iv_agent_version = ''1'', iv_arch = Arm64, iv_os = Macos,
     iv_acceleration = None, iv_gpus = [], iv_cpu_cores = 8, iv_mem_total_bytes = 16, iv_disk_gb = None,
     iv_runtimes = [], iv_roles = [], iv_labels = [(''site'', ''home'')], iv_address = None\<rparr>"

definition labelled_task :: resource where
  "labelled_task = demo_task\<lparr>rs_body := Body_Task (default_task_spec
     \<lparr>tk_placement := default_placement\<lparr>pl_node_labels := [(''site'', ''home'')]\<rparr>,
      tk_runtime := Some (Runtime_Native ''true'' [] [])\<rparr>) None\<rparr>"

definition demo_ctl :: ctl_ext where
  "demo_ctl =
     \<lparr>cx_store = demo_ext\<lparr>ex_decode_resource := (\<lambda>s. if s = ''l'' then Inr labelled_task
                            else if s = ''t'' then Inr demo_task else Inl ''unknown'')\<rparr>,
      cx_from_yaml = (\<lambda>s. if s = ''t'' then Inr demo_task else Inl ''bad yaml''),
      cx_encode_inventory = (\<lambda>_. Some ''inv''),
      cx_decode_inventory = (\<lambda>s. if s = ''inv'' then Some demo_inventory else None),
      cx_parse_json = (\<lambda>_. None), cx_parse_selector = (\<lambda>_. Inl ''bad selector''),
      cx_parse_uuid = (\<lambda>_. None), cx_cron = (\<lambda>_. Inr (\<lambda>t. Some (t + 60))),
      cx_new_uuid = of_nat, cx_publish_error = (\<lambda>_. None)\<rparr>"

definition demo_mesh :: db where
  "demo_mesh = \<lparr>db_fault = None,
     db_resource = Some [((''Task'', ''_'', ''backup''),
       \<lparr>row_generation = 1, row_body = ''l'', row_updated_at = []\<rparr>)],
     db_observed_node = Some [(''mini'', \<lparr>nd_agent_version = ''1'', nd_inventory = Some ''inv'', nd_last_seen_at = ''a''\<rparr>)],
     db_log_archive = Some []\<rparr>"

definition demo_state :: app_state where
  "demo_state = app_state_new demo_mesh ''nats://localhost:4222'' 0"

lemma demo_candidates:
  "live_candidates demo_ctl 2 demo_state =
     [\<lparr>cn_node_id = ''mini'', cn_arch = Arm64, cn_os = Macos, cn_gpus = [], cn_roles = [], cn_labels = []\<rparr>]"
  by (simp add: live_candidates_def observed_nodes_def list_nodes_def query_def demo_state_def app_state_new_def
      demo_mesh_def observed_of_row_def demo_ctl_def demo_ext_def candidate_of_def NODE_TIMEOUT_def
      demo_inventory_def List.map_filter_simps)

lemma demo_placements:
  "placement_for demo_ctl demo_state ''backup'' WK_Task = default_placement\<lparr>pl_node_labels := [(''site'', ''home'')]\<rparr>"
  "placement_for demo_ctl demo_state ''other'' WK_Task = default_placement"
  by (simp_all add: placement_for_def lookup_ok_def lookup_resource_def get_resource_def query_def
      workload_kind_str_def demo_state_def app_state_new_def demo_mesh_def demo_ctl_def hm_get_def
      labelled_task_def default_task_spec_def)

theorem picked_node_alive_witness:
  "\<exists>c \<in> set (live_candidates demo_ctl 2 demo_state). cn_node_id c = ''mini''"
proof -
  have "pick_node_for_dispatch demo_ctl 2 demo_state ''other'' WK_Task = Some ''mini''"
    by (simp add: pick_node_for_dispatch_def demo_candidates demo_placements pick_best_def score_entry_def
        filter_nodes_by_placement_def node_passes_def default_placement_def Let_def)
  from picked_node_alive [OF this] show ?thesis by (auto simp: demo_candidates)
qed

theorem dispatch_ignores_labels_witness:
  "fst (dispatch_workload demo_ctl 2 WK_Task ''backup'' (Runtime_Wasm ''m'') 0 1 demo_state) =
     Inl (api_bad_request ''no live nodes match the workload's placement'')"
  using dispatch_ignores_labels [of demo_ctl 2 demo_state "''backup''" WK_Task "Runtime_Wasm ''m''" 0 1]
  by (simp add: demo_candidates demo_placements default_placement_def)

end
