(* ===== verification/Control_Loops.thy ===== *)
theory Control_Loops
  imports Controller
begin

text \<open>
  The controller's three periodic loops (\<^verbatim>\<open>orion-controller/src/main.rs\<close>): the reconciler
  \<open>reconcile_once\<close>, the workflow runner \<open>workflow_tick_once\<close> and the cron scheduler
  \<open>scheduler_tick_once\<close>. Each definition is one pass; the endless ticker around it repeats the
  pass. A pass visits the stored resources in listing order and threads the state through them.
\<close>

subsection \<open>Reconciler\<close>

definition observe_record :: "health_registry \<Rightarrow> instance_record \<Rightarrow> instance_observation" where
  "observe_record health_snap r =
     \<lparr>io_instance_id = ir_instance_id r, io_replica_index = ir_replica_index r,
      io_exited = (ir_exited_at r \<noteq> None), io_exit_code = ir_exit_code r,
      io_unhealthy = (ir_exited_at r = None \<and>
        (case hm_get health_snap (ir_instance_id r) of None \<Rightarrow> False | Some h \<Rightarrow> hs_status h = ''unhealthy''))\<rparr>"

definition observations :: "health_registry \<Rightarrow> string \<Rightarrow> app_state \<Rightarrow> instance_observation list" where
  "observations health_snap name st =
     map (observe_record health_snap) (workload_records (as_instances st) ''Service'' name)"

definition purge_ids :: "uuid list \<Rightarrow> app_state \<Rightarrow> app_state" where
  "purge_ids ids st = fold (\<lambda>i st. st\<lparr>as_instances := purge_instance i (as_instances st),
                                     as_health := health_purge i (as_health st)\<rparr>) ids st"

definition register_dispatch ::
  "datetime \<Rightarrow> string \<Rightarrow> string \<Rightarrow> (api_error + string \<times> uuid) \<times> app_state \<Rightarrow> app_state" where
  "register_dispatch now kind name = (\<lambda>(res, st).
     case res of
       Inl _ \<Rightarrow> st
     | Inr (node, i) \<Rightarrow> st\<lparr>as_instances := record_dispatch now i kind name (Some node) (as_instances st)\<rparr>)"

definition reconcile_service :: "ctl_ext \<Rightarrow> datetime \<Rightarrow> health_registry \<Rightarrow> resource \<Rightarrow> app_state \<Rightarrow> app_state" where
  "reconcile_service ext now health_snap svc st =
     (let name = md_name (rs_metadata svc); generation = unwrap_or (md_generation (rs_metadata svc)) 0
      in case rs_body svc of
           Body_Service spec _ \<Rightarrow>
             (case sv_runtime spec of
                None \<Rightarrow> st
              | Some rt \<Rightarrow>
                  (case decide_reconcile spec (observations health_snap name st) of
                     NoOp \<Rightarrow> st
                   | RedispatchAll replicas purge \<Rightarrow>
                       register_dispatch now ''Service'' name
                         (dispatch_workload ext now WK_Service name rt generation replicas (purge_ids purge st))
                   | DispatchPartial slots purge \<Rightarrow>
                       register_dispatch now ''Service'' name
                         (dispatch_workload_with_slots ext now WK_Service name rt generation
                            (desired_replicas spec) slots (purge_ids purge st))))
         | _ \<Rightarrow> st)"

definition reconcile_once :: "ctl_ext \<Rightarrow> datetime \<Rightarrow> app_state \<Rightarrow> (store_error + unit) \<times> app_state" where
  "reconcile_once ext now st =
     (case list_by_kind (cx_store ext) (as_store st) ''Service'' of
        Inl e \<Rightarrow> (Inl e, st)
      | Inr services \<Rightarrow> (Inr (), fold (reconcile_service ext now (as_health st)) services st))"

subsection \<open>Workflow runner\<close>

definition initial_progress :: "datetime \<Rightarrow> workflow_spec \<Rightarrow> workflow_progress" where
  "initial_progress now spec =
     \<lparr>wp_steps = fold (\<lambda>s m. hm_insert (st_name s) Pending m) (wf_steps spec) [],
      wp_started_at = now, wp_finished_at = None\<rparr>"

definition exit_kind_of :: "instance_record \<Rightarrow> task_exit_kind option" where
  "exit_kind_of r =
     (if ir_exit_kind r = Some ''succeeded'' then Some Task_Succeeded
      else if ir_exit_kind r = Some ''failed'' then Some Task_Failed
      else None)"

definition task_states_of :: "instance_record list \<Rightarrow> task_states" where
  "task_states_of instances =
     fold (\<lambda>r m. if ir_kind r = ''Task''
                 then (case exit_kind_of r of None \<Rightarrow> m | Some k \<Rightarrow> hm_insert (ir_name r) k m)
                 else m) instances []"

definition dispatch_step ::
  "ctl_ext \<Rightarrow> datetime \<Rightarrow> workflow_spec \<Rightarrow> string \<Rightarrow> progress \<times> app_state \<Rightarrow> progress \<times> app_state" where
  "dispatch_step ext now spec step_name = (\<lambda>(steps, st).
     case find (\<lambda>s. st_name s = step_name) (wf_steps spec) of
       None \<Rightarrow> (steps, st)
     | Some step \<Rightarrow>
         (case lookup_ok ext st ''Task'' (st_task step) of
            None \<Rightarrow> (hm_insert (st_name step) Failed steps, st)
          | Some task \<Rightarrow>
              (case (case rs_body task of Body_Task tspec _ \<Rightarrow> tk_runtime tspec | _ \<Rightarrow> None) of
                 None \<Rightarrow> (hm_insert (st_name step) Failed steps, st)
               | Some rt \<Rightarrow>
                   (case dispatch_workload ext now WK_Task (st_task step) rt 0 1 st of
                      (Inr (node, i), st') \<Rightarrow>
                        (hm_insert (st_name step) Running steps,
                         st'\<lparr>as_instances := record_dispatch now i ''Task'' (st_task step) (Some node) (as_instances st')\<rparr>)
                    | (Inl _, st') \<Rightarrow> (hm_insert (st_name step) Failed steps, st')))))"

definition workflow_tick :: "ctl_ext \<Rightarrow> datetime \<Rightarrow> resource \<Rightarrow> app_state \<Rightarrow> app_state" where
  "workflow_tick ext now w st =
     (case rs_body w of
        Body_Workflow spec _ \<Rightarrow>
          (let name = md_name (rs_metadata w);
               snapshot = unwrap_or (hm_get (as_workflows st) name) (initial_progress now spec);
               st = st\<lparr>as_workflows := hm_insert name snapshot (as_workflows st)\<rparr>
           in if wp_finished_at snapshot \<noteq> None then st
              else
                (let plan = advance_workflow spec (wp_steps snapshot) (task_states_of (snapshot_all (as_instances st)));
                     steps = fold (\<lambda>(k, v). hm_insert k v) (wa_next_progress plan) (wp_steps snapshot);
                     (steps, st) = fold (dispatch_step ext now spec) (wa_dispatch plan) (steps, st);
                     progress = snapshot\<lparr>wp_steps := steps,
                        wp_finished_at := (if wa_finished plan then Some now else wp_finished_at snapshot)\<rparr>
                 in st\<lparr>as_workflows := hm_insert name progress (as_workflows st)\<rparr>))
      | _ \<Rightarrow> st)"

definition workflow_tick_once :: "ctl_ext \<Rightarrow> datetime \<Rightarrow> app_state \<Rightarrow> (store_error + unit) \<times> app_state" where
  "workflow_tick_once ext now st =
     (case list_by_kind (cx_store ext) (as_store st) ''Workflow'' of
        Inl e \<Rightarrow> (Inl e, st)
      | Inr workflows \<Rightarrow> (Inr (), fold (workflow_tick ext now) workflows st))"

subsection \<open>Cron scheduler\<close>

definition cron_expr_of :: "string \<Rightarrow> string" where
  "cron_expr_of c = (if length (split_whitespace c) = 5 then ''0 '' @ c else c)"

definition resolve_schedule_target :: "ctl_ext \<Rightarrow> app_state \<Rightarrow> schedule_spec \<Rightarrow> string + resource_name \<times> runtime" where
  "resolve_schedule_target ext st spec =
     (case sc_task_template spec of
        Some template \<Rightarrow>
          (case tk_runtime template of
             None \<Rightarrow> Inl ''task_template has no runtime''
           | Some rt \<Rightarrow> Inr (''inline-task'', rt))
      | None \<Rightarrow>
          (case sc_task spec of
             None \<Rightarrow> Inl ''schedule has no task or task_template (should not happen if validate() ran)''
           | Some task_name \<Rightarrow>
               (case lookup_resource ext st ''Task'' task_name of
                  Inl e \<Rightarrow> Inl (''store: '' @ store_error_text e)
                | Inr None \<Rightarrow> Inl (''referenced Task '' @ [CHR 0x27] @ task_name @ [CHR 0x27] @ '' not found'')
                | Inr (Some task) \<Rightarrow>
                    (case rs_body task of
                       Body_Task tspec _ \<Rightarrow>
                         (case tk_runtime tspec of
                            None \<Rightarrow> Inl ''referenced Task has no runtime''
                          | Some rt \<Rightarrow> Inr (task_name, rt))
                     | _ \<Rightarrow> Inl ''referenced resource is not a Task''))))"

definition observe_in ::
  "datetime \<Rightarrow> string \<Rightarrow> (schedule_observation \<Rightarrow> schedule_observation) \<Rightarrow> app_state \<Rightarrow> app_state" where
  "observe_in now name f st = st\<lparr>as_schedules := schedule_observe now name f (as_schedules st)\<rparr>"

text \<open>The due branch: resolve the target, dispatch it, and record the outcome.\<close>

definition fire_schedule ::
  "ctl_ext \<Rightarrow> datetime \<Rightarrow> string \<Rightarrow> schedule_spec \<Rightarrow> (datetime \<Rightarrow> datetime option) \<Rightarrow> app_state \<Rightarrow> app_state" where
  "fire_schedule ext now name spec parsed st =
     (case resolve_schedule_target ext st spec of
        Inl e \<Rightarrow> observe_in now name (\<lambda>ob. ob\<lparr>so_last_error := Some e\<rparr>) st
      | Inr (workload_name, rt) \<Rightarrow>
          (case dispatch_workload ext now WK_Task workload_name rt 1 1 st of
             (Inr (node, i), st') \<Rightarrow>
               observe_in now name (\<lambda>ob. ob\<lparr>so_last_fired_at := Some now, so_last_instance_id := Some i,
                   so_last_error := None, so_fire_count := so_fire_count ob + 1,
                   so_next_fire_at := parsed now\<rparr>) st'
           | (Inl e, st') \<Rightarrow> observe_in now name (\<lambda>ob. ob\<lparr>so_last_error := Some (ae_message e)\<rparr>) st'))"

definition schedule_tick :: "ctl_ext \<Rightarrow> datetime \<Rightarrow> resource \<Rightarrow> app_state \<Rightarrow> app_state" where
  "schedule_tick ext now sched st =
     (case rs_body sched of
        Body_Schedule spec _ \<Rightarrow>
          (let name = md_name (rs_metadata sched)
           in case cx_cron ext (cron_expr_of (sc_cron spec)) of
                Inl e \<Rightarrow> observe_in now name
                  (\<lambda>ob. ob\<lparr>so_last_error := Some (''cron parse: '' @ e), so_next_fire_at := None\<rparr>) st
              | Inr parsed \<Rightarrow>
                  (case hm_get (as_schedules st) name of
                     None \<Rightarrow> observe_in now name (\<lambda>ob. ob\<lparr>so_next_fire_at := parsed now\<rparr>) st
                   | Some ob \<Rightarrow>
                       (let next = parsed (unwrap_or (so_last_fired_at ob) (so_armed_at ob));
                            st = observe_in now name (\<lambda>ob. ob\<lparr>so_next_fire_at := next\<rparr>) st
                        in case next of
                             None \<Rightarrow> st
                           | Some t \<Rightarrow> if t > now then st else fire_schedule ext now name spec parsed st)))
      | _ \<Rightarrow> st)"

definition scheduler_tick_once :: "ctl_ext \<Rightarrow> datetime \<Rightarrow> app_state \<Rightarrow> (store_error + unit) \<times> app_state" where
  "scheduler_tick_once ext now st =
     (case list_by_kind (cx_store ext) (as_store st) ''Schedule'' of
        Inl e \<Rightarrow> (Inl e, st)
      | Inr schedules \<Rightarrow> (Inr (), fold (schedule_tick ext now) schedules st))"

subsection \<open>Lemmas: frames\<close>

text \<open>The effect of a dispatch on the state: only the ghosts of the world move.\<close>

lemma dispatch_frame_simps [simp]:
  "as_store (snd (dispatch_workload_with_slots ext now kind name rt g reps slots st)) = as_store st"
  "as_instances (snd (dispatch_workload_with_slots ext now kind name rt g reps slots st)) = as_instances st"
  "as_health (snd (dispatch_workload_with_slots ext now kind name rt g reps slots st)) = as_health st"
  "as_schedules (snd (dispatch_workload_with_slots ext now kind name rt g reps slots st)) = as_schedules st"
  "as_workflows (snd (dispatch_workload_with_slots ext now kind name rt g reps slots st)) = as_workflows st"
  "as_logs (snd (dispatch_workload_with_slots ext now kind name rt g reps slots st)) = as_logs st"
  unfolding dispatch_with_slots_eq by (auto simp: Let_def split: option.split)

lemmas dispatch_workload_simps [simp] = dispatch_frame_simps [of _ _ _ _ _ _ _ "[]", folded dispatch_workload_def]

definition run_msg :: "workload_kind \<Rightarrow> string \<Rightarrow> u32 list \<Rightarrow> string \<times> bus_msg \<Rightarrow> bool" where
  "run_msg kind name slots m =
     (case snd m of
        Msg_Run env \<Rightarrow> cr_kind (en_payload env) = kind \<and> cr_name (en_payload env) = name \<and>
          cr_slot_indices (en_payload env) = slots \<and> (\<exists>node. fst m = for_node Topic_ControlRun node)
      | Msg_Stop _ \<Rightarrow> False)"

lemma dispatch_sent:
  "\<exists>ms. as_sent (snd (dispatch_workload_with_slots ext now kind name rt g reps slots st)) = as_sent st @ ms \<and>
     (case fst (dispatch_workload_with_slots ext now kind name rt g reps slots st) of
        Inl _ \<Rightarrow> ms = []
      | Inr (node, i) \<Rightarrow> i = cx_new_uuid ext (as_drawn st) \<and> (\<exists>m. ms = [m] \<and> run_msg kind name slots m))"
  unfolding dispatch_with_slots_eq
  by (auto simp: Let_def run_msg_def envelope_new_def split: option.split)

lemma dispatch_sent_le:
  "\<exists>ms. as_sent (snd (dispatch_workload_with_slots ext now kind name rt g reps slots st)) = as_sent st @ ms \<and>
     length ms \<le> 1 \<and> (\<forall>m \<in> set ms. run_msg kind name slots m)"
  unfolding dispatch_with_slots_eq
  by (auto simp: Let_def run_msg_def envelope_new_def split: option.split)

lemma purge_ids_simps [simp]:
  "as_store (purge_ids ids st) = as_store st" "as_sent (purge_ids ids st) = as_sent st"
  "as_drawn (purge_ids ids st) = as_drawn st" "as_schedules (purge_ids ids st) = as_schedules st"
  "as_workflows (purge_ids ids st) = as_workflows st" "as_logs (purge_ids ids st) = as_logs st"
  unfolding purge_ids_def by (induction ids arbitrary: st) simp_all

lemma register_dispatch_simps [simp]:
  "as_store (register_dispatch now kind name x) = as_store (snd x)"
  "as_sent (register_dispatch now kind name x) = as_sent (snd x)"
  "as_schedules (register_dispatch now kind name x) = as_schedules (snd x)"
  "as_health (register_dispatch now kind name x) = as_health (snd x)"
  "as_workflows (register_dispatch now kind name x) = as_workflows (snd x)"
  "as_logs (register_dispatch now kind name x) = as_logs (snd x)"
  by (auto simp: register_dispatch_def split: sum.split prod.split)

lemma reg_wf_purge_ids [inv_intros]:
  "reg_wf (as_instances st) \<Longrightarrow> reg_wf (as_instances (purge_ids ids st))"
  unfolding purge_ids_def by (induction ids arbitrary: st) (simp_all add: inv_intros)

lemma reg_wf_register [inv_intros]:
  "reg_wf (as_instances (snd x)) \<Longrightarrow> reg_wf (as_instances (register_dispatch now kind name x))"
  by (cases x) (auto simp: register_dispatch_def intro: inv_intros split: sum.split)

text \<open>What one visit of the reconciler sends.\<close>

lemma reconcile_service_sent:
  "\<exists>ms. as_sent (reconcile_service ext now h svc st) = as_sent st @ ms \<and> length ms \<le> 1 \<and>
     (\<forall>m \<in> set ms. \<exists>slots. run_msg WK_Service (md_name (rs_metadata svc)) slots m \<and> kind_str svc = ''Service'')"
proof (cases "rs_body svc")
  case (Body_Service spec su)
  show ?thesis
  proof (cases "sv_runtime spec")
    case None
    with Body_Service show ?thesis by (simp add: reconcile_service_def Let_def)
  next
    case (Some rt)
    have one: "\<exists>ms. as_sent (register_dispatch now ''Service'' n (dispatch_workload_with_slots ext now WK_Service n rt g reps slots (purge_ids ids st)))
        = as_sent st @ ms \<and> length ms \<le> 1 \<and> (\<forall>m \<in> set ms. \<exists>slots. run_msg WK_Service n slots m)" for n g reps slots ids
      using dispatch_sent_le [of ext now WK_Service n rt g reps slots "purge_ids ids st"] by auto
    show ?thesis
      using one [of "md_name (rs_metadata svc)"] Body_Service Some
      by (auto simp: reconcile_service_def Let_def dispatch_workload_def kind_str_def split: reconcile_action.split)
  qed
qed (simp_all add: reconcile_service_def Let_def)

lemma reg_wf_reconcile_service [inv_intros]:
  "reg_wf (as_instances st) \<Longrightarrow> reg_wf (as_instances (reconcile_service ext now h svc st))"
  by (cases "rs_body svc")
    (auto simp: reconcile_service_def Let_def dispatch_workload_def intro!: reg_wf_register reg_wf_purge_ids
      split: option.split reconcile_action.split)

lemma reconcile_service_store [simp]: "as_store (reconcile_service ext now h svc st) = as_store st"
  by (cases "rs_body svc")
    (auto simp: reconcile_service_def Let_def dispatch_workload_def
      split: option.split reconcile_action.split)

lemma dispatch_workloadD:
  assumes "dispatch_workload ext now kind name rt g reps st = (res, st')"
  shows "as_instances st' = as_instances st \<and> as_store st' = as_store st \<and> as_schedules st' = as_schedules st \<and>
     as_workflows st' = as_workflows st \<and> as_health st' = as_health st \<and> as_logs st' = as_logs st"
  using assms dispatch_workload_simps [of ext now kind name rt g reps st] by simp

lemma dispatch_workload_sentD:
  assumes "dispatch_workload ext now kind name rt g reps st = (res, st')"
  shows "\<exists>ms. as_sent st' = as_sent st @ ms \<and>
     (case res of Inl _ \<Rightarrow> ms = [] | Inr _ \<Rightarrow> (\<exists>m. ms = [m] \<and> run_msg kind name [] m))"
  using dispatch_sent [of ext now kind name rt g reps "[]" st] assms
  by (cases res) (auto simp: dispatch_workload_def)

subsection \<open>Lemmas: a service whose replicas stay silent\<close>

definition silent :: "string \<Rightarrow> app_state \<Rightarrow> bool" where
  "silent name st \<longleftrightarrow>
     (let rs = workload_records (as_instances st) ''Service'' name
      in rs \<noteq> [] \<and> list_all (\<lambda>r. ir_exited_at r = None \<and> ir_replica_index r = 0) rs)"

lemma silent_decision:
  assumes "silent name st" and "1 < desired_replicas spec"
    and "length (workload_records (as_instances st) ''Service'' name) + unat (desired_replicas spec) < 2 ^ 32"
  shows "decide_reconcile spec (observations [] name st) =
           DispatchPartial (sorted_list_of_set {s. 0 < s \<and> s < desired_replicas spec}) []"
proof -
  let ?obs = "observations [] name st"
  have live: "io_live i \<and> io_replica_index i = 0" if "i \<in> set ?obs" for i
    using assms(1) that by (auto simp: silent_def observations_def observe_record_def io_live_def list_all_iff Let_def)
  have ne: "?obs \<noteq> []" using assms(1) by (simp add: silent_def observations_def Let_def)
  have idx: "io_replica_index ` set ?obs = {0}"
    using live hd_in_set [OF ne] by (auto intro!: image_eqI [where x = "hd ?obs"])
  have r: "restarting spec ?obs = []"
    using live by (auto simp: restarting_def filter_empty_conv)
  have launch: "slots_to_launch spec ?obs = {s. 0 < s \<and> s < desired_replicas spec}"
    unfolding slots_to_launch_def idx r by (auto simp: word_neq_0_conv)
  moreover have "1 \<in> {s. 0 < s \<and> s < desired_replicas spec}" using assms(2) by simp
  moreover have "\<not> (\<forall>i \<in> set ?obs. \<not> io_live i)" using ne live by fastforce
  ultimately have "reconcile_plan spec ?obs = DispatchPartial (sorted_list_of_set {s. 0 < s \<and> s < desired_replicas spec}) []"
    unfolding reconcile_plan_def Let_def r by auto
  with assms(3) show ?thesis
    by (subst decide_reconcile_plan) (simp_all add: observations_def)
qed

lemma silent_register:
  assumes "silent name st" and "as_instances st' = as_instances st"
    and "hm_get (by_id (as_instances st)) i = None"
  shows "silent name (register_dispatch now ''Service'' name (Inr (node, i), st'))"
proof -
  let ?reg = "as_instances st"
  let ?reg' = "record_dispatch now i ''Service'' name (Some node) ?reg"
  have ids: "set (workload_ids ?reg' ''Service'' name) = insert i (set (workload_ids ?reg ''Service'' name))"
    by (auto simp: record_dispatch_def workload_ids_index Let_def)
  have get: "\<exists>r. ir_exited_at r = None \<and> ir_replica_index r = 0 \<and>
      hm_get (by_id ?reg') = (hm_get (by_id ?reg))(i := Some r)"
    using assms(3) by (intro exI) (auto simp: record_dispatch_def Let_def fun_eq_iff)
  have mem: "r \<in> set (workload_records g ''Service'' name) \<longleftrightarrow>
      (\<exists>j \<in> set (workload_ids g ''Service'' name). hm_get (by_id g) j = Some r)" for g r
    by (auto simp: workload_records_def set_map_filter)
  have old: "\<forall>r. r \<in> set (workload_records ?reg ''Service'' name) \<longrightarrow> ir_exited_at r = None \<and> ir_replica_index r = 0"
    using assms(1) by (auto simp: silent_def list_all_iff Let_def)
  have "\<forall>r. r \<in> set (workload_records ?reg' ''Service'' name) \<longrightarrow> ir_exited_at r = None \<and> ir_replica_index r = 0"
    using get ids old unfolding mem by (metis fun_upd_other fun_upd_same insertE option.inject)
  moreover have "\<exists>r. r \<in> set (workload_records ?reg' ''Service'' name)"
    using get ids unfolding mem by (metis fun_upd_same insertI1)
  ultimately show ?thesis
    using assms(2) by (auto simp: silent_def register_dispatch_def list_all_iff Let_def)
qed

lemma workload_records_dispatch_length:
  "length (workload_records (record_dispatch now i kind name node reg) kind name)
     \<le> Suc (length (workload_ids reg kind name))"
proof -
  have "length (List.map_filter f xs) \<le> length xs" for f :: "uuid \<Rightarrow> instance_record option" and xs
    by (simp add: List.map_filter_def)
  then have "length (workload_records (record_dispatch now i kind name node reg) kind name)
      \<le> length (workload_ids (record_dispatch now i kind name node reg) kind name)"
    by (simp add: workload_records_def)
  also have "\<dots> \<le> Suc (length (workload_ids reg kind name))"
    by (simp add: record_dispatch_def workload_ids_index Let_def)
  finally show ?thesis .
qed

lemma reconcile_silent_step:
  assumes "silent name st" and "rs_body svc = Body_Service spec su" and "sv_runtime spec = Some rt"
    and "md_name (rs_metadata svc) = name" and "1 < desired_replicas spec"
    and "length (workload_ids (as_instances st) ''Service'' name) + unat (desired_replicas spec) < 2 ^ 32"
    and "hm_get (by_id (as_instances st)) (cx_new_uuid ext (as_drawn st)) = None"
    and "pick_node_for_dispatch ext now st name WK_Service \<noteq> None" and "cx_publish_error ext (as_publishes st) = None"
  shows "silent name (reconcile_service ext now [] svc st) \<and>
     as_drawn (reconcile_service ext now [] svc st) = as_drawn st + 2 \<and>
     (\<exists>m. as_sent (reconcile_service ext now [] svc st) = as_sent st @ [m] \<and>
        run_msg WK_Service name (sorted_list_of_set {s. 0 < s \<and> s < desired_replicas spec}) m) \<and>
     length (workload_ids (as_instances (reconcile_service ext now [] svc st)) ''Service'' name)
       \<le> Suc (length (workload_ids (as_instances st) ''Service'' name)) \<and>
     (\<forall>j. hm_get (by_id (as_instances (reconcile_service ext now [] svc st))) j \<noteq> None \<longrightarrow>
        hm_get (by_id (as_instances st)) j \<noteq> None \<or> j = cx_new_uuid ext (as_drawn st))"
proof -
  let ?slots = "sorted_list_of_set {s. 0 < s \<and> s < desired_replicas spec}"
  let ?g = "unwrap_or (md_generation (rs_metadata svc)) 0"
  have "length (workload_records (as_instances st) ''Service'' name) \<le> length (workload_ids (as_instances st) ''Service'' name)"
    by (simp add: workload_records_def List.map_filter_def)
  with silent_decision [OF assms(1,5)] assms(6)
  have dec: "decide_reconcile spec (observations [] name st) = DispatchPartial ?slots []" by simp
  then have r: "reconcile_service ext now [] svc st = register_dispatch now ''Service'' name
      (dispatch_workload_with_slots ext now WK_Service name rt ?g (desired_replicas spec) ?slots st)"
    using assms(2-4) by (simp add: reconcile_service_def Let_def purge_ids_def)
  obtain node where node: "pick_node_for_dispatch ext now st name WK_Service = Some node"
    using assms(8) by blast
  obtain st' m where d: "dispatch_workload_with_slots ext now WK_Service name rt ?g (desired_replicas spec) ?slots st
      = (Inr (node, cx_new_uuid ext (as_drawn st)), st')"
    "as_instances st' = as_instances st" "as_drawn st' = as_drawn st + 2" "as_sent st' = as_sent st @ [m]"
    "run_msg WK_Service name ?slots m"
    using node assms(9) unfolding dispatch_with_slots_eq
    by (auto simp: Let_def run_msg_def envelope_new_def)
  have "length (workload_ids (record_dispatch now i ''Service'' name n reg) ''Service'' name)
      \<le> Suc (length (workload_ids reg ''Service'' name))" for i n reg
    by (simp add: record_dispatch_def workload_ids_index Let_def)
  then show ?thesis
    unfolding r d(1) using silent_register [OF assms(1) d(2) assms(7)] d(2-5)
    by (auto simp: register_dispatch_def record_dispatch_def Let_def)
qed

lemma reconcile_service_publishes:
  "as_node_id (reconcile_service ext now h svc st) = as_node_id st"
proof -
  have "as_node_id (purge_ids ids st) = as_node_id st" for ids st
    unfolding purge_ids_def by (induction ids arbitrary: st) simp_all
  moreover have "as_node_id (snd (dispatch_workload_with_slots ext now k n rt g reps slots st)) = as_node_id st"
    for k n rt g reps slots st
    unfolding dispatch_with_slots_eq by (auto simp: Let_def split: option.split)
  moreover have "as_node_id (register_dispatch now k n x) = as_node_id (snd x)" for k n x
    by (auto simp: register_dispatch_def split: sum.split prod.split)
  ultimately show ?thesis
    by (cases "rs_body svc")
      (auto simp: reconcile_service_def Let_def dispatch_workload_def split: option.split reconcile_action.split)
qed

lemma silent_storm:
  assumes "rs_body svc = Body_Service spec su" and "sv_runtime spec = Some rt"
    and "md_name (rs_metadata svc) = name" and "1 < desired_replicas spec"
    and "\<forall>n. cx_publish_error ext n = None" and "inj_on (cx_new_uuid ext) {..<N}"
    and "\<forall>now st'. as_store st' = d \<and> as_node_id st' = nid \<longrightarrow> pick_node_for_dispatch ext now st' name WK_Service \<noteq> None"
    and "silent name st" and "as_store st = d" and "as_node_id st = nid"
    and "length (workload_ids (as_instances st) ''Service'' name) + length nows + unat (desired_replicas spec) < 2 ^ 32"
    and "\<forall>n. as_drawn st \<le> n \<and> n < N \<longrightarrow> hm_get (by_id (as_instances st)) (cx_new_uuid ext n) = None"
    and "as_drawn st + 2 * length nows \<le> N"
  shows "\<exists>ms. as_sent (fold (\<lambda>now. reconcile_service ext now [] svc) nows st) = as_sent st @ ms \<and>
     length ms = length nows \<and>
     list_all (run_msg WK_Service name (sorted_list_of_set {s. 0 < s \<and> s < desired_replicas spec})) ms"
  using assms(8-13)
proof (induction nows arbitrary: st)
  case (Cons now nows)
  let ?st = "reconcile_service ext now [] svc st"
  have pick: "pick_node_for_dispatch ext now st name WK_Service \<noteq> None"
    using assms(7) Cons.prems(2,3) by blast
  have step: "silent name ?st" "as_drawn ?st = as_drawn st + 2"
    "\<exists>m. as_sent ?st = as_sent st @ [m] \<and>
        run_msg WK_Service name (sorted_list_of_set {s. 0 < s \<and> s < desired_replicas spec}) m"
    "length (workload_ids (as_instances ?st) ''Service'' name) \<le> Suc (length (workload_ids (as_instances st) ''Service'' name))"
    "\<forall>j. hm_get (by_id (as_instances ?st)) j \<noteq> None \<longrightarrow>
        hm_get (by_id (as_instances st)) j \<noteq> None \<or> j = cx_new_uuid ext (as_drawn st)"
    using reconcile_silent_step [OF Cons.prems(1) assms(1-4) _ _ pick] Cons.prems(4-6) assms(5) by simp_all
  have fresh: "\<forall>n. as_drawn ?st \<le> n \<and> n < N \<longrightarrow> hm_get (by_id (as_instances ?st)) (cx_new_uuid ext n) = None"
  proof (intro allI impI)
    fix n
    assume "as_drawn ?st \<le> n \<and> n < N"
    with step(2) have n: "as_drawn st < n" "n < N" by simp_all
    then have "cx_new_uuid ext n \<noteq> cx_new_uuid ext (as_drawn st)"
      using assms(6) by (auto dest: inj_onD)
    with n step(5) Cons.prems(5) show "hm_get (by_id (as_instances ?st)) (cx_new_uuid ext n) = None"
      by (meson less_imp_le)
  qed
  from Cons.IH [OF step(1) _ _ _ fresh] step(2) obtain ms where
    "as_sent (fold (\<lambda>now. reconcile_service ext now [] svc) nows ?st) = as_sent ?st @ ms" "length ms = length nows"
    "list_all (run_msg WK_Service name (sorted_list_of_set {s. 0 < s \<and> s < desired_replicas spec})) ms"
    using Cons.prems(2-4,6) step(4) by (auto simp: reconcile_service_publishes)
  moreover obtain m where "as_sent ?st = as_sent st @ [m]"
    "run_msg WK_Service name (sorted_list_of_set {s. 0 < s \<and> s < desired_replicas spec}) m"
    using step(3) by blast
  ultimately show ?case by (intro exI [of _ "m # ms"]) simp
qed simp

subsection \<open>Lemmas: the cron scheduler\<close>

lemma observe_in_simps [simp]:
  "as_sent (observe_in now name f st) = as_sent st" "as_instances (observe_in now name f st) = as_instances st"
  "as_store (observe_in now name f st) = as_store st"
  "hm_get (as_schedules (observe_in now name f st)) n =
     (if n = name then Some (f (unwrap_or (hm_get (as_schedules st) name) (fresh_observation now)))
      else hm_get (as_schedules st) n)"
  by (simp_all add: observe_in_def schedule_observe_def)

lemma fire_schedule_effect:
  assumes "hm_get (as_schedules st) name = Some ob"
  shows "\<exists>ms ob'. as_sent (fire_schedule ext now name spec parsed st) = as_sent st @ ms \<and>
     hm_get (as_schedules (fire_schedule ext now name spec parsed st)) name = Some ob' \<and>
     so_armed_at ob' = so_armed_at ob \<and>
     (ms = [] \<and> so_last_fired_at ob' = so_last_fired_at ob \<and> so_fire_count ob' = so_fire_count ob
        \<and> so_last_error ob' \<noteq> None \<or>
      (\<exists>m target. ms = [m] \<and> run_msg WK_Task target [] m) \<and> so_last_fired_at ob' = Some now \<and>
        so_fire_count ob' = so_fire_count ob + 1 \<and> so_last_error ob' = None)"
proof (cases "resolve_schedule_target ext st spec")
  case (Inl e)
  then show ?thesis using assms by (simp add: fire_schedule_def)
next
  case (Inr x)
  obtain target rt where x: "x = (target, rt)" by (cases x)
  obtain res st' where d: "dispatch_workload ext now WK_Task target rt 1 1 st = (res, st')"
    by (cases "dispatch_workload ext now WK_Task target rt 1 1 st")
  from dispatch_workload_sentD [OF d] obtain ms where "as_sent st' = as_sent st @ ms"
    "case res of Inl _ \<Rightarrow> ms = [] | Inr _ \<Rightarrow> (\<exists>m. ms = [m] \<and> run_msg WK_Task target [] m)" by blast
  then show ?thesis
    using assms Inr d dispatch_workloadD [OF d] by (cases res) (auto simp: fire_schedule_def x)
qed

lemma fire_schedule_frame:
  "as_instances (fire_schedule ext now name spec parsed st) = as_instances st \<and>
   as_store (fire_schedule ext now name spec parsed st) = as_store st"
  by (auto simp: fire_schedule_def dest: dispatch_workloadD split: sum.split prod.split)

lemma schedule_tick_frame:
  "as_instances (schedule_tick ext now sched st) = as_instances st \<and> as_store (schedule_tick ext now sched st) = as_store st"
  by (cases "rs_body sched")
    (auto simp: schedule_tick_def Let_def fire_schedule_frame split: sum.split option.split)

lemma scheduler_fold_frame:
  "as_instances (fold (schedule_tick ext now) ss st) = as_instances st \<and> as_store (fold (schedule_tick ext now) ss st) = as_store st"
  by (induction ss arbitrary: st) (simp_all add: schedule_tick_frame)

subsection \<open>Lemmas: the workflow runner\<close>

lemma hm_wf_fold_steps:
  assumes "\<And>s x. hm_wf (g x) \<Longrightarrow> hm_wf (g (f s x))" and "hm_wf (g x)"
  shows "hm_wf (g (fold f ss x))"
  using assms(2) by (induction ss arbitrary: x) (auto intro: assms(1))

lemma hm_wf_advance: "hm_wf p \<Longrightarrow> hm_wf (wa_next_progress (advance_workflow spec p ts))"
proof -
  assume "hm_wf p"
  then have "hm_wf (seeded spec p)"
    unfolding seeded_def by (intro hm_wf_fold_steps [where g = "\<lambda>x. x"]) (auto simp: init_step_def split: option.split)
  then have "hm_wf (promoted spec ts p)"
    unfolding promoted_def
    by (intro hm_wf_fold_steps [where g = "\<lambda>x. x"]) (auto simp: promote_step_def split: option.split task_exit_kind.split)
  then have "hm_wf (fst (visits spec (wf_steps spec) (promoted spec ts p)))"
    by (intro hm_wf_fold_steps [where g = fst]) (auto simp: visit_step_def split: prod.split)
  then show ?thesis by (simp add: advance_workflow_eq Let_def)
qed

lemma hm_get_merge:
  assumes "hm_wf kvs"
  shows "hm_get (fold (\<lambda>(k, v). hm_insert k v) kvs m) n = (case hm_get kvs n of None \<Rightarrow> hm_get m n | Some v \<Rightarrow> Some v)"
  using assms
proof (induction kvs arbitrary: m)
  case (Cons kv kvs)
  have "hm_wf kvs" using Cons.prems by (simp add: hm_wf_def)
  moreover have "fst kv \<notin> fst ` set kvs" using Cons.prems by (simp add: hm_wf_def)
  then have "hm_get kvs (fst kv) = None" by (simp add: hm_get_def map_of_eq_None_iff)
  ultimately show ?case
    using Cons.IH [of "hm_insert (fst kv) (snd kv) m"]
    by (cases kv) (auto simp: hm_get_def [of "_ # _"] hm_get_def [of kvs] split: option.splits)
qed simp

lemma dispatch_step_effect:
  assumes "dispatch_step ext now spec n (steps, st) = (steps', st')"
  shows "(steps' = steps \<or> steps' = hm_insert n Running steps \<or> steps' = hm_insert n Failed steps) \<and>
     as_workflows st' = as_workflows st \<and> as_store st' = as_store st \<and>
     (\<exists>ms. as_sent st' = as_sent st @ ms \<and> length ms \<le> 1 \<and>
        (\<forall>m \<in> set ms. \<exists>s \<in> set (wf_steps spec). st_name s = n \<and> run_msg WK_Task (st_task s) [] m))"
proof (cases "find (\<lambda>s. st_name s = n) (wf_steps spec)")
  case None
  with assms show ?thesis by (simp add: dispatch_step_def)
next
  case (Some step)
  then have step: "step \<in> set (wf_steps spec)" "st_name step = n" by (auto dest: find_in_set)
  show ?thesis
  proof (cases "lookup_ok ext st ''Task'' (st_task step)")
    case None
    with assms Some step show ?thesis by (auto simp: dispatch_step_def)
  next
    case task: (Some task)
    show ?thesis
    proof (cases "case rs_body task of Body_Task tspec _ \<Rightarrow> tk_runtime tspec | _ \<Rightarrow> None")
      case None
      with assms Some step task show ?thesis by (auto simp: dispatch_step_def)
    next
      case rt: (Some rt)
      obtain res st1 where d: "dispatch_workload ext now WK_Task (st_task step) rt 0 1 st = (res, st1)"
        by (cases "dispatch_workload ext now WK_Task (st_task step) rt 0 1 st")
      obtain ms where ms: "as_sent st1 = as_sent st @ ms"
        "case res of Inl _ \<Rightarrow> ms = [] | Inr _ \<Rightarrow> (\<exists>m. ms = [m] \<and> run_msg WK_Task (st_task step) [] m)"
        using dispatch_workload_sentD [OF d] by blast
      have "as_sent st' = as_sent st1" "as_workflows st' = as_workflows st1" "as_store st' = as_store st1"
        "steps' = hm_insert n Running steps \<or> steps' = hm_insert n Failed steps"
        using assms Some step task rt d by (auto simp: dispatch_step_def split: sum.splits)
      with ms dispatch_workloadD [OF d] step show ?thesis by (cases res) auto
    qed
  qed
qed

lemma dispatch_steps_effect:
  assumes "fold (dispatch_step ext now spec) names (steps, st) = (steps', st')"
  shows "(hm_wf steps \<longrightarrow> hm_wf steps') \<and>
     (\<forall>n. hm_get steps' n = hm_get steps n \<or> n \<in> set names \<and> hm_get steps' n \<in> {Some Running, Some Failed}) \<and>
     as_workflows st' = as_workflows st \<and> as_store st' = as_store st \<and>
     (\<exists>ms. as_sent st' = as_sent st @ ms \<and> length ms \<le> length names \<and>
        (\<forall>m \<in> set ms. \<exists>s \<in> set (wf_steps spec). st_name s \<in> set names \<and> run_msg WK_Task (st_task s) [] m))"
  using assms
proof (induction names arbitrary: steps st)
  case (Cons n names)
  obtain steps1 st1 where one: "dispatch_step ext now spec n (steps, st) = (steps1, st1)"
    by (cases "dispatch_step ext now spec n (steps, st)")
  note e = dispatch_step_effect [OF one]
  note ih = Cons.IH [of steps1 st1]
  from Cons.prems one have rest: "fold (dispatch_step ext now spec) names (steps1, st1) = (steps', st')" by simp
  obtain ms where ms: "as_sent st1 = as_sent st @ ms" "length ms \<le> 1"
    "\<forall>m \<in> set ms. \<exists>s \<in> set (wf_steps spec). st_name s = n \<and> run_msg WK_Task (st_task s) [] m"
    using e by blast
  obtain ms' where ms': "as_sent st' = as_sent st1 @ ms'" "length ms' \<le> length names"
    "\<forall>m \<in> set ms'. \<exists>s \<in> set (wf_steps spec). st_name s \<in> set names \<and> run_msg WK_Task (st_task s) [] m"
    using ih [OF rest] by blast
  have "as_sent st' = as_sent st @ (ms @ ms')" "length (ms @ ms') \<le> length (n # names)"
    "\<forall>m \<in> set (ms @ ms'). \<exists>s \<in> set (wf_steps spec). st_name s \<in> set (n # names) \<and> run_msg WK_Task (st_task s) [] m"
    using ms ms' by auto
  moreover have "hm_get steps' k = hm_get steps k \<or> k \<in> set (n # names) \<and> hm_get steps' k \<in> {Some Running, Some Failed}" for k
    using ih [OF rest] e by (metis hm_get_insert insertCI list.set_intros(1,2))
  moreover have "hm_wf steps \<longrightarrow> hm_wf steps'" using ih [OF rest] e by auto
  ultimately show ?case using ih [OF rest] e by metis
qed simp

lemma workflow_tick_effect:
  assumes "rs_body w = Body_Workflow spec su" and "hm_get (as_workflows st) (md_name (rs_metadata w)) = Some wp"
    and "wp_finished_at wp = None" and "hm_wf (wp_steps wp)"
    and "plan = advance_workflow spec (wp_steps wp) (task_states_of (snapshot_all (as_instances st)))"
  shows "\<exists>wp' ms. hm_get (as_workflows (workflow_tick ext now w st)) (md_name (rs_metadata w)) = Some wp' \<and>
     hm_wf (wp_steps wp') \<and>
     (\<forall>n. hm_get (wp_steps wp') n = hm_get (wa_next_progress plan) n \<or>
          n \<in> set (wa_dispatch plan) \<and> hm_get (wp_steps wp') n \<in> {Some Running, Some Failed}) \<and>
     (wp_finished_at wp' \<noteq> None \<longleftrightarrow> wa_finished plan) \<and>
     as_sent (workflow_tick ext now w st) = as_sent st @ ms \<and> length ms \<le> length (wa_dispatch plan) \<and>
     (\<forall>m \<in> set ms. \<exists>s \<in> set (wf_steps spec). st_name s \<in> set (wa_dispatch plan) \<and> run_msg WK_Task (st_task s) [] m)"
proof -
  let ?name = "md_name (rs_metadata w)"
  let ?st = "st\<lparr>as_workflows := hm_insert ?name wp (as_workflows st)\<rparr>"
  let ?merged = "fold (\<lambda>(k, v). hm_insert k v) (wa_next_progress plan) (wp_steps wp)"
  obtain steps' st' where f: "fold (dispatch_step ext now spec) (wa_dispatch plan) (?merged, ?st) = (steps', st')"
    by (cases "fold (dispatch_step ext now spec) (wa_dispatch plan) (?merged, ?st)")
  note e = dispatch_steps_effect [OF f]
  have wf: "hm_wf (wa_next_progress plan)" using assms(4,5) by (simp add: hm_wf_advance)
  have m: "hm_get ?merged n = hm_get (wa_next_progress plan) n" for n
    using advance_le [of "wp_steps wp" n spec "task_states_of (snapshot_all (as_instances st))"]
    unfolding assms(5) [symmetric] hm_get_merge [OF wf]
    by (cases "hm_get (wp_steps wp) n") (auto dest: status_le_SomeD split: option.split)
  have mwf: "hm_wf ?merged" using assms(4) by (rule hm.wf_fold_put)
  have t: "workflow_tick ext now w st = st'\<lparr>as_workflows := hm_insert ?name
      (wp\<lparr>wp_steps := steps', wp_finished_at := (if wa_finished plan then Some now else None)\<rparr>) (as_workflows st')\<rparr>"
    using assms(1,2,3) f by (simp add: workflow_tick_def assms(5) [symmetric] Let_def)
  show ?thesis
    unfolding t using e m mwf by auto
qed

lemma task_states_of_reported:
  assumes "r \<in> set rs" and "ir_kind r = ''Task''" and "exit_kind_of r \<noteq> None"
  shows "hm_get (task_states_of rs) (ir_name r) \<noteq> None"
proof -
  let ?f = "\<lambda>r m. if ir_kind r = ''Task''
                 then (case exit_kind_of r of None \<Rightarrow> m | Some k \<Rightarrow> hm_insert (ir_name r) k m) else m"
  have keep: "hm_get m n \<noteq> None \<Longrightarrow> hm_get (fold ?f xs m) n \<noteq> None" for xs m n
    by (induction xs arbitrary: m) (auto split: option.split)
  obtain as bs where rs: "rs = as @ r # bs" using split_list [OF assms(1)] by blast
  have "hm_get (?f r (fold ?f as [])) (ir_name r) \<noteq> None" using assms(2,3) by auto
  from keep [OF this, of bs] show ?thesis by (simp add: task_states_of_def rs)
qed

subsection \<open>Properties\<close>

text \<open>C12: a reconciler pass changes no stored resource and sends at most one message per listed
  service, each a \<open>ControlRun\<close> of kind service for one of them; it never starts a task and never
  stops anything.\<close>

theorem reconcile_once_messages:
  "\<exists>ms. as_sent (snd (reconcile_once ext now st)) = as_sent st @ ms \<and>
     as_store (snd (reconcile_once ext now st)) = as_store st \<and>
     (case list_by_kind (cx_store ext) (as_store st) ''Service'' of
        Inl _ \<Rightarrow> ms = []
      | Inr svcs \<Rightarrow> length ms \<le> length svcs \<and>
          list_all (\<lambda>m. list_ex (\<lambda>svc. kind_str svc = ''Service'' \<and>
             (\<exists>slots. run_msg WK_Service (md_name (rs_metadata svc)) slots m)) svcs) ms)"
proof -
  have fold_sent: "\<exists>ms. as_sent (fold (reconcile_service ext now h) svcs s) = as_sent s @ ms \<and>
      as_store (fold (reconcile_service ext now h) svcs s) = as_store s \<and> length ms \<le> length svcs \<and>
      (\<forall>m \<in> set ms. \<exists>svc \<in> set svcs. kind_str svc = ''Service'' \<and>
          (\<exists>slots. run_msg WK_Service (md_name (rs_metadata svc)) slots m))" for svcs s h
  proof (induction svcs arbitrary: s)
    case (Cons svc svcs)
    obtain ms where ms: "as_sent (reconcile_service ext now h svc s) = as_sent s @ ms" "length ms \<le> 1"
      "\<forall>m \<in> set ms. \<exists>slots. run_msg WK_Service (md_name (rs_metadata svc)) slots m \<and> kind_str svc = ''Service''"
      using reconcile_service_sent [of ext now h svc s] by blast
    obtain ms' where "as_sent (fold (reconcile_service ext now h) svcs (reconcile_service ext now h svc s))
        = as_sent (reconcile_service ext now h svc s) @ ms'" "length ms' \<le> length svcs"
      "as_store (fold (reconcile_service ext now h) svcs (reconcile_service ext now h svc s)) = as_store s"
      "\<forall>m \<in> set ms'. \<exists>svc \<in> set svcs. kind_str svc = ''Service'' \<and>
          (\<exists>slots. run_msg WK_Service (md_name (rs_metadata svc)) slots m)"
      using Cons.IH [of "reconcile_service ext now h svc s"] by auto
    with ms show ?case by (intro exI [of _ "ms @ ms'"]) fastforce
  qed simp
  show ?thesis
    using fold_sent [of "as_health st" _ st]
    by (auto simp: reconcile_once_def list_all_iff list_ex_iff split: sum.split)
qed

text \<open>Further: a service with several replicas that produce no log line is launched again at every
  pass: the registry learns only slot zero from a dispatch, so each of \<open>k\<close> passes sends another
  \<open>ControlRun\<close> for all the other slots.\<close>

theorem silent_replicas_relaunched:
  assumes "rs_body svc = Body_Service spec su" and "sv_runtime spec = Some rt"
    and "md_name (rs_metadata svc) = name" and "1 < desired_replicas spec"
    and "\<forall>n. cx_publish_error ext n = None" and "inj_on (cx_new_uuid ext) {..<as_drawn st + 2 * length nows}"
    and "\<forall>now st'. as_store st' = as_store st \<and> as_node_id st' = as_node_id st \<longrightarrow>
           pick_node_for_dispatch ext now st' name WK_Service \<noteq> None"
    and "silent name st"
    and "length (workload_ids (as_instances st) ''Service'' name) + length nows + unat (desired_replicas spec) < 2 ^ 32"
    and "\<forall>n. as_drawn st \<le> n \<and> n < as_drawn st + 2 * length nows \<longrightarrow>
           hm_get (by_id (as_instances st)) (cx_new_uuid ext n) = None"
  shows "\<exists>ms. as_sent (fold (\<lambda>now. reconcile_service ext now [] svc) nows st) = as_sent st @ ms \<and>
     length ms = length nows \<and>
     list_all (run_msg WK_Service name (sorted_list_of_set {s. 0 < s \<and> s < desired_replicas spec})) ms"
  by (rule silent_storm [OF assms(1-8) refl refl assms(9,10) order_refl])

text \<open>Further: an armed schedule fires only when its next time after the last firing (or after arming)
  has come; firing sends exactly one task message, sets the last firing to now and counts one;
  otherwise nothing is sent and neither changes, and a failed attempt leaves an error and is
  tried again at the next tick.\<close>

theorem schedule_tick_fires_when_due:
  assumes "rs_body sched = Body_Schedule spec su" and "md_name (rs_metadata sched) = name"
    and "cx_cron ext (cron_expr_of (sc_cron spec)) = Inr parsed"
    and "hm_get (as_schedules st) name = Some ob"
  shows "\<exists>ms ob'. as_sent (schedule_tick ext now sched st) = as_sent st @ ms \<and>
     hm_get (as_schedules (schedule_tick ext now sched st)) name = Some ob' \<and>
     (ms = [] \<and> so_last_fired_at ob' = so_last_fired_at ob \<and> so_fire_count ob' = so_fire_count ob \<and>
        ((\<forall>t. parsed (unwrap_or (so_last_fired_at ob) (so_armed_at ob)) = Some t \<longrightarrow> now < t) \<or> so_last_error ob' \<noteq> None) \<or>
      (\<exists>m target t. ms = [m] \<and> run_msg WK_Task target [] m \<and>
         parsed (unwrap_or (so_last_fired_at ob) (so_armed_at ob)) = Some t \<and> t \<le> now) \<and>
        so_last_fired_at ob' = Some now \<and> so_fire_count ob' = so_fire_count ob + 1)"
proof -
  let ?next = "parsed (unwrap_or (so_last_fired_at ob) (so_armed_at ob))"
  let ?st = "observe_in now name (\<lambda>ob. ob\<lparr>so_next_fire_at := ?next\<rparr>) st"
  have tick: "schedule_tick ext now sched st =
      (case ?next of None \<Rightarrow> ?st | Some t \<Rightarrow> if t > now then ?st else fire_schedule ext now name spec parsed ?st)"
    using assms by (simp add: schedule_tick_def Let_def)
  show ?thesis
  proof (cases "\<exists>t. ?next = Some t \<and> t \<le> now")
    case True
    then obtain t where t: "?next = Some t" "t \<le> now" by blast
    have "hm_get (as_schedules ?st) name = Some (ob\<lparr>so_next_fire_at := ?next\<rparr>)"
      using assms(4) by simp
    from fire_schedule_effect [OF this, of ext now spec parsed] t show ?thesis
      unfolding tick by fastforce
  next
    case False
    then have "schedule_tick ext now sched st = ?st"
      unfolding tick by (auto split: option.split)
    with False assms(4) show ?thesis by (auto simp: not_le)
  qed
qed


text \<open>Further: the scheduler registers no instance: whatever it fires, the instance registry is as
  before, so the exit report of a task it just started finds no record and is dropped.\<close>

theorem scheduled_task_exit_dropped:
  assumes "hm_get (by_id (as_instances st)) i = None" and "te_task_id (en_payload env) = i"
  shows "as_instances (on_task_event later (Some env) (snd (scheduler_tick_once ext now st))) = as_instances st"
proof -
  have "as_instances (snd (scheduler_tick_once ext now st)) = as_instances st"
    by (simp add: scheduler_tick_once_def scheduler_fold_frame split: sum.split)
  with assms show ?thesis
    by (auto simp: on_task_event_def record_exit_def split: option.split)
qed


text \<open>Further: a running step is completed by any exit ever recorded for its task name, also by one
  that happened before the workflow was started.\<close>

theorem workflow_step_completed_by_old_exit:
  assumes "rs_body w = Body_Workflow spec su" and "hm_get (as_workflows st) (md_name (rs_metadata w)) = Some wp"
    and "wp_finished_at wp = None" and "hm_wf (wp_steps wp)" and "reg_wf (as_instances st)"
    and "s \<in> set (wf_steps spec)" and "hm_get (wp_steps wp) (st_name s) = Some Running"
    and "r \<in> set (snapshot_all (as_instances st))" and "ir_kind r = ''Task''" and "ir_name r = st_task s"
    and "exit_kind_of r \<noteq> None" and "ir_exited_at r = Some t" and "t < wp_started_at wp"
  shows "\<exists>wp'. hm_get (as_workflows (workflow_tick ext now w st)) (md_name (rs_metadata w)) = Some wp' \<and>
     finished_step (wp_steps wp') (st_name s)"
proof -
  let ?ts = "task_states_of (snapshot_all (as_instances st))"
  define plan where "plan = advance_workflow spec (wp_steps wp) ?ts"
  have "started_step (wp_steps wp) (st_name s)" using assms(7) by (simp add: started_step_def)
  moreover have "hm_get ?ts (st_task s) \<noteq> None"
    using task_states_of_reported [OF assms(8,9,11)] assms(10) by simp
  ultimately have "finished_step (promoted spec ?ts (wp_steps wp)) (st_name s)"
    by (rule promoted_finishes [OF assms(6)])
  then have fin: "finished_step (wa_next_progress plan) (st_name s)"
    using finished_step_mono [OF visits_le] by (simp add: plan_def advance_workflow_eq Let_def)
  have "st_name s \<notin> set (wa_dispatch plan)"
    using advance_dispatch_pending [of "st_name s" spec "wp_steps wp" ?ts] assms(7) by (auto simp: plan_def)
  with fin workflow_tick_effect [OF assms(1-4) plan_def, of ext now] show ?thesis
    unfolding finished_step_def by metis
qed

subsection \<open>Witnesses\<close>

definition demo_meta :: "string \<Rightarrow> metadata" where
  "demo_meta n = \<lparr>md_name = n, md_namespace = None, md_labels = [], md_annotations = [], md_generation = None\<rparr>"

definition web_spec :: service_spec where
  "web_spec = default_service_spec\<lparr>sv_replicas := Some 3, sv_runtime := Some (Runtime_Wasm ''web'')\<rparr>"

definition web_service :: resource where
  "web_service = \<lparr>rs_api_version = API_VERSION, rs_metadata = demo_meta ''web'',
     rs_body = Body_Service web_spec None\<rparr>"

definition silent_state :: app_state where
  "silent_state = (app_state_new (demo_mesh\<lparr>db_observed_node := Some []\<rparr>) ''nats://localhost:4222'' 0)
     \<lparr>as_node_id := Some ''mini'',
      as_instances := record_dispatch 0 100 ''Service'' ''web'' (Some ''mini'') instance_registry_default\<rparr>"

lemma of_nat_uuid_eq:
  assumes "a < 2 ^ 128" and "b < 2 ^ 128"
  shows "(of_nat a :: uuid) = of_nat b \<longleftrightarrow> a = b"
proof -
  have "unat (of_nat k :: uuid) = k" if "k < 2 ^ 128" for k
    using that by (simp add: unat_of_nat take_bit_nat_eq_self)
  with assms show ?thesis by metis
qed

theorem silent_replicas_relaunched_witness:
  "\<exists>ms. as_sent (fold (\<lambda>now. reconcile_service demo_ctl now [] web_service) [1, 2] silent_state) = ms \<and> length ms = 2"
proof -
  have store: "as_store silent_state = demo_mesh\<lparr>db_observed_node := Some []\<rparr>" "as_node_id silent_state = Some ''mini''"
    "as_sent silent_state = []" "as_drawn silent_state = 0"
    by (simp_all add: silent_state_def app_state_new_def)
  have cand: "live_candidates demo_ctl now st' = []" if "as_store st' = demo_mesh\<lparr>db_observed_node := Some []\<rparr>" for now st'
    using that by (simp add: live_candidates_def observed_nodes_def list_nodes_def query_def demo_mesh_def List.map_filter_simps)
  have ids: "workload_ids (as_instances silent_state) ''Service'' ''web'' = [100]"
    "hm_get (by_id (as_instances silent_state)) j = None \<longleftrightarrow> j \<noteq> 100" for j
    by (auto simp: silent_state_def record_dispatch_def instance_registry_default_def Let_def workload_ids_def
        index_instance_def)
  have "silent ''web'' silent_state"
    by (simp add: silent_def silent_state_def record_dispatch_def instance_registry_default_def Let_def
        workload_records_def workload_ids_def index_instance_def List.map_filter_simps)
  moreover have "inj_on (cx_new_uuid demo_ctl) {..<as_drawn silent_state + 2 * length [1, 2 :: datetime]}"
    by (auto simp: inj_on_def demo_ctl_def store of_nat_uuid_eq)
  moreover have "\<forall>n. as_drawn silent_state \<le> n \<and> n < as_drawn silent_state + 2 * length [1, 2 :: datetime] \<longrightarrow>
      hm_get (by_id (as_instances silent_state)) (cx_new_uuid demo_ctl n) = None"
    using of_nat_uuid_eq [of _ 100] by (auto simp: ids demo_ctl_def store)
  ultimately show ?thesis
    using silent_replicas_relaunched [of web_service web_spec None "Runtime_Wasm ''web''" "''web''" demo_ctl
        silent_state "[1, 2]"] cand
    by (simp add: web_service_def web_spec_def demo_meta_def desired_replicas_def demo_ctl_def store ids
        pick_node_for_dispatch_def)
qed

definition nightly :: resource where
  "nightly = \<lparr>rs_api_version = API_VERSION, rs_metadata = demo_meta ''nightly'',
     rs_body = Body_Schedule \<lparr>sc_cron = ''0 2 * * *'', sc_task = None,
       sc_task_template = Some (default_task_spec\<lparr>tk_runtime := Some (Runtime_Wasm ''job'')\<rparr>)\<rparr> None\<rparr>"

definition armed_state :: app_state where
  "armed_state = demo_state\<lparr>as_schedules := [(''nightly'', (fresh_observation 0)\<lparr>so_last_fired_at := Some 5\<rparr>)]\<rparr>"

theorem schedule_tick_fires_when_due_witness:
  "\<exists>ob'. hm_get (as_schedules (schedule_tick demo_ctl 70 nightly armed_state)) ''nightly'' = Some ob'"
  using schedule_tick_fires_when_due [of nightly _ _ "''nightly''" demo_ctl "\<lambda>t. Some (t + 60)" armed_state
      "(fresh_observation 0)\<lparr>so_last_fired_at := Some 5\<rparr>" 70]
  by (auto simp: nightly_def demo_meta_def demo_ctl_def armed_state_def hm_get_def)


theorem scheduled_task_exit_dropped_witness:
  "as_instances (on_task_event 9 (Some (envelope_new 1 8 None \<lparr>te_task_id = 77, te_node_id = ''mini'',
      te_outcome = Outcome_Succeeded 0\<rparr>)) (snd (scheduler_tick_once demo_ctl 8 demo_state))) = as_instances demo_state"
  by (rule scheduled_task_exit_dropped [where i = 77])
    (simp_all add: demo_state_def app_state_new_def instance_registry_default_def envelope_new_def)

definition diamond_workflow :: resource where
  "diamond_workflow = \<lparr>rs_api_version = API_VERSION, rs_metadata = demo_meta ''etl'',
     rs_body = Body_Workflow diamond None\<rparr>"

definition etl_state :: app_state where
  "etl_state = demo_state
     \<lparr>as_workflows := [(''etl'', \<lparr>wp_steps = [(''load'', Running)], wp_started_at = 50, wp_finished_at = None\<rparr>)],
      as_instances := snd (record_exit 20 3 0 ''succeeded''
        (record_dispatch 10 3 ''Task'' ''t-load'' (Some ''mini'') instance_registry_default))\<rparr>"


theorem workflow_step_completed_by_old_exit_witness:
  "\<exists>wp'. hm_get (as_workflows (workflow_tick demo_ctl 60 diamond_workflow etl_state)) ''etl'' = Some wp' \<and>
     finished_step (wp_steps wp') ''load''"
proof -
  let ?r = "\<lparr>ir_instance_id = 3, ir_kind = ''Task'', ir_name = ''t-load'', ir_node = Some ''mini'',
      ir_replica_index = 0, ir_dispatched_at = Some 10, ir_first_seen_at = None, ir_last_seen_at = None,
      ir_line_count = 0, ir_exited_at = Some 20, ir_exit_code = Some 0, ir_exit_kind = Some ''succeeded''\<rparr>"
  have "?r \<in> set (snapshot_all (as_instances etl_state))"
    by (simp add: etl_state_def record_exit_def record_dispatch_def instance_registry_default_def Let_def
        snapshot_all_def hm_values_def hm_insert_def hm_get_def)
  moreover have "reg_wf (as_instances etl_state)"
    unfolding etl_state_def by (simp add: inv_intros)
  ultimately show ?thesis
    using workflow_step_completed_by_old_exit [of diamond_workflow diamond None etl_state
      "\<lparr>wp_steps = [(''load'', Running)], wp_started_at = 50, wp_finished_at = None\<rparr>"
      "\<lparr>st_name = ''load'', st_task = ''t-load'', st_depends_on = []\<rparr>" ?r 20 demo_ctl 60]
    by (simp add: diamond_workflow_def demo_meta_def etl_state_def hm_get_def hm_wf_def diamond_def exit_kind_of_def)
qed

end
