(* ===== verification/Controller_Machine.thy ===== *)
theory Controller_Machine
  imports Http_Api
begin

text \<open>
  The controller as one state machine: every subscriber, loop and handler of
  \<^verbatim>\<open>orion-controller/src/main.rs\<close> that changes the state is an event, and \<open>reachable\<close> holds of the
  states a started controller can get into. The locale \<open>ctl_preserved\<close> proves once that a property
  which survives the elementary changes survives every handler; it is interpreted for the
  invariant here and for the properties of the whole mesh in \<open>Mesh\<close>.
\<close>

subsection \<open>The controller as a state machine\<close>

datatype ctl_event =
    Got_Heartbeat datetime "heartbeat envelope option"
  | Got_Inventory datetime "node_inventory envelope option"
  | Got_Log_Line "log_line envelope option"
  | Archive_Write datetime nat
  | Got_Task_Event datetime "task_event envelope option"
  | Got_Health datetime "service_health envelope option"
  | Reconcile_Tick datetime
  | Workflow_Tick datetime
  | Scheduler_Tick datetime
  | Http_Apply datetime "string option" string
  | Http_Delete string string
  | Http_Dispatch datetime string string
  | Http_Stop datetime string string
  | Http_Restart datetime datetime string string

fun ctl_react :: "ctl_ext \<Rightarrow> app_state \<Rightarrow> ctl_event \<Rightarrow> app_state" where
  "ctl_react ext st (Got_Heartbeat now m) = on_heartbeat ext now m st"
| "ctl_react ext st (Got_Inventory now m) = on_inventory ext now m st"
| "ctl_react ext st (Got_Log_Line m) = on_log_line ext m st"
| "ctl_react ext st (Archive_Write now n) = run_archive_task ext now n st"
| "ctl_react ext st (Got_Task_Event now m) = on_task_event now m st"
| "ctl_react ext st (Got_Health now m) = on_service_health ext now m st"
| "ctl_react ext st (Reconcile_Tick now) = snd (reconcile_once ext now st)"
| "ctl_react ext st (Workflow_Tick now) = snd (workflow_tick_once ext now st)"
| "ctl_react ext st (Scheduler_Tick now) = snd (scheduler_tick_once ext now st)"
| "ctl_react ext st (Http_Apply now q body) = snd (apply_resource ext (\<lambda>s. s) now q body st)"
| "ctl_react ext st (Http_Delete kind name) = snd (http_delete_resource kind name st)"
| "ctl_react ext st (Http_Dispatch now kind name) = snd (dispatch_resource ext now kind name st)"
| "ctl_react ext st (Http_Stop now kind name) = snd (stop_workload ext now kind name st)"
| "ctl_react ext st (Http_Restart now later kind name) = snd (restart_workload ext now later kind name st)"

fun is_task_event :: "ctl_event \<Rightarrow> bool" where
  "is_task_event (Got_Task_Event _ _) = True"
| "is_task_event _ = False"

text \<open>The states a freshly started controller can reach, and one step between them; the database
  may also start or stop failing at any time.\<close>

inductive ctl_step :: "ctl_ext \<Rightarrow> app_state \<Rightarrow> app_state \<Rightarrow> bool" for ext where
  react: "ctl_step ext st (ctl_react ext st ev)"
| db_fault: "ctl_step ext st (st\<lparr>as_store := (as_store st)\<lparr>db_fault := f\<rparr>\<rparr>)"

inductive reachable :: "ctl_ext \<Rightarrow> app_state \<Rightarrow> bool" for ext where
  start: "reachable ext (app_state_new d url now)"
| step: "reachable ext st \<Longrightarrow> ctl_step ext st st' \<Longrightarrow> reachable ext st'"

inductive_cases ctl_stepE: "ctl_step ext st st'"

subsection \<open>The invariant\<close>

definition run_id :: "string \<times> bus_msg \<Rightarrow> uuid option" where
  "run_id m = (case snd m of Msg_Run env \<Rightarrow> Some (cr_instance_id (en_payload env)) | Msg_Stop _ \<Rightarrow> None)"

definition run_ids :: "app_state \<Rightarrow> uuid list" where
  "run_ids st = List.map_filter run_id (as_sent st)"

text \<open>The identifiers on the bus are a sequence of distinct draws.\<close>

definition ids_drawn :: "ctl_ext \<Rightarrow> app_state \<Rightarrow> bool" where
  "ids_drawn ext st \<longleftrightarrow>
     (\<exists>ks. run_ids st = map (cx_new_uuid ext) ks \<and> sorted_wrt (<) ks \<and> (\<forall>k \<in> set ks. k < as_drawn st))"

definition rings_bounded :: "app_state \<Rightarrow> bool" where
  "rings_bounded st \<longleftrightarrow> (\<forall>key. length (ring_of (as_logs st) key) \<le> LOG_RING_CAPACITY)"

definition ctl_inv :: "ctl_ext \<Rightarrow> app_state \<Rightarrow> bool" where
  "ctl_inv ext st \<longleftrightarrow> reg_wf (as_instances st) \<and> rings_bounded st \<and> ids_drawn ext st"

lemma ctl_inv_cong:
  assumes "ctl_inv ext st" and "reg_wf (as_instances st')" and "as_logs st' = as_logs st"
    and "as_sent st' = as_sent st" and "as_drawn st \<le> as_drawn st'"
  shows "ctl_inv ext st'"
  using assms unfolding ctl_inv_def ids_drawn_def run_ids_def rings_bounded_def by fastforce

lemma ctl_inv_reg: "ctl_inv ext st \<Longrightarrow> reg_wf (as_instances st)"
  by (simp add: ctl_inv_def)

lemma ctl_inv_updates [simp]:
  "ctl_inv ext (st\<lparr>as_store := d\<rparr>) = ctl_inv ext st" "ctl_inv ext (st\<lparr>as_node_id := n\<rparr>) = ctl_inv ext st"
  "ctl_inv ext (st\<lparr>as_schedules := s\<rparr>) = ctl_inv ext st" "ctl_inv ext (st\<lparr>as_health := h\<rparr>) = ctl_inv ext st"
  "ctl_inv ext (st\<lparr>as_workflows := w\<rparr>) = ctl_inv ext st" "ctl_inv ext (st\<lparr>as_archive_tasks := a\<rparr>) = ctl_inv ext st"
  by (simp_all add: ctl_inv_def ids_drawn_def run_ids_def rings_bounded_def)

lemma ctl_inv_instances: "ctl_inv ext st \<Longrightarrow> reg_wf r \<Longrightarrow> ctl_inv ext (st\<lparr>as_instances := r\<rparr>)"
  by (simp add: ctl_inv_def ids_drawn_def run_ids_def rings_bounded_def)

lemma ids_drawn_run:
  assumes "ids_drawn ext st" and "as_sent st' = as_sent st @ [m]" and "run_id m = Some (cx_new_uuid ext (as_drawn st))"
    and "as_drawn st < as_drawn st'"
  shows "ids_drawn ext st'"
proof -
  obtain ks where ks: "run_ids st = map (cx_new_uuid ext) ks" "sorted_wrt (<) ks" "\<forall>k \<in> set ks. k < as_drawn st"
    using assms(1) by (auto simp: ids_drawn_def)
  have "run_ids st' = map (cx_new_uuid ext) (ks @ [as_drawn st])"
    using assms(2,3) ks(1) by (simp add: run_ids_def List.map_filter_def)
  moreover have "sorted_wrt (<) (ks @ [as_drawn st])" using ks by (simp add: sorted_wrt_append)
  moreover have "\<forall>k \<in> set (ks @ [as_drawn st]). k < as_drawn st'" using ks(3) assms(4) by auto
  ultimately show ?thesis unfolding ids_drawn_def by blast
qed

lemma ctl_inv_dispatch:
  assumes "ctl_inv ext st"
  shows "ctl_inv ext (snd (dispatch_workload_with_slots ext now kind name rt g reps slots st))"
proof -
  let ?st' = "snd (dispatch_workload_with_slots ext now kind name rt g reps slots st)"
  have "ids_drawn ext ?st'"
  proof (cases "\<exists>m. as_sent ?st' = as_sent st @ [m]")
    case True
    have "as_drawn st < as_drawn ?st' \<and> (\<forall>m. as_sent ?st' = as_sent st @ [m] \<longrightarrow> run_id m = Some (cx_new_uuid ext (as_drawn st)))"
      using True unfolding dispatch_with_slots_eq
      by (auto simp: Let_def run_id_def envelope_new_def split: option.splits)
    with True assms show ?thesis unfolding ctl_inv_def by (blast intro: ids_drawn_run)
  next
    case False
    have "as_drawn st \<le> as_drawn ?st' \<and> as_sent ?st' = as_sent st"
      using False unfolding dispatch_with_slots_eq by (auto simp: Let_def split: option.splits)
    with assms ctl_inv_cong [of ext st ?st'] show ?thesis by (auto simp: ctl_inv_def)
  qed
  with assms show ?thesis by (simp add: ctl_inv_def rings_bounded_def)
qed

text \<open>A property of the state that survives the elementary changes the handlers make survives every
  handler. The elementary changes: any change of a registry other than the instances, registering
  a dispatch, purging and draining instances, a log line, and the messages a dispatch or a stop
  publishes. Recording an exit is left out, so that properties of exits can be stated too.\<close>

locale ctl_preserved =
  fixes ext :: ctl_ext
    and I :: "app_state \<Rightarrow> bool"
  assumes store_change: "I st \<Longrightarrow> I (st\<lparr>as_store := d\<rparr>)"
    and node_change: "I st \<Longrightarrow> I (st\<lparr>as_node_id := n\<rparr>)"
    and schedules_change: "I st \<Longrightarrow> I (st\<lparr>as_schedules := s\<rparr>)"
    and health_change: "I st \<Longrightarrow> I (st\<lparr>as_health := h\<rparr>)"
    and workflows_change: "I st \<Longrightarrow> I (st\<lparr>as_workflows := w\<rparr>)"
    and archive_change: "I st \<Longrightarrow> I (st\<lparr>as_archive_tasks := a\<rparr>)"
    and dispatch_noted: "I st \<Longrightarrow> I (st\<lparr>as_instances := record_dispatch now i kind name node (as_instances st)\<rparr>)"
    and purged: "I st \<Longrightarrow> I (st\<lparr>as_instances := purge_instance i (as_instances st)\<rparr>)"
    and drained: "I st \<Longrightarrow> I (st\<lparr>as_instances := snd (drain_for kind name (as_instances st))\<rparr>)"
    and line_noted: "I st \<Longrightarrow> I (on_log_line ext m st)"
    and run_sent: "I st \<Longrightarrow> I (snd (dispatch_workload_with_slots ext now wk name rt g reps slots st))"
    and stop_sent: "I (snd (snd x)) \<Longrightarrow> I (snd (snd (stop_instance ext now kind name r x)))"
begin

lemmas changes = store_change node_change schedules_change health_change workflows_change archive_change

lemma workload_sent: "dispatch_workload ext now wk name rt g reps st = (res, st') \<Longrightarrow> I st \<Longrightarrow> I st'"
  using run_sent [of st now wk name rt g reps "[]"] by (simp add: dispatch_workload_def)

lemma folded: "(\<And>x s. I s \<Longrightarrow> I (f x s)) \<Longrightarrow> I st \<Longrightarrow> I (fold f xs st)"
  by (induction xs arbitrary: st) auto

lemma ids_purged: "I st \<Longrightarrow> I (purge_ids ids st)"
  unfolding purge_ids_def
  by (rule folded) (use health_change [OF purged] in \<open>simp_all\<close>)

lemma registered: "I (snd x) \<Longrightarrow> I (register_dispatch now kind name x)"
  by (cases x) (auto simp: register_dispatch_def intro: dispatch_noted split: sum.split)

lemma service_reconciled: "I st \<Longrightarrow> I (reconcile_service ext now h svc st)"
  by (cases "rs_body svc")
    (auto simp: reconcile_service_def Let_def dispatch_workload_def split: option.split reconcile_action.split
      intro!: registered run_sent ids_purged)

lemma step_dispatched:
  assumes "I (snd x)"
  shows "I (snd (dispatch_step ext now spec n x))"
  using assms workload_sent [of now WK_Task _ _ 0 1 "snd x"]
  by (cases x) (auto simp: dispatch_step_def intro!: dispatch_noted split: option.split sum.split prod.split)

lemma steps_dispatched: "I (snd x) \<Longrightarrow> I (snd (fold (dispatch_step ext now spec) ns x))"
proof (induction ns arbitrary: x)
  case (Cons n ns)
  from Cons.IH [OF step_dispatched [OF Cons.prems]] show ?case by simp
qed simp

lemma workflow_ticked: "I st \<Longrightarrow> I (workflow_tick ext now w st)"
  using steps_dispatched [of "(_, st\<lparr>as_workflows := _\<rparr>)"] workflows_change
  by (cases "rs_body w") (auto simp: workflow_tick_def Let_def split_beta)

lemma observed: "I st \<Longrightarrow> I (observe_in now name f st)"
  by (simp add: observe_in_def schedules_change)

lemma schedule_fired: "I st \<Longrightarrow> I (fire_schedule ext now name spec parsed st)"
  by (auto simp: fire_schedule_def intro!: observed dest: workload_sent split: sum.split prod.split)

lemma schedule_ticked: "I st \<Longrightarrow> I (schedule_tick ext now sched st)"
  by (cases "rs_body sched")
    (auto simp: schedule_tick_def Let_def intro!: observed schedule_fired split: sum.split option.split)

lemma ticked:
  assumes "I st"
  shows "I (snd (reconcile_once ext now st))" "I (snd (workflow_tick_once ext now st))"
    "I (snd (scheduler_tick_once ext now st))"
  using assms
  by (auto simp: reconcile_once_def workflow_tick_once_def scheduler_tick_once_def
      intro!: folded service_reconciled workflow_ticked schedule_ticked split: sum.split)

lemma instances_stopped: "I (snd (snd x)) \<Longrightarrow> I (snd (snd (fold (stop_instance ext now kind name) rs x)))"
proof (induction rs arbitrary: x)
  case (Cons r rs)
  from Cons.IH [OF stop_sent [OF Cons.prems]] show ?case by simp
qed simp

lemma workload_stopped: "I st \<Longrightarrow> I (snd (stop_workload ext now kind name st))"
  using instances_stopped [of "(0, [], st\<lparr>as_instances := snd (drain_for kind name (as_instances st))\<rparr>)"] drained
  by (auto simp: stop_workload_def Let_def split_beta)

lemma resource_dispatched: "I st \<Longrightarrow> I (snd (dispatch_resource ext now kind name st))"
  by (auto simp: dispatch_resource_def Let_def intro!: dispatch_noted dest: workload_sent
      split: sum.split option.split prod.split)

lemma workload_restarted: "I st \<Longrightarrow> I (snd (restart_workload ext now later kind name st))"
  using workload_stopped [of st now kind name]
    resource_dispatched [of "snd (stop_workload ext now kind name st)" later kind name]
  by (auto simp: restart_workload_def Let_def split: sum.split prod.split)

lemma messages_handled:
  assumes "I st"
  shows "I (on_heartbeat ext now hb st)" "I (on_inventory ext now nv st)"
    "I (run_archive_task ext now n st)" "I (on_service_health ext now sh st)"
    "I (snd (apply_resource ext dbg now q body st))" "I (snd (http_delete_resource kind name st))"
  using assms store_change [OF node_change] store_change [OF archive_change]
  by (auto simp: on_heartbeat_def on_inventory_def run_archive_task_def on_service_health_def apply_resource_def
      http_delete_resource_def Let_def intro: changes split: option.split sum.split prod.split)

lemma reacted:
  assumes "I st" and "\<not> is_task_event ev"
  shows "I (ctl_react ext st ev)"
  using assms
  by (cases ev) (simp_all add: messages_handled line_noted ticked workload_stopped resource_dispatched workload_restarted)

end

lemma ctl_inv_stop_instance:
  assumes "ctl_inv ext (snd (snd x))"
  shows "ctl_inv ext (snd (snd (stop_instance ext now kind name r x)))"
proof -
  obtain n nodes st where x: "x = (n, nodes, st)" by (cases x)
  have "ctl_inv ext st'" if "as_instances st' = as_instances st" "as_logs st' = as_logs st" "as_drawn st' = Suc (as_drawn st)"
      "as_sent st' = as_sent st \<or> (\<exists>s env. as_sent st' = as_sent st @ [(s, Msg_Stop env)])" for st'
  proof -
    have "run_ids st' = run_ids st"
      using that(4) by (auto simp: run_ids_def List.map_filter_def run_id_def)
    with that assms show ?thesis by (fastforce simp: ctl_inv_def ids_drawn_def rings_bounded_def x)
  qed
  then show ?thesis
    using assms by (auto simp: x stop_instance_def draw_uuid_def publish_def Let_def split: option.split)
qed

lemma ctl_inv_log_line: "ctl_inv ext st \<Longrightarrow> ctl_inv ext (on_log_line ext m st)"
proof (cases m)
  case (Some env)
  assume inv: "ctl_inv ext st"
  then have len: "length (ring_of (as_logs st) key) \<le> LOG_RING_CAPACITY" for key
    by (cases key) (simp add: ctl_inv_def rings_bounded_def)
  have ring: "length (ring_of (lb_push k n e (as_logs st)) key) \<le> LOG_RING_CAPACITY" for k n e key
    using len by (simp add: ring_of_push length_last_lines)
  have "reg_wf (as_instances (on_log_line ext m st))"
    using ctl_inv_reg [OF inv] by (simp add: on_log_line_def Some Let_def reg_wf_note split: option.split)
  moreover have "rings_bounded (on_log_line ext m st)"
    using ring by (simp add: on_log_line_def Some Let_def rings_bounded_def)
  moreover have "ids_drawn ext (on_log_line ext m st)"
    using inv by (simp add: on_log_line_def Some Let_def ctl_inv_def ids_drawn_def run_ids_def)
  ultimately show ?thesis by (simp add: ctl_inv_def)
qed (simp add: on_log_line_def)

lemma ctl_inv_start: "ctl_inv ext (app_state_new d url now)"
  by (simp add: ctl_inv_def app_state_new_def reg_wf_default rings_bounded_def ring_of_def ids_drawn_def run_ids_def
      List.map_filter_simps)

interpretation ctl_pres: ctl_preserved ext "ctl_inv ext" for ext
  by unfold_locales
    (simp_all add: ctl_inv_instances inv_intros ctl_inv_reg ctl_inv_dispatch ctl_inv_stop_instance ctl_inv_log_line)

lemma ctl_inv_task_event: "ctl_inv ext st \<Longrightarrow> ctl_inv ext (on_task_event now te st)"
  by (auto simp: on_task_event_def intro!: ctl_inv_instances inv_intros dest: ctl_inv_reg split: option.split)

interpretation ctl: invariant_machine "ctl_react ext" "ctl_inv ext" for ext
proof unfold_locales
  show "ctl_inv ext (ctl_react ext st ev)" if "ctl_inv ext st" for st ev
    using ctl_pres.reacted [OF that, of ev] ctl_inv_task_event [OF that] by (cases "is_task_event ev") (auto elim: is_task_event.elims)
qed

lemma reachable_inv: "reachable ext st \<Longrightarrow> ctl_inv ext st"
proof (induction rule: reachable.induct)
  case (start d url now)
  show ?case by (rule ctl_inv_start)
next
  case (step st st')
  from step.hyps(2) step.IH show ?case
    by (cases rule: ctl_step.cases) (auto intro: ctl.inv_step)
qed

end
