(* ===== verification/Auth.thy ===== *)
theory Auth
  imports Orion_Prelude
begin

text \<open>
  Cluster authentication (\<^verbatim>\<open>crates/orion-auth\<close>): how the mode is chosen from the environment
  and the token file, and the bearer check in front of the HTTP routes. The environment is a
  function from names to values, the file system a function from paths to what reading them
  gives. Strings are taken as ASCII, so their bytes are their characters.
\<close>

subsection \<open>Choosing the mode\<close>

datatype io_error = Io_NotFound | Io_Other string

datatype auth_error = MissingToken | Auth_Io io_error

datatype auth_mode = Enforce string | Disabled

type_synonym environ = "string \<Rightarrow> string option"
type_synonym file_system = "string \<Rightarrow> io_error + string"

definition ENV_TOKEN :: string where
  "ENV_TOKEN = ''ORION_CLUSTER_TOKEN''"

definition ENV_DISABLED :: string where
  "ENV_DISABLED = ''ORION_AUTH_DISABLED''"

definition env_is_disabled :: "environ \<Rightarrow> bool" where
  "env_is_disabled env =
     (case env ENV_DISABLED of
        None \<Rightarrow> False
      | Some v \<Rightarrow> v \<in> {''1'', ''true'', ''TRUE'', ''yes'', ''YES''})"

definition path_push :: "string \<Rightarrow> string \<Rightarrow> string" where
  "path_push p r = (if p = [] \<or> last p = CHR ''/'' then p @ r else p @ ''/'' @ r)"

definition token_path :: "environ \<Rightarrow> string" where
  "token_path env =
     (case env ''ORION_TOKEN_FILE'' of
        Some p \<Rightarrow> p
      | None \<Rightarrow>
          (case env ''HOME'' of
             Some home \<Rightarrow> path_push home ''.config/orion/cluster.token''
           | None \<Rightarrow> ''/etc/orion/cluster.token''))"

definition token_from_file :: "environ \<Rightarrow> file_system \<Rightarrow> auth_error + auth_mode" where
  "token_from_file env fs =
     (case fs (token_path env) of
        Inr s \<Rightarrow> (let t = str_trim s in if t = [] then Inl MissingToken else Inr (Enforce t))
      | Inl Io_NotFound \<Rightarrow> Inl MissingToken
      | Inl e \<Rightarrow> Inl (Auth_Io e))"

definition auth_from_env :: "environ \<Rightarrow> file_system \<Rightarrow> auth_error + auth_mode" where
  "auth_from_env env fs =
     (if env_is_disabled env then Inr Disabled
      else (case env ENV_TOKEN of
              Some v \<Rightarrow> (let t = str_trim v in if t \<noteq> [] then Inr (Enforce t) else token_from_file env fs)
            | None \<Rightarrow> token_from_file env fs))"

definition auth_token :: "auth_mode \<Rightarrow> string option" where
  "auth_token m = (case m of Enforce t \<Rightarrow> Some t | Disabled \<Rightarrow> None)"

definition auth_is_disabled :: "auth_mode \<Rightarrow> bool" where
  "auth_is_disabled m = (case m of Enforce _ \<Rightarrow> False | Disabled \<Rightarrow> True)"

subsection \<open>The bearer check\<close>

definition as_bytes :: "string \<Rightarrow> u8 list" where
  "as_bytes s = map (\<lambda>c. of_nat (of_char c)) s"

definition constant_time_eq :: "u8 list \<Rightarrow> u8 list \<Rightarrow> bool" where
  "constant_time_eq a b =
     (if length a \<noteq> length b then False
      else fold (\<lambda>(x, y) diff. or diff (xor x y)) (zip a b) 0 = 0)"

datatype auth_decision = Next | Reject string

text \<open>The argument is the value of the authorization header, none when it is absent or not text.\<close>

definition require_bearer :: "auth_mode \<Rightarrow> string option \<Rightarrow> auth_decision" where
  "require_bearer mode header =
     (if auth_is_disabled mode then Next
      else (case auth_token mode of
              None \<Rightarrow> Reject ''auth not configured''
            | Some want \<Rightarrow>
                (case (case header of None \<Rightarrow> None | Some h \<Rightarrow> strip_prefix ''Bearer '' h) of
                   Some g \<Rightarrow>
                     (if constant_time_eq (as_bytes g) (as_bytes want) then Next
                      else Reject ''invalid bearer token'')
                 | None \<Rightarrow> Reject ''invalid bearer token'')))"

text \<open>The token handed to the message bus when a component connects.\<close>

definition nats_connect_token :: "auth_mode \<Rightarrow> string option" where
  "nats_connect_token mode = auth_token mode"

subsection \<open>Lemmas\<close>

lemma or_eq_0_iff: "or a b = 0 \<longleftrightarrow> a = 0 \<and> b = (0 :: u8)"
  by (auto simp: bit_eq_iff bit_or_iff)

lemma xor_eq_0_iff: "xor a b = 0 \<longleftrightarrow> a = (b :: u8)"
  by (auto simp: bit_eq_iff bit_xor_iff)

lemma fold_diff_eq_0:
  "fold (\<lambda>(x, y) diff. or diff (xor x y)) ps d = 0 \<longleftrightarrow> d = (0 :: u8) \<and> (\<forall>(x, y) \<in> set ps. x = y)"
  by (induction ps arbitrary: d) (auto simp: or_eq_0_iff xor_eq_0_iff)

lemma zip_all_eq: "length a = length b \<Longrightarrow> (\<forall>(x, y) \<in> set (zip a b). x = y) \<longleftrightarrow> a = b"
  by (induction a b rule: list_induct2) auto

lemma constant_time_eq_iff: "constant_time_eq a b \<longleftrightarrow> a = b"
  by (auto simp: constant_time_eq_def fold_diff_eq_0 zip_all_eq)

lemma as_bytes_inject: "as_bytes a = as_bytes b \<longleftrightarrow> a = b"
proof -
  have "inj (\<lambda>c. of_nat (of_char c) :: u8)"
  proof (rule injI)
    fix x y :: char
    assume "(of_nat (of_char x) :: u8) = of_nat (of_char y)"
    then have "unat (of_nat (of_char x) :: u8) = unat (of_nat (of_char y) :: u8)" by simp
    then have "(of_char x :: nat) = of_char y"
      by (simp add: unat_of_nat take_bit_nat_eq_self)
    then show "x = y" by simp
  qed
  then show ?thesis by (simp add: as_bytes_def inj_map_eq_map)
qed

lemma strip_prefix_iff: "strip_prefix p s = Some r \<longleftrightarrow> s = p @ r"
  by (auto simp: strip_prefix_def prefix_def)

subsection \<open>Properties\<close>

text \<open>C14: with authentication enforced, a request passes exactly when its authorization header is
  the word \<open>Bearer\<close>, a blank and the configured token; with authentication disabled, every
  request passes.\<close>

theorem require_bearer_exact:
  "require_bearer mode header = Next \<longleftrightarrow>
     (case mode of Disabled \<Rightarrow> True | Enforce t \<Rightarrow> header = Some (''Bearer '' @ t))"
proof (cases mode)
  case (Enforce t)
  show ?thesis
  proof (cases header)
    case (Some h)
    then show ?thesis
      using strip_prefix_iff [of "''Bearer ''" h]
      by (cases "strip_prefix ''Bearer '' h")
        (auto simp: Enforce require_bearer_def auth_is_disabled_def auth_token_def
          constant_time_eq_iff as_bytes_inject)
  qed (simp add: Enforce require_bearer_def auth_is_disabled_def auth_token_def)
qed (simp add: require_bearer_def auth_is_disabled_def)

text \<open>Further: the mode is chosen in the documented order. Authentication is disabled exactly when the
  switch is set; otherwise the token of the environment wins over the token file; a chosen token
  is the trimmed value and never blank, so an enforcing mode without a usable token is an error.\<close>

theorem auth_from_env_sound:
  "(auth_from_env env fs = Inr Disabled \<longleftrightarrow> env_is_disabled env) \<and>
   (auth_from_env env fs = Inr (Enforce t) \<longleftrightarrow>
      \<not> env_is_disabled env \<and> t \<noteq> [] \<and>
      (map_option str_trim (env ENV_TOKEN) = Some t \<or>
       (env ENV_TOKEN = None \<or> map_option str_trim (env ENV_TOKEN) = Some []) \<and>
         (\<exists>s. fs (token_path env) = Inr s \<and> str_trim s = t)))"
  by (auto simp: auth_from_env_def token_from_file_def Let_def
      split: option.splits sum.splits io_error.splits if_splits)

end
