(* ===== verification/Runtimes.thy ===== *)
theory Runtimes
  imports Orion_Types Auth
begin

text \<open>
  The runtime adapters of a node (\<^verbatim>\<open>crates/orion-runtime\<close>): the adapter registry, the native
  adapter that forks a process per instance, the docker adapter that drives the \<^verbatim>\<open>docker\<close>
  command, and the resolver of secret references.

  The operating system is explicit state: a table of the processes that were started, the two
  channels the adapters send exit notices and output lines into, and the list of \<^verbatim>\<open>docker\<close>
  commands that were run. What the operating system answers (whether a spawn or a kill succeeds,
  the process identifiers, what a \<^verbatim>\<open>docker\<close> command prints) is a field of \<open>host_ext\<close>, indexed by a
  counter in the state. The tasks an adapter spawns are explicit too: each of their steps is an
  operation of its own, so every interleaving with launches and stops is a sequence of steps.
\<close>

subsection \<open>The adapter interface (\<^verbatim>\<open>adapter.rs\<close>)\<close>

datatype runtime_error =
    Mismatch string string
  | Launch_Error string
  | Stop_Error string
  | Runtime_Io string

datatype out_stream = Out_Stdout | Out_Stderr

record exit_notice =
  xn_instance_id :: uuid
  xn_exit_code :: "i32 option"
  xn_message :: string

text \<open>The sinks are senders of the two channels of the node; a specification carries them or not.\<close>

record launch_spec =
  lp_instance_id :: uuid
  lp_name :: resource_name
  lp_runtime :: runtime
  lp_log_sink :: bool
  lp_exit_sink :: bool

record launched_instance =
  li_instance_id :: uuid
  li_native_handle :: string

fun runtime_kind_str :: "runtime \<Rightarrow> string" where
  "runtime_kind_str (Runtime_Native _ _ _) = ''native''"
| "runtime_kind_str (Runtime_Docker _ _ _ _) = ''docker''"
| "runtime_kind_str (Runtime_Python _ _ _) = ''python''"
| "runtime_kind_str (Runtime_Java _ _) = ''java''"
| "runtime_kind_str (Runtime_Node _ _) = ''node''"
| "runtime_kind_str (Runtime_Spark _ _) = ''spark''"
| "runtime_kind_str (Runtime_Llm _ _) = ''llm''"
| "runtime_kind_str (Runtime_HomeAssistant _) = ''homeassistant''"
| "runtime_kind_str (Runtime_Wasm _) = ''wasm''"
| "runtime_kind_str (Runtime_Peer _ _) = ''peer''"

subsection \<open>The adapter registry (\<^verbatim>\<open>lib.rs\<close>)\<close>

text \<open>The two adapters an agent registers; the registry maps a name to one of them.\<close>

datatype adapter = Adapter_Native | Adapter_Docker

fun adapter_name :: "adapter \<Rightarrow> string" where
  "adapter_name Adapter_Native = ''native''"
| "adapter_name Adapter_Docker = ''docker''"

type_synonym runtime_registry = "(string, adapter) hash_map"

definition registry_new :: runtime_registry where
  "registry_new = []"

definition registry_register :: "adapter \<Rightarrow> runtime_registry \<Rightarrow> runtime_registry" where
  "registry_register a r = hm_insert (adapter_name a) a r"

definition registry_get :: "runtime_registry \<Rightarrow> string \<Rightarrow> adapter option" where
  "registry_get r name = hm_get r name"

definition registry_names :: "runtime_registry \<Rightarrow> string list" where
  "registry_names r = sort (map fst r)"

subsection \<open>The host\<close>

record exit_status =
  es_code :: "i32 option"
  es_debug :: string

text \<open>A started process: its command, the instance its output is forwarded for when its streams
  are piped, and its exit status once it has ended.\<close>

record process =
  pr_instance :: uuid
  pr_exec :: string
  pr_args :: "string list"
  pr_env :: labels
  pr_piped :: bool
  pr_status :: "exit_status option"

record cmd_output =
  co_success :: bool
  co_stdout :: string
  co_stderr :: string

text \<open>The native adapter. A cell is the shared slot that holds the handle of a process until the
  wait task or a stop takes it; the registry entry and the wait task both refer to the cell.\<close>

datatype wait_phase = Spawned | Waiting nat | Ended

record wait_task =
  wt_id :: uuid
  wt_cell :: nat
  wt_phase :: wait_phase

record node_host =
  nh_children :: "(uuid, nat) hash_map"
  nh_cells :: "nat option list"
  nh_waits :: "wait_task list"
  nh_containers :: "(uuid, string) hash_map"
  nh_docker_waits :: "(uuid \<times> string) list"
  nh_followers :: "(uuid \<times> string) list"
  nh_procs :: "process list"
  nh_spawns :: nat
  nh_commands :: "string list list"
  nh_exits :: "exit_notice list"
  nh_logs :: "(uuid \<times> out_stream \<times> string) list"

record host_ext =
  hx_spawn_error :: "nat \<Rightarrow> string option"
  hx_pid :: "nat \<Rightarrow> u32 option"
  hx_kill_error :: "nat \<Rightarrow> string option"
  hx_kill_status :: "nat \<Rightarrow> exit_status"
  hx_docker :: "nat \<Rightarrow> string + cmd_output"
  hx_uuid_text :: "uuid \<Rightarrow> string"

definition host_new :: node_host where
  "host_new =
     \<lparr>nh_children = [], nh_cells = [], nh_waits = [], nh_containers = [], nh_docker_waits = [],
      nh_followers = [], nh_procs = [], nh_spawns = 0, nh_commands = [], nh_exits = [], nh_logs = []\<rparr>"

subsection \<open>The native adapter (\<^verbatim>\<open>native.rs\<close>)\<close>

text \<open>A spawned process: its handle goes into a fresh cell, which the registry entry and, with an
  exit sink, the wait task share.\<close>

definition native_started :: "launch_spec \<Rightarrow> string \<Rightarrow> string list \<Rightarrow> labels \<Rightarrow> node_host \<Rightarrow> node_host" where
  "native_started sp exec args env h =
     h\<lparr>nh_procs := nh_procs h @
         [\<lparr>pr_instance = lp_instance_id sp, pr_exec = exec, pr_args = args, pr_env = env,
           pr_piped = lp_log_sink sp, pr_status = None\<rparr>],
       nh_cells := nh_cells h @ [Some (length (nh_procs h))],
       nh_children := hm_insert (lp_instance_id sp) (length (nh_cells h)) (nh_children h),
       nh_waits := nh_waits h @
         (if lp_exit_sink sp
          then [\<lparr>wt_id = lp_instance_id sp, wt_cell = length (nh_cells h), wt_phase = Spawned\<rparr>]
          else [])\<rparr>"

definition native_launch ::
  "host_ext \<Rightarrow> launch_spec \<Rightarrow> node_host \<Rightarrow> (runtime_error + launched_instance) \<times> node_host" where
  "native_launch ext sp h =
     (case lp_runtime sp of
        Runtime_Native exec args env \<Rightarrow>
          (let h1 = h\<lparr>nh_spawns := Suc (nh_spawns h)\<rparr>
           in case hx_spawn_error ext (nh_spawns h) of
                Some e \<Rightarrow> (Inl (Launch_Error (''spawn '' @ exec @ '': '' @ e)), h1)
              | None \<Rightarrow>
                  (let pid = (case hx_pid ext (nh_spawns h) of None \<Rightarrow> [] | Some p \<Rightarrow> show_nat (unat p))
                   in (Inr \<lparr>li_instance_id = lp_instance_id sp, li_native_handle = pid\<rparr>,
                       native_started sp exec args env h1)))
      | other \<Rightarrow> (Inl (Mismatch ''native'' (runtime_kind_str other)), h))"

text \<open>The first step of a wait task: take the handle out of the cell, or end when a stop was
  there before.\<close>

definition native_take :: "nat \<Rightarrow> node_host \<Rightarrow> node_host" where
  "native_take n h =
     (if n < length (nh_waits h) \<and> wt_phase (nh_waits h ! n) = Spawned then
        (let t = nh_waits h ! n
         in case nh_cells h ! wt_cell t of
              None \<Rightarrow> h\<lparr>nh_waits := (nh_waits h)[n := t\<lparr>wt_phase := Ended\<rparr>]\<rparr>
            | Some child \<Rightarrow>
                h\<lparr>nh_cells := (nh_cells h)[wt_cell t := None],
                  nh_waits := (nh_waits h)[n := t\<lparr>wt_phase := Waiting child\<rparr>]\<rparr>)
      else h)"

definition native_notice :: "uuid \<Rightarrow> string + exit_status \<Rightarrow> exit_notice" where
  "native_notice i r =
     (case r of
        Inr status \<Rightarrow>
          \<lparr>xn_instance_id = i, xn_exit_code = es_code status,
           xn_message =
             (case es_code status of
                Some c \<Rightarrow> ''exited code='' @ show_int (sint c)
              | None \<Rightarrow> ''killed (no exit code; status='' @ es_debug status @ '')'')\<rparr>
      | Inl e \<Rightarrow> \<lparr>xn_instance_id = i, xn_exit_code = None, xn_message = ''wait error: '' @ e\<rparr>)"

text \<open>The second step of a wait task: the wait returns, with the status of the process once it has
  ended, or with an error; the registry entry is dropped and the notice sent.\<close>

definition native_reap :: "nat \<Rightarrow> string option \<Rightarrow> node_host \<Rightarrow> node_host" where
  "native_reap n err h =
     (if n < length (nh_waits h) then
        (let t = nh_waits h ! n
         in case wt_phase t of
              Waiting child \<Rightarrow>
                (case (case err of Some e \<Rightarrow> Some (Inl e) | None \<Rightarrow> map_option Inr (pr_status (nh_procs h ! child))) of
                   None \<Rightarrow> h
                 | Some r \<Rightarrow>
                     h\<lparr>nh_children := hm_remove (wt_id t) (nh_children h),
                       nh_exits := nh_exits h @ [native_notice (wt_id t) r],
                       nh_waits := (nh_waits h)[n := t\<lparr>wt_phase := Ended\<rparr>]\<rparr>)
            | _ \<Rightarrow> h)
      else h)"

definition native_stop :: "host_ext \<Rightarrow> uuid \<Rightarrow> node_host \<Rightarrow> (runtime_error + unit) \<times> node_host" where
  "native_stop ext i h =
     (case hm_get (nh_children h) i of
        None \<Rightarrow> (Inr (), h)
      | Some cell \<Rightarrow>
          (let h1 = h\<lparr>nh_children := hm_remove i (nh_children h)\<rparr>
           in case nh_cells h1 ! cell of
                None \<Rightarrow> (Inr (), h1)
              | Some child \<Rightarrow>
                  (let h2 = h1\<lparr>nh_cells := (nh_cells h1)[cell := None]\<rparr>
                   in case hx_kill_error ext child of
                        Some e \<Rightarrow> (Inl (Stop_Error e), h2)
                      | None \<Rightarrow>
                          (Inr (),
                           h2\<lparr>nh_procs := (nh_procs h2)[child :=
                               (nh_procs h2 ! child)\<lparr>pr_status :=
                                  Some (unwrap_or (pr_status (nh_procs h2 ! child)) (hx_kill_status ext child))\<rparr>]\<rparr>))))"

text \<open>What the processes do on their own: end with a status, or write a line to a piped stream,
  which the forwarding task sends on.\<close>

definition process_exit :: "nat \<Rightarrow> exit_status \<Rightarrow> node_host \<Rightarrow> node_host" where
  "process_exit child status h =
     (if child < length (nh_procs h) \<and> pr_status (nh_procs h ! child) = None
      then h\<lparr>nh_procs := (nh_procs h)[child := (nh_procs h ! child)\<lparr>pr_status := Some status\<rparr>]\<rparr>
      else h)"

definition native_forward_line :: "nat \<Rightarrow> out_stream \<Rightarrow> string \<Rightarrow> node_host \<Rightarrow> node_host" where
  "native_forward_line child stream line h =
     (if child < length (nh_procs h) \<and> pr_piped (nh_procs h ! child)
      then h\<lparr>nh_logs := nh_logs h @ [(pr_instance (nh_procs h ! child), stream, line)]\<rparr>
      else h)"

subsection \<open>The docker adapter (\<^verbatim>\<open>docker.rs\<close>)\<close>

definition short_id :: "host_ext \<Rightarrow> uuid \<Rightarrow> string" where
  "short_id ext i = take 8 (hx_uuid_text ext i)"

definition run_docker :: "host_ext \<Rightarrow> string list \<Rightarrow> node_host \<Rightarrow> (string + cmd_output) \<times> node_host" where
  "run_docker ext args h =
     (hx_docker ext (length (nh_commands h)), h\<lparr>nh_commands := nh_commands h @ [args]\<rparr>)"

definition docker_available :: "host_ext \<Rightarrow> node_host \<Rightarrow> bool \<times> node_host" where
  "docker_available ext h =
     (case run_docker ext [''version''] h of
        (Inl _, h') \<Rightarrow> (False, h')
      | (Inr out, h') \<Rightarrow> (co_success out, h'))"

definition docker_run_args :: "string \<Rightarrow> string \<Rightarrow> string list \<Rightarrow> labels \<Rightarrow> u16 list \<Rightarrow> string list" where
  "docker_run_args container_name img args env ports =
     [''run'', ''-d'', ''--rm'', ''--name'', container_name] @
     concat (map (\<lambda>p. [''-p'', show_nat (unat p) @ '':'' @ show_nat (unat p)]) ports) @
     concat (map (\<lambda>(k, v). [''-e'', k @ ''='' @ v]) env) @
     [img] @ args"

definition docker_launch ::
  "host_ext \<Rightarrow> launch_spec \<Rightarrow> node_host \<Rightarrow> (runtime_error + launched_instance) \<times> node_host" where
  "docker_launch ext sp h =
     (case lp_runtime sp of
        Runtime_Docker img args env ports \<Rightarrow>
          (case run_docker ext (docker_run_args (''orion-'' @ short_id ext (lp_instance_id sp)) img args env ports) h of
             (Inl e, h1) \<Rightarrow> (Inl (Launch_Error (''docker run: '' @ e)), h1)
           | (Inr out, h1) \<Rightarrow>
               if \<not> co_success out
               then (Inl (Launch_Error (''docker run failed: '' @ str_trim (co_stderr out))), h1)
               else
                 (let container_id = str_trim (co_stdout out)
                  in (Inr \<lparr>li_instance_id = lp_instance_id sp, li_native_handle = container_id\<rparr>,
                      h1\<lparr>nh_containers := hm_insert (lp_instance_id sp) container_id (nh_containers h1),
                         nh_followers := nh_followers h1 @
                           (if lp_log_sink sp then [(lp_instance_id sp, container_id)] else []),
                         nh_docker_waits := nh_docker_waits h1 @
                           (if lp_exit_sink sp then [(lp_instance_id sp, container_id)] else [])\<rparr>)))
      | other \<Rightarrow> (Inl (Mismatch ''docker'' (runtime_kind_str other)), h))"

definition docker_code_text :: "i32 option \<Rightarrow> string" where
  "docker_code_text code =
     (case code of None \<Rightarrow> ''None'' | Some c \<Rightarrow> ''Some('' @ show_int (sint c) @ '')'')"

definition docker_notice :: "uuid \<Rightarrow> string + cmd_output \<Rightarrow> exit_notice" where
  "docker_notice i r =
     (case r of
        Inl e \<Rightarrow> \<lparr>xn_instance_id = i, xn_exit_code = None, xn_message = ''docker wait spawn error: '' @ e\<rparr>
      | Inr out \<Rightarrow>
          if co_success out then
            (let code = parse_i32 (str_trim (co_stdout out))
             in \<lparr>xn_instance_id = i, xn_exit_code = code,
                 xn_message = ''docker exited code='' @ docker_code_text code\<rparr>)
          else \<lparr>xn_instance_id = i, xn_exit_code = None,
                xn_message = ''docker wait failed: '' @ str_trim (co_stderr out)\<rparr>)"

text \<open>The exit watcher of a container: \<^verbatim>\<open>docker wait\<close> returns, the entry is dropped and the notice
  sent. Its outcome is an argument because it may return at any later moment.\<close>

definition docker_wait_done :: "nat \<Rightarrow> string + cmd_output \<Rightarrow> node_host \<Rightarrow> node_host" where
  "docker_wait_done n r h =
     (if n < length (nh_docker_waits h) then
        (let (i, container_id) = nh_docker_waits h ! n
         in h\<lparr>nh_commands := nh_commands h @ [[''wait'', container_id]],
              nh_containers := hm_remove i (nh_containers h),
              nh_docker_waits := take n (nh_docker_waits h) @ drop (Suc n) (nh_docker_waits h),
              nh_exits := nh_exits h @ [docker_notice i r]\<rparr>)
      else h)"

text \<open>A line from the log follower of a container.\<close>

definition docker_forward_line :: "nat \<Rightarrow> out_stream \<Rightarrow> string \<Rightarrow> node_host \<Rightarrow> node_host" where
  "docker_forward_line n stream line h =
     (if n < length (nh_followers h)
      then h\<lparr>nh_logs := nh_logs h @ [(fst (nh_followers h ! n), stream, line)]\<rparr>
      else h)"

definition docker_stop :: "host_ext \<Rightarrow> uuid \<Rightarrow> node_host \<Rightarrow> (runtime_error + unit) \<times> node_host" where
  "docker_stop ext i h =
     (case hm_get (nh_containers h) i of
        None \<Rightarrow> (Inr (), h)
      | Some container_id \<Rightarrow>
          (let h1 = h\<lparr>nh_containers := hm_remove i (nh_containers h)\<rparr>
           in case run_docker ext [''stop'', container_id] h1 of
                (Inl e, h2) \<Rightarrow> (Inl (Stop_Error e), h2)
              | (Inr out, h2) \<Rightarrow>
                  if co_success out then (Inr (), h2)
                  else (Inl (Stop_Error (''docker stop '' @ container_id @ '' failed'')), h2)))"

subsection \<open>Adapters behind the registry\<close>

definition adapter_launch ::
  "host_ext \<Rightarrow> adapter \<Rightarrow> launch_spec \<Rightarrow> node_host \<Rightarrow> (runtime_error + launched_instance) \<times> node_host" where
  "adapter_launch ext a = (case a of Adapter_Native \<Rightarrow> native_launch ext | Adapter_Docker \<Rightarrow> docker_launch ext)"

definition adapter_stop ::
  "host_ext \<Rightarrow> adapter \<Rightarrow> uuid \<Rightarrow> node_host \<Rightarrow> (runtime_error + unit) \<times> node_host" where
  "adapter_stop ext a = (case a of Adapter_Native \<Rightarrow> native_stop ext | Adapter_Docker \<Rightarrow> docker_stop ext)"

subsection \<open>Secrets (\<^verbatim>\<open>secrets.rs\<close>)\<close>

datatype secret_error =
    Malformed string
  | UnknownScheme string
  | Secret_NotFound string
  | Secret_Io io_error

definition secrets_default_root :: "environ \<Rightarrow> string" where
  "secrets_default_root env =
     (case env ''ORION_SECRETS_DIR'' of
        Some d \<Rightarrow> d
      | None \<Rightarrow>
          (case env ''HOME'' of
             Some home \<Rightarrow> path_push home ''.config/orion/secrets''
           | None \<Rightarrow> ''/var/lib/orion/secrets''))"

definition resolve_secret :: "string \<Rightarrow> file_system \<Rightarrow> string \<Rightarrow> secret_error + string" where
  "resolve_secret dir fs vault_ref =
     (case split_once ''://'' vault_ref of
        None \<Rightarrow> Inl (Malformed vault_ref)
      | Some (scheme, rest) \<Rightarrow>
          if scheme \<noteq> ''plaintext'' then Inl (UnknownScheme scheme)
          else if rest = [] \<or> str_contains rest ''..'' \<or> CHR ''/'' \<in> set rest then Inl (Malformed vault_ref)
          else (case fs (path_push dir rest) of
                  Inr b \<Rightarrow> Inr b
                | Inl Io_NotFound \<Rightarrow> Inl (Secret_NotFound rest)
                | Inl e \<Rightarrow> Inl (Secret_Io e)))"

subsection \<open>The contract of an adapter\<close>

text \<open>What the agent relies on: a runtime of another kind is refused and nothing happens; after a
  launch the instance is known to the adapter, after a stop it is not, and stopping an instance
  the adapter does not know does nothing.\<close>

locale runtime_adapter =
  fixes launch :: "launch_spec \<Rightarrow> 's \<Rightarrow> (runtime_error + launched_instance) \<times> 's"
    and stop :: "uuid \<Rightarrow> 's \<Rightarrow> (runtime_error + unit) \<times> 's"
    and knows :: "'s \<Rightarrow> uuid \<Rightarrow> bool"
    and handles :: "runtime \<Rightarrow> bool"
    and name :: string
  assumes launch_refused:
      "\<not> handles (lp_runtime sp) \<Longrightarrow>
         launch sp s = (Inl (Mismatch name (runtime_kind_str (lp_runtime sp))), s)"
    and launch_id: "launch sp s = (Inr l, s') \<Longrightarrow> li_instance_id l = lp_instance_id sp"
    and launch_knows: "launch sp s = (Inr l, s') \<Longrightarrow> knows s' i \<longleftrightarrow> i = lp_instance_id sp \<or> knows s i"
    and launch_failed: "launch sp s = (Inl e, s') \<Longrightarrow> knows s' i \<longleftrightarrow> knows s i"
    and stop_knows: "knows (snd (stop i s)) j \<longleftrightarrow> j \<noteq> i \<and> knows s j"
    and stop_unknown: "\<not> knows s i \<Longrightarrow> stop i s = (Inr (), s)"
begin

lemma launch_handles: "launch sp s = (Inr l, s') \<Longrightarrow> handles (lp_runtime sp)"
  using launch_refused by force

lemma stop_twice: "stop i (snd (stop i s)) = (Inr (), snd (stop i s))"
  by (rule stop_unknown) (simp add: stop_knows)

lemma stop_launch:
  "launch sp s = (Inr l, s') \<Longrightarrow> \<not> knows s (lp_instance_id sp) \<Longrightarrow>
     knows (snd (stop (lp_instance_id sp) s')) j \<longleftrightarrow> knows s j"
  by (auto simp: stop_knows launch_knows)

lemma stops_knows: "knows (fold (\<lambda>i s. snd (stop i s)) is s) j \<longleftrightarrow> j \<notin> set is \<and> knows s j"
  by (induction "is" arbitrary: s) (auto simp: stop_knows)

end

definition native_knows :: "node_host \<Rightarrow> uuid \<Rightarrow> bool" where
  "native_knows h i \<longleftrightarrow> hm_get (nh_children h) i \<noteq> None"

definition docker_knows :: "node_host \<Rightarrow> uuid \<Rightarrow> bool" where
  "docker_knows h i \<longleftrightarrow> hm_get (nh_containers h) i \<noteq> None"

fun is_native :: "runtime \<Rightarrow> bool" where
  "is_native (Runtime_Native _ _ _) = True"
| "is_native _ = False"

fun is_docker :: "runtime \<Rightarrow> bool" where
  "is_docker (Runtime_Docker _ _ _ _) = True"
| "is_docker _ = False"

interpretation native: runtime_adapter "native_launch ext" "native_stop ext" native_knows is_native "''native''"
  for ext
  by unfold_locales
    (auto simp: native_launch_def native_started_def native_stop_def native_knows_def Let_def
       split: runtime.splits option.splits if_splits)

interpretation docker: runtime_adapter "docker_launch ext" "docker_stop ext" docker_knows is_docker "''docker''"
  for ext
  by unfold_locales
    (auto simp: docker_launch_def docker_stop_def docker_knows_def run_docker_def Let_def
       split: runtime.splits option.splits if_splits sum.splits)

subsection \<open>Runs of the native adapter\<close>

datatype native_event =
    N_Launch launch_spec
  | N_Take nat
  | N_Reap nat "string option"
  | N_Stop uuid
  | N_Exit nat exit_status
  | N_Line nat out_stream string

fun native_step :: "host_ext \<Rightarrow> node_host \<Rightarrow> native_event \<Rightarrow> node_host" where
  "native_step ext h (N_Launch sp) = snd (native_launch ext sp h)"
| "native_step ext h (N_Take n) = native_take n h"
| "native_step ext h (N_Reap n err) = native_reap n err h"
| "native_step ext h (N_Stop i) = snd (native_stop ext i h)"
| "native_step ext h (N_Exit c s) = process_exit c s h"
| "native_step ext h (N_Line c s l) = native_forward_line c s l h"

text \<open>A process handle is in at most one place: one cell, or one waiting task.\<close>

definition cell_holds :: "nat option list \<Rightarrow> nat \<Rightarrow> nat \<Rightarrow> bool" where
  "cell_holds cells k c \<longleftrightarrow> k < length cells \<and> cells ! k = Some c"

definition task_holds :: "wait_task list \<Rightarrow> nat \<Rightarrow> nat \<Rightarrow> bool" where
  "task_holds waits n c \<longleftrightarrow> n < length waits \<and> wt_phase (waits ! n) = Waiting c"

definition handles_wf :: "node_host \<Rightarrow> bool" where
  "handles_wf h \<longleftrightarrow>
     (\<forall>k c. cell_holds (nh_cells h) k c \<longrightarrow> c < length (nh_procs h)) \<and>
     (\<forall>n c. task_holds (nh_waits h) n c \<longrightarrow> c < length (nh_procs h)) \<and>
     (\<forall>c j k. cell_holds (nh_cells h) j c \<longrightarrow> cell_holds (nh_cells h) k c \<longrightarrow> j = k) \<and>
     (\<forall>c m n. task_holds (nh_waits h) m c \<longrightarrow> task_holds (nh_waits h) n c \<longrightarrow> m = n) \<and>
     (\<forall>k n c. cell_holds (nh_cells h) k c \<longrightarrow> \<not> task_holds (nh_waits h) n c)"

definition cells_wf :: "node_host \<Rightarrow> bool" where
  "cells_wf h \<longleftrightarrow>
     (\<forall>i k. hm_get (nh_children h) i = Some k \<longrightarrow> k < length (nh_cells h)) \<and>
     (\<forall>t \<in> set (nh_waits h). wt_cell t < length (nh_cells h))"

text \<open>Handles and notices belong to the instance they are filed under.\<close>

definition instances_wf :: "node_host \<Rightarrow> bool" where
  "instances_wf h \<longleftrightarrow>
     (\<forall>i k c. hm_get (nh_children h) i = Some k \<and> cell_holds (nh_cells h) k c \<longrightarrow>
        pr_instance (nh_procs h ! c) = i) \<and>
     (\<forall>n c. n < length (nh_waits h) \<and> cell_holds (nh_cells h) (wt_cell (nh_waits h ! n)) c \<longrightarrow>
        pr_instance (nh_procs h ! c) = wt_id (nh_waits h ! n)) \<and>
     (\<forall>n c. task_holds (nh_waits h) n c \<longrightarrow> pr_instance (nh_procs h ! c) = wt_id (nh_waits h ! n))"

definition notices_wf :: "node_host \<Rightarrow> bool" where
  "notices_wf h \<longleftrightarrow>
     (\<forall>x \<in> set (nh_exits h). \<forall>code. xn_exit_code x = Some code \<longrightarrow>
        (\<exists>p \<in> set (nh_procs h). pr_instance p = xn_instance_id x \<and>
           (\<exists>s. pr_status p = Some s \<and> es_code s = Some code)))"

definition native_inv :: "node_host \<Rightarrow> bool" where
  "native_inv h \<longleftrightarrow> handles_wf h \<and> cells_wf h \<and> instances_wf h \<and> notices_wf h"

lemma native_launch_cases:
  obtains (failed) e n where "native_launch ext sp h = (Inl e, h\<lparr>nh_spawns := n\<rparr>)"
  | (started) l exec args env n where "lp_runtime sp = Runtime_Native exec args env"
      and "native_launch ext sp h = (Inr l, native_started sp exec args env (h\<lparr>nh_spawns := n\<rparr>))"
proof (cases "is_native (lp_runtime sp)")
  case False
  then show ?thesis using failed [of _ "nh_spawns h"] native.launch_refused by simp
next
  case True
  then obtain exec args env where rt: "lp_runtime sp = Runtime_Native exec args env"
    by (cases "lp_runtime sp") auto
  then show ?thesis
    by (cases "hx_spawn_error ext (nh_spawns h)")
      (auto intro: failed started [OF rt] simp: native_launch_def Let_def)
qed

lemma cell_holds_snoc [simp]:
  "cell_holds (cells @ [Some c']) k c \<longleftrightarrow> cell_holds cells k c \<or> k = length cells \<and> c = c'"
  by (auto simp: cell_holds_def nth_append less_Suc_eq)

lemma cell_holds_clear [simp]: "cell_holds (cells[j := None]) k c \<longleftrightarrow> cell_holds cells k c \<and> k \<noteq> j"
  by (cases "j < length cells") (auto simp: cell_holds_def nth_list_update)

lemma task_holds_spawn [simp]:
  "wt_phase t = Spawned \<Longrightarrow> task_holds (waits @ [t]) n c \<longleftrightarrow> task_holds waits n c"
  by (auto simp: task_holds_def nth_append less_Suc_eq)

lemma task_holds_update:
  "n < length waits \<Longrightarrow> task_holds (waits[n := t]) m c \<longleftrightarrow>
     (if m = n then wt_phase t = Waiting c else task_holds waits m c)"
  by (auto simp: task_holds_def nth_list_update)

lemma handles_wfI:
  assumes "\<And>k c. cell_holds (nh_cells h) k c \<Longrightarrow> c < length (nh_procs h)"
    and "\<And>n c. task_holds (nh_waits h) n c \<Longrightarrow> c < length (nh_procs h)"
    and "\<And>j k c. cell_holds (nh_cells h) j c \<Longrightarrow> cell_holds (nh_cells h) k c \<Longrightarrow> j = k"
    and "\<And>m n c. task_holds (nh_waits h) m c \<Longrightarrow> task_holds (nh_waits h) n c \<Longrightarrow> m = n"
    and "\<And>k n c. cell_holds (nh_cells h) k c \<Longrightarrow> task_holds (nh_waits h) n c \<Longrightarrow> False"
  shows "handles_wf h"
  using assms unfolding handles_wf_def by blast

lemma handles_wfD:
  assumes "handles_wf h"
  shows "cell_holds (nh_cells h) k c \<Longrightarrow> c < length (nh_procs h)"
    and "task_holds (nh_waits h) n c \<Longrightarrow> c < length (nh_procs h)"
    and "cell_holds (nh_cells h) j c \<Longrightarrow> cell_holds (nh_cells h) k c \<Longrightarrow> j = k"
    and "task_holds (nh_waits h) m c \<Longrightarrow> task_holds (nh_waits h) n c \<Longrightarrow> m = n"
    and "cell_holds (nh_cells h) k c \<Longrightarrow> task_holds (nh_waits h) n c \<Longrightarrow> False"
  using assms unfolding handles_wf_def by blast+

lemma handles_wf_started: "handles_wf h \<Longrightarrow> handles_wf (native_started sp exec args env h)"
  by (rule handles_wfI) (auto simp: native_started_def dest: handles_wfD split: if_splits)

lemma native_take_cases:
  obtains (idle) "native_take n h = h"
  | (ended) t where "n < length (nh_waits h)" and "t = nh_waits h ! n" and "wt_phase t = Spawned"
      and "native_take n h = h\<lparr>nh_waits := (nh_waits h)[n := t\<lparr>wt_phase := Ended\<rparr>]\<rparr>"
  | (took) t c where "n < length (nh_waits h)" and "t = nh_waits h ! n" and "wt_phase t = Spawned"
      and "nh_cells h ! wt_cell t = Some c"
      and "native_take n h = h\<lparr>nh_cells := (nh_cells h)[wt_cell t := None],
             nh_waits := (nh_waits h)[n := t\<lparr>wt_phase := Waiting c\<rparr>]\<rparr>"
proof (cases "n < length (nh_waits h) \<and> wt_phase (nh_waits h ! n) = Spawned")
  case True
  then have c: "n < length (nh_waits h)" "wt_phase (nh_waits h ! n) = Spawned" by simp_all
  then show ?thesis
    by (cases "nh_cells h ! wt_cell (nh_waits h ! n)")
      (auto simp: native_take_def Let_def intro: ended [OF c(1) refl c(2)] took [OF c(1) refl c(2)])
next
  case False
  then show ?thesis by (intro idle) (auto simp: native_take_def)
qed

lemma native_reap_cases:
  obtains (idle) "native_reap n err h = h"
  | (sent) t c r where "n < length (nh_waits h)" and "t = nh_waits h ! n" and "wt_phase t = Waiting c"
      and "r = (case err of Some e \<Rightarrow> Inl e | None \<Rightarrow> Inr (the (pr_status (nh_procs h ! c))))"
      and "err = None \<Longrightarrow> pr_status (nh_procs h ! c) \<noteq> None"
      and "native_reap n err h = h\<lparr>nh_children := hm_remove (wt_id t) (nh_children h),
             nh_exits := nh_exits h @ [native_notice (wt_id t) r],
             nh_waits := (nh_waits h)[n := t\<lparr>wt_phase := Ended\<rparr>]\<rparr>"
proof (cases "n < length (nh_waits h) \<and> (\<exists>c. wt_phase (nh_waits h ! n) = Waiting c)")
  case True
  then obtain c where c: "n < length (nh_waits h)" "wt_phase (nh_waits h ! n) = Waiting c" by blast
  then show ?thesis
    by (cases err; cases "pr_status (nh_procs h ! c)")
      (auto simp: native_reap_def Let_def intro: idle sent [OF c(1) refl c(2)])
next
  case False
  then show ?thesis by (auto simp: native_reap_def Let_def intro: idle split: wait_phase.split)
qed

lemma native_stop_cases:
  obtains (unknown) "hm_get (nh_children h) i = None" and "native_stop ext i h = (Inr (), h)"
  | (taken) k where "hm_get (nh_children h) i = Some k" and "nh_cells h ! k = None"
      and "native_stop ext i h = (Inr (), h\<lparr>nh_children := hm_remove i (nh_children h)\<rparr>)"
  | (kill_failed) k c e where "hm_get (nh_children h) i = Some k" and "nh_cells h ! k = Some c"
      and "native_stop ext i h = (Inl (Stop_Error e),
             h\<lparr>nh_children := hm_remove i (nh_children h), nh_cells := (nh_cells h)[k := None]\<rparr>)"
  | (killed) k c where "hm_get (nh_children h) i = Some k" and "nh_cells h ! k = Some c"
      and "native_stop ext i h = (Inr (),
             h\<lparr>nh_children := hm_remove i (nh_children h), nh_cells := (nh_cells h)[k := None],
               nh_procs := (nh_procs h)[c := (nh_procs h ! c)\<lparr>pr_status :=
                 Some (unwrap_or (pr_status (nh_procs h ! c)) (hx_kill_status ext c))\<rparr>]\<rparr>)"
proof (cases "hm_get (nh_children h) i")
  case None
  then show ?thesis by (auto simp: native_stop_def intro: unknown)
next
  case (Some k)
  then show ?thesis
    by (cases "nh_cells h ! k"; cases "hx_kill_error ext (the (nh_cells h ! k))")
      (auto simp: native_stop_def Let_def intro: taken [OF Some] kill_failed [OF Some] killed [OF Some])
qed

lemma cells_wf_started: "cells_wf h \<Longrightarrow> cells_wf (native_started sp exec args env h)"
  by (auto simp: cells_wf_def native_started_def less_SucI)

lemma cells_wf_update:
  "cells_wf h \<Longrightarrow> length cells = length (nh_cells h) \<Longrightarrow>
     (\<And>i k. hm_get ch i = Some k \<Longrightarrow> hm_get (nh_children h) i = Some k) \<Longrightarrow>
     map wt_cell waits = map wt_cell (nh_waits h) \<Longrightarrow>
     cells_wf (h\<lparr>nh_cells := cells, nh_children := ch, nh_waits := waits\<rparr>)"
  unfolding cells_wf_def by (simp, metis in_set_conv_nth length_map nth_map)

lemmas holds_simps = cell_holds_snoc cell_holds_clear task_holds_spawn task_holds_update

lemma wait_cell_bound: "cells_wf h \<Longrightarrow> n < length (nh_waits h) \<Longrightarrow> wt_cell (nh_waits h ! n) < length (nh_cells h)"
  by (simp add: cells_wf_def)

lemma handles_wf_take:
  assumes "cells_wf h" and "handles_wf h"
  shows "handles_wf (native_take n h)"
proof (cases rule: native_take_cases [of n h])
  case idle
  then show ?thesis using assms by simp
next
  case (ended t)
  then show ?thesis
    by (intro handles_wfI) (auto simp: holds_simps dest: handles_wfD [OF assms(2)] split: if_splits)
next
  case (took t c)
  then have "cell_holds (nh_cells h) (wt_cell t) c"
    using wait_cell_bound [OF assms(1)] by (simp add: cell_holds_def)
  with took show ?thesis
    by (intro handles_wfI) (auto simp: holds_simps dest: handles_wfD [OF assms(2)] split: if_splits)
qed

lemma handles_wf_reap:
  assumes "handles_wf h"
  shows "handles_wf (native_reap n err h)"
  by (cases rule: native_reap_cases [of n err h])
    (use assms in \<open>auto intro!: handles_wfI simp: holds_simps dest: handles_wfD [OF assms] split: if_splits\<close>)

lemma handles_wf_stop:
  assumes "handles_wf h"
  shows "handles_wf (snd (native_stop ext i h))"
  by (cases rule: native_stop_cases [of h i ext])
    (use assms in \<open>auto intro!: handles_wfI simp: holds_simps dest: handles_wfD [OF assms]\<close>)

lemma cells_wf_take: "cells_wf h \<Longrightarrow> cells_wf (native_take n h)"
  by (cases rule: native_take_cases [of n h])
    (auto simp: cells_wf_def wait_cell_bound dest!: set_update_subset_insert [THEN subsetD])

lemma cells_wf_reap: "cells_wf h \<Longrightarrow> cells_wf (native_reap n err h)"
  by (cases rule: native_reap_cases [of n err h])
    (auto simp: cells_wf_def wait_cell_bound split: if_splits dest!: set_update_subset_insert [THEN subsetD])

lemma cells_wf_stop: "cells_wf h \<Longrightarrow> cells_wf (snd (native_stop ext i h))"
  by (cases rule: native_stop_cases [of h i ext]) (auto simp: cells_wf_def split: if_splits)

lemma instances_wfI:
  assumes "\<And>i k c. hm_get (nh_children h) i = Some k \<Longrightarrow> cell_holds (nh_cells h) k c \<Longrightarrow>
      pr_instance (nh_procs h ! c) = i"
    and "\<And>n c. n < length (nh_waits h) \<Longrightarrow> cell_holds (nh_cells h) (wt_cell (nh_waits h ! n)) c \<Longrightarrow>
      pr_instance (nh_procs h ! c) = wt_id (nh_waits h ! n)"
    and "\<And>n c. task_holds (nh_waits h) n c \<Longrightarrow> pr_instance (nh_procs h ! c) = wt_id (nh_waits h ! n)"
  shows "instances_wf h"
  using assms unfolding instances_wf_def by blast

lemma instances_wfD:
  assumes "instances_wf h"
  shows "hm_get (nh_children h) i = Some k \<Longrightarrow> cell_holds (nh_cells h) k c \<Longrightarrow> pr_instance (nh_procs h ! c) = i"
    and "n < length (nh_waits h) \<Longrightarrow> cell_holds (nh_cells h) (wt_cell (nh_waits h ! n)) c \<Longrightarrow>
      pr_instance (nh_procs h ! c) = wt_id (nh_waits h ! n)"
    and "task_holds (nh_waits h) n c \<Longrightarrow> pr_instance (nh_procs h ! c) = wt_id (nh_waits h ! n)"
  using assms unfolding instances_wf_def by blast+

lemma map_update_same: "f y = f (xs ! i) \<Longrightarrow> map f (xs[i := y]) = map f xs"
  by (cases "i < length xs") (auto simp: list_eq_iff_nth_eq nth_list_update)

text \<open>Changing only exit statuses, as an ending or killed process does.\<close>

lemma instances_wf_procs:
  "instances_wf h \<Longrightarrow> handles_wf h \<Longrightarrow> map pr_instance ps = map pr_instance (nh_procs h) \<Longrightarrow>
     instances_wf (h\<lparr>nh_procs := ps\<rparr>)"
proof (intro instances_wfI)
  assume wf: "instances_wf h" "handles_wf h" and eq: "map pr_instance ps = map pr_instance (nh_procs h)"
  have same: "pr_instance (ps ! c) = pr_instance (nh_procs h ! c)" if "c < length (nh_procs h)" for c
    using that eq by (metis length_map nth_map)
  show "pr_instance (nh_procs (h\<lparr>nh_procs := ps\<rparr>) ! c) = i"
    if "hm_get (nh_children (h\<lparr>nh_procs := ps\<rparr>)) i = Some k" "cell_holds (nh_cells (h\<lparr>nh_procs := ps\<rparr>)) k c" for i k c
    using that wf by (simp add: same handles_wfD(1) instances_wfD(1))
  show "pr_instance (nh_procs (h\<lparr>nh_procs := ps\<rparr>) ! c) = wt_id (nh_waits (h\<lparr>nh_procs := ps\<rparr>) ! n)"
    if "n < length (nh_waits (h\<lparr>nh_procs := ps\<rparr>))"
      "cell_holds (nh_cells (h\<lparr>nh_procs := ps\<rparr>)) (wt_cell (nh_waits (h\<lparr>nh_procs := ps\<rparr>) ! n)) c" for n c
    using that wf by (simp add: same handles_wfD(1) [OF wf(2)] instances_wfD(2))
  show "pr_instance (nh_procs (h\<lparr>nh_procs := ps\<rparr>) ! c) = wt_id (nh_waits (h\<lparr>nh_procs := ps\<rparr>) ! n)"
    if "task_holds (nh_waits (h\<lparr>nh_procs := ps\<rparr>)) n c" for n c
    using that wf by (simp add: same handles_wfD(2) [OF wf(2)] instances_wfD(3))
qed

lemma instances_wf_started:
  assumes "native_inv h"
  shows "instances_wf (native_started sp exec args env h)"
proof -
  have wf: "handles_wf h" "cells_wf h" "instances_wf h" using assms by (auto simp: native_inv_def)
  have old: "\<not> cell_holds (nh_cells h) (length (nh_cells h)) c" for c
    by (simp add: cell_holds_def)
  have cell: "wt_cell (nh_waits h ! n) \<noteq> length (nh_cells h)" if "n < length (nh_waits h)" for n
    using wait_cell_bound [OF wf(2) that] by simp
  have child: "hm_get (nh_children h) i \<noteq> Some (length (nh_cells h))" for i
    using wf(2) by (force simp: cells_wf_def)
  have task: "c < length (nh_procs h) \<and> pr_instance (nh_procs h ! c) = wt_id (nh_waits h ! n)"
    if "n < length (nh_waits h)" and "wt_phase (nh_waits h ! n) = Waiting c" for n c
    using that handles_wfD(2) [OF wf(1), of n c] instances_wfD(3) [OF wf(3), of n c] by (simp add: task_holds_def)
  show ?thesis
    by (rule instances_wfI)
      (auto simp: native_started_def nth_append less_Suc_eq task_holds_def old cell child task split: if_splits
         dest: handles_wfD(1) [OF wf(1)] instances_wfD [OF wf(3)])
qed

lemma instances_wf_take:
  assumes "native_inv h"
  shows "instances_wf (native_take n h)"
proof -
  have wf: "handles_wf h" "cells_wf h" "instances_wf h" using assms by (auto simp: native_inv_def)
  show ?thesis
  proof (cases rule: native_take_cases [of n h])
    case idle
    then show ?thesis using wf by simp
  next
    case (ended t)
    then show ?thesis
      by (intro instances_wfI)
        (auto simp: holds_simps nth_list_update split: if_splits dest: instances_wfD [OF wf(3)])
  next
    case (took t c)
    then have "cell_holds (nh_cells h) (wt_cell t) c"
      using wait_cell_bound [OF wf(2)] by (simp add: cell_holds_def)
    with took show ?thesis
      by (intro instances_wfI)
        (auto simp: holds_simps nth_list_update split: if_splits dest: instances_wfD [OF wf(3)])
  qed
qed

lemma instances_wf_reap:
  assumes "instances_wf h"
  shows "instances_wf (native_reap n err h)"
  by (cases rule: native_reap_cases [of n err h])
    (use assms in \<open>auto intro!: instances_wfI simp: holds_simps nth_list_update split: if_splits
       dest: instances_wfD [OF assms]\<close>)

lemma instances_wf_stop:
  assumes "native_inv h"
  shows "instances_wf (snd (native_stop ext i h))"
proof -
  have wf: "handles_wf h" "cells_wf h" "instances_wf h" using assms by (auto simp: native_inv_def)
  have base: "instances_wf (h\<lparr>nh_children := hm_remove i (nh_children h), nh_cells := (nh_cells h)[k := None]\<rparr>)" for k
    by (intro instances_wfI) (auto simp: holds_simps split: if_splits dest: instances_wfD [OF wf(3)])
  have gone: "handles_wf (h\<lparr>nh_children := hm_remove i (nh_children h), nh_cells := (nh_cells h)[k := None]\<rparr>)" for k
    by (intro handles_wfI) (auto simp: holds_simps dest: handles_wfD [OF wf(1)])
  show ?thesis
  proof (cases rule: native_stop_cases [of h i ext])
    case unknown
    then show ?thesis using wf by simp
  next
    case (taken k)
    then show ?thesis
      by (auto intro!: instances_wfI split: if_splits dest: instances_wfD [OF wf(3)])
  next
    case (kill_failed k c e)
    then show ?thesis using base by simp
  next
    case (killed k c)
    let ?p = "nh_procs h ! c"
    have "instances_wf (h\<lparr>nh_children := hm_remove i (nh_children h), nh_cells := (nh_cells h)[k := None]\<rparr>
        \<lparr>nh_procs := (nh_procs h)[c := ?p\<lparr>pr_status := Some (unwrap_or (pr_status ?p) (hx_kill_status ext c))\<rparr>]\<rparr>)"
      by (rule instances_wf_procs [OF base gone]) (simp add: map_update_same)
    then show ?thesis using killed by simp
  qed
qed

lemma instances_wf_exit: "native_inv h \<Longrightarrow> instances_wf (process_exit c s h)"
  by (auto simp: process_exit_def native_inv_def intro!: instances_wf_procs map_update_same)

lemma notices_wf_procs:
  "notices_wf h \<Longrightarrow> (\<And>p s. p \<in> set (nh_procs h) \<Longrightarrow> pr_status p = Some s \<Longrightarrow>
      \<exists>q \<in> set ps. pr_instance q = pr_instance p \<and> pr_status q = Some s) \<Longrightarrow>
     notices_wf (h\<lparr>nh_procs := ps\<rparr>)"
  unfolding notices_wf_def by (simp, metis)

lemma status_update_keeps:
  "p \<in> set ps \<Longrightarrow> pr_status p = Some s \<Longrightarrow> pr_instance q = pr_instance (ps ! c) \<Longrightarrow>
     (\<And>s. pr_status (ps ! c) = Some s \<Longrightarrow> pr_status q = Some s) \<Longrightarrow>
     \<exists>q' \<in> set (ps[c := q]). pr_instance q' = pr_instance p \<and> pr_status q' = Some s"
  by (metis in_set_conv_nth length_list_update nth_list_update_eq nth_list_update_neq)

lemma notices_wf_started: "notices_wf h \<Longrightarrow> notices_wf (native_started sp exec args env h)"
  by (force simp: notices_wf_def native_started_def)

lemma notices_wf_take: "notices_wf h \<Longrightarrow> notices_wf (native_take n h)"
  by (cases rule: native_take_cases [of n h]) (auto simp: notices_wf_def)

lemma notices_wf_reap:
  assumes "native_inv h"
  shows "notices_wf (native_reap n err h)"
proof (cases rule: native_reap_cases [of n err h])
  case idle
  then show ?thesis using assms by (simp add: native_inv_def)
next
  case (sent t c r)
  then have held: "task_holds (nh_waits h) n c" by (simp add: task_holds_def)
  then have "c < length (nh_procs h)" "pr_instance (nh_procs h ! c) = wt_id t"
    using assms sent(2) by (auto simp: native_inv_def dest: handles_wfD(2) instances_wfD(3))
  then have "\<exists>p \<in> set (nh_procs h). pr_instance p = wt_id t \<and> (\<exists>s. pr_status p = Some s \<and> es_code s = Some code)"
    if "xn_exit_code (native_notice (wt_id t) r) = Some code" for code
    using that sent(4,5)
    by (intro bexI [of _ "nh_procs h ! c"]) (auto simp: native_notice_def split: option.splits)
  moreover have "xn_instance_id (native_notice (wt_id t) r) = wt_id t"
    by (simp add: native_notice_def split: sum.split)
  ultimately show ?thesis
    using assms sent(6) by (simp add: native_inv_def notices_wf_def)
qed

lemma notices_wf_stop: "notices_wf h \<Longrightarrow> notices_wf (snd (native_stop ext i h))"
proof (cases rule: native_stop_cases [of h i ext])
  case (killed k c)
  assume "notices_wf h"
  then have "notices_wf (h\<lparr>nh_children := hm_remove i (nh_children h), nh_cells := (nh_cells h)[k := None]\<rparr>)"
    by (simp add: notices_wf_def)
  then show ?thesis
    unfolding killed(3) snd_conv by (rule notices_wf_procs) (auto intro!: status_update_keeps)
qed (simp_all add: notices_wf_def)

lemma notices_wf_exit: "notices_wf h \<Longrightarrow> notices_wf (process_exit c s h)"
  by (auto simp: process_exit_def intro!: notices_wf_procs status_update_keeps)

lemma native_inv_step: "native_inv h \<Longrightarrow> native_inv (native_step ext h e)"
proof (cases e)
  case (N_Launch sp)
  assume inv: "native_inv h"
  have spawns: "native_inv (h\<lparr>nh_spawns := n\<rparr>)" for n
    using inv by (simp add: native_inv_def handles_wf_def cells_wf_def instances_wf_def notices_wf_def)
  from inv N_Launch show ?thesis
    by (cases rule: native_launch_cases [of ext sp h])
      (use spawns in \<open>auto simp: native_inv_def intro!: handles_wf_started cells_wf_started instances_wf_started notices_wf_started\<close>)
next
  case (N_Exit c s)
  assume "native_inv h"
  then show ?thesis
    using instances_wf_exit [of h c s] N_Exit
    by (auto simp: native_inv_def notices_wf_exit)
      (auto simp: process_exit_def handles_wf_def cells_wf_def)
next
  case (N_Line c s l)
  assume "native_inv h"
  then show ?thesis
    using N_Line by (simp add: native_forward_line_def native_inv_def handles_wf_def cells_wf_def instances_wf_def notices_wf_def)
qed (auto simp: native_inv_def intro: handles_wf_take handles_wf_reap handles_wf_stop cells_wf_take cells_wf_reap
       cells_wf_stop instances_wf_take instances_wf_reap instances_wf_stop notices_wf_take notices_wf_reap notices_wf_stop)

lemma native_inv_new: "native_inv host_new"
  by (simp add: native_inv_def handles_wf_def cells_wf_def instances_wf_def notices_wf_def host_new_def
      cell_holds_def task_holds_def)

interpretation nat_run: invariant_machine "native_step ext" native_inv for ext
  by unfold_locales (rule native_inv_step)

subsection \<open>Exit notices and stopping\<close>

definition notices_for :: "uuid \<Rightarrow> exit_notice list \<Rightarrow> nat" where
  "notices_for i xs = length (filter (\<lambda>x. xn_instance_id x = i) xs)"

definition open_waits :: "uuid \<Rightarrow> wait_task list \<Rightarrow> nat" where
  "open_waits i ts = length (filter (\<lambda>t. wt_id t = i \<and> wt_phase t \<noteq> Ended) ts)"

fun launches :: "uuid \<Rightarrow> native_event \<Rightarrow> bool" where
  "launches i (N_Launch sp) = (lp_instance_id sp = i \<and> lp_exit_sink sp)"
| "launches i _ = False"

lemma length_filter_update:
  "n < length xs \<Longrightarrow>
     length (filter P (xs[n := y])) + (if P (xs ! n) then 1 else 0) = length (filter P xs) + (if P y then 1 else 0)"
proof (induction xs arbitrary: n)
  case (Cons x xs)
  then show ?case by (cases n) auto
qed simp

lemma open_waits_update:
  "n < length ts \<Longrightarrow> wt_id t = wt_id (ts ! n) \<Longrightarrow> wt_phase (ts ! n) \<noteq> Ended \<Longrightarrow>
     open_waits i (ts[n := t]) + (if wt_id t = i \<and> wt_phase t = Ended then 1 else 0) = open_waits i ts"
  using length_filter_update [of n ts "\<lambda>t. wt_id t = i \<and> wt_phase t \<noteq> Ended" t]
  by (auto simp: open_waits_def split: if_splits)

lemma notices_for_snoc: "notices_for i (xs @ [native_notice j r]) = notices_for i xs + (if j = i then 1 else 0)"
  by (simp add: notices_for_def native_notice_def split: sum.split)

lemma promised_step:
  "notices_for i (nh_exits (native_step ext h e)) + open_waits i (nh_waits (native_step ext h e)) \<le>
     notices_for i (nh_exits h) + open_waits i (nh_waits h) + (if launches i e then 1 else 0)"
proof (cases e)
  case (N_Launch sp)
  show ?thesis
    by (cases rule: native_launch_cases [of ext sp h])
      (simp_all add: N_Launch native_started_def open_waits_def)
next
  case (N_Take n)
  show ?thesis
  proof (cases rule: native_take_cases [of n h])
    case (ended t)
    then show ?thesis using open_waits_update [of n "nh_waits h" "t\<lparr>wt_phase := Ended\<rparr>" i] by (simp add: N_Take)
  next
    case (took t c)
    then show ?thesis using open_waits_update [of n "nh_waits h" "t\<lparr>wt_phase := Waiting c\<rparr>" i] by (simp add: N_Take)
  qed (simp add: N_Take)
next
  case (N_Reap n err)
  show ?thesis
  proof (cases rule: native_reap_cases [of n err h])
    case (sent t c r)
    then show ?thesis
      using open_waits_update [of n "nh_waits h" "t\<lparr>wt_phase := Ended\<rparr>" i]
      by (simp add: N_Reap notices_for_snoc split: if_splits)
  qed (simp add: N_Reap)
next
  case (N_Stop j)
  show ?thesis by (cases rule: native_stop_cases [of h j ext]) (simp_all add: N_Stop)
qed (simp_all add: process_exit_def native_forward_line_def)

lemma promised_run:
  "notices_for i (nh_exits (foldl (native_step ext) h es)) + open_waits i (nh_waits (foldl (native_step ext) h es)) \<le>
     notices_for i (nh_exits h) + open_waits i (nh_waits h) + length (filter (launches i) es)"
proof (induction es arbitrary: h)
  case (Cons e es)
  show ?case using Cons [of "native_step ext h e"] promised_step [of i ext h e]
    by (cases "launches i e") simp_all
qed simp

lemma native_inv_run: "native_inv (foldl (native_step ext) host_new es)"
  by (rule nat_run.inv_run [OF native_inv_new])

text \<open>C9: process exits are reported faithfully. Whatever the order of launches, stops, process
  ends and task steps, an instance is reported at most as often as it was launched with an exit
  sink, and a reported exit code is the exit code of a process that was started for that instance
  and has ended.\<close>

theorem exit_notices_sound:
  "notices_for i (nh_exits (foldl (native_step ext) host_new es)) \<le> length (filter (launches i) es) \<and>
   (\<forall>x code. x \<in> set (nh_exits (foldl (native_step ext) host_new es)) \<and> xn_exit_code x = Some code \<longrightarrow>
      (\<exists>p \<in> set (nh_procs (foldl (native_step ext) host_new es)).
         pr_instance p = xn_instance_id x \<and> (\<exists>s. pr_status p = Some s \<and> es_code s = Some code)))"
  using promised_run [of i ext host_new es] native_inv_run [of ext es]
  by (auto simp: native_inv_def notices_wf_def host_new_def notices_for_def open_waits_def)

definition demo_host :: host_ext where
  "demo_host = \<lparr>hx_spawn_error = (\<lambda>_. None), hx_pid = (\<lambda>n. Some (of_nat n + 100)), hx_kill_error = (\<lambda>_. None),
     hx_kill_status = (\<lambda>_. \<lparr>es_code = None, es_debug = ''signal: 9''\<rparr>), hx_docker = (\<lambda>_. Inl ''no docker''),
     hx_uuid_text = (\<lambda>i. show_nat (unat i))\<rparr>"

definition demo_launch :: launch_spec where
  "demo_launch = \<lparr>lp_instance_id = 7, lp_name = ''web'', lp_runtime = Runtime_Native ''/bin/web'' [] [],
     lp_log_sink = True, lp_exit_sink = True\<rparr>"

lemmas native_eval = demo_host_def demo_launch_def host_new_def native_launch_def native_started_def native_take_def
  native_stop_def native_reap_def process_exit_def native_notice_def Let_def

theorem exit_notices_sound_witness:
  "nh_exits (foldl (native_step demo_host) host_new
      [N_Launch demo_launch, N_Take 0, N_Exit 0 \<lparr>es_code = Some 3, es_debug = ''exit status: 3''\<rparr>, N_Reap 0 None]) =
     [\<lparr>xn_instance_id = 7, xn_exit_code = Some 3, xn_message = ''exited code=3''\<rparr>] \<and>
   (\<exists>p \<in> set (nh_procs (foldl (native_step demo_host) host_new
      [N_Launch demo_launch, N_Take 0, N_Exit 0 \<lparr>es_code = Some 3, es_debug = ''exit status: 3''\<rparr>, N_Reap 0 None])).
      pr_instance p = 7 \<and> (\<exists>s. pr_status p = Some s \<and> es_code s = Some 3))"
proof -
  let ?es = "[N_Launch demo_launch, N_Take 0, N_Exit 0 \<lparr>es_code = Some 3, es_debug = ''exit status: 3''\<rparr>, N_Reap 0 None]"
  have "show_int 3 = ''3''"
    by code_simp
  then have eq: "nh_exits (foldl (native_step demo_host) host_new ?es) =
      [\<lparr>xn_instance_id = 7, xn_exit_code = Some 3, xn_message = ''exited code=3''\<rparr>]"
    by (simp add: native_eval)
  then show ?thesis
    using exit_notices_sound [of 7 demo_host ?es] by simp
qed

lemma stop_keeps_held:
  assumes "native_inv h" and "task_holds (nh_waits h) n c"
  shows "nh_procs (snd (native_stop ext i h)) ! c = nh_procs h ! c \<and>
         task_holds (nh_waits (snd (native_stop ext i h))) n c"
proof (cases rule: native_stop_cases [of h i ext])
  case (killed k c')
  have wf: "handles_wf h" "cells_wf h" using assms(1) by (simp_all add: native_inv_def)
  have "cell_holds (nh_cells h) k c'"
    using killed wf(2) by (auto simp: cell_holds_def cells_wf_def)
  then have "c' \<noteq> c" using assms(2) handles_wfD(5) [OF wf(1)] by blast
  then show ?thesis using killed assms(2) by simp
qed (use assms(2) in simp_all)

lemma stops_keep_held:
  "native_inv h \<Longrightarrow> task_holds (nh_waits h) n c \<Longrightarrow>
     nh_procs (fold (\<lambda>i h. snd (native_stop ext i h)) is h) ! c = nh_procs h ! c"
proof (induction "is" arbitrary: h)
  case (Cons i "is")
  then show ?case
    using stop_keeps_held [OF Cons.prems, of ext i] native_inv_step [OF Cons.prems(1), of ext "N_Stop i"] by simp
qed simp

text \<open>Further: stopping a native instance races with its wait task. A stop that comes before the task's
  first step kills the process, and the task then ends without a notice. Once the task has taken
  the handle, the stop reports success and forgets the instance while the process runs on, and no
  later stop of any instance reaches it.\<close>

theorem native_stop_race:
  assumes "h = foldl (native_step ext) host_new es"
    and "native_launch ext sp h = (Inr l, h1)" and "lp_exit_sink sp"
    and "hx_kill_error ext (length (nh_procs h)) = None"
    and "h2 = snd (native_stop ext (lp_instance_id sp) h1)"
    and "h3 = snd (native_stop ext (lp_instance_id sp) (native_take (length (nh_waits h)) h1))"
  shows "pr_status (nh_procs h2 ! length (nh_procs h)) \<noteq> None \<and>
         nh_exits (native_take (length (nh_waits h)) h2) = nh_exits h \<and>
         wt_phase (nh_waits (native_take (length (nh_waits h)) h2) ! length (nh_waits h)) = Ended \<and>
         fst (native_stop ext (lp_instance_id sp) (native_take (length (nh_waits h)) h1)) = Inr () \<and>
         \<not> native_knows h3 (lp_instance_id sp) \<and>
         pr_status (nh_procs (fold (\<lambda>i h. snd (native_stop ext i h)) ids h3) ! length (nh_procs h)) = None"
proof -
  obtain exec args env n where h1: "h1 = native_started sp exec args env (h\<lparr>nh_spawns := n\<rparr>)"
    using assms(2) by (cases rule: native_launch_cases [of ext sp h]) auto
  let ?n = "length (nh_waits h)" and ?c = "length (nh_procs h)"
  have inv1: "native_inv h1"
    using native_inv_step [OF native_inv_run, where ext = ext and e = "N_Launch sp" and ext1 = ext and es1 = es] assms(1,2) by simp
  have inv2: "native_inv (native_take ?n h1)"
    using native_inv_step [OF inv1, of ext "N_Take ?n"] by simp
  have inv3: "native_inv h3"
    using native_inv_step [OF inv2, of ext "N_Stop (lp_instance_id sp)"] assms(6) by simp
  have held: "task_holds (nh_waits (native_take ?n h1)) ?n ?c"
    using assms(3) by (simp add: h1 native_started_def native_take_def Let_def task_holds_def nth_append)
  have running: "pr_status (nh_procs (native_take ?n h1) ! ?c) = None"
    using assms(3) by (simp add: h1 native_started_def native_take_def Let_def nth_append)
  have "pr_status (nh_procs (fold (\<lambda>i h. snd (native_stop ext i h)) ids h3) ! ?c) = None"
    using stop_keeps_held [OF inv2 held, of ext "lp_instance_id sp"] stops_keep_held [OF inv3, of ?n ?c ext ids] running
    by (simp add: assms(6))
  moreover have "\<not> native_knows h3 (lp_instance_id sp)"
    by (simp add: assms(6) native.stop_knows)
  moreover have "fst (native_stop ext (lp_instance_id sp) (native_take ?n h1)) = Inr ()"
    using assms(3) by (simp add: h1 native_started_def native_take_def native_stop_def Let_def nth_append)
  moreover have "pr_status (nh_procs h2 ! ?c) \<noteq> None"
    "nh_exits (native_take ?n h2) = nh_exits h" "wt_phase (nh_waits (native_take ?n h2) ! ?n) = Ended"
    using assms(3,4) by (simp_all add: assms(5) h1 native_started_def native_take_def native_stop_def Let_def nth_append)
  ultimately show ?thesis by blast
qed

theorem native_stop_race_witness:
  "pr_status (nh_procs (snd (native_stop demo_host 7 (snd (native_launch demo_host demo_launch host_new)))) ! 0) \<noteq> None \<and>
   pr_status (nh_procs (snd (native_stop demo_host 7 (native_take 0 (snd (native_launch demo_host demo_launch host_new))))) ! 0) = None"
proof -
  have "native_launch demo_host demo_launch host_new =
      (Inr \<lparr>li_instance_id = 7, li_native_handle = show_nat 100\<rparr>, snd (native_launch demo_host demo_launch host_new))"
    by (simp add: native_eval)
  from native_stop_race [OF _ this, where es = "[]" and ids = "[]"] show ?thesis
    by (simp add: demo_launch_def demo_host_def host_new_def)
qed

subsection \<open>Docker\<close>

lemma run_docker_eq:
  "run_docker ext args h = (hx_docker ext (length (nh_commands h)), h\<lparr>nh_commands := nh_commands h @ [args]\<rparr>)"
  by (simp add: run_docker_def)

text \<open>Further: the docker adapter stops what it started. After a launch that succeeded, a stop of the
  instance runs \<^verbatim>\<open>docker stop\<close> on the container the launch reported, its exit watcher still
  reports the exit with the code \<^verbatim>\<open>docker wait\<close> prints, and after the watcher a stop runs no command.\<close>

theorem docker_stop_reaches_container:
  assumes "docker_launch ext sp h = (Inr l, h1)" and "lp_exit_sink sp"
    and "n = length (nh_docker_waits h)" and "c = li_native_handle l"
  shows "nh_commands (snd (docker_stop ext (lp_instance_id sp) h1)) = nh_commands h1 @ [[''stop'', c]] \<and>
         (let h2 = docker_wait_done n (Inr \<lparr>co_success = True, co_stdout = show_nat code @ [newline], co_stderr = e\<rparr>)
                     (snd (docker_stop ext (lp_instance_id sp) h1))
          in xn_instance_id (last (nh_exits h2)) = lp_instance_id sp \<and>
             (code < 2 ^ 31 \<longrightarrow> xn_exit_code (last (nh_exits h2)) = Some (of_nat code)) \<and>
             length (nh_exits h2) = Suc (length (nh_exits h))) \<and>
         docker_stop ext (lp_instance_id sp) (docker_wait_done n r h1) = (Inr (), docker_wait_done n r h1)"
proof -
  obtain img args env ports out where rt: "lp_runtime sp = Runtime_Docker img args env ports"
    and out: "hx_docker ext (length (nh_commands h)) = Inr out" "co_success out"
    using assms(1) by (auto simp: docker_launch_def run_docker_def Let_def split: runtime.splits sum.splits if_splits)
  have wait: "nh_docker_waits h1 ! n = (lp_instance_id sp, c)" "n < length (nh_docker_waits h1)"
    and cont: "hm_get (nh_containers h1) (lp_instance_id sp) = Some c"
    and exits: "nh_exits h1 = nh_exits h"
    using assms rt out by (auto simp: docker_launch_def run_docker_def Let_def)
  have stop: "nh_commands (snd (docker_stop ext (lp_instance_id sp) h1)) = nh_commands h1 @ [[''stop'', c]]"
    "nh_docker_waits (snd (docker_stop ext (lp_instance_id sp) h1)) = nh_docker_waits h1"
    "nh_exits (snd (docker_stop ext (lp_instance_id sp) h1)) = nh_exits h1"
    by (simp_all add: docker_stop_def cont run_docker_eq Let_def split: sum.split)
  have "docker_stop ext (lp_instance_id sp) (docker_wait_done n r h1) = (Inr (), docker_wait_done n r h1)"
    using wait by (simp add: docker_wait_done_def docker_stop_def Let_def)
  moreover have "parse_i32 (str_trim (show_nat code @ [newline])) = Some (of_nat code)" if "code < 2 ^ 31"
    using that by (simp add: parse_i32_show_line)
  ultimately show ?thesis
    using wait stop exits by (simp add: docker_wait_done_def docker_notice_def Let_def)
qed

theorem docker_stop_reaches_container_witness:
  "nh_commands (snd (docker_stop
      (demo_host\<lparr>hx_docker := \<lambda>_. Inr \<lparr>co_success = True, co_stdout = ''c0ffee'', co_stderr = []\<rparr>\<rparr>) 7
      (snd (docker_launch
        (demo_host\<lparr>hx_docker := \<lambda>_. Inr \<lparr>co_success = True, co_stdout = ''c0ffee'', co_stderr = []\<rparr>\<rparr>)
        (demo_launch\<lparr>lp_runtime := Runtime_Docker ''nginx'' [] [(''K'', ''V'')] [80]\<rparr>) host_new)))) =
   [[''run'', ''-d'', ''--rm'', ''--name'', ''orion-7'', ''-p'', ''80:80'', ''-e'', ''K=V'', ''nginx''], [''stop'', ''c0ffee'']]"
proof -
  let ?ext = "demo_host\<lparr>hx_docker := \<lambda>_. Inr \<lparr>co_success = True, co_stdout = ''c0ffee'', co_stderr = []\<rparr>\<rparr>"
  let ?sp = "demo_launch\<lparr>lp_runtime := Runtime_Docker ''nginx'' [] [(''K'', ''V'')] [80]\<rparr>"
  have shown: "show_nat 80 = ''80''" "show_nat 7 = ''7''" "str_trim ''c0ffee'' = ''c0ffee''"
    by code_simp+
  have launch: "docker_launch ?ext ?sp host_new =
      (Inr \<lparr>li_instance_id = 7, li_native_handle = ''c0ffee''\<rparr>, snd (docker_launch ?ext ?sp host_new))"
    by (simp add: docker_launch_def run_docker_def demo_launch_def Let_def shown)
  have "nh_commands (snd (docker_launch ?ext ?sp host_new)) =
      [[''run'', ''-d'', ''--rm'', ''--name'', ''orion-7'', ''-p'', ''80:80'', ''-e'', ''K=V'', ''nginx'']]"
    by (simp add: docker_launch_def docker_run_args_def run_docker_def short_id_def demo_launch_def demo_host_def
        host_new_def Let_def shown)
  then show ?thesis
    using docker_stop_reaches_container [OF launch _ refl refl] by (simp add: demo_launch_def)
qed

subsection \<open>Secrets\<close>



end
