(* ===== verification/Hardware.thy ===== *)
theory Hardware
  imports Runtimes
begin

text \<open>
  Hardware detection of the node agent (\<^verbatim>\<open>crates/orion-agent/src/main.rs\<close>): the parsers for the
  output of \<^verbatim>\<open>nvidia-smi\<close>, \<^verbatim>\<open>lspci\<close> and \<^verbatim>\<open>system_profiler\<close>, and the choice of the
  acceleration a node advertises. What the commands print is an argument. Text is ASCII.

  Sizes go through 64-bit floats. A float is the rational it denotes, an infinity or not a number;
  \<open>f64_nearest\<close> rounds a rational to the nearest float, ties to even.
\<close>

subsection \<open>Floats\<close>

datatype f64 = F_Fin rat | F_Inf bool | F_NaN

definition exp_rat :: "nat \<Rightarrow> int \<Rightarrow> rat" where
  "exp_rat b e = (if 0 \<le> e then of_nat b ^ nat e else 1 / of_nat b ^ nat (- e))"

fun bit_len :: "nat \<Rightarrow> nat" where
  "bit_len n = (if n = 0 then 0 else Suc (bit_len (n div 2)))"

declare bit_len.simps [simp del]

text \<open>The exponent of the leading bit of a positive rational.\<close>

definition f64_exponent :: "rat \<Rightarrow> int" where
  "f64_exponent x =
     (let (p, q) = quotient_of x; k = int (bit_len (nat p)) - int (bit_len (nat q))
      in if x < exp_rat 2 k then k - 1 else k)"

definition f64_nearest_pos :: "rat \<Rightarrow> rat" where
  "f64_nearest_pos x =
     (let u = exp_rat 2 (max (f64_exponent x) (- 1022) - 52);
          r = x / u; n = \<lfloor>r\<rfloor>; d = r - of_int n
      in of_int (if d < 1 / 2 \<or> d = 1 / 2 \<and> even n then n else n + 1) * u)"

definition f64_nearest :: "rat \<Rightarrow> f64" where
  "f64_nearest x =
     (if x = 0 then F_Fin 0
      else (let y = f64_nearest_pos \<bar>x\<bar>
            in if exp_rat 2 1024 \<le> y then F_Inf (x < 0) else F_Fin (if x < 0 then - y else y)))"

fun f64_div :: "f64 \<Rightarrow> rat \<Rightarrow> f64" where
  "f64_div (F_Fin x) d = f64_nearest (x / d)"
| "f64_div v d = v"

text \<open>\<^verbatim>\<open>round\<close>: to the nearest integer, halves away from zero.\<close>

fun f64_round :: "f64 \<Rightarrow> f64" where
  "f64_round (F_Fin x) = F_Fin (of_int (if 0 \<le> x then \<lfloor>x + 1 / 2\<rfloor> else - \<lfloor>1 / 2 - x\<rfloor>))"
| "f64_round v = v"

text \<open>\<^verbatim>\<open>max(1.0)\<close>, which ignores not-a-number, and the saturating cast to \<^verbatim>\<open>u32\<close>.\<close>

fun f64_max1 :: "f64 \<Rightarrow> f64" where
  "f64_max1 (F_Fin x) = F_Fin (max x 1)"
| "f64_max1 (F_Inf neg) = (if neg then F_Fin 1 else F_Inf False)"
| "f64_max1 F_NaN = F_Fin 1"

fun f64_as_u32 :: "f64 \<Rightarrow> u32" where
  "f64_as_u32 (F_Fin x) = (if x \<le> 0 then 0 else if 2 ^ 32 \<le> x then - 1 else of_int \<lfloor>x\<rfloor>)"
| "f64_as_u32 (F_Inf neg) = (if neg then 0 else - 1)"
| "f64_as_u32 F_NaN = 0"

text \<open>\<^verbatim>\<open>str::parse::<f64>\<close>: an optional sign, then \<^verbatim>\<open>inf\<close>, \<^verbatim>\<open>infinity\<close>, \<^verbatim>\<open>nan\<close> or a decimal
  number with an optional fraction and exponent.\<close>

definition take_digits :: "string \<Rightarrow> string \<times> string" where
  "take_digits s = (takeWhile is_ascii_digit s, dropWhile is_ascii_digit s)"

definition read_exponent :: "string \<Rightarrow> int option" where
  "read_exponent s =
     (if s = [] then Some 0
      else if to_ascii_lowercase (hd s) = CHR ''e'' then
        (let t = tl s; neg = (t \<noteq> [] \<and> hd t = CHR ''-''); ds = (if neg then tl t else strip_plus t)
         in map_option (\<lambda>n. if neg then - int n else int n) (read_nat ds))
      else None)"

definition parse_decimal :: "string \<Rightarrow> rat option" where
  "parse_decimal s =
     (let (i, r) = take_digits s;
          (f, r') = (if r \<noteq> [] \<and> hd r = CHR ''.'' then take_digits (tl r) else ([], r))
      in if i = [] \<and> f = [] then None
         else map_option (\<lambda>e. of_nat (read_nat_acc 0 (i @ f)) * exp_rat 10 (e - int (length f))) (read_exponent r'))"

definition parse_f64_unsigned :: "string \<Rightarrow> f64 option" where
  "parse_f64_unsigned s =
     (if to_lowercase s \<in> {''inf'', ''infinity''} then Some (F_Inf False)
      else if to_lowercase s = ''nan'' then Some F_NaN
      else map_option f64_nearest (parse_decimal s))"

fun f64_neg :: "f64 \<Rightarrow> f64" where
  "f64_neg (F_Fin x) = F_Fin (- x)"
| "f64_neg (F_Inf neg) = F_Inf (\<not> neg)"
| "f64_neg F_NaN = F_NaN"

definition parse_f64 :: "string \<Rightarrow> f64 option" where
  "parse_f64 s =
     (if s \<noteq> [] \<and> hd s = CHR ''-'' then map_option f64_neg (parse_f64_unsigned (tl s))
      else parse_f64_unsigned (strip_plus s))"

subsection \<open>Parsers\<close>

definition parse_vram_to_gb :: "string \<Rightarrow> u32 option" where
  "parse_vram_to_gb s =
     (case split_whitespace (to_lowercase (str_trim s)) of
        [] \<Rightarrow> None
      | part # others \<Rightarrow>
          (case parse_f64 part of
             None \<Rightarrow> None
           | Some num \<Rightarrow>
               (let u = (case others of [] \<Rightarrow> ''mb'' | m # _ \<Rightarrow> m);
                    gb = (if u \<in> {''gb'', ''gigabytes''} then Some num
                          else if u \<in> {''mb'', ''megabytes''} then Some (f64_div num 1024)
                          else if u \<in> {''kb'', ''kilobytes''} then Some (f64_div (f64_div num 1024) 1024)
                          else None)
                in map_option (\<lambda>g. f64_as_u32 (f64_max1 (f64_round g))) gb)))"

definition macos_vendor :: "string \<Rightarrow> gpu_vendor option" where
  "macos_vendor s =
     (if str_contains s ''nvidia'' \<or> str_contains s ''geforce'' \<or> str_contains s ''quadro'' then Some Nvidia
      else if str_contains s ''amd'' \<or> str_contains s ''radeon'' then Some Amd
      else if str_contains s ''apple'' then Some Apple
      else if str_contains s ''intel'' \<or> str_contains s ''iris'' \<or> str_contains s ''uhd'' then Some Intel
      else None)"

definition get_str :: "json \<Rightarrow> string \<Rightarrow> string option" where
  "get_str v k = (case json_get v k of None \<Rightarrow> None | Some x \<Rightarrow> as_str x)"

definition macos_gpu :: "json \<Rightarrow> node_gpu option" where
  "macos_gpu entry =
     (let model = option_or (get_str entry ''sppci_model'') (get_str entry ''_name'')
      in case macos_vendor (to_lowercase (unwrap_or model [])) of
           None \<Rightarrow> None
         | Some vendor \<Rightarrow>
             (let vram = (case option_or (get_str entry ''spdisplays_vram'') (get_str entry ''sppci_vram_shared'') of
                            None \<Rightarrow> None | Some s \<Rightarrow> parse_vram_to_gb s)
              in Some \<lparr>ng_vendor = vendor, ng_vram_gb = unwrap_or vram 0, ng_name = model\<rparr>))"

definition parse_macos_system_profiler :: "json \<Rightarrow> node_gpu list" where
  "parse_macos_system_profiler v =
     (case (case json_get v ''SPDisplaysDataType'' of None \<Rightarrow> None | Some a \<Rightarrow> as_array a) of
        None \<Rightarrow> []
      | Some arr \<Rightarrow> List.map_filter macos_gpu arr)"

definition nvidia_gpu :: "string \<Rightarrow> node_gpu option" where
  "nvidia_gpu line =
     (case map str_trim (split_on (CHR '','') line) of
        name # vram # _ \<Rightarrow>
          (case parse_u32 vram of
             None \<Rightarrow> None
           | Some vram_mib \<Rightarrow>
               Some \<lparr>ng_vendor = Nvidia,
                     ng_vram_gb = max (f64_as_u32 (f64_round (f64_div (F_Fin (of_nat (unat vram_mib))) 1024))) 1,
                     ng_name = Some name\<rparr>)
      | _ \<Rightarrow> None)"

definition parse_nvidia_smi :: "string \<Rightarrow> node_gpu list" where
  "parse_nvidia_smi out = List.map_filter nvidia_gpu (str_lines out)"

definition lspci_gpu :: "string \<Rightarrow> node_gpu option" where
  "lspci_gpu line =
     (if \<not> str_contains line ''VGA'' \<and> \<not> str_contains line ''3D controller'' \<and>
         \<not> str_contains line ''Display controller'' then None
      else
        (let lower = to_lowercase line;
             model = (case drop 2 (split_on (CHR '':'') line) of [] \<Rightarrow> None | m # _ \<Rightarrow> Some (str_trim m))
         in if str_contains lower ''nvidia'' then Some \<lparr>ng_vendor = Nvidia, ng_vram_gb = 0, ng_name = model\<rparr>
            else if str_contains lower ''amd'' \<or> str_contains lower ''advanced micro devices'' \<or>
                    str_contains lower ''radeon'' then Some \<lparr>ng_vendor = Amd, ng_vram_gb = 0, ng_name = model\<rparr>
            else if str_contains lower ''intel'' then Some \<lparr>ng_vendor = Intel, ng_vram_gb = 0, ng_name = model\<rparr>
            else None))"

definition parse_lspci :: "string \<Rightarrow> node_gpu list" where
  "parse_lspci out = List.map_filter lspci_gpu (str_lines out)"

subsection \<open>Detection\<close>

text \<open>The machine as the agent sees it: the build target, the total memory and what each command
  answers. \<open>hw_json\<close> is the JSON reader.\<close>

record hardware =
  hw_arch :: arch
  hw_os :: operating_system
  hw_total_memory :: u64
  hw_sysctl :: "string + cmd_output"
  hw_profiler :: "string + cmd_output"
  hw_json :: "string \<Rightarrow> json option"
  hw_nvidia :: "string + cmd_output"
  hw_lspci :: "string + cmd_output"

definition succeeded :: "string + cmd_output \<Rightarrow> string option" where
  "succeeded r = (case r of Inl _ \<Rightarrow> None | Inr out \<Rightarrow> if co_success out then Some (co_stdout out) else None)"

definition apple_silicon_marketing_name :: "hardware \<Rightarrow> string" where
  "apple_silicon_marketing_name hw =
     (case succeeded (hw_sysctl hw) of
        None \<Rightarrow> ''Apple Silicon''
      | Some out \<Rightarrow> (let s = str_trim out in if s \<noteq> [] then s else ''Apple Silicon''))"

definition detect_gpus_macos :: "hardware \<Rightarrow> node_gpu list" where
  "detect_gpus_macos hw =
     (if hw_arch hw = Arm64 then
        (let vram_gb = ucast (hw_total_memory hw div 2 div 1073741824) :: u32
         in [\<lparr>ng_vendor = Apple, ng_vram_gb = max vram_gb 1, ng_name = Some (apple_silicon_marketing_name hw)\<rparr>])
      else
        (case succeeded (hw_profiler hw) of
           None \<Rightarrow> []
         | Some out \<Rightarrow> (case hw_json hw out of None \<Rightarrow> [] | Some v \<Rightarrow> parse_macos_system_profiler v)))"

definition detect_gpus_linux :: "hardware \<Rightarrow> node_gpu list" where
  "detect_gpus_linux hw =
     (let nvidia = (case succeeded (hw_nvidia hw) of None \<Rightarrow> [] | Some out \<Rightarrow> parse_nvidia_smi out)
      in if nvidia \<noteq> [] then nvidia
         else (case succeeded (hw_lspci hw) of None \<Rightarrow> [] | Some out \<Rightarrow> parse_lspci out))"

definition detect_gpus :: "hardware \<Rightarrow> node_gpu list" where
  "detect_gpus hw = (case hw_os hw of Macos \<Rightarrow> detect_gpus_macos hw | Linux \<Rightarrow> detect_gpus_linux hw)"

definition primary_acceleration :: "node_gpu list \<Rightarrow> operating_system \<Rightarrow> acceleration option" where
  "primary_acceleration gpus os =
     (if \<exists>g \<in> set gpus. ng_vendor g = Apple then Some Metal
      else if \<exists>g \<in> set gpus. ng_vendor g = Nvidia then Some Cuda
      else if \<exists>g \<in> set gpus. ng_vendor g = Amd then Some Rocm
      else if os = Macos then Some Coreml
      else None)"

subsection \<open>Exactness of small sizes\<close>

lemma exp_rat_powi: "b \<noteq> 0 \<Longrightarrow> exp_rat b e = of_nat b powi e"
  by (simp add: exp_rat_def power_int_def divide_inverse power_inverse)

lemma bit_len_lower: "0 < n \<Longrightarrow> 2 ^ bit_len n \<le> 2 * n"
proof (induction n rule: bit_len.induct)
  case (1 n)
  show ?case
  proof (cases "n < 2")
    case True
    with 1(2) have "n = 1" by simp
    then show ?thesis by (simp add: bit_len.simps [of "Suc 0"] bit_len.simps [of 0])
  next
    case False
    then have "2 ^ bit_len (n div 2) \<le> 2 * (n div 2)" using 1 by simp
    then show ?thesis using 1(2) by (subst bit_len.simps) simp
  qed
qed

lemma bit_len_upper: "n < 2 ^ bit_len n"
proof (induction n rule: bit_len.induct)
  case (1 n)
  show ?case
  proof (cases "n = 0")
    case False
    then have "n div 2 < 2 ^ bit_len (n div 2)" using 1 by simp
    then show ?thesis using False by (subst bit_len.simps) simp
  qed (simp add: bit_len.simps)
qed

lemma exponent_lower:
  assumes "0 < x"
  shows "2 powi f64_exponent x \<le> x"
proof -
  obtain p q where pq: "quotient_of x = (p, q)" by fastforce
  then have x: "x = of_int p / of_int q" and q: "0 < q"
    using quotient_of_div quotient_of_denom_pos by blast+
  with assms have p: "0 < p" by (simp add: zero_less_divide_iff)
  let ?a = "bit_len (nat p)" and ?b = "bit_len (nat q)"
  have "rat_of_nat (2 ^ ?a) \<le> rat_of_nat (2 * nat p)"
    using bit_len_lower [of "nat p"] p by (simp only: of_nat_le_iff zero_less_nat_eq)
  then have "(2::rat) ^ ?a \<le> 2 * of_int p" using p by simp
  moreover have "rat_of_nat (nat q) \<le> rat_of_nat (2 ^ ?b)"
    using bit_len_upper [of "nat q"] by (simp only: of_nat_le_iff less_imp_le)
  then have "of_int q \<le> (2::rat) ^ ?b" using q by simp
  ultimately have "(2::rat) ^ ?a * of_int q \<le> 2 * of_int p * 2 ^ ?b"
    using p q by (intro mult_mono) auto
  then have "(2::rat) ^ ?a / (2 * 2 ^ ?b) \<le> x"
    using q by (simp add: x field_simps)
  moreover have "(2::rat) powi (int ?a - int ?b - 1) = 2 ^ ?a / (2 * 2 ^ ?b)"
    by (simp add: power_int_diff)
  ultimately show ?thesis
    by (simp add: f64_exponent_def pq exp_rat_powi Let_def)
qed

text \<open>A fraction with a 53-bit numerator and a small power of two below it is a float.\<close>

lemma f64_nearest_exact:
  assumes "n < 2 ^ 53" and "k \<le> 1000"
  shows "f64_nearest (of_nat n / 2 ^ k) = F_Fin (of_nat n / 2 ^ k)"
proof (cases "n = 0")
  case False
  let ?x = "rat_of_nat n / 2 ^ k" and ?e = "max (f64_exponent (rat_of_nat n / 2 ^ k)) (- 1022)"
  have pos: "0 < ?x" using False by simp
  have "rat_of_nat n < rat_of_nat (2 ^ 53)" using assms(1) by (simp only: of_nat_less_iff)
  then have up: "?x < 2 powi (53 - int k)" by (simp add: power_int_diff field_simps)
  have "(2::rat) powi f64_exponent ?x < 2 powi (53 - int k)"
    using exponent_lower [OF pos] up by (rule le_less_trans)
  then have "f64_exponent ?x < 53 - int k"
    using power_int_increasing [of "53 - int k" "f64_exponent ?x" "2::rat"] by linarith
  then have le: "?e - 52 \<le> - int k" using assms(2) by simp
  define m where "m = nat (- int k - (?e - 52))"
  have "(2::rat) powi (?e - 52) = 2 powi (- int k) / 2 ^ m"
    using le by (simp add: m_def power_int_diff [symmetric] flip: power_int_of_nat)
  then have u: "?x / exp_rat 2 (?e - 52) = of_int (int n * 2 ^ m)"
    by (simp add: exp_rat_powi power_int_minus field_simps)
  then obtain N where N: "?x / exp_rat 2 (?e - 52) = of_int N" by blast
  have "exp_rat 2 (?e - 52) \<noteq> 0" by (simp add: exp_rat_powi)
  then have "of_int N * exp_rat 2 (?e - 52) = ?x"
    using N by (metis nonzero_divide_eq_eq)
  then have y: "f64_nearest_pos ?x = ?x"
    unfolding f64_nearest_pos_def Let_def N by simp
  have "?x < exp_rat 2 1024"
    using up power_int_increasing [of "53 - int k" 1024 "2::rat"] by (simp add: exp_rat_powi)
  moreover have "\<not> ?x < 0" "\<bar>?x\<bar> = ?x" using pos by auto
  ultimately show ?thesis
    using y False by (simp add: f64_nearest_def Let_def)
qed (simp add: f64_nearest_def)

lemma f64_nearest_nat: "n < 2 ^ 53 \<Longrightarrow> f64_nearest (of_nat n) = F_Fin (of_nat n)"
  using f64_nearest_exact [of n 0] by simp

lemma f64_div_1024: "n < 2 ^ 53 \<Longrightarrow> f64_div (F_Fin (of_nat n)) 1024 = F_Fin (of_nat n / 1024)"
  using f64_nearest_exact [of n 10] by simp

lemma floor_half_up: "\<lfloor>rat_of_nat n / 1024 + 1 / 2\<rfloor> = int ((n + 512) div 1024)"
proof -
  have "rat_of_nat n / 1024 + 1 / 2 = of_nat (n + 512) / of_nat 1024" by simp
  then show ?thesis by (simp only: floor_divide_of_nat_eq)
qed

lemma take_digits_show_nat: "take_digits (show_nat n) = (show_nat n, [])"
  using show_nat_digits [of n] by (simp add: take_digits_def list_all_iff takeWhile_eq_all_conv)

lemma parse_decimal_show_nat: "parse_decimal (show_nat n) = Some (of_nat n)"
  by (simp add: parse_decimal_def take_digits_show_nat read_exponent_def read_nat_acc_show_nat exp_rat_def)

lemma lowercase_digit: "is_ascii_digit c \<Longrightarrow> to_ascii_lowercase c = c"
  by (auto simp: is_ascii_digit_def is_ascii_upper_def to_ascii_lowercase_def)

lemma to_lowercase_show_nat: "to_lowercase (show_nat n) = show_nat n"
  using show_nat_digits [of n] by (simp add: to_lowercase_def list_all_iff lowercase_digit map_idI)

lemma parse_f64_show_nat:
  assumes "n < 2 ^ 53"
  shows "parse_f64 (show_nat n) = Some (F_Fin (of_nat n))"
proof -
  have neq: "show_nat n \<noteq> c # cs" if "\<not> is_ascii_digit c" for c cs
    using that hd_show_nat_digit [of n] by (cases "show_nat n") auto
  have "hd (show_nat n) \<noteq> CHR ''-''"
    by (rule digit_neq_char [OF hd_show_nat_digit]) simp
  moreover have "show_nat n \<noteq> ''inf''" "show_nat n \<noteq> ''infinity''" "show_nat n \<noteq> ''nan''"
    by (rule neq, simp add: is_ascii_digit_def)+
  ultimately show ?thesis
    using assms by (simp add: parse_f64_def parse_f64_unsigned_def to_lowercase_show_nat parse_decimal_show_nat f64_nearest_nat)
qed

lemma f64_round_nat: "f64_round (F_Fin (of_nat n)) = F_Fin (of_nat n)"
proof -
  have "\<lfloor>rat_of_nat n + 1 / 2\<rfloor> = int n" by (simp add: floor_eq_iff)
  then show ?thesis by simp
qed

lemma f64_as_u32_nat:
  assumes "0 < n" and "n < 2 ^ 32"
  shows "f64_as_u32 (F_Fin (of_nat n)) = of_nat n"
proof -
  have "rat_of_nat n < rat_of_nat (2 ^ 32)" using assms(2) by (simp only: of_nat_less_iff)
  then show ?thesis using assms(1) by simp
qed

lemma split_ws_run: "list_all (\<lambda>c. \<not> is_ascii_ws c) s \<Longrightarrow> split_ws acc (s @ t) = split_ws (rev s @ acc) t"
  by (induction s arbitrary: acc) auto

lemma split_whitespace_two:
  assumes "s \<noteq> []" "list_all (\<lambda>c. \<not> is_ascii_ws c) s" "t \<noteq> []" "list_all (\<lambda>c. \<not> is_ascii_ws c) t"
  shows "split_whitespace (s @ CHR '' '' # t) = [s, t]"
proof -
  have "split_ws acc t = [rev acc @ t]" for acc
    using assms(3,4) split_ws_run [of t acc "[]"] by auto
  then show ?thesis
    using assms(1,2) by (simp add: split_whitespace_def split_ws_run is_ascii_ws_def)
qed

lemma show_nat_no_ws: "list_all (\<lambda>c. \<not> is_ascii_ws c) (show_nat n)"
  using show_nat_digits [of n] by (auto simp: list_all_iff is_ascii_digit_def is_ascii_ws_def)

lemma vram_parts:
  assumes "u \<in> {''GB'', ''MB'', ''KB''}"
  shows "split_whitespace (to_lowercase (str_trim (show_nat n @ CHR '' '' # u))) = [show_nat n, to_lowercase u]"
proof -
  have "\<not> is_ascii_ws (last u)" "u \<noteq> []" "list_all (\<lambda>c. \<not> is_ascii_ws c) (to_lowercase u)" "to_lowercase u \<noteq> []"
    using assms by (auto simp: is_ascii_ws_def to_lowercase_def to_ascii_lowercase_def is_ascii_upper_def)
  moreover have "str_trim (show_nat n @ CHR '' '' # u) = show_nat n @ CHR '' '' # u"
    using calculation(1,2) show_nat_no_ws [of n]
    by (subst str_trim_after [of _ "[]", simplified])
      (auto simp: list_all_iff hd_append)
  ultimately show ?thesis
    using split_whitespace_two [OF _ show_nat_no_ws]
    by (simp add: to_lowercase_show_nat [unfolded to_lowercase_def] to_lowercase_def to_ascii_lowercase_def is_ascii_upper_def)
qed

lemma u32_round_1024:
  assumes "n < 2 ^ 32"
  shows "f64_as_u32 (f64_max1 (f64_round (F_Fin (of_nat n / 1024)))) = of_nat (max ((n + 512) div 1024) 1)"
proof -
  have "f64_max1 (f64_round (F_Fin (of_nat n / 1024))) = F_Fin (of_nat (max ((n + 512) div 1024) 1))"
    by (simp add: floor_half_up max_def)
  moreover have "max ((n + 512) div 1024) 1 < 2 ^ 32" using assms by simp
  ultimately show ?thesis by (simp only: f64_as_u32_nat)
qed

text \<open>Further: memory sizes as \<^verbatim>\<open>system_profiler\<close> prints them. A number of gigabytes is read as it
  stands, a number of megabytes is rounded to whole gigabytes with halves up, both at least one;
  the float arithmetic in between loses nothing.\<close>

theorem vram_units:
  assumes "n < 2 ^ 32"
  shows "parse_vram_to_gb (show_nat n @ '' GB'') = Some (of_nat (max n 1)) \<and>
         parse_vram_to_gb (show_nat n @ '' MB'') = Some (of_nat (max ((n + 512) div 1024) 1))"
proof -
  have small: "n < 2 ^ 53" using assms by simp
  have lower: "to_lowercase ''GB'' = ''gb''" "to_lowercase ''MB'' = ''mb''"
    by code_simp+
  have "f64_max1 (f64_round (F_Fin (of_nat n))) = F_Fin (of_nat (max n 1))"
    unfolding f64_round_nat by (simp add: max_def)
  moreover have "0 < max n 1" "max n 1 < 2 ^ 32" using assms by simp_all
  ultimately have gb: "f64_as_u32 (f64_max1 (f64_round (F_Fin (of_nat n)))) = of_nat (max n 1)"
    by (simp only: f64_as_u32_nat)
  have parts: "split_whitespace (to_lowercase (str_trim (show_nat n @ '' GB''))) = [show_nat n, ''gb'']"
    "split_whitespace (to_lowercase (str_trim (show_nat n @ '' MB''))) = [show_nat n, ''mb'']"
    using vram_parts [of "''GB''" n] vram_parts [of "''MB''" n] by (simp_all add: lower)
  show ?thesis
    using gb u32_round_1024 [OF assms] parse_f64_show_nat [OF small] f64_div_1024 [OF small]
    by (simp add: parse_vram_to_gb_def parts Let_def
        del: f64_round.simps f64_max1.simps f64_as_u32.simps f64_div.simps)
qed

theorem vram_units_witness:
  "parse_vram_to_gb (show_nat 1536 @ '' MB'') = Some 2 \<and> parse_vram_to_gb (show_nat 24 @ '' GB'') = Some 24"
  using vram_units [of 1536] vram_units [of 24] by simp

lemma nvidia_gpu_line:
  assumes "CHR '','' \<notin> set name" and "str_trim name = name"
  shows "nvidia_gpu (name @ '', '' @ show_nat (unat (mib :: u32))) =
           Some \<lparr>ng_vendor = Nvidia, ng_vram_gb = of_nat (max ((unat mib + 512) div 1024) 1), ng_name = Some name\<rparr>"
proof -
  have "CHR '','' \<notin> set (show_nat (unat mib))"
    using show_nat_digits [of "unat mib"] by (auto simp: list_all_iff is_ascii_digit_def)
  then have split: "split_on (CHR '','') (name @ CHR '','' # CHR '' '' # show_nat (unat mib)) = [name, CHR '' '' # show_nat (unat mib)]"
    using assms(1) by (simp add: split_on_append split_on_notin)
  have trim: "str_trim (CHR '' '' # show_nat (unat mib)) = show_nat (unat mib)"
    using str_trim_show_nat [of "[]" "unat mib"] by (simp add: str_trim_def is_ascii_ws_def)
  have "f64_round (f64_div (F_Fin (of_nat (unat mib))) 1024) = F_Fin (of_nat ((unat mib + 512) div 1024))"
    using unat_lt_u32 [of mib] by (simp add: f64_div_1024 floor_half_up del: f64_div.simps of_nat_unat)
  moreover have "max (f64_as_u32 (F_Fin (of_nat q))) 1 = of_nat (max q 1)" if "q < 2 ^ 32" for q
  proof (cases "q = 0")
    case False
    then have "f64_as_u32 (F_Fin (of_nat q)) = of_nat q" using that by (intro f64_as_u32_nat) simp_all
    moreover have "(1 :: u32) \<le> of_nat q"
      using False that by (simp add: word_le_nat_alt unat_of_nat_u32)
    moreover have "max q 1 = q" using False by simp
    ultimately show ?thesis by (simp add: max_def del: f64_as_u32.simps)
  qed (simp add: max_def)
  moreover have "(unat mib + 512) div 1024 < 2 ^ 32"
    using unat_lt_u32 [of mib] by simp
  ultimately show ?thesis
    by (simp add: nvidia_gpu_def split trim assms(2) parse_u32_show del: f64_as_u32.simps of_nat_unat)
qed

text \<open>Further: the list \<^verbatim>\<open>nvidia-smi\<close> prints, one line per card with its name and its memory in
  mebibytes, is read back as those cards in order, each with its memory rounded to whole gigabytes
  and at least one.\<close>

theorem nvidia_smi_roundtrip:
  assumes "\<forall>(name, mib) \<in> set cards. CHR '','' \<notin> set name \<and> newline \<notin> set name \<and> str_trim name = name"
  shows "parse_nvidia_smi (concat (map (\<lambda>(name, mib). name @ '', '' @ show_nat (unat (mib :: u32)) @ [newline]) cards)) =
           map (\<lambda>(name, mib). \<lparr>ng_vendor = Nvidia, ng_vram_gb = of_nat (max ((unat mib + 512) div 1024) 1),
                               ng_name = Some name\<rparr>) cards"
  using assms
proof (induction cards)
  case (Cons card cards)
  obtain name mib where card: "card = (name, mib)" by fastforce
  let ?line = "name @ '', '' @ show_nat (unat mib)"
  have digits: "\<forall>c \<in> set (show_nat (unat mib)). is_ascii_digit c"
    using show_nat_digits [of "unat mib"] by (simp add: list_all_iff)
  then have "newline \<notin> set (show_nat (unat mib))" "last (show_nat (unat mib)) \<noteq> CHR 0x0D"
    using last_in_set [of "show_nat (unat mib)"] by (force simp: newline_def is_ascii_digit_def)+
  then have "newline \<notin> set ?line" "last ?line \<noteq> CHR 0x0D"
    using Cons.prems card by (auto simp: newline_def)
  then have "str_lines (?line @ newline # rest) = ?line # str_lines rest" for rest
    using str_lines_line [of ?line rest] by (simp add: chomp_cr_def)
  then show ?case
    using Cons card nvidia_gpu_line [of name mib]
    by (simp add: parse_nvidia_smi_def List.map_filter_simps)
qed (simp add: parse_nvidia_smi_def List.map_filter_simps)

theorem nvidia_smi_roundtrip_witness:
  "parse_nvidia_smi (''RTX 4090, '' @ show_nat 24564 @ [newline]) =
     [\<lparr>ng_vendor = Nvidia, ng_vram_gb = 24, ng_name = Some ''RTX 4090''\<rparr>]"
proof -
  have "str_trim ''RTX 4090'' = ''RTX 4090''" by code_simp
  then show ?thesis
    using nvidia_smi_roundtrip [of "[(''RTX 4090'', 24564)]"] by (simp add: newline_def)
qed

end
