(* ===== verification/Agent.thy ===== *)
theory Agent
  imports Hardware Bus
begin

text \<open>
  The node agent (\<^verbatim>\<open>crates/orion-agent/src/main.rs\<close>): its instance registry, the two forwarders
  that turn exit notices and output lines into bus messages, the control handler, the health
  probes and the heartbeat. The spawned loops are explicit: one call of \<open>forward_exit\<close>,
  \<open>forward_log\<close>, \<open>probe_tick\<close> or \<open>agent_tick\<close> is one round of a loop.

  Encoding a message to JSON does not fail for these types. Decoding, the identifiers drawn and the
  outcome of each publish are fields of \<open>agent_ext\<close>; the answers of the network and of commands to
  a probe are an argument of the round that asks.
\<close>

subsection \<open>State\<close>

record instance_meta =
  im_kind :: workload_kind
  im_name :: resource_name
  im_replica_index :: u32
  im_started_at :: datetime

record probe_task =
  pt_service :: resource_name
  pt_instance_id :: uuid
  pt_check :: health_check
  pt_failures :: u32

datatype agent_msg =
    Am_Heartbeat "heartbeat envelope"
  | Am_Inventory "node_inventory envelope"
  | Am_Log "log_line envelope"
  | Am_Event "task_event envelope"
  | Am_Health "service_health envelope"

record agent_state =
  ag_node_id :: node_id
  ag_registry :: runtime_registry
  ag_instances :: "(uuid, instance_meta) hash_map"
  ag_host :: node_host
  ag_probes :: "probe_task list"
  ag_tick_count :: u32
  ag_drawn :: nat
  ag_publishes :: nat
  ag_sent :: "(string \<times> agent_msg) list"

record agent_ext =
  gx_host :: host_ext
  gx_new_uuid :: "nat \<Rightarrow> uuid"
  gx_publish_error :: "nat \<Rightarrow> string option"
  gx_decode_run :: "string \<Rightarrow> string + control_run envelope"
  gx_decode_stop :: "string \<Rightarrow> string + control_stop envelope"
  gx_version :: string

definition agent_record :: "uuid \<Rightarrow> instance_meta \<Rightarrow> agent_state \<Rightarrow> agent_state" where
  "agent_record i meta st = st\<lparr>ag_instances := hm_insert i meta (ag_instances st)\<rparr>"

definition agent_get :: "agent_state \<Rightarrow> uuid \<Rightarrow> instance_meta option" where
  "agent_get st i = hm_get (ag_instances st) i"

definition agent_forget :: "uuid \<Rightarrow> agent_state \<Rightarrow> agent_state" where
  "agent_forget i st = st\<lparr>ag_instances := hm_remove i (ag_instances st)\<rparr>"

definition agent_draw :: "agent_ext \<Rightarrow> agent_state \<Rightarrow> uuid \<times> agent_state" where
  "agent_draw ext st = (gx_new_uuid ext (ag_drawn st), st\<lparr>ag_drawn := Suc (ag_drawn st)\<rparr>)"

text \<open>A publish that fails is logged and the message is lost.\<close>

definition agent_publish :: "agent_ext \<Rightarrow> string \<Rightarrow> agent_msg \<Rightarrow> agent_state \<Rightarrow> agent_state" where
  "agent_publish ext subject msg st =
     (let st' = st\<lparr>ag_publishes := Suc (ag_publishes st)\<rparr>
      in case gx_publish_error ext (ag_publishes st) of
           Some _ \<Rightarrow> st'
         | None \<Rightarrow> st'\<lparr>ag_sent := ag_sent st' @ [(subject, msg)]\<rparr>)"

text \<open>Wrapping a payload in a fresh envelope from this node and publishing it.\<close>

definition agent_send ::
  "agent_ext \<Rightarrow> datetime \<Rightarrow> string \<Rightarrow> ('p envelope \<Rightarrow> agent_msg) \<Rightarrow> 'p \<Rightarrow> agent_state \<Rightarrow> agent_state" where
  "agent_send ext now subject wrap payload st =
     (let (i, st') = agent_draw ext st
      in agent_publish ext subject (wrap (envelope_new i now (Some (ag_node_id st')) payload)) st')"

text \<open>Start-up: the native adapter is always registered, the docker adapter when its daemon answers.\<close>

definition agent_start :: "agent_ext \<Rightarrow> node_id \<Rightarrow> agent_state" where
  "agent_start ext node =
     (let reg = registry_register Adapter_Native registry_new;
          (docker, host) = docker_available (gx_host ext) host_new;
          reg = (if docker then registry_register Adapter_Docker reg else reg)
      in \<lparr>ag_node_id = node, ag_registry = reg, ag_instances = [], ag_host = host, ag_probes = [],
          ag_tick_count = 0, ag_drawn = 0, ag_publishes = 0, ag_sent = []\<rparr>)"

subsection \<open>Forwarders\<close>

definition exit_outcome :: "exit_notice \<Rightarrow> task_outcome" where
  "exit_outcome x =
     (case xn_exit_code x of
        Some c \<Rightarrow> if c = 0 then Outcome_Succeeded 0 else Outcome_Failed c (xn_message x)
      | None \<Rightarrow> Outcome_Failed (- 1) (xn_message x))"

definition forward_exit :: "agent_ext \<Rightarrow> datetime \<Rightarrow> agent_state \<Rightarrow> agent_state" where
  "forward_exit ext now st =
     (case nh_exits (ag_host st) of
        [] \<Rightarrow> st
      | x # rest \<Rightarrow>
          (let st1 = st\<lparr>ag_host := (ag_host st)\<lparr>nh_exits := rest\<rparr>\<rparr>
           in case agent_get st1 (xn_instance_id x) of
                None \<Rightarrow> st1
              | Some _ \<Rightarrow>
                  agent_send ext now (topic_as_str Topic_TaskEvents) Am_Event
                    \<lparr>te_task_id = xn_instance_id x, te_node_id = ag_node_id st1, te_outcome = exit_outcome x\<rparr>
                    (agent_forget (xn_instance_id x) st1)))"

definition stream_of :: "out_stream \<Rightarrow> log_stream" where
  "stream_of s = (case s of Out_Stdout \<Rightarrow> Stdout | Out_Stderr \<Rightarrow> Stderr)"

definition forward_log :: "agent_ext \<Rightarrow> datetime \<Rightarrow> agent_state \<Rightarrow> agent_state" where
  "forward_log ext now st =
     (case nh_logs (ag_host st) of
        [] \<Rightarrow> st
      | (i, stream, line) # rest \<Rightarrow>
          (let st1 = st\<lparr>ag_host := (ag_host st)\<lparr>nh_logs := rest\<rparr>\<rparr>
           in case agent_get st1 i of
                None \<Rightarrow> st1
              | Some meta \<Rightarrow>
                  agent_send ext now (for_node Topic_Logs (ag_node_id st1)) Am_Log
                    \<lparr>ll_node_id = ag_node_id st1, ll_service = im_name meta, ll_instance_id = Some i,
                     ll_replica_index = im_replica_index meta, ll_stream = stream_of stream, ll_line = line\<rparr> st1))"

subsection \<open>Heartbeat and inventory\<close>

record sys_info =
  si_uptime_seconds :: u64
  si_load_one :: rat
  si_used_memory :: u64
  si_cpus :: nat
  si_hardware :: hardware

definition build_inventory :: "agent_ext \<Rightarrow> sys_info \<Rightarrow> agent_state \<Rightarrow> node_inventory" where
  "build_inventory ext sys st =
     (let hw = si_hardware sys; gpus = detect_gpus hw
      in \<lparr>iv_node_id = ag_node_id st, iv_agent_version = gx_version ext, iv_arch = hw_arch hw, iv_os = hw_os hw,
          iv_acceleration = primary_acceleration gpus (hw_os hw), iv_gpus = gpus,
          iv_cpu_cores = of_nat (si_cpus sys), iv_mem_total_bytes = hw_total_memory hw, iv_disk_gb = None,
          iv_runtimes = registry_names (ag_registry st), iv_roles = [], iv_labels = [], iv_address = None\<rparr>)"

definition publish_inventory :: "agent_ext \<Rightarrow> datetime \<Rightarrow> sys_info \<Rightarrow> agent_state \<Rightarrow> agent_state" where
  "publish_inventory ext now sys st =
     agent_send ext now (topic_as_str Topic_NodeInventory) Am_Inventory (build_inventory ext sys st) st"

definition agent_tick :: "agent_ext \<Rightarrow> u32 \<Rightarrow> datetime \<Rightarrow> sys_info \<Rightarrow> agent_state \<Rightarrow> agent_state" where
  "agent_tick ext inventory_every_n_heartbeats now sys st =
     (let tick_count = ag_tick_count st + 1;
          st1 = st\<lparr>ag_tick_count := tick_count\<rparr>;
          st2 = (if 0 < inventory_every_n_heartbeats \<and> tick_count mod inventory_every_n_heartbeats = 0
                 then publish_inventory ext now sys st1 else st1)
      in agent_send ext now (topic_as_str Topic_Heartbeat) Am_Heartbeat
           \<lparr>hb_node_id = ag_node_id st2, hb_agent_version = gx_version ext,
            hb_uptime_seconds = si_uptime_seconds sys, hb_cpu_load_1m = si_load_one sys,
            hb_mem_used_bytes = si_used_memory sys, hb_mem_total_bytes = hw_total_memory (si_hardware sys),
            hb_labels = []\<rparr> st2)"

subsection \<open>Control\<close>

datatype control_error =
    Decode_Failed string
  | No_Adapter string
  | Launch_Failed runtime_error

definition runtime_adapter_name :: "runtime \<Rightarrow> string" where
  "runtime_adapter_name r = runtime_kind_str r"

fun inject_replica_env :: "u32 \<Rightarrow> u32 \<Rightarrow> runtime \<Rightarrow> runtime" where
  "inject_replica_env idx cnt (Runtime_Native exec args env) =
     Runtime_Native exec args
       (bt_insert ''ORION_REPLICA_COUNT'' (show_nat (unat cnt))
         (bt_insert ''ORION_REPLICA_INDEX'' (show_nat (unat idx)) env))"
| "inject_replica_env idx cnt (Runtime_Docker img args env ports) =
     Runtime_Docker img args
       (bt_insert ''ORION_REPLICA_COUNT'' (show_nat (unat cnt))
         (bt_insert ''ORION_REPLICA_INDEX'' (show_nat (unat idx)) env)) ports"
| "inject_replica_env idx cnt rt = rt"

definition partial_mode :: "control_run \<Rightarrow> bool" where
  "partial_mode m \<longleftrightarrow> cr_slot_indices m \<noteq> []"

definition run_slots :: "control_run \<Rightarrow> u32 list" where
  "run_slots m = (if partial_mode m then cr_slot_indices m else range_u32 (max (cr_replicas m) 1))"

definition total_replicas :: "control_run \<Rightarrow> u32" where
  "total_replicas m = (if partial_mode m then max (cr_replicas m) 1 else of_nat (length (run_slots m)))"

definition launch_slot ::
  "agent_ext \<Rightarrow> datetime \<Rightarrow> control_run \<Rightarrow> adapter \<Rightarrow> u32 \<Rightarrow> agent_state \<Rightarrow> (control_error + unit) \<times> agent_state" where
  "launch_slot ext now m a idx st =
     (let (i, st1) = (if \<not> partial_mode m \<and> idx = 0 then (cr_instance_id m, st) else agent_draw ext st);
          st2 = agent_record i \<lparr>im_kind = cr_kind m, im_name = cr_name m, im_replica_index = idx, im_started_at = now\<rparr> st1
      in case adapter_launch (gx_host ext) a
                \<lparr>lp_instance_id = i, lp_name = cr_name m,
                 lp_runtime = inject_replica_env idx (total_replicas m) (cr_runtime m),
                 lp_log_sink = True, lp_exit_sink = True\<rparr> (ag_host st2) of
           (Inl e, h) \<Rightarrow> (Inl (Launch_Failed e), st2\<lparr>ag_host := h\<rparr>)
         | (Inr _, h) \<Rightarrow>
             (Inr (),
              st2\<lparr>ag_host := h,
                  ag_probes := ag_probes st2 @
                    (case cr_health_check m of
                       None \<Rightarrow> []
                     | Some hc \<Rightarrow> [\<lparr>pt_service = cr_name m, pt_instance_id = i, pt_check = hc, pt_failures = 0\<rparr>])\<rparr>))"

fun launch_slots ::
  "agent_ext \<Rightarrow> datetime \<Rightarrow> control_run \<Rightarrow> adapter \<Rightarrow> u32 list \<Rightarrow> agent_state \<Rightarrow> (control_error + unit) \<times> agent_state" where
  "launch_slots ext now m a [] st = (Inr (), st)"
| "launch_slots ext now m a (idx # rest) st =
     (case launch_slot ext now m a idx st of
        (Inl e, st') \<Rightarrow> (Inl e, st')
      | (Inr _, st') \<Rightarrow> launch_slots ext now m a rest st')"

definition stop_everywhere :: "agent_ext \<Rightarrow> uuid \<Rightarrow> agent_state \<Rightarrow> agent_state" where
  "stop_everywhere ext i st =
     fold (\<lambda>name st. case registry_get (ag_registry st) name of
                        None \<Rightarrow> st
                      | Some a \<Rightarrow> st\<lparr>ag_host := snd (adapter_stop (gx_host ext) a i (ag_host st))\<rparr>)
       (registry_names (ag_registry st)) st"

definition dispatch_control ::
  "agent_ext \<Rightarrow> datetime \<Rightarrow> string \<Rightarrow> string \<Rightarrow> agent_state \<Rightarrow> (control_error + unit) \<times> agent_state" where
  "dispatch_control ext now subject payload st =
     (if ends_with subject ''.run'' then
        (case gx_decode_run ext payload of
           Inl e \<Rightarrow> (Inl (Decode_Failed e), st)
         | Inr env \<Rightarrow>
             (let m = en_payload env
              in case registry_get (ag_registry st) (runtime_adapter_name (cr_runtime m)) of
                   None \<Rightarrow> (Inl (No_Adapter (runtime_adapter_name (cr_runtime m))), st)
                 | Some a \<Rightarrow> launch_slots ext now m a (run_slots m) st))
      else if ends_with subject ''.stop'' then
        (case gx_decode_stop ext payload of
           Inl e \<Rightarrow> (Inl (Decode_Failed e), st)
         | Inr env \<Rightarrow>
             (let i = cs_instance_id (en_payload env)
              in (Inr (), agent_forget i (stop_everywhere ext i st))))
      else (Inr (), st))"

subsection \<open>Health probes\<close>

text \<open>What the network and the command answer to one probe.\<close>

record probe_world =
  pw_http :: "string \<Rightarrow> string + (u16 \<times> string)"
  pw_tcp :: "u16 \<Rightarrow> string + unit"
  pw_exec :: "string list \<Rightarrow> string + exit_status"

definition run_probe :: "probe_world \<Rightarrow> health_check \<Rightarrow> string + unit" where
  "run_probe w hc =
     (case hc of
        HC_Http path port _ _ \<Rightarrow>
          (let url = ''http://127.0.0.1:'' @ show_nat (unat port) @ path
           in case pw_http w url of
                Inl e \<Rightarrow> Inl e
              | Inr (status, shown) \<Rightarrow>
                  if 200 \<le> status \<and> status < 300 then Inr ()
                  else Inl (''http '' @ url @ [CHR '' '', CHR 0xE2, CHR 0x86, CHR 0x92, CHR '' ''] @ shown))
      | HC_Tcp port _ _ \<Rightarrow> pw_tcp w port
      | HC_Exec command _ _ \<Rightarrow>
          if command = [] then Inl ''exec health check has empty command''
          else (case pw_exec w command of
                  Inl e \<Rightarrow> Inl e
                | Inr status \<Rightarrow>
                    if es_code status = Some 0 then Inr () else Inl (''exec exit '' @ es_debug status)))"

fun failure_threshold :: "health_check \<Rightarrow> u32" where
  "failure_threshold (HC_Http _ _ _ t) = t"
| "failure_threshold (HC_Tcp _ _ t) = t"
| "failure_threshold (HC_Exec _ _ t) = t"

text \<open>The counter, status and message after one probe.\<close>

definition probe_verdict :: "u32 \<Rightarrow> u32 \<Rightarrow> string + unit \<Rightarrow> u32 \<times> health_status \<times> string option" where
  "probe_verdict threshold failures r =
     (case r of
        Inr _ \<Rightarrow> (0, Healthy, None)
      | Inl e \<Rightarrow>
          (let failures = saturating_add failures 1
           in (failures, if threshold \<le> failures then Unhealthy else Unknown_Health, Some e)))"

definition probe_tick :: "agent_ext \<Rightarrow> datetime \<Rightarrow> probe_world \<Rightarrow> nat \<Rightarrow> agent_state \<Rightarrow> agent_state" where
  "probe_tick ext now w n st =
     (if n < length (ag_probes st) then
        (let p = ag_probes st ! n
         in case agent_get st (pt_instance_id p) of
              None \<Rightarrow> st\<lparr>ag_probes := take n (ag_probes st) @ drop (Suc n) (ag_probes st)\<rparr>
            | Some _ \<Rightarrow>
                (let (failures, status, message) =
                       probe_verdict (failure_threshold (pt_check p)) (pt_failures p) (run_probe w (pt_check p))
                 in agent_send ext now (topic_as_str Topic_ServiceHealth) Am_Health
                      \<lparr>sh_node_id = ag_node_id st, sh_service = pt_service p,
                       sh_instance_id = hx_uuid_text (gx_host ext) (pt_instance_id p), sh_status = status,
                       sh_message = message, sh_consecutive_failures = failures\<rparr>
                      (st\<lparr>ag_probes := (ag_probes st)[n := p\<lparr>pt_failures := failures\<rparr>]\<rparr>)))
      else st)"

subsection \<open>Lemmas\<close>

lemma agent_get_simps [simp]:
  "agent_get (agent_record i meta st) j = (if j = i then Some meta else agent_get st j)"
  "agent_get (agent_forget i st) j = (if j = i then None else agent_get st j)"
  "agent_get (st\<lparr>ag_host := h\<rparr>) j = agent_get st j"
  "agent_get (st\<lparr>ag_host := h, ag_probes := ps\<rparr>) j = agent_get st j"
  by (simp_all add: agent_get_def agent_record_def agent_forget_def)

lemma agent_send_fields [simp]:
  "ag_instances (agent_send ext now s w p st) = ag_instances st"
  "ag_host (agent_send ext now s w p st) = ag_host st"
  "ag_node_id (agent_send ext now s w p st) = ag_node_id st"
  "ag_probes (agent_send ext now s w p st) = ag_probes st"
  "ag_registry (agent_send ext now s w p st) = ag_registry st"
  by (simp_all add: agent_send_def agent_draw_def agent_publish_def Let_def split: option.split)

lemma agent_send_sent:
  "gx_publish_error ext (ag_publishes st) = None \<Longrightarrow>
     ag_sent (agent_send ext now s w p st) =
       ag_sent st @ [(s, w (envelope_new (gx_new_uuid ext (ag_drawn st)) now (Some (ag_node_id st)) p))]"
  by (simp add: agent_send_def agent_draw_def agent_publish_def Let_def)

text \<open>The instance identifiers the slots of a run get, starting at the given draw.\<close>

fun slot_ids :: "agent_ext \<Rightarrow> control_run \<Rightarrow> nat \<Rightarrow> u32 list \<Rightarrow> uuid list" where
  "slot_ids ext m d [] = []"
| "slot_ids ext m d (idx # rest) =
     (if \<not> partial_mode m \<and> idx = 0 then cr_instance_id m # slot_ids ext m d rest
      else gx_new_uuid ext d # slot_ids ext m (Suc d) rest)"

lemma length_slot_ids [simp]: "length (slot_ids ext m d slots) = length slots"
  by (induction slots arbitrary: d) auto

definition slot_process :: "control_run \<Rightarrow> string \<Rightarrow> string list \<Rightarrow> labels \<Rightarrow> uuid \<times> u32 \<Rightarrow> process" where
  "slot_process m exec args env = (\<lambda>(i, idx).
     \<lparr>pr_instance = i, pr_exec = exec, pr_args = args,
      pr_env = bt_insert ''ORION_REPLICA_COUNT'' (show_nat (unat (total_replicas m)))
                 (bt_insert ''ORION_REPLICA_INDEX'' (show_nat (unat idx)) env),
      pr_piped = True, pr_status = None\<rparr>)"

lemma launch_slot_native:
  assumes "cr_runtime m = Runtime_Native exec args env" and "hx_spawn_error (gx_host ext) (nh_spawns (ag_host st)) = None"
    and "i = hd (slot_ids ext m (ag_drawn st) [idx])" and "st' = snd (launch_slot ext now m Adapter_Native idx st)"
  shows "launch_slot ext now m Adapter_Native idx st = (Inr (), st')"
    and "nh_procs (ag_host st') = nh_procs (ag_host st) @ [slot_process m exec args env (i, idx)]"
    and "ag_instances st' = hm_insert i \<lparr>im_kind = cr_kind m, im_name = cr_name m, im_replica_index = idx,
           im_started_at = now\<rparr> (ag_instances st)"
    and "slot_ids ext m (ag_drawn st) (idx # rest) = i # slot_ids ext m (ag_drawn st') rest"
  using assms
  by (simp_all add: launch_slot_def agent_draw_def agent_record_def adapter_launch_def native_launch_def
      native_started_def slot_process_def Let_def)

lemma launch_slots_native:
  assumes "cr_runtime m = Runtime_Native exec args env" and "\<forall>n. hx_spawn_error (gx_host ext) n = None"
  shows "fst (launch_slots ext now m Adapter_Native slots st) = Inr () \<and>
         nh_procs (ag_host (snd (launch_slots ext now m Adapter_Native slots st))) =
           nh_procs (ag_host st) @ map (slot_process m exec args env) (zip (slot_ids ext m (ag_drawn st) slots) slots) \<and>
         ag_instances (snd (launch_slots ext now m Adapter_Native slots st)) =
           fold (\<lambda>(i, idx). hm_insert i \<lparr>im_kind = cr_kind m, im_name = cr_name m, im_replica_index = idx,
             im_started_at = now\<rparr>) (zip (slot_ids ext m (ag_drawn st) slots) slots) (ag_instances st)"
proof (induction slots arbitrary: st)
  case (Cons idx rest)
  define i where "i = hd (slot_ids ext m (ag_drawn st) [idx])"
  define st' where "st' = snd (launch_slot ext now m Adapter_Native idx st)"
  note one = launch_slot_native [OF assms(1) spec [OF assms(2)] i_def st'_def]
  show ?case using Cons [of st'] by (simp add: one del: slot_ids.simps)
qed simp

lemma get_fold_insert:
  "distinct (map fst kvs) \<Longrightarrow> k < length kvs \<Longrightarrow>
     hm_get (fold (\<lambda>(i, v). hm_insert i (f v)) kvs m) (fst (kvs ! k)) = Some (f (snd (kvs ! k)))"
proof (induction kvs arbitrary: m k)
  case (Cons kv kvs)
  have notin: "hm_get (fold (\<lambda>(i, v). hm_insert i (f v)) ks n) j = hm_get n j" if "j \<notin> fst ` set ks" for ks n j
    using that by (induction ks arbitrary: n) (auto split: prod.split)
  show ?case
  proof (cases k)
    case 0
    then show ?thesis using Cons.prems by (cases kv) (simp add: notin)
  next
    case (Suc k')
    then show ?thesis using Cons by simp
  qed
qed simp

lemma suffix_control:
  "ends_with (for_node Topic_ControlRun n) ''.run''"
  "\<not> ends_with (for_node Topic_ControlStop n) ''.run''" "ends_with (for_node Topic_ControlStop n) ''.stop''"
  "\<not> ends_with (for_node Topic_ControlRestart n) ''.run''" "\<not> ends_with (for_node Topic_ControlRestart n) ''.stop''"
  "\<not> ends_with (for_node Topic_ControlDrain n) ''.run''" "\<not> ends_with (for_node Topic_ControlDrain n) ''.stop''"
proof -
  have neq: "''orion.control.'' @ n @ t = m @ s \<Longrightarrow> (''orion.control.'' @ n) @ t = m @ s" for t s m by simp
  show "ends_with (for_node Topic_ControlRun n) ''.run''"
    by (auto simp: ends_with_def suffix_def intro: exI [of _ "''orion.control.'' @ n"])
  show "ends_with (for_node Topic_ControlStop n) ''.stop''"
    by (auto simp: ends_with_def suffix_def intro: exI [of _ "''orion.control.'' @ n"])
  show "\<not> ends_with (for_node Topic_ControlStop n) ''.run''"
    "\<not> ends_with (for_node Topic_ControlRestart n) ''.run''" "\<not> ends_with (for_node Topic_ControlRestart n) ''.stop''"
    "\<not> ends_with (for_node Topic_ControlDrain n) ''.run''" "\<not> ends_with (for_node Topic_ControlDrain n) ''.stop''"
    unfolding ends_with_def suffix_def for_node.simps
    using control_suffix_neq [of "''orion.control.'' @ n"] by (metis append.assoc)+
qed

lemma dispatch_control_run:
  "gx_decode_run ext payload = Inr env \<Longrightarrow> m = en_payload env \<Longrightarrow>
   registry_get (ag_registry st) (runtime_adapter_name (cr_runtime m)) = Some a \<Longrightarrow>
     dispatch_control ext now (for_node Topic_ControlRun node) payload st = launch_slots ext now m a (run_slots m) st"
  by (simp add: dispatch_control_def suffix_control Let_def del: for_node.simps)

subsection \<open>Properties\<close>

text \<open>C10: a run message starts every slot it asks for. When the processes can be spawned, the agent
  reports success and starts one process per slot, in order: all slots below the replica count, or
  exactly the slots listed. Each process is told its own index and the replica count, and the agent
  knows every started instance under its slot; only the first slot of a full run keeps the
  identifier the controller chose.\<close>

theorem run_starts_every_slot:
  assumes "gx_decode_run ext payload = Inr env" and "m = en_payload env"
    and "registry_get (ag_registry st) ''native'' = Some Adapter_Native"
    and "cr_runtime m = Runtime_Native exec args vars" and "\<forall>n. hx_spawn_error (gx_host ext) n = None"
    and "ids = slot_ids ext m (ag_drawn st) (run_slots m)" and "distinct ids"
    and "r = dispatch_control ext now (for_node Topic_ControlRun node) payload st"
    and "started = drop (length (nh_procs (ag_host st))) (nh_procs (ag_host (snd r)))"
  shows "fst r = Inr () \<and>
         (if cr_slot_indices m = [] then set (run_slots m) = {i. i < max (cr_replicas m) 1} \<and> hd ids = cr_instance_id m
          else run_slots m = cr_slot_indices m) \<and>
         map pr_instance started = ids \<and>
         map (\<lambda>p. bt_get (pr_env p) ''ORION_REPLICA_INDEX'') started = map (\<lambda>i. Some (show_nat (unat i))) (run_slots m) \<and>
         (\<forall>p \<in> set started. bt_get (pr_env p) ''ORION_REPLICA_COUNT'' = Some (show_nat (unat (max (cr_replicas m) 1)))) \<and>
         (\<forall>k < length ids. agent_get (snd r) (ids ! k) =
            Some \<lparr>im_kind = cr_kind m, im_name = cr_name m, im_replica_index = run_slots m ! k, im_started_at = now\<rparr>)"
proof -
  have reg: "registry_get (ag_registry st) (runtime_adapter_name (cr_runtime m)) = Some Adapter_Native"
    using assms(3,4) by (simp add: runtime_adapter_name_def)
  have r: "r = launch_slots ext now m Adapter_Native (run_slots m) st"
    using dispatch_control_run [OF assms(1,2) reg] assms(8) by simp
  note all = launch_slots_native [OF assms(4,5), of now "run_slots m" st]
  have started: "started = map (slot_process m exec args vars) (zip ids (run_slots m))"
    using all by (simp add: assms(6,9) r)
  have len: "length ids = length (run_slots m)" by (simp add: assms(6))
  have total: "total_replicas m = max (cr_replicas m) 1"
    by (simp add: total_replicas_def run_slots_def)
  have get: "agent_get (snd r) (ids ! k) =
      Some \<lparr>im_kind = cr_kind m, im_name = cr_name m, im_replica_index = run_slots m ! k, im_started_at = now\<rparr>"
    if "k < length ids" for k
    using get_fold_insert [of "zip ids (run_slots m)" k
        "\<lambda>idx. \<lparr>im_kind = cr_kind m, im_name = cr_name m, im_replica_index = idx, im_started_at = now\<rparr>" "ag_instances st"]
      that len assms(7) all by (simp add: agent_get_def r assms(6))
  have first: "hd ids = cr_instance_id m" if "cr_slot_indices m = []"
  proof -
    have "0 < max (cr_replicas m) 1" by (auto simp: max_def word_gt_0)
    then obtain n where n: "unat (max (cr_replicas m) 1) = Suc n"
      by (metis gr0_implies_Suc unat_gt_0 word_gt_0)
    have "run_slots m = 0 # map of_nat [1..<Suc n]"
      using that by (simp add: run_slots_def partial_mode_def range_u32_def n upt_conv_Cons del: upt_Suc)
    then show ?thesis using that by (simp add: assms(6) partial_mode_def)
  qed
  have slots: "if cr_slot_indices m = [] then set (run_slots m) = {i. i < max (cr_replicas m) 1} else run_slots m = cr_slot_indices m"
    by (simp add: run_slots_def partial_mode_def set_range_u32)
  have "map pr_instance started = ids"
    using len by (simp add: started slot_process_def split_beta comp_def map_fst_zip_take)
  moreover have "map (\<lambda>p. bt_get (pr_env p) ''ORION_REPLICA_INDEX'') started = map (\<lambda>i. Some (show_nat (unat i))) (run_slots m)"
    using len by (intro nth_equalityI) (simp_all add: started slot_process_def)
  moreover have "\<forall>p \<in> set started. bt_get (pr_env p) ''ORION_REPLICA_COUNT'' = Some (show_nat (unat (max (cr_replicas m) 1)))"
    by (auto simp: started slot_process_def total)
  ultimately show ?thesis
    using all get first slots by (simp add: r)
qed

definition demo_run :: control_run where
  "demo_run = \<lparr>cr_instance_id = 7, cr_kind = WK_Service, cr_name = ''web'', cr_runtime = Runtime_Native ''/bin/web'' [] [],
     cr_generation = 1, cr_replicas = 3, cr_health_check = None, cr_slot_indices = []\<rparr>"

definition demo_agent :: agent_ext where
  "demo_agent = \<lparr>gx_host = demo_host, gx_new_uuid = (\<lambda>n. of_nat n + 100), gx_publish_error = (\<lambda>_. None),
     gx_decode_run = (\<lambda>p. if p = ''run'' then Inr (envelope_new 1 0 None demo_run)
        else if p = ''partial'' then Inr (envelope_new 2 0 None (demo_run\<lparr>cr_slot_indices := [1]\<rparr>)) else Inl ''eof''),
     gx_decode_stop = (\<lambda>p. if p = ''stop'' then Inr (envelope_new 3 0 None
        \<lparr>cs_instance_id = 7, cs_reason = None, cs_grace_seconds = None\<rparr>) else Inl ''eof''),
     gx_version = ''0.1.0''\<rparr>"

lemma demo_agent_start:
  "registry_get (ag_registry (agent_start demo_agent ''mini'')) ''native'' = Some Adapter_Native"
  "ag_drawn (agent_start demo_agent ''mini'') = 0" "nh_procs (ag_host (agent_start demo_agent ''mini'')) = []"
  "ag_instances (agent_start demo_agent ''mini'') = []"
  by (simp_all add: agent_start_def demo_agent_def demo_host_def docker_available_def run_docker_def registry_get_def
      registry_register_def registry_new_def host_new_def Let_def)

lemma demo_run_slots: "run_slots demo_run = [0, 1, 2]" "slot_ids demo_agent demo_run 0 [0, 1, 2] = [7, 100, 101]"
proof -
  have "[0..<3] = [0, 1, 2 :: nat]" by (simp add: upt_rec)
  then show "run_slots demo_run = [0, 1, 2]"
    by (simp add: run_slots_def partial_mode_def demo_run_def range_u32_def)
  show "slot_ids demo_agent demo_run 0 [0, 1, 2] = [7, 100, 101]"
    by (simp add: partial_mode_def demo_run_def demo_agent_def)
qed

theorem run_starts_every_slot_witness:
  "map pr_instance (nh_procs (ag_host (snd (dispatch_control demo_agent 5 (for_node Topic_ControlRun ''mini'') ''run''
     (agent_start demo_agent ''mini''))))) = [7, 100, 101]"
proof -
  have "gx_decode_run demo_agent ''run'' = Inr (envelope_new 1 0 None demo_run)"
    by (simp add: demo_agent_def)
  moreover have "demo_run = en_payload (envelope_new 1 0 None demo_run)" by (simp add: envelope_new_def)
  moreover have "\<forall>n. hx_spawn_error (gx_host demo_agent) n = None"
    by (simp add: demo_agent_def demo_host_def)
  moreover have "cr_runtime demo_run = Runtime_Native ''/bin/web'' [] []" by (simp add: demo_run_def)
  ultimately show ?thesis
    using run_starts_every_slot [OF _ _ demo_agent_start(1) _ _ refl _ refl refl, of demo_agent "''run''"
        "envelope_new 1 0 None demo_run" demo_run "''/bin/web''" "[]" "[]" 5 "''mini''"]
    by (simp add: demo_agent_start demo_run_slots del: slot_ids.simps)
qed

text \<open>Further: the four control subjects of a node are told apart by their last word, whatever the node
  is called. Run and stop messages reach their handlers; restart and drain messages, to which the
  agent also subscribes, change nothing.\<close>

theorem control_subjects_routed:
  "(\<forall>t \<in> {Topic_ControlRun, Topic_ControlStop, Topic_ControlRestart, Topic_ControlDrain}.
      for_node t node \<in> set (control_subjects_for_node node)) \<and>
   dispatch_control ext now (for_node Topic_ControlRestart node) payload st = (Inr (), st) \<and>
   dispatch_control ext now (for_node Topic_ControlDrain node) payload st = (Inr (), st) \<and>
   (gx_decode_stop ext payload = Inr env \<longrightarrow>
      agent_get (snd (dispatch_control ext now (for_node Topic_ControlStop node) payload st)) (cs_instance_id (en_payload env)) = None) \<and>
   (gx_decode_run ext payload = Inl e \<longrightarrow>
      dispatch_control ext now (for_node Topic_ControlRun node) payload st = (Inl (Decode_Failed e), st))"
  by (auto simp: control_subjects_for_node_def dispatch_control_def suffix_control Let_def simp del: for_node.simps)

theorem control_subjects_routed_witness:
  "dispatch_control demo_agent 5 (for_node Topic_ControlRun ''a.run'') ''junk'' (agent_start demo_agent ''a.run'') =
     (Inl (Decode_Failed ''eof''), agent_start demo_agent ''a.run'') \<and>
   agent_get (snd (dispatch_control demo_agent 5 (for_node Topic_ControlStop ''a.run'') ''stop'' (agent_start demo_agent ''a.run''))) 7 = None"
  using control_subjects_routed [of "''a.run''" demo_agent 5 "''junk''" "agent_start demo_agent ''a.run''" _ "''eof''"]
    control_subjects_routed [of "''a.run''" demo_agent 5 "''stop''" "agent_start demo_agent ''a.run''"
      "envelope_new 3 0 None \<lparr>cs_instance_id = 7, cs_reason = None, cs_grace_seconds = None\<rparr>"]
  by (simp add: demo_agent_def envelope_new_def del: for_node.simps)

subsection \<open>Health probes over time\<close>

definition trailing_failures :: "health_check \<Rightarrow> (datetime \<times> probe_world) list \<Rightarrow> nat" where
  "trailing_failures hc ws = length (takeWhile (\<lambda>(_, w). isl (run_probe w hc)) (rev ws))"

abbreviation probe_rounds :: "agent_ext \<Rightarrow> nat \<Rightarrow> (datetime \<times> probe_world) list \<Rightarrow> agent_state \<Rightarrow> agent_state" where
  "probe_rounds ext n ws st \<equiv> foldl (\<lambda>st (now, w). probe_tick ext now w n st) st ws"

lemma trailing_snoc:
  "trailing_failures hc (ws @ [(now, w)]) = (if isl (run_probe w hc) then Suc (trailing_failures hc ws) else 0)"
  by (simp add: trailing_failures_def)

lemma probe_tick_known:
  assumes "n < length (ag_probes st)" and "p = ag_probes st ! n" and "agent_get st (pt_instance_id p) \<noteq> None"
    and "probe_verdict (failure_threshold (pt_check p)) (pt_failures p) (run_probe w (pt_check p)) = (f, status, message)"
  shows "probe_tick ext now w n st =
           agent_send ext now (topic_as_str Topic_ServiceHealth) Am_Health
             \<lparr>sh_node_id = ag_node_id st, sh_service = pt_service p,
              sh_instance_id = hx_uuid_text (gx_host ext) (pt_instance_id p), sh_status = status,
              sh_message = message, sh_consecutive_failures = f\<rparr>
             (st\<lparr>ag_probes := (ag_probes st)[n := p\<lparr>pt_failures := f\<rparr>]\<rparr>)"
  using assms by (auto simp: probe_tick_def Let_def)

lemma probe_rounds_counter:
  assumes "n < length (ag_probes st)" and "pt_failures (ag_probes st ! n) = 0"
    and "agent_get st (pt_instance_id (ag_probes st ! n)) \<noteq> None"
  shows "n < length (ag_probes (probe_rounds ext n ws st)) \<and>
         (\<exists>f. ag_probes (probe_rounds ext n ws st) ! n = (ag_probes st ! n)\<lparr>pt_failures := f\<rparr> \<and>
              unat f = min (trailing_failures (pt_check (ag_probes st ! n)) ws) (2 ^ 32 - 1)) \<and>
         ag_instances (probe_rounds ext n ws st) = ag_instances st"
proof (induction ws rule: rev_induct)
  case Nil
  then show ?case using assms
    by (intro conjI exI [of _ 0]) (simp_all add: trailing_failures_def)
next
  case (snoc nw ws)
  obtain now w where nw: "nw = (now, w)" by fastforce
  let ?p = "ag_probes st ! n"
  from snoc obtain f where f: "n < length (ag_probes (probe_rounds ext n ws st))"
    "ag_probes (probe_rounds ext n ws st) ! n = ?p\<lparr>pt_failures := f\<rparr>"
    "unat f = min (trailing_failures (pt_check ?p) ws) (2 ^ 32 - 1)"
    "ag_instances (probe_rounds ext n ws st) = ag_instances st" by blast
  obtain meta where known: "agent_get (probe_rounds ext n ws st) (pt_instance_id ?p) = Some meta"
    using assms(3) f(4) by (auto simp: agent_get_def)
  obtain g status message where v:
    "probe_verdict (failure_threshold (pt_check ?p)) f (run_probe w (pt_check ?p)) = (g, status, message)"
    by (metis prod_cases3)
  have tick: "ag_probes (probe_tick ext now w n (probe_rounds ext n ws st)) ! n = ?p\<lparr>pt_failures := g\<rparr>"
    "n < length (ag_probes (probe_tick ext now w n (probe_rounds ext n ws st)))"
    "ag_instances (probe_tick ext now w n (probe_rounds ext n ws st)) = ag_instances st"
    using probe_tick_known [OF f(1) f(2) [symmetric], of w g status message ext now] known v f by simp_all
  have "unat (saturating_add f 1) = min (Suc (trailing_failures (pt_check ?p) ws)) (2 ^ 32 - 1)"
    using f(3) by (simp add: unat_saturating_add min_def)
  then have "unat g = min (trailing_failures (pt_check ?p) (ws @ [nw])) (2 ^ 32 - 1)"
    using v nw by (cases "run_probe w (pt_check ?p)") (simp_all add: probe_verdict_def trailing_snoc Let_def)
  then show ?case using tick nw by (auto simp: exI [of _ g])
qed

text \<open>C20: a service is reported unhealthy exactly after enough failures in a row. After any
  sequence of probe rounds of a running instance, the last report says healthy when the last probe
  succeeded, unhealthy when the uninterrupted run of failures up to now reaches the threshold, and
  unknown otherwise; it carries the length of that run, capped at the largest counter value.\<close>

theorem probe_reports_failure_runs:
  assumes "n < length (ag_probes st)" and "p = ag_probes st ! n" and "pt_failures p = 0"
    and "agent_get st (pt_instance_id p) \<noteq> None" and "\<forall>k. gx_publish_error ext k = None" and "ws \<noteq> []"
    and "runs = min (trailing_failures (pt_check p) ws) (2 ^ 32 - 1)"
  shows "\<exists>env. last (ag_sent (probe_rounds ext n ws st)) = (''orion.service.health'', Am_Health env) \<and>
           sh_service (en_payload env) = pt_service p \<and>
           unat (sh_consecutive_failures (en_payload env)) = runs \<and>
           sh_status (en_payload env) =
             (if runs = 0 then Healthy
              else if unat (failure_threshold (pt_check p)) \<le> runs then Unhealthy else Unknown_Health)"
proof -
  obtain ws' now w where ws: "ws = ws' @ [(now, w)]"
    using assms(6) by (cases ws rule: rev_cases) auto
  let ?st = "probe_rounds ext n ws' st"
  obtain f where f: "n < length (ag_probes ?st)" "ag_probes ?st ! n = p\<lparr>pt_failures := f\<rparr>"
    "unat f = min (trailing_failures (pt_check p) ws') (2 ^ 32 - 1)" "ag_instances ?st = ag_instances st"
    using probe_rounds_counter [OF assms(1), of ext ws'] assms(2-4) by blast
  have known: "agent_get ?st (pt_instance_id p) \<noteq> None"
    using assms(4) f(4) by (simp add: agent_get_def)
  obtain g status message where v:
    "probe_verdict (failure_threshold (pt_check p)) f (run_probe w (pt_check p)) = (g, status, message)"
    by (metis prod_cases3)
  have g: "unat (saturating_add f 1) = min (Suc (trailing_failures (pt_check p) ws')) (2 ^ 32 - 1)"
    using f(3) by (simp add: unat_saturating_add min_def)
  then have "unat g = runs \<and> status = (if runs = 0 then Healthy
      else if unat (failure_threshold (pt_check p)) \<le> runs then Unhealthy else Unknown_Health)"
    using v by (cases "run_probe w (pt_check p)")
      (auto simp: probe_verdict_def trailing_snoc Let_def assms(7) ws word_le_nat_alt)
  moreover have "last (ag_sent (probe_tick ext now w n ?st)) = (''orion.service.health'', Am_Health
      (envelope_new (gx_new_uuid ext (ag_drawn ?st)) now (Some (ag_node_id ?st))
        \<lparr>sh_node_id = ag_node_id ?st, sh_service = pt_service p,
         sh_instance_id = hx_uuid_text (gx_host ext) (pt_instance_id p), sh_status = status,
         sh_message = message, sh_consecutive_failures = g\<rparr>))"
    using probe_tick_known [OF f(1) f(2) [symmetric], of w g status message ext now] known v assms(5)
    by (simp add: agent_send_sent)
  ultimately show ?thesis by (simp add: ws envelope_new_def)
qed

definition demo_probe_state :: agent_state where
  "demo_probe_state = (agent_start demo_agent ''mini'')
     \<lparr>ag_instances := [(7, \<lparr>im_kind = WK_Service, im_name = ''web'', im_replica_index = 0, im_started_at = 0\<rparr>)],
      ag_probes := [\<lparr>pt_service = ''web'', pt_instance_id = 7, pt_check = HC_Tcp 80 10 2, pt_failures = 0\<rparr>]\<rparr>"

definition refused :: probe_world where
  "refused = \<lparr>pw_http = (\<lambda>_. Inl ''refused''), pw_tcp = (\<lambda>_. Inl ''refused''), pw_exec = (\<lambda>_. Inl ''refused'')\<rparr>"

theorem probe_reports_failure_runs_witness:
  "\<exists>env. last (ag_sent (probe_rounds demo_agent 0 [(1, refused), (2, refused)] demo_probe_state)) =
       (''orion.service.health'', Am_Health env) \<and> sh_status (en_payload env) = Unhealthy"
proof -
  have "trailing_failures (HC_Tcp 80 10 2) [(1, refused), (2, refused)] = 2"
    by (simp add: trailing_failures_def run_probe_def refused_def)
  moreover have "0 < length (ag_probes demo_probe_state)" "\<forall>k. gx_publish_error demo_agent k = None"
    "agent_get demo_probe_state 7 \<noteq> None"
    "ag_probes demo_probe_state ! 0 = \<lparr>pt_service = ''web'', pt_instance_id = 7, pt_check = HC_Tcp 80 10 2, pt_failures = 0\<rparr>"
    by (simp_all add: demo_probe_state_def demo_agent_def agent_get_def hm_get_def)
  ultimately show ?thesis
    using probe_reports_failure_runs [of 0 demo_probe_state _ demo_agent "[(1, refused), (2, refused)]" 2]
    by auto
qed

subsection \<open>Stopping and failing\<close>

lemma native_stop_exits: "nh_exits (snd (native_stop ext i h)) = nh_exits h"
  by (cases rule: native_stop_cases [of h i ext]) simp_all

lemma docker_stop_native: "nh_children (snd (docker_stop ext i h)) = nh_children h"
  by (simp add: docker_stop_def run_docker_def Let_def split: option.split sum.split)

lemma native_stop_docker: "nh_containers (snd (native_stop ext i h)) = nh_containers h"
  by (cases rule: native_stop_cases [of h i ext]) simp_all

text \<open>The adapter a workload of the given kind runs under, and whether it knows an instance.\<close>

definition adapter_knows :: "adapter \<Rightarrow> node_host \<Rightarrow> uuid \<Rightarrow> bool" where
  "adapter_knows a = (case a of Adapter_Native \<Rightarrow> native_knows | Adapter_Docker \<Rightarrow> docker_knows)"

lemma adapter_stop_knows:
  "adapter_knows b (snd (adapter_stop ext a i h)) j \<longleftrightarrow> (if a = b then j \<noteq> i else True) \<and> adapter_knows b h j"
  by (cases a; cases b)
    (simp_all add: adapter_knows_def adapter_stop_def native.stop_knows docker.stop_knows,
     simp_all add: native_knows_def docker_knows_def docker_stop_native native_stop_docker)

abbreviation stop_named :: "agent_ext \<Rightarrow> uuid \<Rightarrow> string \<Rightarrow> agent_state \<Rightarrow> agent_state" where
  "stop_named ext i name st \<equiv>
     (case registry_get (ag_registry st) name of
        None \<Rightarrow> st
      | Some a \<Rightarrow> st\<lparr>ag_host := snd (adapter_stop (gx_host ext) a i (ag_host st))\<rparr>)"

lemma stop_named_fields [simp]:
  "ag_registry (stop_named ext i name st) = ag_registry st"
  "ag_instances (stop_named ext i name st) = ag_instances st"
  "ag_sent (stop_named ext i name st) = ag_sent st"
  by (simp_all split: option.split)

lemma stop_fold:
  "ag_registry (fold (stop_named ext i) ns st) = ag_registry st \<and>
   ag_instances (fold (stop_named ext i) ns st) = ag_instances st \<and>
   ag_sent (fold (stop_named ext i) ns st) = ag_sent st \<and>
   (adapter_knows a (ag_host (fold (stop_named ext i) ns st)) j \<longleftrightarrow>
      adapter_knows a (ag_host st) j \<and> (j = i \<longrightarrow> (\<forall>n \<in> set ns. registry_get (ag_registry st) n \<noteq> Some a)))"
proof (induction ns arbitrary: st)
  case (Cons n ns)
  have "adapter_knows a (ag_host (stop_named ext i n st)) j \<longleftrightarrow>
      adapter_knows a (ag_host st) j \<and> (j = i \<longrightarrow> registry_get (ag_registry st) n \<noteq> Some a)"
    by (auto simp: adapter_stop_knows split: option.split if_splits)
  with Cons [of "stop_named ext i n st"] show ?case by auto
qed simp

lemma set_registry_names: "set (registry_names r) = fst ` set r"
  by (simp add: registry_names_def)

lemma registry_get_in: "registry_get r n = Some a \<Longrightarrow> n \<in> set (registry_names r)"
  by (force simp: set_registry_names registry_get_def hm_get_def dest: map_of_SomeD)

text \<open>Further: a stop message is carried out by whichever adapter runs the instance. Afterwards no
  registered adapter and not the agent itself know the instance, every other instance is as before,
  nothing is published, and an exit notice that still arrives for the instance is dropped.\<close>

theorem stop_forgets_instance:
  assumes "gx_decode_stop ext payload = Inr env" and "i = cs_instance_id (en_payload env)"
    and "r = dispatch_control ext now (for_node Topic_ControlStop node) payload st"
  shows "fst r = Inr () \<and> ag_sent (snd r) = ag_sent st \<and>
         (\<forall>j. agent_get (snd r) j = (if j = i then None else agent_get st j)) \<and>
         (\<forall>n a j. registry_get (ag_registry st) n = Some a \<longrightarrow>
            (adapter_knows a (ag_host (snd r)) j \<longleftrightarrow> j \<noteq> i \<and> adapter_knows a (ag_host st) j)) \<and>
         (\<forall>x rest h now'. xn_instance_id x = i \<and> nh_exits h = x # rest \<longrightarrow>
            ag_sent (forward_exit ext now' ((snd r)\<lparr>ag_host := h\<rparr>)) = ag_sent st)"
proof -
  have r: "r = (Inr (), agent_forget i (fold (stop_named ext i) (registry_names (ag_registry st)) st))"
    using assms(1) unfolding assms(2,3)
    by (simp add: dispatch_control_def suffix_control stop_everywhere_def Let_def del: for_node.simps)
  note f = stop_fold [where ext = ext and i = i and ns = "registry_names (ag_registry st)" and st = st]
  have get: "agent_get (snd r) j = (if j = i then None else agent_get st j)" for j
    using f by (simp add: r) (simp add: agent_get_def)
  have sent: "ag_sent (snd r) = ag_sent st" using f by (simp add: r agent_forget_def)
  have "ag_sent (forward_exit ext now' ((snd r)\<lparr>ag_host := h\<rparr>)) = ag_sent st"
    if "xn_instance_id x = i" "nh_exits h = x # rest" for x rest h now'
    using that get [of i] sent by (simp add: forward_exit_def Let_def)
  moreover have "adapter_knows a (ag_host (snd r)) j \<longleftrightarrow> j \<noteq> i \<and> adapter_knows a (ag_host st) j"
    if "registry_get (ag_registry st) n = Some a" for n a j
    using that f [of a j] registry_get_in [OF that] by (auto simp: r agent_forget_def)
  moreover have "fst r = Inr ()" by (simp add: r)
  ultimately show ?thesis using get sent by blast
qed

theorem stop_forgets_instance_witness:
  "agent_get (snd (dispatch_control demo_agent 5 (for_node Topic_ControlStop ''mini'') ''stop'' demo_probe_state)) 7 = None \<and>
   agent_get demo_probe_state 7 \<noteq> None"
proof -
  have "gx_decode_stop demo_agent ''stop'' = Inr (envelope_new 3 0 None \<lparr>cs_instance_id = 7, cs_reason = None, cs_grace_seconds = None\<rparr>)"
    by (simp add: demo_agent_def)
  from stop_forgets_instance [OF this refl refl, of 5 "''mini''" demo_probe_state] show ?thesis
    by (simp add: envelope_new_def demo_probe_state_def agent_get_def hm_get_def)
qed

text \<open>Further: a launch that fails is reported to nobody. When the first process of a run cannot be
  spawned, the handler ends with that error and starts no other slot; the instance nevertheless
  stays registered with the agent, and neither a message nor an exit notice tells the controller.\<close>

theorem launch_failure_unreported:
  assumes "gx_decode_run ext payload = Inr env" and "m = en_payload env"
    and "registry_get (ag_registry st) ''native'' = Some Adapter_Native"
    and "cr_runtime m = Runtime_Native exec args vars"
    and "hx_spawn_error (gx_host ext) (nh_spawns (ag_host st)) = Some e"
    and "r = dispatch_control ext now (for_node Topic_ControlRun node) payload st"
  shows "fst r = Inl (Launch_Failed (Launch_Error (''spawn '' @ exec @ '': '' @ e))) \<and>
         agent_get (snd r) (hd (slot_ids ext m (ag_drawn st) (run_slots m))) \<noteq> None \<and>
         ag_sent (snd r) = ag_sent st \<and> ag_probes (snd r) = ag_probes st \<and>
         nh_exits (ag_host (snd r)) = nh_exits (ag_host st) \<and> nh_procs (ag_host (snd r)) = nh_procs (ag_host st)"
proof -
  have reg: "registry_get (ag_registry st) (runtime_adapter_name (cr_runtime m)) = Some Adapter_Native"
    using assms(3,4) by (simp add: runtime_adapter_name_def)
  have "0 < max (cr_replicas m) 1" by (auto simp: max_def word_gt_0)
  then have "length (range_u32 (max (cr_replicas m) 1)) \<noteq> 0" by (simp add: unat_gt_0)
  then have "range_u32 (max (cr_replicas m) 1) \<noteq> []" by force
  then have "run_slots m \<noteq> []" by (simp add: run_slots_def partial_mode_def)
  then obtain idx rest where slots: "run_slots m = idx # rest" by (cases "run_slots m") auto
  define i where "i = hd (slot_ids ext m (ag_drawn st) [idx])"
  have "fst (launch_slot ext now m Adapter_Native idx st) = Inl (Launch_Failed (Launch_Error (''spawn '' @ exec @ '': '' @ e)))"
    "agent_get (snd (launch_slot ext now m Adapter_Native idx st)) i \<noteq> None"
    "ag_sent (snd (launch_slot ext now m Adapter_Native idx st)) = ag_sent st"
    "ag_probes (snd (launch_slot ext now m Adapter_Native idx st)) = ag_probes st"
    "nh_exits (ag_host (snd (launch_slot ext now m Adapter_Native idx st))) = nh_exits (ag_host st)"
    "nh_procs (ag_host (snd (launch_slot ext now m Adapter_Native idx st))) = nh_procs (ag_host st)"
    using assms(4,5)
    by (simp_all add: i_def launch_slot_def agent_draw_def agent_record_def adapter_launch_def native_launch_def
        agent_get_def Let_def)
  moreover have "hd (slot_ids ext m (ag_drawn st) (run_slots m)) = i"
    by (simp add: slots i_def)
  moreover have "r = launch_slots ext now m Adapter_Native (idx # rest) st"
    using dispatch_control_run [OF assms(1,2) reg] assms(6) slots by simp
  ultimately show ?thesis
    by (cases "launch_slot ext now m Adapter_Native idx st") auto
qed

theorem launch_failure_unreported_witness:
  "fst (dispatch_control (demo_agent\<lparr>gx_host := demo_host\<lparr>hx_spawn_error := \<lambda>_. Some ''not found''\<rparr>\<rparr>) 5
      (for_node Topic_ControlRun ''mini'') ''run'' (agent_start demo_agent ''mini'')) =
     Inl (Launch_Failed (Launch_Error ''spawn /bin/web: not found''))"
proof -
  let ?ext = "demo_agent\<lparr>gx_host := demo_host\<lparr>hx_spawn_error := \<lambda>_. Some ''not found''\<rparr>\<rparr>"
  have "gx_decode_run ?ext ''run'' = Inr (envelope_new 1 0 None demo_run)"
    "demo_run = en_payload (envelope_new 1 0 None demo_run)"
    by (simp_all add: demo_agent_def envelope_new_def)
  from launch_failure_unreported [OF this demo_agent_start(1) _ _ refl, of "''/bin/web''" "[]" "[]" "''not found''" 5 "''mini''"]
  show ?thesis by (simp add: demo_run_def)
qed

end
