(* ===== verification/Agent_Machine.thy ===== *)
theory Agent_Machine
  imports Agent
begin

text \<open>
  The agent as one state machine over the operations of \<open>Agent\<close> and \<open>Runtimes\<close>: control messages,
  the rounds of its loops, the steps of the tasks its adapters spawned, and what the processes do
  on their own. Two properties of every state it can reach: the exits it reports really happened
  (on a node without docker), and it runs only what a control message asked for.
\<close>

subsection \<open>Events\<close>

datatype agent_event =
    Ag_Control datetime string string
  | Ag_Tick u32 datetime sys_info
  | Ag_Forward_Exit datetime
  | Ag_Forward_Log datetime
  | Ag_Probe datetime probe_world nat
  | Ag_Take nat
  | Ag_Reap nat "string option"
  | Ag_Process_Exit nat exit_status
  | Ag_Process_Line nat out_stream string
  | Ag_Docker_Exit nat "string + cmd_output"
  | Ag_Docker_Line nat out_stream string

abbreviation on_host :: "(node_host \<Rightarrow> node_host) \<Rightarrow> agent_state \<Rightarrow> agent_state" where
  "on_host f st \<equiv> st\<lparr>ag_host := f (ag_host st)\<rparr>"

fun agent_react :: "agent_ext \<Rightarrow> agent_state \<Rightarrow> agent_event \<Rightarrow> agent_state" where
  "agent_react ext st (Ag_Control now subject payload) = snd (dispatch_control ext now subject payload st)"
| "agent_react ext st (Ag_Tick every now sys) = agent_tick ext every now sys st"
| "agent_react ext st (Ag_Forward_Exit now) = forward_exit ext now st"
| "agent_react ext st (Ag_Forward_Log now) = forward_log ext now st"
| "agent_react ext st (Ag_Probe now w n) = probe_tick ext now w n st"
| "agent_react ext st (Ag_Take n) = on_host (native_take n) st"
| "agent_react ext st (Ag_Reap n err) = on_host (native_reap n err) st"
| "agent_react ext st (Ag_Process_Exit c s) = on_host (process_exit c s) st"
| "agent_react ext st (Ag_Process_Line c s l) = on_host (native_forward_line c s l) st"
| "agent_react ext st (Ag_Docker_Exit n r) = on_host (docker_wait_done n r) st"
| "agent_react ext st (Ag_Docker_Line n s l) = on_host (docker_forward_line n s l) st"

subsection \<open>Reported exits\<close>

text \<open>A process of the instance ended with the code; the processes only grow and keep their status.\<close>

definition ended :: "node_host \<Rightarrow> uuid \<Rightarrow> i32 \<Rightarrow> bool" where
  "ended h i c \<longleftrightarrow>
     (\<exists>p \<in> set (nh_procs h). pr_instance p = i \<and> (\<exists>s. pr_status p = Some s \<and> es_code s = Some c))"

definition procs_grow :: "node_host \<Rightarrow> node_host \<Rightarrow> bool" where
  "procs_grow h h' \<longleftrightarrow>
     length (nh_procs h) \<le> length (nh_procs h') \<and>
     (\<forall>k < length (nh_procs h).
        pr_instance (nh_procs h' ! k) = pr_instance (nh_procs h ! k) \<and>
        (\<forall>s. pr_status (nh_procs h ! k) = Some s \<longrightarrow> pr_status (nh_procs h' ! k) = Some s))"

lemma procs_grow_refl [simp]: "procs_grow h h"
  by (simp add: procs_grow_def)

lemma procs_grow_trans: "procs_grow h h' \<Longrightarrow> procs_grow h' h'' \<Longrightarrow> procs_grow h h''"
  by (auto simp: procs_grow_def)

lemma procs_grow_same [simp]: "nh_procs h' = nh_procs h \<Longrightarrow> procs_grow h h'"
  by (simp add: procs_grow_def)

lemma ended_grow:
  assumes "procs_grow h h'" and "ended h i c"
  shows "ended h' i c"
proof -
  obtain k s where k: "k < length (nh_procs h)" "pr_instance (nh_procs h ! k) = i"
    "pr_status (nh_procs h ! k) = Some s" "es_code s = Some c"
    using assms(2) by (auto simp: ended_def in_set_conv_nth)
  then have "nh_procs h' ! k \<in> set (nh_procs h')" "pr_instance (nh_procs h' ! k) = i"
    "pr_status (nh_procs h' ! k) = Some s"
    using assms(1) by (auto simp: procs_grow_def)
  with k(4) show ?thesis unfolding ended_def by blast
qed

lemma procs_grow_status:
  assumes "nh_procs h' = (nh_procs h)[c := (nh_procs h ! c)\<lparr>pr_status := Some (unwrap_or (pr_status (nh_procs h ! c)) s)\<rparr>]"
  shows "procs_grow h h'"
proof (cases "c < length (nh_procs h)")
  case True
  then show ?thesis by (auto simp: procs_grow_def assms nth_list_update)
qed (use assms in \<open>simp add: list_update_beyond\<close>)

lemma procs_grow_native: "procs_grow h (native_step ext h e)"
proof (cases e)
  case (N_Launch sp)
  then show ?thesis
    by (cases rule: native_launch_cases [of ext sp h])
      (auto simp: procs_grow_def native_started_def nth_append)
next
  case (N_Take n)
  then show ?thesis by (cases rule: native_take_cases [of n h]) simp_all
next
  case (N_Reap n err)
  then show ?thesis by (cases rule: native_reap_cases [of n err h]) simp_all
next
  case (N_Stop i)
  then show ?thesis
    by (cases rule: native_stop_cases [of h i ext])
      (auto intro: procs_grow_status)
next
  case (N_Exit c s)
  then show ?thesis by (auto simp: process_exit_def procs_grow_def nth_list_update)
next
  case (N_Line c s l)
  then show ?thesis by (simp add: native_forward_line_def)
qed

lemma native_step_docker_waits [simp]: "nh_docker_waits (native_step ext h e) = nh_docker_waits h"
proof (cases e)
  case (N_Launch sp)
  then show ?thesis by (cases rule: native_launch_cases [of ext sp h]) (simp_all add: native_started_def)
next
  case (N_Take n)
  then show ?thesis by (cases rule: native_take_cases [of n h]) simp_all
next
  case (N_Reap n err)
  then show ?thesis by (cases rule: native_reap_cases [of n err h]) simp_all
next
  case (N_Stop i)
  then show ?thesis by (cases rule: native_stop_cases [of h i ext]) simp_all
qed (simp_all add: process_exit_def native_forward_line_def)

definition notice_true :: "node_host \<Rightarrow> exit_notice \<Rightarrow> bool" where
  "notice_true h x \<longleftrightarrow> (\<forall>c. xn_exit_code x = Some c \<longrightarrow> ended h (xn_instance_id x) c)"

lemma notice_true_grow: "procs_grow h h' \<Longrightarrow> notice_true h x \<Longrightarrow> notice_true h' x"
  by (auto simp: notice_true_def intro: ended_grow)

lemma notices_wf_true: "notices_wf h \<longleftrightarrow> (\<forall>x \<in> set (nh_exits h). notice_true h x)"
  by (auto simp: notices_wf_def notice_true_def ended_def)

definition event_true :: "node_host \<Rightarrow> task_event \<Rightarrow> bool" where
  "event_true h e \<longleftrightarrow>
     (\<exists>x. te_task_id e = xn_instance_id x \<and> te_outcome e = exit_outcome x \<and> notice_true h x)"

lemma event_true_grow: "procs_grow h h' \<Longrightarrow> event_true h e \<Longrightarrow> event_true h' e"
  unfolding event_true_def using notice_true_grow by blast

definition exits_true :: "agent_state \<Rightarrow> bool" where
  "exits_true st \<longleftrightarrow>
     native_inv (ag_host st) \<and> nh_docker_waits (ag_host st) = [] \<and>
     (\<forall>n. registry_get (ag_registry st) n \<noteq> Some Adapter_Docker) \<and>
     (\<forall>s env. (s, Am_Event env) \<in> set (ag_sent st) \<longrightarrow> event_true (ag_host st) (en_payload env))"

lemma exits_trueI:
  assumes "exits_true st" and "native_inv (ag_host st')" and "nh_docker_waits (ag_host st') = []"
    and "ag_registry st' = ag_registry st" and "procs_grow (ag_host st) (ag_host st')"
    and "\<And>s env. (s, Am_Event env) \<in> set (ag_sent st') \<Longrightarrow>
           (s, Am_Event env) \<in> set (ag_sent st) \<or> event_true (ag_host st') (en_payload env)"
  shows "exits_true st'"
proof -
  have "event_true (ag_host st') (en_payload env)" if "(s, Am_Event env) \<in> set (ag_sent st')" for s env
    using assms(6) [OF that] assms(1) event_true_grow [OF assms(5)] by (auto simp: exits_true_def)
  with assms(1-4) show ?thesis by (simp add: exits_true_def)
qed

lemma exits_true_native:
  assumes "exits_true st" and "ag_host st' = native_step ext (ag_host st) e"
    and "ag_registry st' = ag_registry st" and "ag_sent st' = ag_sent st"
  shows "exits_true st'"
proof -
  have "native_inv (ag_host st)" "nh_docker_waits (ag_host st) = []" using assms(1) by (auto simp: exits_true_def)
  then show ?thesis
    by (intro exits_trueI [OF assms(1)]) (simp_all add: assms(2-4) native_inv_step procs_grow_native)
qed

lemma exits_true_steps:
  assumes "exits_true st"
  shows "exits_true (on_host (native_take n) st)" "exits_true (on_host (native_reap n err) st)"
    "exits_true (on_host (process_exit c s) st)" "exits_true (on_host (native_forward_line c o' l) st)"
  using exits_true_native [OF assms, where e = "N_Take n"] exits_true_native [OF assms, where e = "N_Reap n err"]
    exits_true_native [OF assms, where e = "N_Exit c s"] exits_true_native [OF assms, where e = "N_Line c o' l"]
  by simp_all

lemma native_inv_drop_exits: "native_inv h \<Longrightarrow> set xs \<subseteq> set (nh_exits h) \<Longrightarrow> native_inv (h\<lparr>nh_exits := xs\<rparr>)"
  by (auto simp: native_inv_def handles_wf_def cells_wf_def instances_wf_def notices_wf_def)

lemma native_inv_logs: "native_inv (h\<lparr>nh_logs := ls\<rparr>) = native_inv h" "native_inv (h\<lparr>nh_commands := cs\<rparr>) = native_inv h"
  by (auto simp: native_inv_def handles_wf_def cells_wf_def instances_wf_def notices_wf_def)

lemma sent_by_agent_send:
  "m \<in> set (ag_sent (agent_send ext now s w p st)) \<Longrightarrow>
     m \<in> set (ag_sent st) \<or> (\<exists>i. m = (s, w (envelope_new i now (Some (ag_node_id st)) p)))"
  by (auto simp: agent_send_def agent_draw_def agent_publish_def Let_def split: option.splits)

lemma exits_true_quiet:
  assumes "exits_true st" and "\<And>env. w env \<notin> range Am_Event"
  shows "exits_true (agent_send ext now s w p st)"
proof (rule exits_trueI [OF assms(1)])
  fix s' env
  assume "(s', Am_Event env) \<in> set (ag_sent (agent_send ext now s w p st))"
  with sent_by_agent_send [OF this] assms(2)
  show "(s', Am_Event env) \<in> set (ag_sent st) \<or> event_true (ag_host (agent_send ext now s w p st)) (en_payload env)"
    by (metis Pair_inject rangeI)
qed (use assms(1) in \<open>auto simp: exits_true_def\<close>)

lemma exits_true_cong:
  "ag_host st' = ag_host st \<Longrightarrow> ag_registry st' = ag_registry st \<Longrightarrow> ag_sent st' = ag_sent st \<Longrightarrow>
     exits_true st' = exits_true st"
  by (simp add: exits_true_def)

lemma exits_true_launch:
  assumes "exits_true st"
  shows "exits_true (snd (launch_slot ext now m Adapter_Native idx st))"
proof -
  define i where "i = hd (slot_ids ext m (ag_drawn st) [idx])"
  let ?sp = "\<lparr>lp_instance_id = i, lp_name = cr_name m, lp_runtime = inject_replica_env idx (total_replicas m) (cr_runtime m),
    lp_log_sink = True, lp_exit_sink = True\<rparr>"
  have "ag_host (snd (launch_slot ext now m Adapter_Native idx st)) = native_step (gx_host ext) (ag_host st) (N_Launch ?sp)"
    by (simp add: i_def launch_slot_def agent_draw_def agent_record_def adapter_launch_def Let_def
        split: prod.split sum.split)
  moreover have "ag_registry (snd (launch_slot ext now m Adapter_Native idx st)) = ag_registry st"
    "ag_sent (snd (launch_slot ext now m Adapter_Native idx st)) = ag_sent st"
    by (simp_all add: launch_slot_def agent_draw_def agent_record_def Let_def split: prod.split sum.split)
  ultimately show ?thesis using exits_true_native [OF assms] by blast
qed

lemma exits_true_launches: "exits_true st \<Longrightarrow> exits_true (snd (launch_slots ext now m Adapter_Native slots st))"
proof (induction slots arbitrary: st)
  case (Cons idx slots)
  from exits_true_launch [OF Cons.prems, of ext now m idx] Cons.IH show ?case
    by (cases "launch_slot ext now m Adapter_Native idx st") (auto split: sum.split)
qed simp

lemma exits_true_stop: "exits_true st \<Longrightarrow> exits_true (stop_everywhere ext i st)"
proof -
  have "exits_true (stop_named ext i n st)" if "exits_true st" for n st
  proof (cases "registry_get (ag_registry st) n")
    case (Some a)
    then have "a = Adapter_Native" using that by (cases a) (auto simp: exits_true_def)
    then show ?thesis
      using that Some by (auto intro: exits_true_native [where e = "N_Stop i" and ext = "gx_host ext"] simp: adapter_stop_def)
  qed (use that in simp)
  then have "exits_true (fold (stop_named ext i) ns st)" if "exits_true st" for ns st
    using that by (induction ns arbitrary: st) auto
  then show "exits_true st \<Longrightarrow> exits_true (stop_everywhere ext i st)" by (simp add: stop_everywhere_def)
qed

lemma exits_true_control: "exits_true st \<Longrightarrow> exits_true (snd (dispatch_control ext now subject payload st))"
proof -
  assume st: "exits_true st"
  have only: "a = Adapter_Native" if "registry_get (ag_registry st) n = Some a" for a n
    using st that by (cases a) (auto simp: exits_true_def)
  have "exits_true (agent_forget i (stop_everywhere ext i st))" for i
    using exits_true_stop [OF st, of ext i] by (simp add: exits_true_def agent_forget_def)
  then show ?thesis
    using st only by (auto simp: dispatch_control_def Let_def intro: exits_true_launches split: sum.split option.split)
qed

lemma exits_true_forward_exit: "exits_true st \<Longrightarrow> exits_true (forward_exit ext now st)"
proof (cases "nh_exits (ag_host st)")
  case (Cons x rest)
  assume st: "exits_true st"
  let ?st1 = "st\<lparr>ag_host := (ag_host st)\<lparr>nh_exits := rest\<rparr>\<rparr>"
  have st1: "exits_true ?st1"
    using st native_inv_drop_exits [of "ag_host st" rest] Cons
    by (intro exits_trueI [OF st]) (auto simp: exits_true_def)
  have x: "notice_true (ag_host st) x"
    using st Cons by (simp add: exits_true_def native_inv_def notices_wf_true)
  then have x1: "notice_true (ag_host ?st1) x" by (simp add: notice_true_def ended_def)
  define st2 where "st2 = agent_send ext now (topic_as_str Topic_TaskEvents) Am_Event
    \<lparr>te_task_id = xn_instance_id x, te_node_id = ag_node_id ?st1, te_outcome = exit_outcome x\<rparr>
    (agent_forget (xn_instance_id x) ?st1)"
  have forget: "ag_host (agent_forget j s) = ag_host s" "ag_registry (agent_forget j s) = ag_registry s"
    "ag_sent (agent_forget j s) = ag_sent s" for j s
    by (simp_all add: agent_forget_def)
  have "exits_true st2"
  proof (rule exits_trueI [OF st1])
    show "(s, Am_Event env) \<in> set (ag_sent ?st1) \<or> event_true (ag_host st2) (en_payload env)"
      if sent: "(s, Am_Event env) \<in> set (ag_sent st2)" for s env
      using sent_by_agent_send [OF sent [unfolded st2_def]] x1
      by (auto simp: st2_def forget event_true_def envelope_new_def intro!: exI [of _ x])
  qed (use st1 in \<open>simp_all add: st2_def forget exits_true_def\<close>)
  then show ?thesis
    using st1 Cons by (simp add: forward_exit_def Let_def st2_def split: option.split)
qed (simp add: forward_exit_def)

lemma exits_true_react: "exits_true st \<Longrightarrow> exits_true (agent_react ext st e)"
proof (cases e)
  case (Ag_Tick every now sys)
  assume st: "exits_true st"
  have "exits_true (st\<lparr>ag_tick_count := t\<rparr>)" for t using st by (simp add: exits_true_def)
  then show ?thesis
    using st Ag_Tick by (auto simp: agent_tick_def publish_inventory_def Let_def intro!: exits_true_quiet)
next
  case (Ag_Forward_Log now)
  assume st: "exits_true st"
  have "exits_true (st\<lparr>ag_host := (ag_host st)\<lparr>nh_logs := rest\<rparr>\<rparr>)" for rest
    using st by (intro exits_trueI [OF st]) (simp_all add: exits_true_def native_inv_logs)
  then show ?thesis
    using st Ag_Forward_Log
    by (auto simp: forward_log_def Let_def intro!: exits_true_quiet split: list.split option.split)
next
  case (Ag_Probe now w n)
  assume st: "exits_true st"
  have "exits_true (st\<lparr>ag_probes := ps\<rparr>)" for ps using st by (simp add: exits_true_def)
  then show ?thesis
    using st Ag_Probe
    by (auto simp: probe_tick_def Let_def intro!: exits_true_quiet split: option.split prod.split)
next
  case (Ag_Docker_Line n s l)
  then show "exits_true st \<Longrightarrow> exits_true (agent_react ext st e)"
    by (auto simp: docker_forward_line_def exits_true_def native_inv_logs event_true_def notice_true_def ended_def)
next
  case (Ag_Docker_Exit n r)
  then show "exits_true st \<Longrightarrow> exits_true (agent_react ext st e)"
    by (simp add: docker_wait_done_def exits_true_def)
qed (simp_all add: exits_true_control exits_true_forward_exit exits_true_steps)

lemma docker_waits_new: "nh_docker_waits host_new = []"
  by (simp add: host_new_def)

lemma exits_true_start: "\<not> fst (docker_available (gx_host ext) host_new) \<Longrightarrow> exits_true (agent_start ext node)"
  by (auto simp: agent_start_def exits_true_def registry_get_def registry_register_def registry_new_def
      docker_available_def run_docker_def native_inv_new native_inv_logs docker_waits_new Let_def split: prod.split sum.split)

interpretation ag_exits: invariant_machine "agent_react ext" exits_true for ext
  by unfold_locales (rule exits_true_react)

subsection \<open>Requested work\<close>

text \<open>The run messages \<open>R\<close> account for everything the agent does: each instance it knows is a slot
  of one of them, and each process was started with the command of one of them, told its slot.\<close>

definition slot_of :: "control_run \<Rightarrow> instance_meta \<Rightarrow> bool" where
  "slot_of m meta \<longleftrightarrow>
     cr_kind m = im_kind meta \<and> cr_name m = im_name meta \<and> im_replica_index meta \<in> set (run_slots m)"

definition process_of :: "control_run \<Rightarrow> process \<Rightarrow> bool" where
  "process_of m p \<longleftrightarrow>
     (\<exists>env. \<exists>idx \<in> set (run_slots m). cr_runtime m = Runtime_Native (pr_exec p) (pr_args p) env \<and>
        bt_get (pr_env p) ''ORION_REPLICA_INDEX'' = Some (show_nat (unat idx)))"

definition accounted :: "control_run set \<Rightarrow> agent_state \<Rightarrow> bool" where
  "accounted R st \<longleftrightarrow>
     (\<forall>i meta. agent_get st i = Some meta \<longrightarrow> (\<exists>m \<in> R. slot_of m meta)) \<and>
     (\<forall>p \<in> set (nh_procs (ag_host st)). \<exists>m \<in> R. process_of m p)"

lemma accounted_mono: "accounted R st \<Longrightarrow> R \<subseteq> S \<Longrightarrow> accounted S st"
  unfolding accounted_def by blast

lemma accountedI:
  assumes "accounted R st" and "\<And>i meta. agent_get st' i = Some meta \<Longrightarrow> agent_get st i = Some meta \<or> (\<exists>m \<in> R. slot_of m meta)"
    and "\<And>p. p \<in> set (nh_procs (ag_host st')) \<Longrightarrow>
           (\<exists>q \<in> set (nh_procs (ag_host st)). \<exists>s. p = q\<lparr>pr_status := s\<rparr>) \<or> (\<exists>m \<in> R. process_of m p)"
  shows "accounted R st'"
proof -
  have "process_of m (q\<lparr>pr_status := s\<rparr>) = process_of m q" for m q s by (simp add: process_of_def)
  then show ?thesis using assms unfolding accounted_def by metis
qed

lemma same_process: "p \<in> set ps \<Longrightarrow> \<exists>q \<in> set ps. \<exists>s. p = q\<lparr>pr_status := s\<rparr>"
  by (intro bexI [of _ p] exI [of _ "pr_status p"]) simp_all

lemma same_procs:
  "nh_procs (ag_host st') = nh_procs (ag_host st) \<Longrightarrow> p \<in> set (nh_procs (ag_host st')) \<Longrightarrow>
     \<exists>q \<in> set (nh_procs (ag_host st)). \<exists>s. p = q\<lparr>pr_status := s\<rparr>"
  by (simp add: same_process)

lemma status_procs:
  "p \<in> set (ps[c := (ps ! c)\<lparr>pr_status := s'\<rparr>]) \<Longrightarrow> \<exists>q \<in> set ps. \<exists>s. p = q\<lparr>pr_status := s\<rparr>"
proof (cases "c < length ps")
  case True
  assume "p \<in> set (ps[c := (ps ! c)\<lparr>pr_status := s'\<rparr>])"
  then have "p = (ps ! c)\<lparr>pr_status := s'\<rparr> \<or> p \<in> set ps" using set_update_subset_insert by fastforce
  then show ?thesis
    using True by (metis nth_mem process.surjective process.update_convs(6))
next
  case False
  assume "p \<in> set (ps[c := (ps ! c)\<lparr>pr_status := s'\<rparr>])"
  then show ?thesis
    using False by (simp add: list_update_beyond same_process)
qed

lemma native_launch_procs:
  assumes "p \<in> set (nh_procs (snd (native_launch ext sp h)))" and "p \<notin> set (nh_procs h)"
  shows "\<exists>exec args env. lp_runtime sp = Runtime_Native exec args env \<and>
           p = \<lparr>pr_instance = lp_instance_id sp, pr_exec = exec, pr_args = args, pr_env = env,
                pr_piped = lp_log_sink sp, pr_status = None\<rparr>"
  by (cases rule: native_launch_cases [of ext sp h]) (use assms in \<open>auto simp: native_started_def\<close>)

lemma adapter_launch_procs:
  assumes "p \<in> set (nh_procs (snd (adapter_launch ext a sp h)))" and "p \<notin> set (nh_procs h)"
  shows "\<exists>exec args env. lp_runtime sp = Runtime_Native exec args env \<and>
           p = \<lparr>pr_instance = lp_instance_id sp, pr_exec = exec, pr_args = args, pr_env = env,
                pr_piped = lp_log_sink sp, pr_status = None\<rparr>"
proof (cases a)
  case Adapter_Native
  then show ?thesis using native_launch_procs [of p ext sp h] assms by (simp add: adapter_launch_def)
next
  case Adapter_Docker
  have "nh_procs (snd (docker_launch ext sp h)) = nh_procs h"
    by (simp add: docker_launch_def run_docker_def Let_def split: runtime.split sum.split)
  with Adapter_Docker assms show ?thesis by (simp add: adapter_launch_def)
qed

lemma inject_native:
  "inject_replica_env idx n rt = Runtime_Native exec args env \<Longrightarrow>
     (\<exists>env0. rt = Runtime_Native exec args env0) \<and> bt_get env ''ORION_REPLICA_INDEX'' = Some (show_nat (unat idx))"
  by (cases rt) auto

lemma launch_slot_host:
  "\<exists>i. ag_host (snd (launch_slot ext now m a idx st)) =
          snd (adapter_launch (gx_host ext) a
            \<lparr>lp_instance_id = i, lp_name = cr_name m, lp_runtime = inject_replica_env idx (total_replicas m) (cr_runtime m),
             lp_log_sink = True, lp_exit_sink = True\<rparr> (ag_host st)) \<and>
        ag_instances (snd (launch_slot ext now m a idx st)) =
          hm_insert i \<lparr>im_kind = cr_kind m, im_name = cr_name m, im_replica_index = idx, im_started_at = now\<rparr> (ag_instances st)"
  by (intro exI [of _ "hd (slot_ids ext m (ag_drawn st) [idx])"])
    (simp add: launch_slot_def agent_draw_def agent_record_def Let_def split: prod.split sum.split)

lemma accounted_launch:
  assumes "accounted R st" and "m \<in> R" and "idx \<in> set (run_slots m)"
  shows "accounted R (snd (launch_slot ext now m a idx st))"
proof -
  let ?st' = "snd (launch_slot ext now m a idx st)"
  obtain i where i: "ag_host ?st' = snd (adapter_launch (gx_host ext) a
      \<lparr>lp_instance_id = i, lp_name = cr_name m, lp_runtime = inject_replica_env idx (total_replicas m) (cr_runtime m),
       lp_log_sink = True, lp_exit_sink = True\<rparr> (ag_host st))"
    "ag_instances ?st' = hm_insert i \<lparr>im_kind = cr_kind m, im_name = cr_name m, im_replica_index = idx,
       im_started_at = now\<rparr> (ag_instances st)"
    using launch_slot_host [of ext now m a idx st] by blast
  show ?thesis
  proof (rule accountedI [OF assms(1)])
    show "agent_get st j = Some meta \<or> (\<exists>m \<in> R. slot_of m meta)" if "agent_get ?st' j = Some meta" for j meta
      using that assms(2,3) by (auto simp: agent_get_def i slot_of_def split: if_splits)
    show "(\<exists>q \<in> set (nh_procs (ag_host st)). \<exists>s. p = q\<lparr>pr_status := s\<rparr>) \<or> (\<exists>m \<in> R. process_of m p)"
      if "p \<in> set (nh_procs (ag_host ?st'))" for p
    proof (cases "p \<in> set (nh_procs (ag_host st))")
      case True
      then show ?thesis by (intro disjI1 same_process)
    next
      case False
      with adapter_launch_procs [OF that [unfolded i(1)]] obtain exec args env where
        "inject_replica_env idx (total_replicas m) (cr_runtime m) = Runtime_Native exec args env"
        "pr_exec p = exec" "pr_args p = args" "pr_env p = env"
        by auto
      with inject_native [of idx _ "cr_runtime m" exec args env] assms(2,3) show ?thesis
        unfolding process_of_def by blast
    qed
  qed
qed

lemma accounted_launches:
  "accounted R st \<Longrightarrow> m \<in> R \<Longrightarrow> set slots \<subseteq> set (run_slots m) \<Longrightarrow> accounted R (snd (launch_slots ext now m a slots st))"
proof (induction slots arbitrary: st)
  case (Cons idx slots)
  from Cons.prems accounted_launch [of R st m idx ext now a]
  have "accounted R (snd (launch_slot ext now m a idx st))" by simp
  with Cons.IH Cons.prems show ?case
    by (cases "launch_slot ext now m a idx st") (auto split: sum.split)
qed simp

lemma accounted_forget: "accounted R st \<Longrightarrow> accounted R (agent_forget i st)"
  by (auto simp: accounted_def agent_forget_def agent_get_def split: if_splits)

lemma accounted_stop: "accounted R st \<Longrightarrow> accounted R (agent_forget i (stop_everywhere ext i st))"
proof -
  have procs: "\<exists>q \<in> set (nh_procs h). \<exists>s. p = q\<lparr>pr_status := s\<rparr>"
    if "p \<in> set (nh_procs (snd (adapter_stop x a i h)))" for x a h p
  proof (cases a)
    case Adapter_Native
    then show ?thesis
      using that by (cases rule: native_stop_cases [of h i x])
        (auto simp: adapter_stop_def intro: status_procs same_process)
  next
    case Adapter_Docker
    then show ?thesis
      using that by (auto simp: adapter_stop_def docker_stop_def run_docker_def Let_def
          intro: same_process split: option.splits sum.splits if_splits)
  qed
  have "accounted R (stop_named ext i n st)" if "accounted R st" for n st
  proof (cases "registry_get (ag_registry st) n")
    case (Some a)
    then show ?thesis by (intro accountedI [OF that]) (simp_all add: procs)
  qed (simp add: that)
  then have "accounted R (fold (stop_named ext i) ns st)" if "accounted R st" for ns st
    using that
  proof (induction ns arbitrary: st)
    case (Cons n ns)
    from Cons.IH [OF Cons.prems(1) Cons.prems(1) [OF Cons.prems(2), of n]] show ?case by simp
  qed simp
  then show "accounted R st \<Longrightarrow> accounted R (agent_forget i (stop_everywhere ext i st))"
    by (simp add: stop_everywhere_def accounted_forget)
qed

lemma accounted_control:
  assumes "accounted R st" and "\<And>env. gx_decode_run ext payload = Inr env \<Longrightarrow> ends_with subject ''.run'' \<Longrightarrow> en_payload env \<in> R"
  shows "accounted R (snd (dispatch_control ext now subject payload st))"
  using assms
  by (auto simp: dispatch_control_def Let_def intro: accounted_launches accounted_stop split: sum.split option.split)

lemma accounted_send: "accounted R (agent_send ext now s w p st) = accounted R st"
  by (simp add: accounted_def agent_get_def)

lemma accounted_host:
  "nh_procs h = nh_procs (ag_host st) \<Longrightarrow> accounted R (st\<lparr>ag_host := h\<rparr>) = accounted R st"
  by (simp add: accounted_def)

lemma accounted_fields:
  "accounted R (st\<lparr>ag_probes := ps\<rparr>) = accounted R st" "accounted R (st\<lparr>ag_tick_count := t\<rparr>) = accounted R st"
  by (simp_all add: accounted_def agent_get_def)

lemma accounted_react:
  assumes "accounted R st"
    and "\<And>now subject payload env. e = Ag_Control now subject payload \<Longrightarrow> ends_with subject ''.run'' \<Longrightarrow>
           gx_decode_run ext payload = Inr env \<Longrightarrow> en_payload env \<in> R"
  shows "accounted R (agent_react ext st e)"
proof (cases e)
  case (Ag_Control now subject payload)
  with assms show ?thesis by (auto intro: accounted_control)
next
  case (Ag_Forward_Exit now)
  then show ?thesis
    using assms(1) by (auto simp: forward_exit_def Let_def accounted_send accounted_host intro!: accounted_forget
        split: list.split option.split)
next
  case (Ag_Take n)
  then show ?thesis
    using assms(1) by (cases rule: native_take_cases [of n "ag_host st"]) (simp_all add: accounted_host)
next
  case (Ag_Reap n err)
  then show ?thesis
    using assms(1) by (cases rule: native_reap_cases [of n err "ag_host st"]) (simp_all add: accounted_host)
next
  case (Ag_Process_Exit c s)
  then show ?thesis
    by (intro accountedI [OF assms(1)]) (auto simp: process_exit_def intro: status_procs same_process split: if_splits)
qed (use assms(1) in \<open>auto simp: agent_tick_def publish_inventory_def forward_log_def probe_tick_def native_forward_line_def
      docker_wait_done_def docker_forward_line_def Let_def accounted_send accounted_host accounted_fields
      split: list.split option.split prod.split\<close>)

lemma accounted_start: "accounted R (agent_start ext node)"
proof -
  have "nh_procs (snd (docker_available x h)) = nh_procs h" for x h
    by (simp add: docker_available_def run_docker_def split: sum.split)
  then have "nh_procs (snd (docker_available x host_new)) = []" for x by (simp add: host_new_def)
  then show ?thesis by (simp add: accounted_def agent_start_def agent_get_def Let_def hm_get_def split_beta)
qed

subsection \<open>What no event undoes\<close>

lemma procs_grow_adapter:
  "procs_grow h (snd (adapter_launch ext a sp h))" "procs_grow h (snd (adapter_stop ext a i h))"
proof -
  have "procs_grow h (snd (native_launch ext sp h))" "procs_grow h (snd (native_stop ext i h))"
    using procs_grow_native [of h ext "N_Launch sp"] procs_grow_native [of h ext "N_Stop i"] by simp_all
  moreover have "nh_procs (snd (docker_launch ext sp h)) = nh_procs h" "nh_procs (snd (docker_stop ext i h)) = nh_procs h"
    by (simp_all add: docker_launch_def docker_stop_def run_docker_def Let_def split: runtime.split sum.split option.split)
  ultimately show "procs_grow h (snd (adapter_launch ext a sp h))" "procs_grow h (snd (adapter_stop ext a i h))"
    by (cases a; simp add: adapter_launch_def adapter_stop_def)+
qed

lemma procs_grow_launches: "procs_grow (ag_host st) (ag_host (snd (launch_slots ext now m a slots st)))"
proof (induction slots arbitrary: st)
  case (Cons idx slots)
  have "procs_grow (ag_host st) (ag_host (snd (launch_slot ext now m a idx st)))"
    using launch_slot_host [of ext now m a idx st] procs_grow_adapter(1) by metis
  with Cons.IH [of "snd (launch_slot ext now m a idx st)"] show ?case
    by (cases "launch_slot ext now m a idx st") (auto intro: procs_grow_trans split: sum.split)
qed simp

lemma procs_grow_stop: "procs_grow (ag_host st) (ag_host (stop_everywhere ext i st))"
proof -
  have "procs_grow (ag_host st) (ag_host (stop_named ext i n st))" for n st
    by (simp add: procs_grow_adapter split: option.split)
  then have "procs_grow (ag_host st) (ag_host (fold (stop_named ext i) ns st))" for ns st
  proof (induction ns arbitrary: st)
    case (Cons n ns)
    from procs_grow_trans [OF Cons.prems [of st n] Cons.IH [OF Cons.prems, of "stop_named ext i n st"]]
    show ?case by simp
  qed simp
  then show ?thesis by (simp add: stop_everywhere_def)
qed

lemma react_grow: "procs_grow (ag_host st) (ag_host (agent_react ext st e))"
proof (cases e)
  case (Ag_Control now subject payload)
  then show ?thesis
    using procs_grow_launches procs_grow_stop
    by (auto simp: dispatch_control_def agent_forget_def Let_def split: sum.split option.split)
qed (use procs_grow_native [of "ag_host st" "gx_host ext" "N_Take _"] procs_grow_native [of "ag_host st" "gx_host ext" "N_Reap _ _"]
      procs_grow_native [of "ag_host st" "gx_host ext" "N_Exit _ _"] procs_grow_native [of "ag_host st" "gx_host ext" "N_Line _ _ _"]
     in \<open>auto simp: agent_tick_def publish_inventory_def forward_log_def forward_exit_def probe_tick_def
       docker_wait_done_def docker_forward_line_def agent_forget_def Let_def split: list.split option.split prod.split\<close>)

lemma react_node: "ag_node_id (agent_react ext st e) = ag_node_id st"
proof (cases e)
  case (Ag_Control now subject payload)
  have "ag_node_id (snd (launch_slot ext now m a idx st)) = ag_node_id st" for m a idx st
    by (simp add: launch_slot_def agent_draw_def agent_record_def Let_def split: prod.split sum.split)
  then have one: "ag_node_id st' = ag_node_id st" if "launch_slot ext now m a idx st = (r, st')" for m a idx st r st'
    using that by (metis snd_conv)
  have "ag_node_id (snd (launch_slots ext now m a slots st)) = ag_node_id st" for m a slots st
    by (induction slots arbitrary: st) (auto split: sum.split prod.split dest: one)
  moreover have "ag_node_id (fold (stop_named ext i) ns st) = ag_node_id st" for i ns st
    by (induction ns arbitrary: st) (simp_all split: option.split)
  ultimately show ?thesis
    using Ag_Control
    by (auto simp: dispatch_control_def stop_everywhere_def agent_forget_def Let_def split: sum.split option.split)
qed (auto simp: agent_tick_def publish_inventory_def forward_log_def forward_exit_def probe_tick_def
       agent_forget_def Let_def split: list.split option.split prod.split)

end
