(* ===== verification/Mesh.thy ===== *)
theory Mesh
  imports Controller_Machine Agent_Machine
begin

text \<open>
  The whole mesh: one controller and any number of agents, joined by the bus. A message an agent
  or the controller got accepted by the bus may be delivered at any later moment, several times,
  out of order, or never; so what is shown of every reachable mesh holds whatever the network does.

  The matching of a subject against a subscription and the encoding of control messages are
  fields of \<open>mesh_ext\<close>. The locale interpretations \<open>exits_pres\<close>, \<open>sent_pres\<close> and \<open>subjects_pres\<close> of
  \<open>ctl_preserved\<close> carry the controller's half of the two mesh invariants.
\<close>

subsection \<open>The bus between the components\<close>

record mesh =
  ms_ctl :: app_state
  ms_agents :: "agent_state list"

record mesh_ext =
  mx_ctl :: ctl_ext
  mx_agent :: "nat \<Rightarrow> agent_ext"
  mx_matches :: "string \<Rightarrow> string \<Rightarrow> bool"
  mx_encode_run :: "control_run envelope \<Rightarrow> string"
  mx_encode_stop :: "control_stop envelope \<Rightarrow> string"

text \<open>The documented meaning of a subscription: without wildcards it matches itself only, and a
  star stands for exactly one token.\<close>

definition subject_matching :: "(string \<Rightarrow> string \<Rightarrow> bool) \<Rightarrow> bool" where
  "subject_matching matches \<longleftrightarrow>
     (\<forall>p s. CHR ''*'' \<notin> set p \<and> CHR ''>'' \<notin> set p \<longrightarrow> (matches p s \<longleftrightarrow> s = p)) \<and>
     (\<forall>p s. CHR ''*'' \<notin> set p \<and> CHR ''>'' \<notin> set p \<longrightarrow>
        (matches (p @ ''.*'') s \<longleftrightarrow> (\<exists>t. s = p @ ''.'' @ t \<and> t \<noteq> [] \<and> CHR ''.'' \<notin> set t)))"

definition deliver_to_controller :: "mesh_ext \<Rightarrow> datetime \<Rightarrow> string \<times> agent_msg \<Rightarrow> app_state \<Rightarrow> app_state" where
  "deliver_to_controller ext now = (\<lambda>(subject, msg) st.
     case msg of
       Am_Heartbeat env \<Rightarrow>
         if mx_matches ext (topic_as_str Topic_Heartbeat) subject then on_heartbeat (mx_ctl ext) now (Some env) st else st
     | Am_Inventory env \<Rightarrow>
         if mx_matches ext (topic_as_str Topic_NodeInventory) subject then on_inventory (mx_ctl ext) now (Some env) st else st
     | Am_Log env \<Rightarrow>
         if mx_matches ext (topic_as_str Topic_Logs) subject then on_log_line (mx_ctl ext) (Some env) st else st
     | Am_Event env \<Rightarrow>
         if mx_matches ext (topic_as_str Topic_TaskEvents) subject then on_task_event now (Some env) st else st
     | Am_Health env \<Rightarrow>
         if mx_matches ext (topic_as_str Topic_ServiceHealth) subject then on_service_health (mx_ctl ext) now (Some env) st
         else st)"

definition control_payload :: "mesh_ext \<Rightarrow> bus_msg \<Rightarrow> string" where
  "control_payload ext msg =
     (case msg of Msg_Run env \<Rightarrow> mx_encode_run ext env | Msg_Stop env \<Rightarrow> mx_encode_stop ext env)"

definition from_bus :: "ctl_event \<Rightarrow> bool" where
  "from_bus ev \<longleftrightarrow>
     (case ev of Got_Heartbeat _ _ \<Rightarrow> True | Got_Inventory _ _ \<Rightarrow> True | Got_Log_Line _ \<Rightarrow> True
      | Got_Task_Event _ _ \<Rightarrow> True | Got_Health _ _ \<Rightarrow> True | _ \<Rightarrow> False)"

definition is_control :: "agent_event \<Rightarrow> bool" where
  "is_control e \<longleftrightarrow> (case e of Ag_Control _ _ _ \<Rightarrow> True | _ \<Rightarrow> False)"

abbreviation update_agent :: "nat \<Rightarrow> agent_state \<Rightarrow> mesh \<Rightarrow> mesh" where
  "update_agent k a m \<equiv> m\<lparr>ms_agents := (ms_agents m)[k := a]\<rparr>"

inductive mesh_step :: "mesh_ext \<Rightarrow> mesh \<Rightarrow> mesh \<Rightarrow> bool" for ext where
  controller: "\<not> from_bus ev \<Longrightarrow> mesh_step ext m (m\<lparr>ms_ctl := ctl_react (mx_ctl ext) (ms_ctl m) ev\<rparr>)"
| db_fault: "mesh_step ext m (m\<lparr>ms_ctl := (ms_ctl m)\<lparr>as_store := (as_store (ms_ctl m))\<lparr>db_fault := f\<rparr>\<rparr>\<rparr>)"
| to_controller: "k < length (ms_agents m) \<Longrightarrow> msg \<in> set (ag_sent (ms_agents m ! k)) \<Longrightarrow>
    mesh_step ext m (m\<lparr>ms_ctl := deliver_to_controller ext now msg (ms_ctl m)\<rparr>)"
| agent: "k < length (ms_agents m) \<Longrightarrow> \<not> is_control e \<Longrightarrow>
    mesh_step ext m (update_agent k (agent_react (mx_agent ext k) (ms_agents m ! k) e) m)"
| to_agent: "k < length (ms_agents m) \<Longrightarrow> (subject, msg) \<in> set (as_sent (ms_ctl m)) \<Longrightarrow>
    subject \<in> set (control_subjects_for_node (ag_node_id (ms_agents m ! k))) \<Longrightarrow>
    mesh_step ext m (update_agent k (agent_react (mx_agent ext k) (ms_agents m ! k)
      (Ag_Control now subject (control_payload ext msg))) m)"

inductive mesh_reachable :: "mesh_ext \<Rightarrow> mesh \<Rightarrow> bool" for ext where
  start: "mesh_reachable ext \<lparr>ms_ctl = app_state_new d url now,
    ms_agents = map (\<lambda>k. agent_start (mx_agent ext k) (nodes ! k)) [0..<length nodes]\<rparr>"
| step: "mesh_reachable ext m \<Longrightarrow> mesh_step ext m m' \<Longrightarrow> mesh_reachable ext m'"

inductive_cases mesh_stepE: "mesh_step ext m m'"

subsection \<open>The controller's exit records\<close>

definition exits_within :: "(uuid \<Rightarrow> i32 \<Rightarrow> bool) \<Rightarrow> app_state \<Rightarrow> bool" where
  "exits_within E st \<longleftrightarrow>
     (\<forall>i r c. hm_get (by_id (as_instances st)) i = Some r \<and> ir_exit_code r = Some c \<longrightarrow> E i c)"

lemma exits_within_cong: "as_instances st' = as_instances st \<Longrightarrow> exits_within E st' = exits_within E st"
  by (simp add: exits_within_def)

lemma exits_within_mono: "exits_within E st \<Longrightarrow> (\<And>i c. E i c \<Longrightarrow> F i c) \<Longrightarrow> exits_within F st"
  unfolding exits_within_def by blast

lemma drain_get:
  assumes "hm_get (by_id (snd (drain_for kind name reg))) j = Some r"
  shows "hm_get (by_id reg) j = Some r"
proof -
  define f where "f = (\<lambda>i (out, m). case hm_get m i of
    None \<Rightarrow> (out, m) | Some r \<Rightarrow> (out @ [r], hm_remove i (m :: (uuid, instance_record) hash_map)))"
  have "hm_get (snd (fold f ids x)) j = Some r \<Longrightarrow> hm_get (snd x) j = Some r" for ids x
  proof (induction ids arbitrary: x)
    case (Cons i ids)
    from Cons.IH [of "f i x"] Cons.prems show ?case
      by (cases x) (auto simp: f_def split: option.splits if_splits)
  qed simp
  from this [of "workload_ids reg kind name" "([], by_id reg)"] assms show ?thesis
    by (simp add: drain_for_def Let_def split_beta f_def)
qed

lemma exit_code_kept:
  "hm_get (by_id (record_dispatch now i kind name node reg)) j = Some r \<Longrightarrow> ir_exit_code r = Some c \<Longrightarrow>
     \<exists>r0. hm_get (by_id reg) j = Some r0 \<and> ir_exit_code r0 = Some c"
  "hm_get (by_id (note_line i kind name node' ri seen reg)) j = Some r \<Longrightarrow> ir_exit_code r = Some c \<Longrightarrow>
     \<exists>r0. hm_get (by_id reg) j = Some r0 \<and> ir_exit_code r0 = Some c"
  "hm_get (by_id (purge_instance i reg)) j = Some r \<Longrightarrow> hm_get (by_id reg) j = Some r"
  "hm_get (by_id (snd (drain_for kind name reg))) j = Some r \<Longrightarrow> hm_get (by_id reg) j = Some r"
  by (auto simp: record_dispatch_def note_line_def purge_instance_def Let_def dest: drain_get split: option.splits if_splits)

lemma exits_withinI:
  assumes "exits_within E st"
    and "\<And>i r c. hm_get (by_id (as_instances st')) i = Some r \<Longrightarrow> ir_exit_code r = Some c \<Longrightarrow>
           \<exists>r0. hm_get (by_id (as_instances st)) i = Some r0 \<and> ir_exit_code r0 = Some c"
  shows "exits_within E st'"
  using assms unfolding exits_within_def by blast

lemma dispatch_instances [simp]:
  "as_instances (snd (dispatch_workload_with_slots ext now wk name rt g reps slots st)) = as_instances st"
  "as_instances (snd (snd (stop_instance ext now kind name r x))) = as_instances (snd (snd x))"
  by (simp_all add: dispatch_with_slots_eq stop_instance_def draw_uuid_def publish_def Let_def split: option.split prod.split)

interpretation exits_pres: ctl_preserved ext "exits_within E" for ext E
proof unfold_locales
  fix st now i kind name node
  assume inv: "exits_within E st"
  show "exits_within E (st\<lparr>as_instances := record_dispatch now i kind name node (as_instances st)\<rparr>)"
    by (rule exits_withinI [OF inv]) (simp, erule (1) exit_code_kept(1))
  show "exits_within E (st\<lparr>as_instances := purge_instance i (as_instances st)\<rparr>)"
    by (rule exits_withinI [OF inv]) (simp, drule exit_code_kept(3), simp)
  show "exits_within E (st\<lparr>as_instances := snd (drain_for kind name (as_instances st))\<rparr>)"
    by (rule exits_withinI [OF inv]) (simp, drule exit_code_kept(4), simp)
  show "exits_within E (on_log_line ext m st)" for m
  proof (rule exits_withinI [OF inv])
    fix j r c
    assume "hm_get (by_id (as_instances (on_log_line ext m st))) j = Some r" "ir_exit_code r = Some c"
    then show "\<exists>r0. hm_get (by_id (as_instances st)) j = Some r0 \<and> ir_exit_code r0 = Some c"
      by (auto simp: on_log_line_def Let_def dest: exit_code_kept(2) split: option.splits)
  qed
qed (simp_all add: exits_within_def)

lemma exits_within_task_event:
  assumes "exits_within E st"
    and "\<And>c k. task_exit_of (te_outcome (en_payload env)) = Some (c, k) \<Longrightarrow> E (te_task_id (en_payload env)) c"
  shows "exits_within E (on_task_event now (Some env) st)"
  using assms by (auto simp: exits_within_def on_task_event_def record_exit_def Let_def split: option.splits if_splits)

subsection \<open>Exits reported across the mesh\<close>

definition mesh_ended :: "mesh \<Rightarrow> uuid \<Rightarrow> i32 \<Rightarrow> bool" where
  "mesh_ended m i c \<longleftrightarrow> (\<exists>a \<in> set (ms_agents m). ended (ag_host a) i c)"

definition mesh_exits :: "mesh \<Rightarrow> bool" where
  "mesh_exits m \<longleftrightarrow>
     (\<forall>a \<in> set (ms_agents m). exits_true a) \<and> exits_within (\<lambda>i c. c = - 1 \<or> mesh_ended m i c) (ms_ctl m)"

lemma event_true_code:
  "event_true h e \<Longrightarrow> task_exit_of (te_outcome e) = Some (c, k) \<Longrightarrow> c = - 1 \<or> ended h (te_task_id e) c"
  by (auto simp: event_true_def notice_true_def exit_outcome_def task_exit_of_def split: option.splits if_splits)

lemma mesh_exits_deliver:
  assumes "mesh_exits m" and "k < length (ms_agents m)" and "msg \<in> set (ag_sent (ms_agents m ! k))"
  shows "mesh_exits (m\<lparr>ms_ctl := deliver_to_controller ext now msg (ms_ctl m)\<rparr>)"
proof -
  let ?E = "\<lambda>i c. c = - 1 \<or> mesh_ended m i c"
  have ctl: "exits_within ?E (ms_ctl m)" using assms(1) by (simp add: mesh_exits_def)
  have a: "ms_agents m ! k \<in> set (ms_agents m)" using assms(2) by simp
  have event: "exits_within ?E (on_task_event now (Some env) (ms_ctl m))" if "snd msg = Am_Event env" for env
  proof (rule exits_within_task_event [OF ctl])
    fix c k'
    assume "task_exit_of (te_outcome (en_payload env)) = Some (c, k')"
    moreover have "event_true (ag_host (ms_agents m ! k)) (en_payload env)"
      using assms(1,3) a that by (cases msg) (auto simp: mesh_exits_def exits_true_def)
    ultimately show "?E (te_task_id (en_payload env)) c"
      using a event_true_code unfolding mesh_ended_def by blast
  qed
  have "exits_within ?E (deliver_to_controller ext now msg (ms_ctl m))"
    using ctl event
    by (cases msg) (auto simp: deliver_to_controller_def exits_pres.messages_handled exits_pres.line_noted
        split: agent_msg.split)
  with assms(1) show ?thesis by (simp add: mesh_exits_def mesh_ended_def)
qed

lemma mesh_exits_agent:
  assumes "mesh_exits m" and "k < length (ms_agents m)"
  shows "mesh_exits (update_agent k (agent_react ext (ms_agents m ! k) e) m)"
proof -
  let ?a = "ms_agents m ! k" let ?b = "agent_react ext ?a e"
  have a: "?a \<in> set (ms_agents m)" using assms(2) by simp
  have "exits_true ?b" using assms(1) a by (auto simp: mesh_exits_def intro: exits_true_react)
  then have "exits_true b" if "b \<in> set ((ms_agents m)[k := ?b])" for b
    using that assms(1) set_update_subset_insert [of "ms_agents m" k ?b] by (auto simp: mesh_exits_def)
  moreover have "mesh_ended (update_agent k ?b m) i c" if "mesh_ended m i c" for i c
  proof -
    from that obtain j where j: "j < length (ms_agents m)" "ended (ag_host (ms_agents m ! j)) i c"
      by (auto simp: mesh_ended_def in_set_conv_nth)
    have "ended (ag_host ((ms_agents m)[k := ?b] ! j)) i c"
      using j ended_grow [OF react_grow, of ?a i c ext e] by (cases "j = k") simp_all
    moreover have "(ms_agents m)[k := ?b] ! j \<in> set ((ms_agents m)[k := ?b])" using j(1) by simp
    ultimately show ?thesis unfolding mesh_ended_def by auto
  qed
  ultimately show ?thesis using assms(1) by (auto simp: mesh_exits_def intro: exits_within_mono)
qed

lemma not_from_bus: "\<not> from_bus ev \<Longrightarrow> \<not> is_task_event ev"
  by (cases ev) (simp_all add: from_bus_def)

lemma mesh_exits_step:
  assumes "mesh_step ext m m'" and "mesh_exits m"
  shows "mesh_exits m'"
  using assms(1)
proof (cases rule: mesh_step.cases)
  case (controller ev)
  then show ?thesis
    using assms(2) exits_pres.reacted [of _ "ms_ctl m" ev "mx_ctl ext"] not_from_bus
    by (simp add: mesh_exits_def mesh_ended_def)
next
  case (db_fault f)
  then show ?thesis using assms(2) exits_pres.store_change by (simp add: mesh_exits_def mesh_ended_def)
qed (use assms(2) mesh_exits_deliver mesh_exits_agent in \<open>auto simp del: agent_react.simps\<close>)

lemma mesh_exits_reachable:
  assumes "mesh_reachable ext m" and "\<forall>k. \<not> fst (docker_available (gx_host (mx_agent ext k)) host_new)"
  shows "mesh_exits m"
  using assms(1)
proof (induction rule: mesh_reachable.induct)
  case (start d url now nodes)
  then show ?case
    using assms(2) exits_true_start
    by (auto simp: mesh_exits_def exits_within_def app_state_new_def instance_registry_default_def hm_get_def)
qed (rule mesh_exits_step)

subsection \<open>Work requested across the mesh\<close>

definition on_own_subject :: "string \<times> bus_msg \<Rightarrow> bool" where
  "on_own_subject = (\<lambda>(subject, msg). case msg of
     Msg_Run _ \<Rightarrow> \<exists>n. subject = for_node Topic_ControlRun n
   | Msg_Stop _ \<Rightarrow> \<exists>n. subject = for_node Topic_ControlStop n)"

definition sent_ok :: "(string \<times> bus_msg) set \<Rightarrow> app_state \<Rightarrow> bool" where
  "sent_ok S st \<longleftrightarrow> S \<subseteq> set (as_sent st) \<and> (\<forall>x \<in> set (as_sent st). on_own_subject x)"

lemma sent_okI:
  assumes "sent_ok S st" and "as_sent st' = as_sent st \<or> (\<exists>x. as_sent st' = as_sent st @ [x] \<and> on_own_subject x)"
  shows "sent_ok S st'"
  using assms by (auto simp: sent_ok_def)

lemma dispatch_own_sent:
  "as_sent (snd (dispatch_workload_with_slots ext now wk name rt g reps slots st)) = as_sent st \<or>
   (\<exists>x. as_sent (snd (dispatch_workload_with_slots ext now wk name rt g reps slots st)) = as_sent st @ [x] \<and> on_own_subject x)"
  by (auto simp: dispatch_with_slots_eq on_own_subject_def Let_def split: option.split simp del: for_node.simps)

lemma stop_instance_sent:
  "as_sent (snd (snd (stop_instance ext now kind name r x))) = as_sent (snd (snd x)) \<or>
   (\<exists>y. as_sent (snd (snd (stop_instance ext now kind name r x))) = as_sent (snd (snd x)) @ [y] \<and> on_own_subject y)"
  by (cases x) (auto simp: stop_instance_def draw_uuid_def publish_def on_own_subject_def Let_def
      split: option.split simp del: for_node.simps)

interpretation sent_pres: ctl_preserved ext "sent_ok S" for ext S
proof unfold_locales
  show "sent_ok S (on_log_line ext m st)" if "sent_ok S st" for m st
    using that by (auto simp: sent_ok_def on_log_line_def Let_def split: option.split)
  show "sent_ok S (snd (dispatch_workload_with_slots ext now wk name rt g reps slots st))" if "sent_ok S st"
    for st now wk name rt g reps slots
    using that dispatch_own_sent by (rule sent_okI)
  show "sent_ok S (snd (snd (stop_instance ext now kind name r x)))" if "sent_ok S (snd (snd x))" for x now kind name r
    using that stop_instance_sent by (rule sent_okI)
qed (simp_all add: sent_ok_def)

lemma sent_ok_task_event: "sent_ok S st \<Longrightarrow> sent_ok S (on_task_event now te st)"
  by (auto simp: sent_ok_def on_task_event_def split: option.split)

lemma sent_ok_deliver: "sent_ok S st \<Longrightarrow> sent_ok S (deliver_to_controller ext now msg st)"
  by (cases msg) (auto simp: deliver_to_controller_def sent_pres.messages_handled sent_pres.line_noted sent_ok_task_event
      split: agent_msg.split)

text \<open>What the controller asked a node to run, and that this accounts for all its work.\<close>

definition asked :: "app_state \<Rightarrow> node_id \<Rightarrow> control_run set" where
  "asked st node = {en_payload env |env. (for_node Topic_ControlRun node, Msg_Run env) \<in> set (as_sent st)}"

definition mesh_asked :: "mesh \<Rightarrow> bool" where
  "mesh_asked m \<longleftrightarrow>
     sent_ok {} (ms_ctl m) \<and> (\<forall>a \<in> set (ms_agents m). accounted (asked (ms_ctl m) (ag_node_id a)) a)"

lemma asked_mono: "set (as_sent st) \<subseteq> set (as_sent st') \<Longrightarrow> asked st node \<subseteq> asked st' node"
  unfolding asked_def by blast

lemma mesh_asked_controller:
  assumes "mesh_asked m" and "sent_ok (set (as_sent (ms_ctl m))) st'"
  shows "mesh_asked (m\<lparr>ms_ctl := st'\<rparr>)"
  using assms asked_mono [of "ms_ctl m" st'] accounted_mono by (auto simp: mesh_asked_def sent_ok_def)

lemma control_subject_cases:
  assumes "subject \<in> set (control_subjects_for_node node)" and "on_own_subject (subject, msg)"
    and "ends_with subject ''.run''"
  shows "subject = for_node Topic_ControlRun node \<and> (\<exists>env. msg = Msg_Run env)"
proof -
  have "subject = for_node Topic_ControlRun node"
    using assms(1,3) suffix_control [of node] by (auto simp: control_subjects_for_node_def simp del: for_node.simps)
  moreover have "\<exists>env. msg = Msg_Run env"
    using assms(2,3) suffix_control(2) by (cases msg) (auto simp: on_own_subject_def simp del: for_node.simps)
  ultimately show ?thesis ..
qed

lemma mesh_asked_agent:
  assumes "mesh_asked m" and "k < length (ms_agents m)"
    and "accounted (asked (ms_ctl m) (ag_node_id (ms_agents m ! k))) (agent_react ext (ms_agents m ! k) e)"
  shows "mesh_asked (update_agent k (agent_react ext (ms_agents m ! k) e) m)"
proof -
  have "accounted (asked (ms_ctl m) (ag_node_id b)) b"
    if "b \<in> set ((ms_agents m)[k := agent_react ext (ms_agents m ! k) e])" for b
  proof (cases "b = agent_react ext (ms_agents m ! k) e")
    case False
    then have "b \<in> set (ms_agents m)" using that set_update_subset_insert by fastforce
    with assms(1) show ?thesis by (simp add: mesh_asked_def)
  qed (use assms(3) in \<open>simp add: react_node\<close>)
  with assms(1) show ?thesis by (simp add: mesh_asked_def)
qed

text \<open>Every agent decodes the run messages on the bus to what was encoded.\<close>

definition runs_decoded :: "mesh_ext \<Rightarrow> app_state \<Rightarrow> bool" where
  "runs_decoded ext st \<longleftrightarrow>
     (\<forall>k s env. (s, Msg_Run env) \<in> set (as_sent st) \<longrightarrow> gx_decode_run (mx_agent ext k) (mx_encode_run ext env) = Inr env)"

lemma mesh_asked_step:
  assumes "mesh_step ext m m'" and "mesh_asked m" and "runs_decoded ext (ms_ctl m)"
  shows "mesh_asked m'"
proof -
  have self: "sent_ok (set (as_sent (ms_ctl m))) (ms_ctl m)" using assms(2) by (simp add: mesh_asked_def sent_ok_def)
  have old: "accounted (asked (ms_ctl m) (ag_node_id (ms_agents m ! k))) (ms_agents m ! k)"
    if "k < length (ms_agents m)" for k
    using assms(2) that by (simp add: mesh_asked_def)
  show ?thesis
    using assms(1)
  proof (cases rule: mesh_step.cases)
    case (controller ev)
    then show ?thesis
      using sent_pres.reacted [OF self, of ev] not_from_bus by (auto intro: mesh_asked_controller [OF assms(2)])
  next
    case (db_fault f)
    then show ?thesis using sent_pres.store_change [OF self] by (auto intro: mesh_asked_controller [OF assms(2)])
  next
    case (to_controller k msg now)
    then show ?thesis using sent_ok_deliver [OF self] by (simp only:) (rule mesh_asked_controller [OF assms(2)])
  next
    case (agent k e)
    then show ?thesis
      using old by (auto intro!: mesh_asked_agent [OF assms(2)] accounted_react simp: is_control_def)
  next
    case (to_agent k subject msg now)
    have own: "on_own_subject (subject, msg)" using to_agent(3) assms(2) by (auto simp: mesh_asked_def sent_ok_def)
    have "en_payload env \<in> asked (ms_ctl m) (ag_node_id (ms_agents m ! k))"
      if run: "ends_with subject ''.run''" "gx_decode_run (mx_agent ext k) (control_payload ext msg) = Inr env" for env
    proof -
      obtain env' where "subject = for_node Topic_ControlRun (ag_node_id (ms_agents m ! k))" "msg = Msg_Run env'"
        using control_subject_cases [OF to_agent(4) own run(1)] by blast
      moreover from this run(2) assms(3) to_agent(3) have "env' = env"
        unfolding runs_decoded_def control_payload_def by (metis bus_msg.simps(5) sum.inject(2))
      ultimately show ?thesis using to_agent(3) by (auto simp: asked_def simp del: for_node.simps)
    qed
    then show ?thesis
      using old [OF to_agent(2)] to_agent(1,2)
      by (auto intro!: mesh_asked_agent [OF assms(2)] accounted_react simp del: agent_react.simps)
  qed
qed

lemma sent_monotone:
  assumes "mesh_step ext m m'" and "sent_ok {} (ms_ctl m)"
  shows "sent_ok (set (as_sent (ms_ctl m))) (ms_ctl m')"
proof -
  have self: "sent_ok (set (as_sent (ms_ctl m))) (ms_ctl m)" using assms(2) by (simp add: sent_ok_def)
  show ?thesis
    using assms(1) by (cases rule: mesh_step.cases)
      (use self sent_pres.reacted [OF self] sent_pres.store_change [OF self] sent_ok_deliver [OF self] not_from_bus in auto)
qed

lemma mesh_asked_reachable:
  assumes "mesh_reachable ext m"
  shows "sent_ok {} (ms_ctl m) \<and> (runs_decoded ext (ms_ctl m) \<longrightarrow> mesh_asked m)"
  using assms
proof (induction rule: mesh_reachable.induct)
  case (start d url now nodes)
  then show ?case by (auto simp: mesh_asked_def sent_ok_def app_state_new_def accounted_start)
next
  case (step m m')
  then have mono: "sent_ok (set (as_sent (ms_ctl m))) (ms_ctl m')" using sent_monotone by blast
  then have "runs_decoded ext (ms_ctl m') \<Longrightarrow> runs_decoded ext (ms_ctl m)"
    unfolding runs_decoded_def sent_ok_def by blast
  with step mono mesh_asked_step show ?case by (auto simp: sent_ok_def)
qed

subsection \<open>Messages from one component to the other\<close>

lemma run_single_host:
  assumes "partial_mode m = False" "cr_replicas m = 1" "cr_runtime m = Runtime_Native exec args env"
    "registry_get (ag_registry a) ''native'' = Some Adapter_Native"
    "hx_spawn_error (gx_host ext) (nh_spawns (ag_host a)) = None"
    "gx_decode_run ext payload = Inr e" "m = en_payload e"
  shows "snd (dispatch_control ext now (for_node Topic_ControlRun node) payload a) = snd (launch_slot ext now m Adapter_Native 0 a)"
proof -
  have reg: "registry_get (ag_registry a) (runtime_adapter_name (cr_runtime m)) = Some Adapter_Native"
    using assms(3,4) by (simp add: runtime_adapter_name_def)
  have slots: "run_slots m = [0]"
    using assms(1,2) by (simp add: run_slots_def range_u32_def)
  show ?thesis
    unfolding dispatch_control_run [OF assms(6,7) reg] slots
    by (cases "launch_slot ext now m Adapter_Native 0 a") (simp split: sum.split)
qed

lemma launch_single:
  assumes "partial_mode m = False" "cr_runtime m = Runtime_Native exec args env"
    "hx_spawn_error (gx_host ext) (nh_spawns (ag_host a)) = None"
    and "a' = snd (launch_slot ext now m Adapter_Native 0 a)"
  shows "nh_waits (ag_host a') = nh_waits (ag_host a) @ [\<lparr>wt_id = cr_instance_id m, wt_cell = length (nh_cells (ag_host a)), wt_phase = Spawned\<rparr>]"
    "nh_cells (ag_host a') = nh_cells (ag_host a) @ [Some (length (nh_procs (ag_host a)))]"
    "length (nh_procs (ag_host a')) = Suc (length (nh_procs (ag_host a)))"
    "pr_status (nh_procs (ag_host a') ! length (nh_procs (ag_host a))) = None"
    "nh_exits (ag_host a') = nh_exits (ag_host a)"
    "agent_get a' (cr_instance_id m) \<noteq> None" "ag_node_id a' = ag_node_id a"
    "ag_publishes a' = ag_publishes a" "ag_sent a' = ag_sent a"
  using assms(1-3) unfolding assms(4)
  by (simp_all add: launch_slot_def agent_record_def agent_get_def adapter_launch_def native_launch_def native_started_def Let_def)

lemma reap_after:
  assumes "w < length (nh_waits h)" "nh_waits h ! w = \<lparr>wt_id = i, wt_cell = k, wt_phase = Spawned\<rparr>"
    "k < length (nh_cells h)" "nh_cells h ! k = Some p" "p < length (nh_procs h)" "pr_status (nh_procs h ! p) = None"
  shows "nh_exits (native_reap w None (process_exit p s (native_take w h))) = nh_exits h @ [native_notice i (Inr s)]"
  using assms by (simp add: native_take_def process_exit_def native_reap_def Let_def)

lemma exit_roundtrip_agent:
  assumes "partial_mode m = False" "cr_replicas m = 1" "cr_runtime m = Runtime_Native exec args env"
    and "registry_get (ag_registry a) ''native'' = Some Adapter_Native" "nh_exits (ag_host a) = []"
    and "hx_spawn_error (gx_host ext) (nh_spawns (ag_host a)) = None" "\<forall>k. gx_publish_error ext k = None"
    and "gx_decode_run ext payload = Inr e" "m = en_payload e"
    and "w = length (nh_waits (ag_host a))" "p = length (nh_procs (ag_host a))"
    and "a1 = snd (dispatch_control ext now (for_node Topic_ControlRun node) payload a)"
    and "a2 = on_host (\<lambda>h. native_reap w None (process_exit p s (native_take w h))) a1"
  shows "\<exists>id. ag_sent (forward_exit ext now' a2) = ag_sent a @
     [(topic_as_str Topic_TaskEvents, Am_Event (envelope_new id now' (Some (ag_node_id a))
        \<lparr>te_task_id = cr_instance_id m, te_node_id = ag_node_id a, te_outcome = exit_outcome (native_notice (cr_instance_id m) (Inr s))\<rparr>))]"
proof -
  have a1: "a1 = snd (launch_slot ext now m Adapter_Native 0 a)"
    using run_single_host [OF assms(1-4,6,8,9)] assms(12) by simp
  note l = launch_single [OF assms(1,3,6) a1]
  have "nh_exits (ag_host a2) = [native_notice (cr_instance_id m) (Inr s)]"
    using reap_after [of w "ag_host a1" "cr_instance_id m" "length (nh_cells (ag_host a))" p s] assms(5)
    by (simp add: assms(10,11,13) l nth_append)
  moreover have "agent_get a2 (cr_instance_id m) \<noteq> None" "ag_node_id a2 = ag_node_id a" "ag_sent a2 = ag_sent a"
    using l(6,7,9) by (simp_all add: assms(13))
  moreover have "xn_instance_id (native_notice i r) = i" for i r
    by (simp add: native_notice_def split: sum.split)
  ultimately show ?thesis
    using assms(7) by (auto simp: forward_exit_def Let_def agent_send_sent agent_forget_def)
qed


lemma dispatched_message:
  assumes "dispatch_workload_with_slots ext now wk name rt g reps slots st = (Inr (node, i), st1)"
  shows "\<exists>env. as_sent st1 = as_sent st @ [(for_node Topic_ControlRun node, Msg_Run env)] \<and>
    cr_instance_id (en_payload env) = i \<and> cr_name (en_payload env) = name \<and> cr_kind (en_payload env) = wk \<and>
    cr_runtime (en_payload env) = rt \<and> cr_replicas (en_payload env) = reps \<and> cr_slot_indices (en_payload env) = slots"
    and "as_instances st1 = as_instances st"
  using assms unfolding dispatch_with_slots_eq
  by (auto simp: Let_def envelope_new_def split: option.splits simp del: for_node.simps)

lemma task_events_match:
  "subject_matching matches \<Longrightarrow> matches (topic_as_str Topic_TaskEvents) (topic_as_str Topic_TaskEvents)"
  by (simp add: subject_matching_def)

lemma subject_matching_star:
  assumes "subject_matching matches" and "CHR ''*'' \<notin> set p" and "CHR ''>'' \<notin> set p"
  shows "matches (p @ ''.*'') (p @ ''.'' @ t) \<longleftrightarrow> t \<noteq> [] \<and> CHR ''.'' \<notin> set t"
  using assms unfolding subject_matching_def by simp

definition unknown_to :: "agent_state \<Rightarrow> uuid \<Rightarrow> bool" where
  "unknown_to a i \<longleftrightarrow> agent_get a i = None \<and> (\<forall>p \<in> set (nh_procs (ag_host a)). pr_instance p \<noteq> i)"

lemma launch_slot_unknown:
  assumes "partial_mode m" and "\<forall>n. gx_new_uuid ext n \<noteq> i" and "unknown_to a i"
  shows "unknown_to (snd (launch_slot ext now m ad idx a)) i"
proof -
  let ?j = "gx_new_uuid ext (ag_drawn a)"
  let ?sp = "\<lparr>lp_instance_id = ?j, lp_name = cr_name m, lp_runtime = inject_replica_env idx (total_replicas m) (cr_runtime m),
    lp_log_sink = True, lp_exit_sink = True\<rparr>"
  have host: "ag_host (snd (launch_slot ext now m ad idx a)) = snd (adapter_launch (gx_host ext) ad ?sp (ag_host a))"
    and inst: "ag_instances (snd (launch_slot ext now m ad idx a)) =
      hm_insert ?j \<lparr>im_kind = cr_kind m, im_name = cr_name m, im_replica_index = idx, im_started_at = now\<rparr> (ag_instances a)"
    using assms(1) by (simp_all add: launch_slot_def agent_draw_def agent_record_def Let_def split: prod.split sum.split)
  have "pr_instance p \<noteq> i" if "p \<in> set (nh_procs (snd (adapter_launch (gx_host ext) ad ?sp (ag_host a))))" for p
  proof (cases "p \<in> set (nh_procs (ag_host a))")
    case False
    with adapter_launch_procs [OF that] assms(2) show ?thesis by auto
  qed (use assms(3) in \<open>simp add: unknown_to_def\<close>)
  moreover have "?j \<noteq> i" using assms(2) by simp
  ultimately show ?thesis using assms(3) by (auto simp: unknown_to_def agent_get_def host inst)
qed

lemma launch_slots_unknown:
  assumes "partial_mode m" and "\<forall>n. gx_new_uuid ext n \<noteq> i" and "unknown_to a i"
  shows "unknown_to (snd (launch_slots ext now m ad slots a)) i"
  using assms(3)
proof (induction slots arbitrary: a)
  case (Cons idx slots)
  from launch_slot_unknown [OF assms(1,2) Cons.prems, of now ad idx] Cons.IH show ?case
    by (cases "launch_slot ext now m ad idx a") (auto split: sum.split)
qed simp

lemma inventory_row:
  assumes "query db_observed_node (as_store st) = Inr rows" and "hm_wf rows" and "cx_encode_inventory cx nv = Some s"
    and "st' = on_inventory cx now (Some (envelope_new i t src nv)) st"
  shows "\<exists>rows'. query db_observed_node (as_store st') = Inr rows' \<and> hm_wf rows' \<and>
     hm_get rows' (iv_node_id nv) = Some \<lparr>nd_agent_version = iv_agent_version nv, nd_inventory = Some s,
       nd_last_seen_at = ex_to_rfc3339 (cx_store cx) now\<rparr>"
proof -
  have "db_fault (as_store st) = None" using assms(1) by (auto simp: query_def split: option.splits)
  then show ?thesis
    using assms(1-3) by (simp add: assms(4) on_inventory_def envelope_new_def set_node_inventory_def query_def Let_def ok_or_def)
qed

subsection \<open>An example mesh\<close>

text \<open>One node and a stored task; the task is dispatched over HTTP, runs on the node and ends with
  code three.\<close>

definition exec_task :: resource where
  "exec_task = demo_task\<lparr>rs_body := Body_Task (default_task_spec
     \<lparr>tk_runtime := Some (Runtime_Native ''/bin/backup'' [] [])\<rparr>) None\<rparr>"

definition wire_ctl :: ctl_ext where
  "wire_ctl = demo_ctl\<lparr>cx_store := (cx_store demo_ctl)\<lparr>ex_decode_resource := \<lambda>_. Inr exec_task\<rparr>\<rparr>"

definition wire_run :: "control_run envelope" where
  "wire_run = envelope_new 1 2 None
     \<lparr>cr_instance_id = 0, cr_kind = WK_Task, cr_name = ''backup'', cr_runtime = Runtime_Native ''/bin/backup'' [] [],
      cr_generation = 1, cr_replicas = 1, cr_health_check = None, cr_slot_indices = []\<rparr>"

definition wire_agent :: agent_ext where
  "wire_agent = demo_agent\<lparr>gx_decode_run := \<lambda>_. Inr wire_run\<rparr>"

definition token_match :: "string \<Rightarrow> string \<Rightarrow> bool" where
  "token_match p s \<longleftrightarrow>
     (if CHR ''*'' \<in> set p then
        (let n = length p - 1; t = drop n s in take n s = take n p \<and> t \<noteq> [] \<and> CHR ''.'' \<notin> set t)
      else s = p)"

definition demo_wire :: mesh_ext where
  "demo_wire = \<lparr>mx_ctl = wire_ctl, mx_agent = \<lambda>_. wire_agent, mx_matches = token_match,
     mx_encode_run = \<lambda>_. ''task'', mx_encode_stop = \<lambda>_. ''stop''\<rparr>"

lemma token_match_star: "token_match (p @ ''.*'') s \<longleftrightarrow> (\<exists>t. s = p @ ''.'' @ t \<and> t \<noteq> [] \<and> CHR ''.'' \<notin> set t)"
proof -
  have "take (Suc (length p)) s = p @ ''.'' \<Longrightarrow> s = p @ ''.'' @ drop (Suc (length p)) s"
    by (metis append.assoc append_take_drop_id)
  then show ?thesis by (auto simp: token_match_def Let_def intro!: exI [of _ "drop (Suc (length p)) s"])
qed

lemma token_matching: "subject_matching token_match"
  unfolding subject_matching_def using token_match_star by (auto simp: token_match_def)

lemma wire_pick: "pick_node_for_dispatch wire_ctl 2 demo_state ''backup'' WK_Task = Some ''mini''"
proof -
  have "live_candidates wire_ctl 2 demo_state =
      [\<lparr>cn_node_id = ''mini'', cn_arch = Arm64, cn_os = Macos, cn_gpus = [], cn_roles = [], cn_labels = []\<rparr>]"
    by (simp add: live_candidates_def observed_nodes_def list_nodes_def query_def demo_state_def app_state_new_def
        demo_mesh_def observed_of_row_def wire_ctl_def demo_ctl_def demo_ext_def candidate_of_def NODE_TIMEOUT_def
        demo_inventory_def List.map_filter_simps)
  moreover have "placement_for wire_ctl demo_state ''backup'' WK_Task = default_placement"
    by (simp add: placement_for_def lookup_ok_def lookup_resource_def get_resource_def query_def
      workload_kind_str_def demo_state_def app_state_new_def demo_mesh_def wire_ctl_def demo_ctl_def hm_get_def
      exec_task_def default_task_spec_def)
  ultimately show ?thesis
    by (simp add: pick_node_for_dispatch_def pick_best_def score_entry_def
        filter_nodes_by_placement_def node_passes_def default_placement_def Let_def)
qed

lemma wire_dispatch_slots:
  "dispatch_workload_with_slots wire_ctl 2 WK_Task ''backup'' (Runtime_Native ''/bin/backup'' [] []) 1 1 slots demo_state =
     (Inr (''mini'', 0), demo_state\<lparr>as_drawn := 2, as_publishes := 1, as_sent := [(for_node Topic_ControlRun ''mini'',
        Msg_Run (wire_run\<lparr>en_payload := (en_payload wire_run)\<lparr>cr_slot_indices := slots\<rparr>\<rparr>))]\<rparr>)"
  unfolding dispatch_with_slots_eq wire_pick
  by (simp add: Let_def wire_run_def service_health_check_def wire_ctl_def demo_ctl_def demo_state_def app_state_new_def
      envelope_new_def)

lemma wire_dispatch:
  "dispatch_workload wire_ctl 2 WK_Task ''backup'' (Runtime_Native ''/bin/backup'' [] []) 1 1 demo_state =
     (Inr (''mini'', 0), demo_state\<lparr>as_drawn := 2, as_publishes := 1,
        as_sent := [(for_node Topic_ControlRun ''mini'', Msg_Run wire_run)]\<rparr>)"
  unfolding dispatch_workload_def wire_dispatch_slots by (simp add: wire_run_def envelope_new_def)

lemma wire_http_dispatch:
  "ctl_react wire_ctl demo_state (Http_Dispatch 2 ''Task'' ''backup'') =
     register_dispatch 2 ''Task'' ''backup'' (dispatch_workload wire_ctl 2 WK_Task ''backup'' (Runtime_Native ''/bin/backup'' [] []) 1 1 demo_state)"
proof -
  have "lookup_resource wire_ctl demo_state ''Task'' ''backup'' = Inr (Some exec_task)"
    by (simp add: lookup_resource_def get_resource_def query_def demo_state_def app_state_new_def demo_mesh_def
        wire_ctl_def demo_ctl_def hm_get_def)
  moreover have "runtime_and_replicas exec_task = Inr (Runtime_Native ''/bin/backup'' [] [], 1)"
    "md_name (rs_metadata exec_task) = ''backup''" "md_generation (rs_metadata exec_task) = None"
    by (simp_all add: runtime_and_replicas_def exec_task_def demo_task_def default_task_spec_def)
  ultimately show ?thesis
    by (simp add: dispatch_resource_def wire_dispatch register_dispatch_def Let_def)
qed


definition wire_dispatched :: app_state where
  "wire_dispatched = register_dispatch 2 ''Task'' ''backup'' (Inr (''mini'', 0),
     demo_state\<lparr>as_drawn := 2, as_publishes := 1, as_sent := [(for_node Topic_ControlRun ''mini'', Msg_Run wire_run)]\<rparr>)"

definition wire_running :: agent_state where
  "wire_running = snd (dispatch_control wire_agent 3 (for_node Topic_ControlRun ''mini'') ''task'' (agent_start wire_agent ''mini''))"

definition exit_three :: exit_status where
  "exit_three = \<lparr>es_code = Some 3, es_debug = ''exit status: 3''\<rparr>"

definition wire_ended :: agent_state where
  "wire_ended = forward_exit wire_agent 4
     (on_host (\<lambda>h. native_reap 0 None (process_exit 0 exit_three (native_take 0 h))) wire_running)"

lemma wire_dispatched_sent: "as_sent wire_dispatched = [(for_node Topic_ControlRun ''mini'', Msg_Run wire_run)]"
  by (simp add: wire_dispatched_def register_dispatch_def del: for_node.simps)

lemma wire_start:
  "registry_get (ag_registry (agent_start wire_agent ''mini'')) ''native'' = Some Adapter_Native"
  "nh_exits (ag_host (agent_start wire_agent ''mini'')) = []" "nh_waits (ag_host (agent_start wire_agent ''mini'')) = []"
  "nh_procs (ag_host (agent_start wire_agent ''mini'')) = []" "ag_node_id (agent_start wire_agent ''mini'') = ''mini''"
  "\<not> fst (docker_available (gx_host wire_agent) host_new)"
  by (simp_all add: agent_start_def wire_agent_def demo_agent_def demo_host_def docker_available_def run_docker_def
      registry_get_def registry_register_def registry_new_def host_new_def Let_def)

lemma wire_faultless:
  "hx_spawn_error (gx_host wire_agent) n = None" "gx_publish_error wire_agent n = None"
  "gx_decode_run wire_agent p = Inr wire_run" "cx_publish_error wire_ctl n = None"
  by (simp_all add: wire_agent_def demo_agent_def demo_host_def wire_ctl_def demo_ctl_def)

lemma wire_run_payload:
  "partial_mode (en_payload wire_run) = False" "cr_replicas (en_payload wire_run) = 1"
  "cr_runtime (en_payload wire_run) = Runtime_Native ''/bin/backup'' [] []" "cr_instance_id (en_payload wire_run) = 0"
  by (simp_all add: wire_run_def envelope_new_def partial_mode_def)

lemma wire_running_procs: "length (nh_procs (ag_host wire_running)) = 1"
proof -
  have "wire_running = snd (launch_slot wire_agent 3 (en_payload wire_run) Adapter_Native 0 (agent_start wire_agent ''mini''))"
    using run_single_host [OF wire_run_payload(1-3) wire_start(1) wire_faultless(1,3) refl] by (simp add: wire_running_def del: for_node.simps)
  from launch_single(3) [OF wire_run_payload(1,3) wire_faultless(1) this] show ?thesis by (simp add: wire_start)
qed

lemma mesh_one_agent:
  assumes "mesh_reachable ext \<lparr>ms_ctl = c, ms_agents = [a]\<rparr>"
  shows "\<not> is_control e \<Longrightarrow> mesh_reachable ext \<lparr>ms_ctl = c, ms_agents = [agent_react (mx_agent ext 0) a e]\<rparr>"
    and "(subject, msg) \<in> set (as_sent c) \<Longrightarrow> subject \<in> set (control_subjects_for_node (ag_node_id a)) \<Longrightarrow>
      mesh_reachable ext \<lparr>ms_ctl = c, ms_agents = [agent_react (mx_agent ext 0) a (Ag_Control now subject (control_payload ext msg))]\<rparr>"
    and "msg' \<in> set (ag_sent a) \<Longrightarrow>
      mesh_reachable ext \<lparr>ms_ctl = deliver_to_controller ext now msg' c, ms_agents = [a]\<rparr>"
  using mesh_reachable.step [OF assms mesh_step.agent [of 0]] mesh_reachable.step [OF assms mesh_step.to_agent [of 0]]
    mesh_reachable.step [OF assms mesh_step.to_controller [of 0]]
  by (simp_all del: agent_react.simps)

lemma wire_running_reachable: "mesh_reachable demo_wire \<lparr>ms_ctl = wire_dispatched, ms_agents = [wire_running]\<rparr>"
proof -
  have "mesh_reachable demo_wire \<lparr>ms_ctl = demo_state, ms_agents = [agent_start wire_agent ''mini'']\<rparr>"
    using mesh_reachable.start [of demo_wire demo_mesh _ _ "[''mini'']"] by (simp add: demo_state_def demo_wire_def)
  from mesh_reachable.step [OF this mesh_step.controller [of "Http_Dispatch 2 ''Task'' ''backup''"]]
  have "mesh_reachable demo_wire \<lparr>ms_ctl = wire_dispatched, ms_agents = [agent_start wire_agent ''mini'']\<rparr>"
    by (simp add: from_bus_def demo_wire_def wire_http_dispatch wire_dispatch wire_dispatched_def del: ctl_react.simps)
  from mesh_one_agent(2) [OF this, of "for_node Topic_ControlRun ''mini''" "Msg_Run wire_run" 3] show ?thesis
    by (simp add: wire_dispatched_sent wire_start control_subjects_for_node_def demo_wire_def control_payload_def
        wire_running_def del: for_node.simps)
qed

lemma wire_ended_reachable: "mesh_reachable demo_wire \<lparr>ms_ctl = wire_dispatched, ms_agents = [wire_ended]\<rparr>"
proof -
  note r = mesh_one_agent(1) [of demo_wire]
  from r [OF r [OF r [OF r [OF wire_running_reachable, of "Ag_Take 0"], of "Ag_Process_Exit 0 exit_three"], of "Ag_Reap 0 None"],
      of "Ag_Forward_Exit 4"]
  show ?thesis by (simp add: is_control_def wire_ended_def demo_wire_def)
qed

lemma wire_event:
  "\<exists>id. ag_sent wire_ended = [(topic_as_str Topic_TaskEvents, Am_Event (envelope_new id 4 (Some ''mini'')
     \<lparr>te_task_id = 0, te_node_id = ''mini'', te_outcome = exit_outcome (native_notice 0 (Inr exit_three))\<rparr>))]"
proof -
  have "ag_sent (agent_start wire_agent ''mini'') = []" by (simp add: agent_start_def Let_def split_beta)
  with exit_roundtrip_agent [OF wire_run_payload(1-3) wire_start(1,2) wire_faultless(1) _ wire_faultless(3) refl refl refl
      wire_running_def refl, of 4 exit_three]
  show ?thesis by (simp add: wire_faultless wire_start wire_run_payload wire_ended_def del: topic_as_str.simps)
qed

lemma wire_record:
  "\<exists>r. hm_get (by_id (as_instances (deliver_to_controller demo_wire 5 (last (ag_sent wire_ended)) wire_dispatched))) 0 = Some r \<and>
       ir_exit_code r = Some 3"
proof -
  have "mx_matches demo_wire (topic_as_str Topic_TaskEvents) (topic_as_str Topic_TaskEvents)"
    using task_events_match [OF token_matching] by (simp add: demo_wire_def del: topic_as_str.simps)
  moreover have "hm_get (by_id (as_instances wire_dispatched)) 0 \<noteq> None"
    by (simp add: wire_dispatched_def register_dispatch_def record_dispatch_def Let_def)
  moreover have "task_exit_of (exit_outcome (native_notice 0 (Inr exit_three))) = Some (3, ''failed'')"
    by (simp add: exit_outcome_def native_notice_def exit_three_def task_exit_of_def)
  ultimately show ?thesis
    using wire_event
    by (auto simp: deliver_to_controller_def on_task_event_def record_exit_def envelope_new_def Let_def simp del: topic_as_str.simps)
qed

end
