(* ===== verification/Wasm.thy ===== *)
theory Wasm
  imports Runtimes
begin

text \<open>
  The WebAssembly adapter (\<^verbatim>\<open>crates/orion-runtime/src/wasm.rs\<close>): an instance is a task of the
  agent's own process that instantiates a module and calls its \<^verbatim>\<open>_start\<close>; a map of join handles
  lets \<^verbatim>\<open>stop\<close> cancel it.

  A join handle is the index of its task. The adapter runs on a pool of threads, so a launch is two
  steps, the spawn of the task and the insertion of its handle, and the end of a task is two steps,
  the removal of its handle and the sending of its notice; every interleaving of these steps with
  stops is a sequence of events. The engine is a parameter: what compiling a module and setting up
  the linker answer is a field of \<open>wasm_ext\<close>, what a guest does is carried by the event of its end.
  A cancelled task ends at a point where it waits (\<open>wasm_cancel\<close>) or has run past its last one
  before it sees the request, so both steps are open to it.
\<close>

subsection \<open>The adapter\<close>

datatype wasm_phase = Wasm_Guest | Wasm_Leaving exit_notice | Wasm_Over | Wasm_Cancelled

text \<open>The context a module is given: its arguments and environment, and whether the two output
  streams are those of the agent.\<close>

record wasi_ctx =
  wc_args :: "string list"
  wc_env :: labels
  wc_inherit_stdout :: bool
  wc_inherit_stderr :: bool

record wasm_task =
  wk_id :: uuid
  wk_ctx :: wasi_ctx
  wk_sink :: bool
  wk_filed :: bool
  wk_abort :: bool
  wk_phase :: wasm_phase

record wasm_host =
  wa_abort :: "(uuid, nat) hash_map"
  wa_tasks :: "wasm_task list"
  wa_launches :: nat
  wa_exits :: "exit_notice list"

record wasm_ext =
  wx_module_error :: "nat \<Rightarrow> string \<Rightarrow> string option"
  wx_linker_error :: "nat \<Rightarrow> string option"
  wx_uuid_text :: "uuid \<Rightarrow> string"

text \<open>What the engine answers to the three calls of a task: instantiation, the look-up of
  \<^verbatim>\<open>_start\<close>, and the call.\<close>

record guest_run =
  gr_instantiate :: "string option"
  gr_start :: "string option"
  gr_call :: "string option"

definition wasm_new :: wasm_host where
  "wasm_new = \<lparr>wa_abort = [], wa_tasks = [], wa_launches = 0, wa_exits = []\<rparr>"

definition wasm_name :: string where
  "wasm_name = ''wasm''"

definition wasi_context :: "string \<Rightarrow> wasi_ctx" where
  "wasi_context id_str =
     \<lparr>wc_args = [id_str], wc_env = [], wc_inherit_stdout = True, wc_inherit_stderr = True\<rparr>"

text \<open>A launch up to the spawn; the result is the index of the task.\<close>

definition wasm_spawn :: "wasm_ext \<Rightarrow> launch_spec \<Rightarrow> wasm_host \<Rightarrow> (runtime_error + nat) \<times> wasm_host" where
  "wasm_spawn ext sp h =
     (case lp_runtime sp of
        Runtime_Wasm module_path \<Rightarrow>
          (let h1 = h\<lparr>wa_launches := Suc (wa_launches h)\<rparr>
           in case wx_module_error ext (wa_launches h) module_path of
                Some e \<Rightarrow> (Inl (Launch_Error (''module '' @ module_path @ '': '' @ e)), h1)
              | None \<Rightarrow>
                  (case wx_linker_error ext (wa_launches h) of
                     Some e \<Rightarrow> (Inl (Launch_Error (''linker setup: '' @ e)), h1)
                   | None \<Rightarrow>
                       (Inr (length (wa_tasks h)),
                        h1\<lparr>wa_tasks := wa_tasks h @
                          [\<lparr>wk_id = lp_instance_id sp,
                            wk_ctx = wasi_context (wx_uuid_text ext (lp_instance_id sp)),
                            wk_sink = lp_exit_sink sp, wk_filed = False, wk_abort = False,
                            wk_phase = Wasm_Guest\<rparr>]\<rparr>)))
      | other \<Rightarrow> (Inl (Mismatch ''wasm'' (runtime_kind_str other)), h))"

text \<open>The insertion of the handle, once for every task.\<close>

definition wasm_file :: "nat \<Rightarrow> wasm_host \<Rightarrow> wasm_host" where
  "wasm_file n h =
     (if n < length (wa_tasks h) \<and> \<not> wk_filed (wa_tasks h ! n) then
        h\<lparr>wa_abort := hm_insert (wk_id (wa_tasks h ! n)) n (wa_abort h),
          wa_tasks := (wa_tasks h)[n := (wa_tasks h ! n)\<lparr>wk_filed := True\<rparr>]\<rparr>
      else h)"

definition wasm_launch ::
  "wasm_ext \<Rightarrow> launch_spec \<Rightarrow> wasm_host \<Rightarrow> (runtime_error + launched_instance) \<times> wasm_host" where
  "wasm_launch ext sp h =
     (case wasm_spawn ext sp h of
        (Inl e, h1) \<Rightarrow> (Inl e, h1)
      | (Inr n, h1) \<Rightarrow>
          (Inr \<lparr>li_instance_id = lp_instance_id sp,
                li_native_handle = ''wasm:'' @ wx_uuid_text ext (lp_instance_id sp)\<rparr>,
           wasm_file n h1))"

definition wasm_result :: "guest_run \<Rightarrow> string + unit" where
  "wasm_result g =
     (case gr_instantiate g of
        Some e \<Rightarrow> Inl (''instantiate: '' @ e)
      | None \<Rightarrow>
          (case gr_start g of
             Some e \<Rightarrow> Inl (''missing _start: '' @ e)
           | None \<Rightarrow>
               (case gr_call g of
                  Some e \<Rightarrow> Inl (''call _start: '' @ e)
                | None \<Rightarrow> Inr ())))"

definition wasm_notice :: "uuid \<Rightarrow> string + unit \<Rightarrow> exit_notice" where
  "wasm_notice i r =
     (case r of
        Inr _ \<Rightarrow> \<lparr>xn_instance_id = i, xn_exit_code = Some 0, xn_message = ''wasm module returned''\<rparr>
      | Inl e \<Rightarrow> \<lparr>xn_instance_id = i, xn_exit_code = Some 1, xn_message = ''wasm error: '' @ e\<rparr>)"

definition wasm_leave :: "nat \<Rightarrow> guest_run \<Rightarrow> wasm_host \<Rightarrow> wasm_host" where
  "wasm_leave n g h =
     (if n < length (wa_tasks h) \<and> wk_phase (wa_tasks h ! n) = Wasm_Guest then
        (let t = wa_tasks h ! n
         in h\<lparr>wa_abort := hm_remove (wk_id t) (wa_abort h),
              wa_tasks := (wa_tasks h)[n :=
                t\<lparr>wk_phase := Wasm_Leaving (wasm_notice (wk_id t) (wasm_result g))\<rparr>]\<rparr>)
      else h)"

definition wasm_send :: "nat \<Rightarrow> wasm_host \<Rightarrow> wasm_host" where
  "wasm_send n h =
     (if n < length (wa_tasks h) then
        (case wk_phase (wa_tasks h ! n) of
           Wasm_Leaving notice \<Rightarrow>
             h\<lparr>wa_exits := wa_exits h @ (if wk_sink (wa_tasks h ! n) then [notice] else []),
               wa_tasks := (wa_tasks h)[n := (wa_tasks h ! n)\<lparr>wk_phase := Wasm_Over\<rparr>]\<rparr>
         | _ \<Rightarrow> h)
      else h)"

text \<open>The request of a cancellation, and the end of a task that sees it while it waits.\<close>

definition wasm_request :: "nat \<Rightarrow> wasm_host \<Rightarrow> wasm_host" where
  "wasm_request n h = h\<lparr>wa_tasks := (wa_tasks h)[n := (wa_tasks h ! n)\<lparr>wk_abort := True\<rparr>]\<rparr>"

definition wasm_cancel :: "nat \<Rightarrow> wasm_host \<Rightarrow> wasm_host" where
  "wasm_cancel n h =
     (if n < length (wa_tasks h) \<and> wk_phase (wa_tasks h ! n) = Wasm_Guest \<and> wk_abort (wa_tasks h ! n)
      then h\<lparr>wa_tasks := (wa_tasks h)[n := (wa_tasks h ! n)\<lparr>wk_phase := Wasm_Cancelled\<rparr>]\<rparr>
      else h)"

definition wasm_stop :: "uuid \<Rightarrow> wasm_host \<Rightarrow> (runtime_error + unit) \<times> wasm_host" where
  "wasm_stop i h =
     (case hm_get (wa_abort h) i of
        None \<Rightarrow> (Inr (), h)
      | Some n \<Rightarrow> (Inr (), wasm_request n (h\<lparr>wa_abort := hm_remove i (wa_abort h)\<rparr>)))"

subsection \<open>The contract of an adapter\<close>

definition wasm_knows :: "wasm_host \<Rightarrow> uuid \<Rightarrow> bool" where
  "wasm_knows h i \<longleftrightarrow> hm_get (wa_abort h) i \<noteq> None"

fun is_wasm :: "runtime \<Rightarrow> bool" where
  "is_wasm (Runtime_Wasm _) = True"
| "is_wasm _ = False"

interpretation wasm: runtime_adapter "wasm_launch ext" wasm_stop wasm_knows is_wasm "''wasm''"
  for ext
  by unfold_locales
    (auto simp: wasm_launch_def wasm_spawn_def wasm_file_def wasm_stop_def wasm_request_def wasm_knows_def Let_def
       split: runtime.splits option.splits if_splits prod.splits sum.splits)
subsection \<open>Runs of the adapter\<close>

datatype wasm_event =
    W_Spawn launch_spec
  | W_File nat
  | W_Leave nat guest_run
  | W_Send nat
  | W_Cancel nat
  | W_Stop uuid

fun wasm_step :: "wasm_ext \<Rightarrow> wasm_host \<Rightarrow> wasm_event \<Rightarrow> wasm_host" where
  "wasm_step ext h (W_Spawn sp) = snd (wasm_spawn ext sp h)"
| "wasm_step ext h (W_File n) = wasm_file n h"
| "wasm_step ext h (W_Leave n g) = wasm_leave n g h"
| "wasm_step ext h (W_Send n) = wasm_send n h"
| "wasm_step ext h (W_Cancel n) = wasm_cancel n h"
| "wasm_step ext h (W_Stop i) = snd (wasm_stop i h)"

text \<open>The notices that were sent are those of the tasks that are over, one for each task with a
  sink; each tells whether the module returned.\<close>

definition wasm_sent :: "wasm_task \<Rightarrow> bool" where
  "wasm_sent t \<longleftrightarrow> wk_sink t \<and> wk_phase t = Wasm_Over"

definition wasm_over :: "uuid \<Rightarrow> wasm_task list \<Rightarrow> nat" where
  "wasm_over i ts = length (filter (\<lambda>t. wk_id t = i \<and> wasm_sent t) ts)"

definition notice_faithful :: "exit_notice \<Rightarrow> bool" where
  "notice_faithful x \<longleftrightarrow> (\<exists>g. x = wasm_notice (xn_instance_id x) (wasm_result g))"

definition wasm_inv :: "wasm_host \<Rightarrow> bool" where
  "wasm_inv h \<longleftrightarrow>
     (\<forall>i n. hm_get (wa_abort h) i = Some n \<longrightarrow>
        n < length (wa_tasks h) \<and> wk_id (wa_tasks h ! n) = i \<and> wk_filed (wa_tasks h ! n)) \<and>
     (\<forall>n x. n < length (wa_tasks h) \<and> wk_phase (wa_tasks h ! n) = Wasm_Leaving x \<longrightarrow>
        xn_instance_id x = wk_id (wa_tasks h ! n) \<and> notice_faithful x) \<and>
     (\<forall>x \<in> set (wa_exits h). notice_faithful x) \<and>
     (\<forall>i. notices_for i (wa_exits h) = wasm_over i (wa_tasks h))"

lemma wasm_notice_id [simp]: "xn_instance_id (wasm_notice i r) = i"
  by (simp add: wasm_notice_def split: sum.split)

lemma notice_faithful_wasm [simp]: "notice_faithful (wasm_notice i (wasm_result g))"
  by (auto simp: notice_faithful_def)

lemma wasm_over_update:
  "n < length ts \<Longrightarrow>
     wasm_over i (ts[n := t]) + (if wk_id (ts ! n) = i \<and> wasm_sent (ts ! n) then 1 else 0) =
       wasm_over i ts + (if wk_id t = i \<and> wasm_sent t then 1 else 0)"
  unfolding wasm_over_def by (rule length_filter_update)

lemma wasm_over_same:
  "n < length ts \<Longrightarrow> wk_id t = wk_id (ts ! n) \<Longrightarrow> wasm_sent t = wasm_sent (ts ! n) \<Longrightarrow>
     wasm_over i (ts[n := t]) = wasm_over i ts"
  using wasm_over_update [of n ts i t] by (simp split: if_splits)

lemma wasm_over_snoc [simp]: "wasm_over i (ts @ [t]) = wasm_over i ts + (if wk_id t = i \<and> wasm_sent t then 1 else 0)"
  by (simp add: wasm_over_def)

lemma wasm_spawn_cases:
  obtains (refused) e k where "wasm_spawn ext sp h = (Inl e, h\<lparr>wa_launches := k\<rparr>)"
  | (spawned) t k where
      "wasm_spawn ext sp h = (Inr (length (wa_tasks h)), h\<lparr>wa_launches := k, wa_tasks := wa_tasks h @ [t]\<rparr>)"
      "wk_id t = lp_instance_id sp" "wk_sink t = lp_exit_sink sp" "\<not> wk_filed t" "\<not> wk_abort t"
      "wk_phase t = Wasm_Guest" "is_wasm (lp_runtime sp)"
proof (cases "lp_runtime sp")
  case (Runtime_Wasm p)
  then show ?thesis
    by (cases "wx_module_error ext (wa_launches h) p"; cases "wx_linker_error ext (wa_launches h)")
      (auto simp: wasm_spawn_def Let_def intro: refused spawned)
qed (auto simp: wasm_spawn_def intro: refused [of _ "wa_launches h"])

lemma wasm_inv_launches: "wasm_inv h \<Longrightarrow> wasm_inv (h\<lparr>wa_launches := k\<rparr>)"
  by (simp add: wasm_inv_def)

lemma wasm_inv_spawn: "wasm_inv h \<Longrightarrow> wasm_inv (snd (wasm_spawn ext sp h))"
  by (cases rule: wasm_spawn_cases [of ext sp h])
    (auto simp: wasm_inv_def nth_append wasm_sent_def less_Suc_eq split: if_splits)

lemma wasm_inv_file: "wasm_inv h \<Longrightarrow> wasm_inv (wasm_file n h)"
  by (auto simp: wasm_inv_def wasm_file_def nth_list_update wasm_sent_def wasm_over_same split: if_splits)

lemma wasm_inv_leave: "wasm_inv h \<Longrightarrow> wasm_inv (wasm_leave n g h)"
  by (auto simp: wasm_inv_def wasm_leave_def Let_def nth_list_update wasm_sent_def wasm_over_same
      split: if_splits)

lemma wasm_inv_cancel: "wasm_inv h \<Longrightarrow> wasm_inv (wasm_cancel n h)"
  by (auto simp: wasm_inv_def wasm_cancel_def nth_list_update wasm_sent_def wasm_over_same split: if_splits)

lemma wasm_inv_stop: "wasm_inv h \<Longrightarrow> wasm_inv (snd (wasm_stop i h))"
  by (auto simp: wasm_inv_def wasm_stop_def wasm_request_def nth_list_update wasm_sent_def wasm_over_same
      split: option.split if_splits)

lemma wasm_send_cases:
  obtains (idle) "wasm_send n h = h"
  | (sent) x where "n < length (wa_tasks h)" "wk_phase (wa_tasks h ! n) = Wasm_Leaving x"
      "wasm_send n h =
         h\<lparr>wa_exits := wa_exits h @ (if wk_sink (wa_tasks h ! n) then [x] else []),
           wa_tasks := (wa_tasks h)[n := (wa_tasks h ! n)\<lparr>wk_phase := Wasm_Over\<rparr>]\<rparr>"
  by (cases "wk_phase (wa_tasks h ! n)"; cases "n < length (wa_tasks h)") (auto simp: wasm_send_def)

lemma notices_for_append [simp]: "notices_for i (xs @ [x]) = notices_for i xs + (if xn_instance_id x = i then 1 else 0)"
  by (simp add: notices_for_def)

lemma wasm_inv_send:
  assumes "wasm_inv h"
  shows "wasm_inv (wasm_send n h)"
proof (cases rule: wasm_send_cases [of n h])
  case (sent x)
  have over: "wasm_over i ((wa_tasks h)[n := (wa_tasks h ! n)\<lparr>wk_phase := Wasm_Over\<rparr>]) =
      wasm_over i (wa_tasks h) + (if wk_id (wa_tasks h ! n) = i \<and> wk_sink (wa_tasks h ! n) then 1 else 0)" for i
    using wasm_over_update [of n "wa_tasks h" i "(wa_tasks h ! n)\<lparr>wk_phase := Wasm_Over\<rparr>"] sent
    by (simp add: wasm_sent_def)
  from assms sent show ?thesis
    by (auto simp: wasm_inv_def nth_list_update over split: if_splits)
qed (use assms in simp)

lemma wasm_inv_step: "wasm_inv h \<Longrightarrow> wasm_inv (wasm_step ext h e)"
  by (cases e) (simp_all add: wasm_inv_spawn wasm_inv_file wasm_inv_leave wasm_inv_send wasm_inv_cancel wasm_inv_stop)

lemma wasm_inv_new: "wasm_inv wasm_new"
  by (simp add: wasm_inv_def wasm_new_def notices_for_def wasm_over_def)

interpretation wasm_runs: invariant_machine "wasm_step ext" wasm_inv for ext
  by unfold_locales (rule wasm_inv_step)

subsection \<open>What is reported\<close>

fun wasm_launches :: "uuid \<Rightarrow> wasm_event \<Rightarrow> bool" where
  "wasm_launches i (W_Spawn sp) = (lp_instance_id sp = i \<and> lp_exit_sink sp)"
| "wasm_launches i _ = False"

definition wasm_sinks :: "uuid \<Rightarrow> wasm_task list \<Rightarrow> nat" where
  "wasm_sinks i ts = length (filter (\<lambda>t. wk_id t = i \<and> wk_sink t) ts)"

lemma wasm_sinks_update:
  "n < length ts \<Longrightarrow> wk_id t = wk_id (ts ! n) \<Longrightarrow> wk_sink t = wk_sink (ts ! n) \<Longrightarrow>
     wasm_sinks i (ts[n := t]) = wasm_sinks i ts"
  unfolding wasm_sinks_def
  using length_filter_update [of n ts "\<lambda>t. wk_id t = i \<and> wk_sink t" t] by (simp split: if_splits)

lemma wasm_over_le_sinks: "wasm_over i ts \<le> wasm_sinks i ts"
  unfolding wasm_over_def wasm_sinks_def by (induction ts) (auto simp: wasm_sent_def)

lemma wasm_sinks_request: "wasm_sinks i (wa_tasks (wasm_request n h)) = wasm_sinks i (wa_tasks h)"
  by (cases "n < length (wa_tasks h)") (simp_all add: wasm_request_def wasm_sinks_update list_update_beyond)

lemma wasm_sinks_step:
  "wasm_sinks i (wa_tasks (wasm_step ext h e)) \<le> wasm_sinks i (wa_tasks h) + (if wasm_launches i e then 1 else 0)"
proof (cases e)
  case (W_Spawn sp)
  then show ?thesis by (cases rule: wasm_spawn_cases [of ext sp h]) (simp_all add: wasm_sinks_def)
next
  case (W_Send n)
  then show ?thesis by (cases rule: wasm_send_cases [of n h]) (simp_all add: wasm_sinks_update)
qed (simp_all add: wasm_file_def wasm_leave_def wasm_cancel_def wasm_stop_def Let_def wasm_sinks_update
      wasm_sinks_request split: option.split)

lemma wasm_sinks_run:
  "wasm_sinks i (wa_tasks (foldl (wasm_step ext) h es)) \<le>
     wasm_sinks i (wa_tasks h) + length (filter (wasm_launches i) es)"
proof (induction es arbitrary: h)
  case (Cons e es)
  show ?case using Cons [of "wasm_step ext h e"] wasm_sinks_step [of i ext h e]
    by (cases "wasm_launches i e") simp_all
qed simp

lemma wasm_inv_run: "wasm_inv (foldl (wasm_step ext) wasm_new es)"
  by (rule wasm_runs.inv_run [OF wasm_inv_new])

definition notice_code_ok :: "exit_notice \<Rightarrow> bool" where
  "notice_code_ok x \<longleftrightarrow>
     xn_exit_code x = Some 0 \<and> xn_message x = ''wasm module returned'' \<or>
     xn_exit_code x = Some 1 \<and> starts_with (xn_message x) ''wasm error: ''"

lemma wasm_notice_code: "notice_code_ok (wasm_notice i r)"
  by (cases r) (simp_all add: notice_code_ok_def wasm_notice_def starts_with_def)

lemma notice_faithful_code: "notice_faithful x \<Longrightarrow> notice_code_ok x"
  unfolding notice_faithful_def by (metis wasm_notice_code)

text \<open>Further: the exits of modules are reported faithfully. Whatever the order of launches, stops,
  cancellations and ends, the notices of an instance are exactly as many as its tasks with a sink
  that ran to their end, so at most one for every launch; and a notice tells a return (code 0) from
  an error (code 1 and its message).\<close>

theorem wasm_exits_faithful:
  "notices_for i (wa_exits (foldl (wasm_step ext) wasm_new es)) =
     wasm_over i (wa_tasks (foldl (wasm_step ext) wasm_new es)) \<and>
   wasm_over i (wa_tasks (foldl (wasm_step ext) wasm_new es)) \<le> length (filter (wasm_launches i) es) \<and>
   list_all notice_code_ok (wa_exits (foldl (wasm_step ext) wasm_new es))"
  using wasm_inv_run [of ext es] wasm_sinks_run [of i ext wasm_new es]
    wasm_over_le_sinks [of i "wa_tasks (foldl (wasm_step ext) wasm_new es)"]
  by (auto simp: wasm_inv_def list_all_iff notice_faithful_code wasm_new_def wasm_sinks_def)

text \<open>Further: a launched module reports its end. After a launch with an exit sink, once the guest
  has ended and the task has run to its end, one notice has been sent, which carries the result of
  the guest, and the instance is no longer known.\<close>

theorem wasm_launch_reports:
  assumes "wasm_launch ext sp h = (Inr l, h1)"
  shows "wa_exits (wasm_send (length (wa_tasks h)) (wasm_leave (length (wa_tasks h)) g h1)) =
           wa_exits h @ (if lp_exit_sink sp then [wasm_notice (lp_instance_id sp) (wasm_result g)] else [])"
    and "\<not> wasm_knows (wasm_send (length (wa_tasks h)) (wasm_leave (length (wa_tasks h)) g h1)) (lp_instance_id sp)"
proof -
  obtain t k where t: "wasm_spawn ext sp h = (Inr (length (wa_tasks h)), h\<lparr>wa_launches := k, wa_tasks := wa_tasks h @ [t]\<rparr>)"
      "wk_id t = lp_instance_id sp" "wk_sink t = lp_exit_sink sp" "\<not> wk_filed t" "wk_phase t = Wasm_Guest"
    using assms by (cases rule: wasm_spawn_cases [of ext sp h]) (auto simp: wasm_launch_def)
  then have h1: "h1 = h\<lparr>wa_launches := k, wa_abort := hm_insert (lp_instance_id sp) (length (wa_tasks h)) (wa_abort h),
      wa_tasks := wa_tasks h @ [t\<lparr>wk_filed := True\<rparr>]\<rparr>"
    using assms by (simp add: wasm_launch_def wasm_file_def)
  show "wa_exits (wasm_send (length (wa_tasks h)) (wasm_leave (length (wa_tasks h)) g h1)) =
           wa_exits h @ (if lp_exit_sink sp then [wasm_notice (lp_instance_id sp) (wasm_result g)] else [])"
    and "\<not> wasm_knows (wasm_send (length (wa_tasks h)) (wasm_leave (length (wa_tasks h)) g h1)) (lp_instance_id sp)"
    using t by (simp_all add: h1 wasm_leave_def wasm_send_def Let_def wasm_knows_def)
qed

text \<open>Further: an instance that is stopped while its guest waits is never reported: its task is
  cancelled before it builds a notice.\<close>

theorem wasm_stopped_silent:
  assumes "wasm_launch ext sp h = (Inr l, h1)"
  shows "fst (wasm_stop (lp_instance_id sp) h1) = Inr ()"
    and "wa_exits (wasm_send (length (wa_tasks h)) (wasm_leave (length (wa_tasks h)) g
           (wasm_cancel (length (wa_tasks h)) (snd (wasm_stop (lp_instance_id sp) h1))))) = wa_exits h"
proof -
  obtain t k where t: "wasm_spawn ext sp h = (Inr (length (wa_tasks h)), h\<lparr>wa_launches := k, wa_tasks := wa_tasks h @ [t]\<rparr>)"
      "wk_id t = lp_instance_id sp" "\<not> wk_filed t" "wk_phase t = Wasm_Guest"
    using assms by (cases rule: wasm_spawn_cases [of ext sp h]) (auto simp: wasm_launch_def)
  with assms show "fst (wasm_stop (lp_instance_id sp) h1) = Inr ()"
    and "wa_exits (wasm_send (length (wa_tasks h)) (wasm_leave (length (wa_tasks h)) g
           (wasm_cancel (length (wa_tasks h)) (snd (wasm_stop (lp_instance_id sp) h1))))) = wa_exits h"
    by (auto simp: wasm_launch_def wasm_file_def wasm_stop_def wasm_request_def wasm_cancel_def wasm_leave_def
        wasm_send_def)
qed

subsection \<open>Handles\<close>

text \<open>The thread that launches files the handle before the task it spawned has ended.\<close>

fun wasm_prompt :: "wasm_ext \<Rightarrow> wasm_host \<Rightarrow> wasm_event list \<Rightarrow> bool" where
  "wasm_prompt ext h [] = True"
| "wasm_prompt ext h (e # es) =
     ((case e of
         W_File n \<Rightarrow> n < length (wa_tasks h) \<longrightarrow> wk_phase (wa_tasks h ! n) = Wasm_Guest
       | _ \<Rightarrow> True) \<and>
      wasm_prompt ext (wasm_step ext h e) es)"

definition handles_live :: "wasm_host \<Rightarrow> bool" where
  "handles_live h \<longleftrightarrow>
     (\<forall>i n. hm_get (wa_abort h) i = Some n \<longrightarrow>
        wk_phase (wa_tasks h ! n) = Wasm_Guest \<and> \<not> wk_abort (wa_tasks h ! n)) \<and>
     (\<forall>n. n < length (wa_tasks h) \<and> wk_abort (wa_tasks h ! n) \<longrightarrow> wk_filed (wa_tasks h ! n))"

lemma handles_live_spawn: "wasm_inv h \<Longrightarrow> handles_live h \<Longrightarrow> handles_live (snd (wasm_spawn ext sp h))"
  by (cases rule: wasm_spawn_cases [of ext sp h])
    (auto simp: handles_live_def wasm_inv_def nth_append less_Suc_eq)

lemma handles_live_file:
  "wasm_inv h \<Longrightarrow> handles_live h \<Longrightarrow> (n < length (wa_tasks h) \<longrightarrow> wk_phase (wa_tasks h ! n) = Wasm_Guest) \<Longrightarrow>
     handles_live (wasm_file n h)"
  by (auto simp: handles_live_def wasm_inv_def wasm_file_def nth_list_update split: if_splits)

lemma handles_live_leave: "wasm_inv h \<Longrightarrow> handles_live h \<Longrightarrow> handles_live (wasm_leave n g h)"
  by (auto simp: handles_live_def wasm_inv_def wasm_leave_def nth_list_update Let_def split: if_splits)

lemma handles_live_send: "wasm_inv h \<Longrightarrow> handles_live h \<Longrightarrow> handles_live (wasm_send n h)"
  by (cases rule: wasm_send_cases [of n h])
    (auto simp: handles_live_def wasm_inv_def nth_list_update split: if_splits)

lemma handles_live_cancel: "wasm_inv h \<Longrightarrow> handles_live h \<Longrightarrow> handles_live (wasm_cancel n h)"
  by (auto simp: handles_live_def wasm_inv_def wasm_cancel_def nth_list_update split: if_splits)

lemma wasm_handle_inj: "wasm_inv h \<Longrightarrow> hm_get (wa_abort h) i = Some n \<Longrightarrow> hm_get (wa_abort h) j = Some n \<Longrightarrow> i = j"
  unfolding wasm_inv_def by metis

lemma handles_live_stop: "wasm_inv h \<Longrightarrow> handles_live h \<Longrightarrow> handles_live (snd (wasm_stop i h))"
  using wasm_handle_inj [of h i _]
  by (auto simp: handles_live_def wasm_inv_def wasm_stop_def wasm_request_def nth_list_update
      split: if_splits option.split)

lemma handles_live_step:
  "wasm_inv h \<Longrightarrow> handles_live h \<Longrightarrow> wasm_prompt ext h [e] \<Longrightarrow> handles_live (wasm_step ext h e)"
  by (cases e) (simp_all add: handles_live_spawn handles_live_file handles_live_leave handles_live_send
      handles_live_cancel handles_live_stop)

lemma handles_live_run:
  "wasm_inv h \<Longrightarrow> handles_live h \<Longrightarrow> wasm_prompt ext h es \<Longrightarrow> handles_live (foldl (wasm_step ext) h es)"
  by (induction es arbitrary: h) (simp_all add: wasm_inv_step handles_live_step)

text \<open>Further: as long as a handle is filed before its task ends, the adapter knows only
  instances that are running and not asked to stop, and a stop of one of them asks its task to
  end.\<close>

theorem wasm_handles_live:
  assumes "wasm_prompt ext wasm_new es"
  defines "h \<equiv> foldl (wasm_step ext) wasm_new es"
  assumes "hm_get (wa_abort h) i = Some n"
  shows "wk_id (wa_tasks h ! n) = i" "wk_phase (wa_tasks h ! n) = Wasm_Guest" "\<not> wk_abort (wa_tasks h ! n)"
    "wk_abort (wa_tasks (snd (wasm_stop i h)) ! n)"
  using handles_live_run [OF wasm_inv_new _ assms(1)] wasm_inv_run [of ext es] assms(3)
  by (auto simp: h_def wasm_new_def handles_live_def wasm_inv_def wasm_stop_def wasm_request_def)

text \<open>A task that is over has nothing left to do for its instance.\<close>

fun wasm_concerns :: "uuid \<Rightarrow> wasm_event \<Rightarrow> bool" where
  "wasm_concerns i (W_Spawn sp) = (lp_instance_id sp = i)"
| "wasm_concerns i (W_Stop j) = (j = i)"
| "wasm_concerns i _ = False"

definition handle_stale :: "uuid \<Rightarrow> nat \<Rightarrow> wasm_host \<Rightarrow> bool" where
  "handle_stale i n h \<longleftrightarrow>
     hm_get (wa_abort h) i = Some n \<and>
     (\<forall>k < length (wa_tasks h). wk_id (wa_tasks h ! k) = i \<longrightarrow>
        wk_phase (wa_tasks h ! k) = Wasm_Over \<and> wk_filed (wa_tasks h ! k))"

lemma nth_update_below: "k < length xs \<Longrightarrow> xs[n := y] ! k = (if n = k then y else xs ! k)"
  by (cases "n < length xs") (simp_all add: nth_list_update)

lemma handle_stale_step:
  assumes "handle_stale i n h" and "\<not> wasm_concerns i e"
  shows "handle_stale i n (wasm_step ext h e)"
proof (cases e)
  case (W_Spawn sp)
  then show ?thesis using assms
    by (cases rule: wasm_spawn_cases [of ext sp h]) (auto simp: handle_stale_def nth_append less_Suc_eq)
next
  case (W_Send k)
  then show ?thesis using assms
    by (cases rule: wasm_send_cases [of k h]) (auto simp: handle_stale_def nth_list_update)
next
  case (W_Stop j)
  then show ?thesis using assms
    by (cases "hm_get (wa_abort h) j") (auto simp: handle_stale_def wasm_stop_def wasm_request_def nth_update_below)
qed (use assms in \<open>auto simp: handle_stale_def wasm_file_def wasm_leave_def wasm_cancel_def Let_def nth_list_update\<close>)

text \<open>Further: the handle of a module that ends before it is filed stays. When the guest of a new
  instance ends and its task runs to its end between the spawn and the filing of the handle, the
  adapter still knows the instance, whatever happens after, until it is stopped or launched
  again.\<close>

theorem wasm_late_handle_stays:
  assumes "wasm_spawn ext sp h = (Inr n, h1)"
    and "\<forall>t \<in> set (wa_tasks h). wk_id t \<noteq> lp_instance_id sp"
    and "list_all (\<lambda>e. \<not> wasm_concerns (lp_instance_id sp) e) es"
  shows "wasm_knows (foldl (wasm_step ext) (wasm_file n (wasm_send n (wasm_leave n g h1))) es) (lp_instance_id sp)"
    and "wk_phase (wa_tasks (wasm_file n (wasm_send n (wasm_leave n g h1))) ! n) = Wasm_Over"
proof -
  let ?h = "wasm_file n (wasm_send n (wasm_leave n g h1))"
  obtain t where t: "wk_id t = lp_instance_id sp" "wk_filed t" "wk_phase t = Wasm_Over"
    and tasks: "wa_tasks ?h = wa_tasks h @ [t]" and n: "n = length (wa_tasks h)"
    and got: "hm_get (wa_abort ?h) (lp_instance_id sp) = Some n"
  proof (cases rule: wasm_spawn_cases [of ext sp h])
    case (spawned t k)
    then show ?thesis
      using assms(1) that [of "t\<lparr>wk_phase := Wasm_Over, wk_filed := True\<rparr>"]
      by (simp add: wasm_leave_def wasm_send_def wasm_file_def)
  qed (use assms(1) in simp)
  have stale: "handle_stale (lp_instance_id sp) n ?h"
    using assms(2) t by (simp add: handle_stale_def tasks got nth_append less_Suc_eq)
  have "handle_stale i n h' \<Longrightarrow> list_all (\<lambda>e. \<not> wasm_concerns i e) es \<Longrightarrow> handle_stale i n (foldl (wasm_step ext) h' es)"
    for i h' by (induction es arbitrary: h') (simp_all add: handle_stale_step)
  from this [OF stale assms(3)]
  show "wasm_knows (foldl (wasm_step ext) (wasm_file n (wasm_send n (wasm_leave n g h1))) es) (lp_instance_id sp)"
    by (simp add: handle_stale_def wasm_knows_def)
  show "wk_phase (wa_tasks (wasm_file n (wasm_send n (wasm_leave n g h1))) ! n) = Wasm_Over"
    unfolding tasks by (simp add: n t)
qed

end
