(* ===== verification/Cli_Text.thy ===== *)
theory Cli_Text
  imports Http_Api
begin

text \<open>
  The text functions of the command line client (\<^verbatim>\<open>crates/orion-cli/src\<close>): the table printer
  (\<^verbatim>\<open>output.rs\<close>), the parser of free-form text into records (\<^verbatim>\<open>cmd/json.rs\<close>), shell quoting
  (\<^verbatim>\<open>cmd/shell.rs\<close>), kind names (\<^verbatim>\<open>cmd/mod.rs\<close>), durations (\<^verbatim>\<open>cmd/generate.rs\<close>), inline selectors
  (\<^verbatim>\<open>cmd/find.rs\<close>) and the document stream of a snapshot (\<^verbatim>\<open>cmd/snapshot.rs\<close>). The texts are ASCII: the
  source cuts rows at byte positions, which fails within a longer character, and pads by characters.
\<close>

subsection \<open>Tables (\<^verbatim>\<open>output.rs\<close>)\<close>

definition to_uppercase :: "string \<Rightarrow> string" where
  "to_uppercase s = map to_ascii_uppercase s"

definition pad_cell :: "nat \<Rightarrow> string \<Rightarrow> string" where
  "pad_cell w cell = cell @ replicate (w - length cell) (CHR '' '') @ ''  ''"

fun widen :: "nat list \<Rightarrow> string list \<Rightarrow> nat list" where
  "widen [] cells = []"
| "widen ws [] = ws"
| "widen (w # ws) (c # cs) = max w (length c) # widen ws cs"

definition column_widths :: "string list \<Rightarrow> string list list \<Rightarrow> nat list" where
  "column_widths headers rows = fold (\<lambda>row ws. widen ws row) rows (map length headers)"

definition render_row :: "nat list \<Rightarrow> string list \<Rightarrow> string" where
  "render_row ws cells = concat (map (\<lambda>(w, c). pad_cell w c) (zip ws cells))"

definition render_table :: "string list \<Rightarrow> string list list \<Rightarrow> string" where
  "render_table headers rows =
     (let ws = column_widths headers rows
      in concat (map (\<lambda>l. l @ [newline]) (render_row ws (map to_uppercase headers) # map (render_row ws) rows)))"

subsection \<open>Text to records (\<^verbatim>\<open>cmd/json.rs\<close>)\<close>

datatype delim = Delim_Csv | Delim_Tsv | Delim_Pipe

definition delim_char :: "delim \<Rightarrow> char" where
  "delim_char d = (case d of Delim_Csv \<Rightarrow> CHR '','' | Delim_Tsv \<Rightarrow> CHR 0x09 | Delim_Pipe \<Rightarrow> CHR ''|'')"

record json_args =
  ja_headers :: "string list"
  ja_no_header :: bool
  ja_delim :: "delim option"
  ja_passthrough :: bool
  ja_skip :: nat
  ja_no_trim :: bool

definition trim_unless :: "bool \<Rightarrow> string \<Rightarrow> string" where
  "trim_unless no_trim s = (if no_trim then s else str_trim s)"

definition normalize_header :: "string \<Rightarrow> bool \<Rightarrow> string" where
  "normalize_header s no_trim =
     map (\<lambda>c. if is_ascii_alphanumeric c \<or> c = CHR ''_'' then c else CHR ''_'') (to_lowercase (trim_unless no_trim s))"

definition column_key :: "string list \<Rightarrow> nat \<Rightarrow> string" where
  "column_key headers i = (if i < length headers then headers ! i else ''col_'' @ show_nat i)"

definition pack_row :: "string list \<Rightarrow> string list \<Rightarrow> bool \<Rightarrow> (string \<times> json) list" where
  "pack_row headers cells no_trim =
     fold (\<lambda>i obj. bt_insert (column_key headers i)
       (JString (trim_unless no_trim (if i < length cells then cells ! i else []))) obj)
       [0..<max (length headers) (length cells)] []"

definition is_blank :: "char \<Rightarrow> bool" where
  "is_blank c \<longleftrightarrow> c = CHR '' '' \<or> c = CHR 0x09"

text \<open>The words of a header row with the offsets where they start.\<close>

function header_scan :: "nat \<Rightarrow> string \<Rightarrow> (string \<times> nat) list" where
  "header_scan i s =
     (let gap = length (takeWhile is_blank s); rest = dropWhile is_blank s
      in if rest = [] then []
         else (let word = takeWhile (\<lambda>c. \<not> is_blank c) rest
               in (word, i + gap) # header_scan (i + gap + length word) (dropWhile (\<lambda>c. \<not> is_blank c) rest)))"
  by pat_completeness auto
termination
proof (relation "measure (\<lambda>(_, s). length s)", goal_cases)
  case (2 i s gap rest word)
  then obtain c cs where rest: "rest = c # cs" by (meson neq_Nil_conv)
  then have "\<not> is_blank c" using 2(2) by (simp add: dropWhile_eq_Cons_conv)
  note rest = rest this
  have "length (dropWhile (\<lambda>c. \<not> is_blank c) rest) < length rest"
    using rest length_dropWhile_le [of "\<lambda>c. \<not> is_blank c" cs] by (simp add: less_Suc_eq_le)
  also have "\<dots> \<le> length s" using 2 by (simp add: length_dropWhile_le)
  finally show ?case by simp
qed simp

declare header_scan.simps [simp del]

definition parse_header_row :: "string \<Rightarrow> string list \<times> nat list" where
  "parse_header_row line = (map fst (header_scan 0 line), map snd (header_scan 0 line))"

text \<open>The cells between the offsets, which increase; the last cell takes the rest of the line.\<close>

fun slice_at_columns :: "string \<Rightarrow> nat list \<Rightarrow> string list" where
  "slice_at_columns line [] = []"
| "slice_at_columns line [s] = [if s \<le> length line then drop s line else []]"
| "slice_at_columns line (s # e # starts) =
     (if length line \<le> s then [] else take (min e (length line) - s) (drop s line)) # slice_at_columns line (e # starts)"

definition blank_line :: "string \<Rightarrow> bool" where
  "blank_line l \<longleftrightarrow> str_trim l = []"

definition json_delim_mode :: "json_args \<Rightarrow> delim \<Rightarrow> string list \<Rightarrow> (string \<times> json) list list" where
  "json_delim_mode a d ls =
     (let sep = delim_char d;
          (headers, rows) =
            (if ja_headers a = [] \<and> \<not> ja_no_header a
             then (case ls of [] \<Rightarrow> ([], []) | l # rest \<Rightarrow> (map (\<lambda>s. normalize_header s (ja_no_trim a)) (split_on sep l), rest))
             else (ja_headers a, ls))
      in map (\<lambda>l. pack_row headers (split_on sep l) (ja_no_trim a)) (filter (\<lambda>l. \<not> blank_line l) rows))"

definition json_column_mode :: "json_args \<Rightarrow> string list \<Rightarrow> (string \<times> json) list list" where
  "json_column_mode a ls =
     (let (headers, starts, rows) =
            (if ja_headers a = [] \<and> \<not> ja_no_header a
             then (case dropWhile blank_line ls of
                     [] \<Rightarrow> ([], [], [])
                   | h # rest \<Rightarrow> (map (\<lambda>s. normalize_header s (ja_no_trim a)) (fst (parse_header_row h)),
                       snd (parse_header_row h), rest))
             else (ja_headers a, [], ls))
      in map (\<lambda>l. pack_row headers (if starts = [] then split_whitespace l else slice_at_columns l starts) (ja_no_trim a))
           (filter (\<lambda>l. \<not> blank_line l) rows))"

text \<open>The objects written and the number of lines skipped. The pattern's group names and its captures
  on a line come from the regex library; reading and writing JSON text are arguments too.\<close>

record regex_model =
  rx_names :: "string option list"
  rx_captures :: "string \<Rightarrow> string option list option"

definition regex_row :: "string option list \<Rightarrow> string option list \<Rightarrow> (string \<times> json) list" where
  "regex_row names caps =
     fold (\<lambda>i obj. if i = 0 \<and> names ! i = None then obj
        else bt_insert (unwrap_or (names ! i) (''col_'' @ show_nat i))
          (JString (unwrap_or (if i < length caps then caps ! i else None) [])) obj)
       [0..<length names] []"

definition run_json ::
  "(string \<Rightarrow> json option) \<Rightarrow> regex_model option \<Rightarrow> json_args \<Rightarrow> string list \<Rightarrow> json list \<times> nat" where
  "run_json parse rx a input =
     (let ls = drop (ja_skip a) input; data = filter (\<lambda>l. \<not> blank_line l) ls
      in if ja_passthrough a then
           (List.map_filter parse data, length (filter (\<lambda>l. parse l = None) data))
         else (case rx of
             Some r \<Rightarrow> (map (\<lambda>caps. JObject (regex_row (rx_names r) caps)) (List.map_filter (rx_captures r) data),
                         length (filter (\<lambda>l. rx_captures r l = None) data))
           | None \<Rightarrow>
               (case ja_delim a of
                  Some d \<Rightarrow> (map JObject (json_delim_mode a d ls), 0)
                | None \<Rightarrow> (map JObject (json_column_mode a ls), 0))))"

subsection \<open>Shell quoting (\<^verbatim>\<open>cmd/shell.rs\<close>)\<close>

definition shell_safe :: "char \<Rightarrow> bool" where
  "shell_safe c \<longleftrightarrow> is_ascii_alphanumeric c \<or> c \<in> {CHR ''-'', CHR ''_'', CHR ''.'', CHR ''/'', CHR '':'', CHR ''@''}"

definition quote_char :: "char \<Rightarrow> string" where
  "quote_char c = (if c = CHR 0x27 then [CHR 0x27, CHR 0x5C, CHR 0x27, CHR 0x27] else [c])"

definition shell_quote :: "string \<Rightarrow> string" where
  "shell_quote s =
     (if s \<noteq> [] \<and> list_all shell_safe s then s else [CHR 0x27] @ concat (map quote_char s) @ [CHR 0x27])"

record cli_ctx =
  cc_controller :: string
  cc_nats_url :: string
  cc_token :: "string option"

datatype env_format = Env_Sh | Env_Fish | Env_Json

definition env_pairs :: "cli_ctx \<Rightarrow> (string \<times> string) list" where
  "env_pairs ctx =
     [(''ORION_CONTROLLER_URL'', cc_controller ctx), (''NATS_URL'', cc_nats_url ctx)] @
     (if unwrap_or (cc_token ctx) [] = [] then [] else [(''ORION_CLUSTER_TOKEN'', unwrap_or (cc_token ctx) [])])"

definition run_env :: "(json \<Rightarrow> string) \<Rightarrow> cli_ctx \<Rightarrow> env_format \<Rightarrow> string list" where
  "run_env print_json ctx fmt =
     (case fmt of
        Env_Sh \<Rightarrow> map (\<lambda>(k, v). ''export '' @ k @ ''='' @ shell_quote v) (env_pairs ctx)
      | Env_Fish \<Rightarrow> map (\<lambda>(k, v). ''set -x '' @ k @ '' '' @ shell_quote v) (env_pairs ctx)
      | Env_Json \<Rightarrow> [print_json (JObject (fold (\<lambda>(k, v) obj. bt_insert k (JString v) obj) (env_pairs ctx) []))])"

subsection \<open>Kinds, durations, selectors\<close>

definition canonical_kind :: "string \<Rightarrow> string" where
  "canonical_kind s =
     (case rev (dropWhile (\<lambda>c. c = CHR ''s'') (rev s)) of
        [] \<Rightarrow> []
      | c # cs \<Rightarrow> to_ascii_uppercase c # cs)"

text \<open>The debug form of a string in the messages; characters outside ASCII stand for themselves.\<close>

definition debug_char :: "char \<Rightarrow> string" where
  "debug_char c =
     (if c = CHR 0x22 \<or> c = CHR 0x5C then [CHR 0x5C, c]
      else if c = newline then [CHR 0x5C] @ ''n'' else if c = CHR 0x0D then [CHR 0x5C] @ ''r''
      else if c = CHR 0x09 then [CHR 0x5C] @ ''t'' else if c = CHR 0x00 then [CHR 0x5C] @ ''0''
      else if of_char c < (32::nat) \<or> of_char c = (127::nat) then
        [CHR 0x5C] @ ''u{'' @ (let n = of_char c :: nat in if n < 16 then [''0123456789abcdef'' ! n] else [''0123456789abcdef'' ! (n div 16), ''0123456789abcdef'' ! (n mod 16)]) @ ''}''
      else [c])"

definition debug_str :: "string \<Rightarrow> string" where
  "debug_str s = [CHR 0x22] @ concat (map debug_char s) @ [CHR 0x22]"

definition parse_u64 :: "string \<Rightarrow> u64 option" where
  "parse_u64 s =
     (case read_nat (strip_plus s) of None \<Rightarrow> None | Some n \<Rightarrow> if n < 2 ^ 64 then Some (of_nat n) else None)"

definition duration_unit :: "string \<Rightarrow> u64 option" where
  "duration_unit u =
     (if u \<in> {'''', ''s'', ''S''} then Some 1 else if u \<in> {''m'', ''M''} then Some 60
      else if u \<in> {''h'', ''H''} then Some 3600 else if u \<in> {''d'', ''D''} then Some 86400 else None)"

text \<open>The product wraps where it is not checked.\<close>

definition parse_duration_seconds :: "string option \<Rightarrow> string + u64 option" where
  "parse_duration_seconds arg =
     (case arg of
        None \<Rightarrow> Inr None
      | Some s0 \<Rightarrow>
          (let s = str_trim s0
           in case parse_u64 s of
                Some n \<Rightarrow> Inr (Some n)
              | None \<Rightarrow>
                  (let num = takeWhile is_ascii_digit s; u = dropWhile is_ascii_digit s
                   in case parse_u64 num of
                        None \<Rightarrow> Inl (''invalid duration '' @ debug_str s)
                      | Some n \<Rightarrow>
                          (case duration_unit u of
                             None \<Rightarrow> Inl (''unknown duration suffix '' @ debug_str u @ '' in '' @ debug_str s)
                           | Some m \<Rightarrow> Inr (Some (n * m))))))"

definition add_requirement :: "(string \<Rightarrow> json option) \<Rightarrow> string \<Rightarrow> (string \<times> json) list \<Rightarrow> string + (string \<times> json) list" where
  "add_requirement parse r out =
     (case split_once ''='' r of
        None \<Rightarrow> Inl (''expected CAP.ATTR=VALUE, got '' @ debug_str r)
      | Some (lhs, raw) \<Rightarrow>
          (case split_once ''.'' lhs of
             None \<Rightarrow> Inl (''expected CAP.ATTR (with dot) in '' @ debug_str lhs)
           | Some (cap, attr) \<Rightarrow>
               (let val = unwrap_or (parse raw) (JString raw)
                in Inr (case unwrap_or (bt_get out cap) (JObject []) of
                          JObject obj \<Rightarrow> bt_insert cap (JObject (bt_insert attr val obj)) out
                        | _ \<Rightarrow> out))))"

fun build_inline :: "(string \<Rightarrow> json option) \<Rightarrow> string list \<Rightarrow> (string \<times> json) list \<Rightarrow> string + (string \<times> json) list" where
  "build_inline parse [] out = Inr out"
| "build_inline parse (r # rs) out =
     (case add_requirement parse r out of Inl e \<Rightarrow> Inl e | Inr out' \<Rightarrow> build_inline parse rs out')"

subsection \<open>Snapshots (\<^verbatim>\<open>cmd/snapshot.rs\<close>)\<close>

text \<open>\<^verbatim>\<open>str::split\<close> at every occurrence of a text that is not empty.\<close>

fun split_text :: "nat \<Rightarrow> string \<Rightarrow> string \<Rightarrow> string \<Rightarrow> string list" where
  "split_text 0 sep acc s = [rev acc @ s]"
| "split_text (Suc n) sep acc [] = [rev acc]"
| "split_text (Suc n) sep acc (c # cs) =
     (if prefix sep (c # cs) then rev acc # split_text n sep [] (drop (length sep) (c # cs))
      else split_text n sep (c # acc) cs)"

definition doc_separator :: string where
  "doc_separator = [newline] @ ''---'' @ [newline]"

definition split_multi_doc :: "string \<Rightarrow> string list" where
  "split_multi_doc body =
     filter (\<lambda>s. s \<noteq> []) (map str_trim (split_text (length body) doc_separator [] body))"

definition emit_multi_doc :: "(json \<Rightarrow> string + string) \<Rightarrow> json list \<Rightarrow> string + string" where
  "emit_multi_doc to_yaml values =
     fold (\<lambda>r out. case out of
         Inl e \<Rightarrow> Inl e
       | Inr o' \<Rightarrow>
           (case to_yaml (case r of JObject obj \<Rightarrow> JObject (bt_remove ''status'' obj) | v \<Rightarrow> v) of
              Inl e \<Rightarrow> Inl e
            | Inr yaml \<Rightarrow> Inr (o' @ ''---'' @ [newline] @ yaml))) values (Inr [])"

subsection \<open>What a shell reads\<close>

text \<open>One word as a POSIX shell reads it: within single quotes everything up to the next quote is
  literal, outside a backslash takes the next character. Unquoted only the characters above are
  plain. The word is none when a quote is open at the end or a character is special.\<close>

fun sh_unquote :: "bool \<Rightarrow> string \<Rightarrow> string option" where
  "sh_unquote quoted [] = (if quoted then None else Some [])"
| "sh_unquote quoted (c # cs) =
     (if quoted then (if c = CHR 0x27 then sh_unquote False cs else map_option ((#) c) (sh_unquote True cs))
      else if c = CHR 0x27 then sh_unquote True cs
      else if c = CHR 0x5C then (case cs of [] \<Rightarrow> None | d # ds \<Rightarrow> map_option ((#) d) (sh_unquote False ds))
      else if shell_safe c then map_option ((#) c) (sh_unquote False cs) else None)"

text \<open>In fish a backslash within single quotes takes a quote or a backslash after it.\<close>

fun fish_unquote :: "bool \<Rightarrow> string \<Rightarrow> string option" where
  "fish_unquote quoted [] = (if quoted then None else Some [])"
| "fish_unquote quoted (c # cs) =
     (if quoted then
        (if c = CHR 0x27 then fish_unquote False cs
         else if c = CHR 0x5C then
           (case cs of
              [] \<Rightarrow> None
            | d # ds \<Rightarrow> if d = CHR 0x27 \<or> d = CHR 0x5C then map_option ((#) d) (fish_unquote True ds)
                        else map_option ((#) c) (fish_unquote True cs))
         else map_option ((#) c) (fish_unquote True cs))
      else if c = CHR 0x27 then fish_unquote True cs
      else if c = CHR 0x5C then (case cs of [] \<Rightarrow> None | d # ds \<Rightarrow> map_option ((#) d) (fish_unquote False ds))
      else if shell_safe c then map_option ((#) c) (fish_unquote False cs) else None)"

lemma shell_safe_plain: "shell_safe c \<Longrightarrow> c \<noteq> CHR 0x27 \<and> c \<noteq> CHR 0x5C"
  by (auto simp: shell_safe_def is_ascii_alphanumeric_def is_ascii_digit_def is_ascii_upper_def is_ascii_lower_def)

lemma sh_unquote_safe: "list_all shell_safe s \<Longrightarrow> sh_unquote False s = Some s \<and> fish_unquote False s = Some s"
  by (induction s) (auto dest: shell_safe_plain)

lemma sh_unquote_quoted: "sh_unquote True (concat (map quote_char s) @ [CHR 0x27]) = Some s"
  by (induction s) (auto simp: quote_char_def)

lemma fish_unquote_quoted: "CHR 0x5C \<notin> set s \<Longrightarrow> fish_unquote True (concat (map quote_char s) @ [CHR 0x27]) = Some s"
  by (induction s) (auto simp: quote_char_def)

text \<open>Further: a quoted value is one word to the shell, with exactly this value, whatever characters it
  has; fish reads it back too if it has no backslash.\<close>

theorem shell_quote_roundtrip:
  "sh_unquote False (shell_quote s) = Some s \<and>
   (CHR 0x5C \<in> set s \<or> fish_unquote False (shell_quote s) = Some s)"
  using sh_unquote_quoted [of s] fish_unquote_quoted [of s] sh_unquote_safe [of s]
  by (cases "s \<noteq> [] \<and> list_all shell_safe s") (auto simp: shell_quote_def)

text \<open>Further: the same quoting is used for fish, which takes a backslash before the closing quote as
  an escape: a value that ends in a backslash leaves the quote open.\<close>

theorem fish_backslash_open:
  assumes "CHR 0x5C \<notin> set s"
  shows "fish_unquote False (shell_quote (s @ [CHR 0x5C])) = None"
proof -
  have "\<not> list_all shell_safe (s @ [CHR 0x5C])" using shell_safe_plain by auto
  then have q: "shell_quote (s @ [CHR 0x5C]) = CHR 0x27 # concat (map quote_char s) @ [CHR 0x5C, CHR 0x27]"
    by (simp add: shell_quote_def quote_char_def)
  have "fish_unquote True (concat (map quote_char s) @ [CHR 0x5C, CHR 0x27]) = None"
    using assms by (induction s) (auto simp: quote_char_def)
  then show ?thesis by (simp add: q)
qed

subsection \<open>Kind names\<close>

definition lower_first :: "string \<Rightarrow> string" where
  "lower_first s = (case s of [] \<Rightarrow> [] | c # cs \<Rightarrow> to_ascii_lowercase c # cs)"

text \<open>Further: a kind is recognised as it is, with a small first letter, and with an s at the end; the
  English plural of a kind in y and a kind in capitals are not, although the latter is
  documented.\<close>

theorem canonical_kinds:
  "list_all (\<lambda>k. canonical_kind k = k \<and> canonical_kind (lower_first k) = k \<and> canonical_kind (k @ ''s'') = k) list_kinds \<and>
   canonical_kind ''policies'' \<notin> set list_kinds \<and> canonical_kind ''SERVICE'' \<notin> set list_kinds"
  by code_simp

subsection \<open>A printed table is read back\<close>

fun col_offsets :: "nat \<Rightarrow> nat list \<Rightarrow> nat list" where
  "col_offsets i [] = []"
| "col_offsets i (w # ws) = i # col_offsets (i + w + 2) ws"

definition fits :: "nat \<Rightarrow> string \<Rightarrow> bool" where
  "fits w c \<longleftrightarrow> length c \<le> w"

lemma pad_cell_fits: "fits w c \<Longrightarrow> pad_cell w c = c @ replicate (w + 2 - length c) (CHR '' '')"
  by (simp add: pad_cell_def fits_def Suc_diff_le replicate_append_same [symmetric])

lemma length_pad_cell: "fits w c \<Longrightarrow> length (pad_cell w c) = w + 2"
  by (simp add: pad_cell_def fits_def)

lemma render_row_simps [simp]:
  "render_row [] cs = []" "render_row (w # ws) (c # cs) = pad_cell w c @ render_row ws cs"
  by (simp_all add: render_row_def)

lemma header_scan_blanks: "header_scan i (replicate k (CHR '' '') @ s) = header_scan (i + k) s"
proof -
  have "takeWhile is_blank (replicate k (CHR '' '') @ s) = replicate k (CHR '' '') @ takeWhile is_blank s"
    and "dropWhile is_blank (replicate k (CHR '' '') @ s) = dropWhile is_blank s"
    by (induction k) (simp_all add: is_blank_def)
  then show ?thesis by (subst (1 2) header_scan.simps) (simp add: Let_def add.assoc)
qed

lemma header_scan_word:
  assumes "h \<noteq> []" and "list_all (\<lambda>c. \<not> is_blank c) h"
  shows "header_scan i (h @ CHR '' '' # s) = (h, i) # header_scan (i + length h) (CHR '' '' # s)"
proof -
  have "takeWhile is_blank (h @ CHR '' '' # s) = []" "dropWhile is_blank (h @ CHR '' '' # s) = h @ CHR '' '' # s"
    using assms by (cases h; simp)+
  moreover have "takeWhile (\<lambda>c. \<not> is_blank c) (h @ CHR '' '' # s) = h"
    "dropWhile (\<lambda>c. \<not> is_blank c) (h @ CHR '' '' # s) = CHR '' '' # s"
    using assms(2) by (induction h) (simp_all add: is_blank_def)
  ultimately show ?thesis by (subst header_scan.simps) (simp add: Let_def)
qed

lemma header_scan_row:
  assumes "list_all2 fits ws hs" and "list_all (\<lambda>h. h \<noteq> [] \<and> list_all (\<lambda>c. \<not> is_blank c) h) hs"
  shows "header_scan i (render_row ws hs) = zip hs (col_offsets i ws)"
  using assms
proof (induction ws hs arbitrary: i rule: list_all2_induct)
  case Nil
  show ?case by (subst header_scan.simps) simp
next
  case (Cons w ws h hs)
  have k: "w + 2 - length h = Suc (w + 1 - length h)" using Cons.hyps(1) by (simp add: fits_def)
  have "header_scan i (render_row (w # ws) (h # hs)) =
      header_scan i (h @ CHR '' '' # replicate (w + 1 - length h) (CHR '' '') @ render_row ws hs)"
    by (simp only: render_row_simps pad_cell_fits [OF Cons.hyps(1)] k replicate_Suc append_Cons append_assoc)
  also have "\<dots> = (h, i) # header_scan (i + length h) (replicate (w + 2 - length h) (CHR '' '') @ render_row ws hs)"
    unfolding k replicate_Suc append_Cons using Cons.prems by (subst header_scan_word) simp_all
  also have "\<dots> = (h, i) # header_scan (i + w + 2) (render_row ws hs)"
    using Cons.hyps(1) by (simp add: header_scan_blanks fits_def)
  finally show ?case using Cons.IH Cons.prems by simp
qed

lemma slice_row:
  assumes "list_all2 fits ws cs"
  shows "slice_at_columns (p @ render_row ws cs) (col_offsets (length p) ws) = map2 pad_cell ws cs"
  using assms
proof (induction ws cs arbitrary: p rule: list_all2_induct)
  case (Cons w ws c cs)
  note len = length_pad_cell [OF Cons.hyps(1)]
  show ?case
  proof (cases ws)
    case Nil
    then show ?thesis using Cons.hyps(2) by simp
  next
    case (Cons v vs)
    note ws = this
    have "slice_at_columns ((p @ pad_cell w c) @ render_row ws cs) (col_offsets (length (p @ pad_cell w c)) ws) = map2 pad_cell ws cs"
      by (rule Cons.IH)
    then show ?thesis by (simp add: ws len add.assoc)
  qed
qed simp

lemma str_trim_pad:
  assumes "list_all is_ascii_ws w"
  shows "str_trim (s @ w) = str_trim s"
proof (cases "list_all is_ascii_ws s")
  case True
  then have "dropWhile is_ascii_ws s = []" "dropWhile is_ascii_ws (s @ w) = []"
    using assms by (auto simp: list_all_iff)
  then show ?thesis by (simp only: str_trim_def)
next
  case False
  then obtain c where "c \<in> set s" "\<not> is_ascii_ws c" by (auto simp: list_all_iff)
  then have "dropWhile is_ascii_ws (s @ w) = dropWhile is_ascii_ws s @ w" by (rule dropWhile_append1)
  moreover have "dropWhile is_ascii_ws (rev w @ t) = dropWhile is_ascii_ws t" for t
    using assms by (intro dropWhile_append2) (simp add: list_all_iff)
  ultimately show ?thesis by (simp add: str_trim_def)
qed

lemma str_trim_pad_cell: "str_trim (pad_cell w c) = str_trim c"
  unfolding pad_cell_def by (rule str_trim_pad) (simp add: list_all_iff is_ascii_ws_def)

lemma str_trim_Nil_iff: "str_trim s = [] \<longleftrightarrow> list_all is_ascii_ws s"
proof
  assume "str_trim s = []"
  then have "\<forall>c \<in> set (dropWhile is_ascii_ws s). is_ascii_ws c"
    by (simp add: str_trim_def)
  then have "dropWhile is_ascii_ws s = []"
    by (metis dropWhile_eq_Cons_conv list.set_intros(1) neq_Nil_conv)
  then show "list_all is_ascii_ws s" by (simp add: list_all_iff)
next
  assume "list_all is_ascii_ws s"
  then show "str_trim s = []" using str_trim_pad [of s "[]"] by (simp add: str_trim_def)
qed

lemma widen_fits:
  "length row = length ws \<Longrightarrow> list_all2 fits ws cs \<Longrightarrow> list_all2 fits (widen ws row) cs \<and> list_all2 fits (widen ws row) row"
proof (induction ws row arbitrary: cs rule: widen.induct)
  case (3 w ws c row)
  then show ?case by (cases cs) (auto simp: fits_def max_def)
qed simp_all

lemma length_widen [simp]: "length (widen ws row) = length ws"
  by (induction ws row rule: widen.induct) simp_all

lemma widen_fold_fits:
  assumes "list_all (\<lambda>row. length row = length ws) rows"
  shows "(list_all2 fits ws cs \<longrightarrow> list_all2 fits (fold (\<lambda>row ws. widen ws row) rows ws) cs) \<and>
    (\<forall>row \<in> set rows. list_all2 fits (fold (\<lambda>row ws. widen ws row) rows ws) row)"
  using assms
proof (induction rows arbitrary: ws cs)
  case (Cons row rows)
  have row: "list_all2 fits (widen ws row) row"
    using Cons.prems widen_fits [of row ws "map (\<lambda>_. []) ws"] by (simp add: fits_def list_all2_conv_all_nth)
  have IH: "(list_all2 fits (widen ws row) cs \<longrightarrow> list_all2 fits (fold (\<lambda>row ws. widen ws row) rows (widen ws row)) cs) \<and>
      (\<forall>row' \<in> set rows. list_all2 fits (fold (\<lambda>row ws. widen ws row) rows (widen ws row)) row')" for cs
    using Cons.IH [of "widen ws row"] Cons.prems by simp
  show ?case using IH [of cs] IH [of row] row widen_fits [of row ws cs] Cons.prems by auto
qed simp

lemma pack_row_cells:
  assumes "length cells = length cells'"
    and "\<And>i. i < length cells \<Longrightarrow> trim_unless t (cells ! i) = trim_unless t' (cells' ! i)"
    and "length headers = length cells"
  shows "pack_row headers cells t = pack_row headers cells' t'"
  unfolding pack_row_def using assms by (intro fold_cong) auto

lemma to_lowercase_uppercase: "to_lowercase (to_uppercase s) = to_lowercase s"
  by (auto simp: to_lowercase_def to_uppercase_def to_ascii_lowercase_def to_ascii_uppercase_def
      is_ascii_upper_def is_ascii_lower_def)

lemma uppercase_ws: "is_ascii_ws (to_ascii_uppercase c) \<longleftrightarrow> is_ascii_ws c"
  by (auto simp: to_ascii_uppercase_def is_ascii_ws_def is_ascii_lower_def)

lemma str_trim_no_ws: "list_all (\<lambda>c. \<not> is_ascii_ws c) s \<Longrightarrow> str_trim s = s"
proof -
  assume "list_all (\<lambda>c. \<not> is_ascii_ws c) s"
  then have "dropWhile is_ascii_ws s = s" "dropWhile is_ascii_ws (rev s) = rev s"
    by (auto simp: list_all_iff dropWhile_eq_self_iff hd_rev)
  then show ?thesis by (simp add: str_trim_def)
qed

lemma blank_ws: "is_blank c \<Longrightarrow> is_ascii_ws c"
  by (auto simp: is_blank_def is_ascii_ws_def)

lemma normalize_uppercase:
  assumes "list_all (\<lambda>c. \<not> is_ascii_ws c) h"
  shows "normalize_header (to_uppercase h) t = normalize_header h t"
proof -
  have "list_all (\<lambda>c. \<not> is_ascii_ws c) (to_uppercase h)"
    using assms by (simp add: to_uppercase_def list_all_iff uppercase_ws)
  then show ?thesis
    using assms by (simp add: normalize_header_def trim_unless_def str_trim_no_ws to_lowercase_uppercase)
qed

lemma str_lines_rendered:
  assumes "list_all (\<lambda>l. newline \<notin> set l \<and> (l = [] \<or> last l \<noteq> CHR 0x0D)) ls"
  shows "str_lines (concat (map (\<lambda>l. l @ [newline]) ls)) = ls"
  using assms
proof (induction ls)
  case (Cons l ls)
  then have "chomp_cr l = l" by (auto simp: chomp_cr_def)
  then show ?case using Cons str_lines_line [of l "concat (map (\<lambda>l. l @ [newline]) ls)"] by simp
qed simp

lemma render_row_chars: "c \<in> set (render_row ws cs) \<Longrightarrow> c = CHR '' '' \<or> (\<exists>cell \<in> set cs. c \<in> set cell)"
  by (auto simp: render_row_def pad_cell_def dest: set_zip_rightD)

lemma render_row_last: "list_all2 fits ws cs \<Longrightarrow> cs \<noteq> [] \<Longrightarrow> last (render_row ws cs) = CHR '' ''"
proof (induction ws cs rule: list_all2_induct)
  case (Cons w ws c cs)
  show ?case
  proof (cases "cs = []")
    case True
    then show ?thesis using Cons.hyps(2) by (simp add: pad_cell_def)
  next
    case False
    then have "render_row ws cs \<noteq> []" using Cons.hyps(2) by (cases cs; cases ws) (auto simp: pad_cell_def)
    then show ?thesis using Cons.IH False by simp
  qed
qed simp

lemma render_row_mem: "list_all2 fits ws cs \<Longrightarrow> cell \<in> set cs \<Longrightarrow> set cell \<subseteq> set (render_row ws cs)"
  by (induction ws cs rule: list_all2_induct) (auto simp: pad_cell_def)

lemma render_row_blank:
  assumes "list_all2 fits ws cs" and "cell \<in> set cs" and "cell \<noteq> []" and "str_trim cell = cell"
  shows "\<not> blank_line (render_row ws cs)"
proof -
  have "\<not> list_all is_ascii_ws cell" using assms(3,4) str_trim_Nil_iff by metis
  then show ?thesis
    using render_row_mem [OF assms(1,2)] by (auto simp: blank_line_def str_trim_Nil_iff list_all_iff)
qed

definition table_headers_ok :: "string list \<Rightarrow> bool" where
  "table_headers_ok headers \<longleftrightarrow> headers \<noteq> [] \<and> list_all (\<lambda>h. h \<noteq> [] \<and> list_all (\<lambda>c. \<not> is_ascii_ws c) h) headers"

definition table_row_ok :: "string list \<Rightarrow> string list \<Rightarrow> bool" where
  "table_row_ok headers row \<longleftrightarrow> length row = length headers \<and>
     list_all (\<lambda>c. str_trim c = c \<and> newline \<notin> set c) row \<and> list_ex (\<lambda>c. c \<noteq> []) row"

lemma parse_rendered_header:
  assumes "list_all2 fits ws (map to_uppercase headers)" and "table_headers_ok headers"
  shows "parse_header_row (render_row ws (map to_uppercase headers)) = (map to_uppercase headers, col_offsets 0 ws)"
proof -
  have "list_all (\<lambda>h. h \<noteq> [] \<and> list_all (\<lambda>c. \<not> is_blank c) h) (map to_uppercase headers)"
    using assms(2) by (auto simp: table_headers_ok_def list_all_iff to_uppercase_def uppercase_ws dest!: blank_ws)
  moreover have "length (col_offsets i ws) = length ws" for i by (induction ws arbitrary: i) simp_all
  ultimately show ?thesis
    using header_scan_row [OF assms(1), of 0] list_all2_lengthD [OF assms(1)] by (simp add: parse_header_row_def)
qed

lemma newline_ws: "is_ascii_ws newline" "newline \<noteq> CHR '' ''"
  by (simp_all add: is_ascii_ws_def newline_def)

lemma rendered_header_line:
  assumes "list_all2 fits ws (map to_uppercase headers)" and "table_headers_ok headers"
  shows "newline \<notin> set (render_row ws (map to_uppercase headers)) \<and>
    last (render_row ws (map to_uppercase headers)) = CHR '' '' \<and> \<not> blank_line (render_row ws (map to_uppercase headers))"
proof (intro conjI)
  have hs: "headers \<noteq> []" "\<And>h. h \<in> set headers \<Longrightarrow> list_all (\<lambda>c. \<not> is_ascii_ws c) h \<and> h \<noteq> []"
    using assms(2) by (auto simp: table_headers_ok_def list_all_iff)
  show "newline \<notin> set (render_row ws (map to_uppercase headers))"
    using render_row_chars [of newline ws "map to_uppercase headers"] hs newline_ws
    by (auto simp: to_uppercase_def list_all_iff) (metis uppercase_ws)
  show "last (render_row ws (map to_uppercase headers)) = CHR '' ''"
    using render_row_last [OF assms(1)] hs(1) by simp
  obtain h where h: "h \<in> set headers" using hs(1) by (cases headers) auto
  have "str_trim (to_uppercase h) = to_uppercase h"
    using hs(2) [OF h] by (intro str_trim_no_ws) (simp add: to_uppercase_def list_all_iff uppercase_ws)
  then show "\<not> blank_line (render_row ws (map to_uppercase headers))"
    using render_row_blank [OF assms(1), of "to_uppercase h"] hs(2) [OF h] h by (simp add: to_uppercase_def)
qed

lemma rendered_row_line:
  assumes "list_all2 fits ws row" and "table_row_ok headers row" and "headers \<noteq> []"
  shows "newline \<notin> set (render_row ws row) \<and> last (render_row ws row) = CHR '' '' \<and> \<not> blank_line (render_row ws row)"
proof (intro conjI)
  show "newline \<notin> set (render_row ws row)"
    using render_row_chars [of newline ws row] newline_ws assms(2) by (auto simp: table_row_ok_def list_all_iff)
  show "last (render_row ws row) = CHR '' ''"
    using render_row_last [OF assms(1)] assms(2,3) by (cases row) (auto simp: table_row_ok_def)
  obtain cell where "cell \<in> set row" "cell \<noteq> []" "str_trim cell = cell"
    using assms(2) by (auto simp: table_row_ok_def list_ex_iff list_all_iff)
  then show "\<not> blank_line (render_row ws row)" using render_row_blank [OF assms(1)] by blast
qed

lemma pack_rendered_row:
  assumes "list_all2 fits ws row" and "table_row_ok headers row" and "length hs = length headers"
  shows "pack_row hs (slice_at_columns (render_row ws row) (col_offsets 0 ws)) False = pack_row hs row True"
  unfolding slice_row [OF assms(1), of "[]", simplified]
proof (rule pack_row_cells)
  have l: "length row = length headers" "length ws = length row"
    using assms(2) list_all2_lengthD [OF assms(1)] by (auto simp: table_row_ok_def)
  show "length (map2 pad_cell ws row) = length row" "length hs = length (map2 pad_cell ws row)"
    using l assms(3) by simp_all
  show "trim_unless False (map2 pad_cell ws row ! i) = trim_unless True (row ! i)" if "i < length (map2 pad_cell ws row)" for i
    using that l assms(2) by (auto simp: trim_unless_def str_trim_pad_cell table_row_ok_def list_all_iff)
qed

lemma column_widths_fit:
  assumes "list_all (table_row_ok headers) rows"
  shows "list_all2 fits (column_widths headers rows) (map to_uppercase headers) \<and>
    (\<forall>row \<in> set rows. list_all2 fits (column_widths headers rows) row)"
proof -
  have "list_all (\<lambda>row. length row = length (map length headers)) rows"
    using assms by (auto simp: list_all_iff table_row_ok_def)
  moreover have "list_all2 fits (map length headers) (map to_uppercase headers)"
    by (simp add: list_all2_conv_all_nth fits_def to_uppercase_def)
  ultimately show ?thesis unfolding column_widths_def using widen_fold_fits by blast
qed

text \<open>Further: the table printer and the column parser are inverse: what \<^verbatim>\<open>orion get\<close> prints as a table,
  \<^verbatim>\<open>orion json\<close> reads back as one record per row with the header names as keys and the cells as they
  were, for headers without blanks and cells without blanks at their ends, spaces inside
  included.\<close>

theorem table_read_back:
  assumes "table_headers_ok headers" and "list_all (table_row_ok headers) rows"
  shows "run_json parse None \<lparr>ja_headers = [], ja_no_header = False, ja_delim = None, ja_passthrough = False, ja_skip = 0,
      ja_no_trim = False\<rparr> (str_lines (render_table headers rows)) =
    (map (\<lambda>row. JObject (pack_row (map (\<lambda>h. normalize_header h False) headers) row True)) rows, 0)"
proof -
  define ws where "ws = column_widths headers rows"
  have fit_h: "list_all2 fits ws (map to_uppercase headers)" and fit: "\<And>row. row \<in> set rows \<Longrightarrow> list_all2 fits ws row"
    using column_widths_fit [OF assms(2)] by (simp_all add: ws_def)
  have hs: "headers \<noteq> []" using assms(1) by (simp add: table_headers_ok_def)
  have ok: "table_row_ok headers row" if "row \<in> set rows" for row using assms(2) that by (simp add: list_all_iff)
  let ?hl = "render_row ws (map to_uppercase headers)" and ?rl = "map (render_row ws) rows"
  have lines: "str_lines (render_table headers rows) = ?hl # ?rl"
    unfolding render_table_def Let_def ws_def [symmetric]
    using rendered_header_line [OF fit_h assms(1)] rendered_row_line [OF fit ok hs]
    by (intro str_lines_rendered) (auto simp: list_all_iff)
  have "filter (\<lambda>l. \<not> blank_line l) ?rl = ?rl"
    using rendered_row_line [OF fit ok hs] by (auto simp: filter_id_conv)
  moreover have "col_offsets 0 ws \<noteq> []" using hs list_all2_lengthD [OF fit_h] by (cases ws) auto
  moreover have "\<And>h. h \<in> set headers \<Longrightarrow> normalize_header (to_uppercase h) False = normalize_header h False"
    using assms(1) by (auto simp: table_headers_ok_def list_all_iff intro!: normalize_uppercase)
  ultimately show ?thesis
    unfolding lines using rendered_header_line [OF fit_h assms(1)]
    by (simp add: run_json_def json_column_mode_def parse_rendered_header [OF fit_h assms(1)] pack_rendered_row [OF fit ok]
        comp_def cong: map_cong)
qed

subsection \<open>The documents of a snapshot\<close>

definition doc_mark :: string where
  "doc_mark = ''---'' @ [newline]"

text \<open>A document as the encoder prints it: a trimmed text and a newline, in which no line is the
  separator.\<close>

definition plain_doc :: "string \<Rightarrow> bool" where
  "plain_doc t \<longleftrightarrow> t \<noteq> [] \<and> str_trim t = t \<and> \<not> str_contains (newline # t @ [newline]) doc_separator"

lemma str_contains_mono: "str_contains s q \<Longrightarrow> str_contains (a @ s @ b) q"
  unfolding str_contains_iff by (metis append.assoc)

lemma separator_overlap:
  assumes "u \<noteq> []" and "prefix doc_separator (u @ doc_separator @ rest)"
  shows "str_contains (u @ [newline]) doc_separator"
proof (cases "length u \<le> 4")
  case True
  then consider a where "u = [a]" | a b where "u = [a, b]" | a b c where "u = [a, b, c]" | a b c d where "u = [a, b, c, d]"
    using assms(1) by (auto simp: numeral_eq_Suc le_Suc_eq length_Suc_conv)
  then show ?thesis
    using assms(2) by cases (auto simp: doc_separator_def newline_def)
next
  case False
  then obtain a b c d e v where "u = a # b # c # d # e # v"
    by (auto simp: not_le Suc_le_length_iff numeral_eq_Suc dest!: Suc_leI)
  then have "u @ [newline] = [] @ doc_separator @ v @ [newline]"
    using assms(2) by (auto simp: doc_separator_def)
  then show ?thesis unfolding str_contains_iff by blast
qed

lemma split_text_fuel: "length s \<le> n \<Longrightarrow> length s \<le> m \<Longrightarrow> sep \<noteq> [] \<Longrightarrow> split_text n sep acc s = split_text m sep acc s"
proof (induction n sep acc s arbitrary: m rule: split_text.induct)
  case (1 sep acc s)
  then show ?case by (cases m) simp_all
next
  case (2 n sep acc)
  then show ?case by (cases m) simp_all
next
  case (3 n sep acc c cs)
  then obtain k where m: "m = Suc k" by (cases m) simp_all
  have "length (drop (length sep) (c # cs)) \<le> length cs" using 3(5) by (cases sep) auto
  then have "length (drop (length sep) (c # cs)) \<le> n" "length (drop (length sep) (c # cs)) \<le> k"
    using 3(3,4) m by auto
  then show ?case
    using 3(1) [of k] 3(2) [of k] 3(3-5) by (cases "prefix sep (c # cs)") (simp_all add: m del: drop.simps)
qed

lemma split_text_sep:
  assumes "\<not> str_contains (t @ [newline]) doc_separator" and "length (t @ doc_separator @ rest) \<le> n"
  shows "split_text n doc_separator acc (t @ doc_separator @ rest) =
    (rev acc @ t) # split_text (length rest) doc_separator [] rest"
  using assms
proof (induction t arbitrary: acc n)
  case Nil
  then obtain k where "n = Suc k" "length rest \<le> k" by (cases n) (auto simp: doc_separator_def)
  then show ?case
    using split_text_fuel [of rest k "length rest" doc_separator "[]"] by (simp add: doc_separator_def)
next
  case (Cons c t)
  then obtain k where k: "n = Suc k" by (cases n) auto
  have "\<not> prefix doc_separator ((c # t) @ doc_separator @ rest)"
    using separator_overlap [of "c # t" rest] Cons.prems(1) by blast
  moreover have "\<not> str_contains (t @ [newline]) doc_separator" using Cons.prems(1) by simp
  ultimately show ?case using Cons.IH [of k "c # acc"] Cons.prems(2) by (simp add: k)
qed

lemma split_text_last:
  assumes "\<not> str_contains t doc_separator"
  shows "split_text n doc_separator acc t = [rev acc @ t]"
  using assms
proof (induction t arbitrary: acc n)
  case Nil
  show ?case by (cases n) simp_all
next
  case (Cons c t)
  then show ?case by (cases n) simp_all
qed

lemma split_docs:
  assumes "list_all plain_doc (t # ts)" and "\<not> str_contains (p @ t @ [newline]) doc_separator"
  shows "split_text (length (p @ t @ [newline] @ concat (map (\<lambda>d. doc_mark @ d @ [newline]) ts))) doc_separator []
      (p @ t @ [newline] @ concat (map (\<lambda>d. doc_mark @ d @ [newline]) ts)) =
    (case ts of [] \<Rightarrow> [p @ t @ [newline]] | _ \<Rightarrow> (p @ t) # butlast ts @ [last ts @ [newline]])"
  using assms
proof (induction ts arbitrary: p t)
  case Nil
  then show ?case using split_text_last [of "p @ t @ [newline]"] by simp
next
  case (Cons d ts)
  let ?rest = "d @ [newline] @ concat (map (\<lambda>d. doc_mark @ d @ [newline]) ts)"
  have split: "p @ t @ [newline] @ concat (map (\<lambda>d. doc_mark @ d @ [newline]) (d # ts)) = (p @ t) @ doc_separator @ ?rest"
    by (simp add: doc_mark_def doc_separator_def)
  have d: "\<not> str_contains (d @ [newline]) doc_separator"
    using Cons.prems(1) str_contains_mono [of "d @ [newline]" doc_separator "[newline]" "[]"] by (auto simp: plain_doc_def)
  have "split_text (length ?rest) doc_separator [] ?rest =
      (case ts of [] \<Rightarrow> [d @ [newline]] | _ \<Rightarrow> d # butlast ts @ [last ts @ [newline]])"
    using Cons.IH [of d "[]"] Cons.prems(1) d by (simp split: list.split)
  then show ?case
    unfolding split using split_text_sep [of "p @ t" ?rest _ "[]"] Cons.prems(2) by (cases ts) simp_all
qed

lemma emit_docs:
  assumes "list_all2 (\<lambda>v t. to_yaml (case v of JObject obj \<Rightarrow> JObject (bt_remove ''status'' obj) | v \<Rightarrow> v) = Inr (t @ [newline])) vs ts"
  shows "emit_multi_doc to_yaml vs = Inr (concat (map (\<lambda>t. doc_mark @ t @ [newline]) ts))"
proof -
  have "fold (\<lambda>r out. case out of
         Inl e \<Rightarrow> Inl e
       | Inr o' \<Rightarrow>
           (case to_yaml (case r of JObject obj \<Rightarrow> JObject (bt_remove ''status'' obj) | v \<Rightarrow> v) of
              Inl e \<Rightarrow> Inl e
            | Inr yaml \<Rightarrow> Inr (o' @ ''---'' @ [newline] @ yaml))) vs (Inr acc) =
      Inr (acc @ concat (map (\<lambda>t. doc_mark @ t @ [newline]) ts))" for acc
    using assms by (induction vs ts arbitrary: acc rule: list_all2_induct) (simp_all add: doc_mark_def)
  then show ?thesis by (simp add: emit_multi_doc_def)
qed

text \<open>Splitting the text of a snapshot gives back its documents in order, the first one with the
  mark that opens the stream, when the encoder's documents are plain.\<close>

lemma split_emitted:
  assumes "list_all2 (\<lambda>v t. to_yaml (case v of JObject obj \<Rightarrow> JObject (bt_remove ''status'' obj) | v \<Rightarrow> v) = Inr (t @ [newline])) vs ts"
    and "list_all plain_doc ts"
  shows "\<exists>body. emit_multi_doc to_yaml vs = Inr body \<and>
    split_multi_doc body = (case ts of [] \<Rightarrow> [] | t # ts' \<Rightarrow> (doc_mark @ t) # ts')"
proof (cases ts)
  case Nil
  then show ?thesis using emit_docs [OF assms(1)] by (simp add: split_multi_doc_def str_trim_def)
next
  case (Cons t ts')
  let ?body = "doc_mark @ t @ [newline] @ concat (map (\<lambda>d. doc_mark @ d @ [newline]) ts')"
  have ok: "t' \<noteq> []" "str_trim t' = t'" if "t' \<in> set ts" for t' using assms(2) that by (auto simp: list_all_iff plain_doc_def)
  have nl: "str_trim (s @ [newline]) = str_trim s" for s
    by (rule str_trim_pad) (simp add: is_ascii_ws_def newline_def)
  have "\<not> is_ascii_ws (last t)"
  proof
    assume "is_ascii_ws (last t)"
    then have "str_trim (butlast t @ [last t]) = str_trim (butlast t)" by (intro str_trim_pad) simp
    then have "str_trim (butlast t) = t" using ok [of t] Cons by simp
    moreover have "length (str_trim (butlast t)) \<le> length (butlast t)"
      unfolding str_trim_def by (metis length_dropWhile_le length_rev order.trans)
    moreover have "0 < length t" using ok(1) [of t] Cons by simp
    ultimately show False by (simp del: length_greater_0_conv)
  qed
  then have first: "str_trim (doc_mark @ t) = doc_mark @ t"
    using ok(1) [of t] Cons str_trim_after [of "doc_mark @ t" "[]"] by (simp add: doc_mark_def is_ascii_ws_def)
  have "\<not> str_contains (newline # t @ [newline]) doc_separator" using assms(2) Cons by (simp add: plain_doc_def)
  then have "\<not> str_contains (doc_mark @ t @ [newline]) doc_separator"
    by (simp add: doc_mark_def doc_separator_def newline_def)
  from split_docs [OF _ this, of ts'] have split: "split_text (length ?body) doc_separator [] ?body =
      (case ts' of [] \<Rightarrow> [doc_mark @ t @ [newline]] | _ \<Rightarrow> (doc_mark @ t) # butlast ts' @ [last ts' @ [newline]])"
    using assms(2) Cons by simp
  have "map str_trim (split_text (length ?body) doc_separator [] ?body) = (doc_mark @ t) # ts'"
  proof (cases ts' rule: rev_cases)
    case Nil
    then show ?thesis unfolding split using first nl [of "doc_mark @ t"] by simp
  next
    case (snoc us u)
    then have "map str_trim us = us" "str_trim u = u" using ok(2) Cons by (auto intro: map_idI)
    moreover have "split_text (length ?body) doc_separator [] ?body = (doc_mark @ t) # us @ [u @ [newline]]"
      using split snoc by (cases us) simp_all
    ultimately show ?thesis using first snoc by (simp add: nl)
  qed
  moreover have "filter (\<lambda>s. s \<noteq> []) ((doc_mark @ t) # ts') = (doc_mark @ t) # ts'"
    using ok(1) Cons by (auto simp: filter_id_conv doc_mark_def)
  ultimately have "split_multi_doc ?body = (doc_mark @ t) # ts'" unfolding split_multi_doc_def by simp
  then show ?thesis using emit_docs [OF assms(1)] Cons by simp
qed

subsection \<open>Durations and selectors\<close>

lemma duration_unit_chars: "duration_unit u = Some m \<Longrightarrow> u = [] \<or> (\<exists>c. u = [c] \<and> \<not> is_ascii_digit c \<and> \<not> is_ascii_ws c)"
proof -
  assume "duration_unit u = Some m"
  then have "u \<in> {'''', ''s'', ''S'', ''m'', ''M'', ''h'', ''H'', ''d'', ''D''}"
    unfolding duration_unit_def by (metis insert_iff option.distinct(1))
  moreover have "list_all (\<lambda>c. \<not> is_ascii_digit c \<and> \<not> is_ascii_ws c) ''sSmMhHdD''" by code_simp
  ultimately show ?thesis by auto
qed

lemma parse_u64_show: "parse_u64 (show_nat n) = (if n < 2 ^ 64 then Some (of_nat n) else None)"
  by (simp add: parse_u64_def read_show_nat)

text \<open>Further: a duration is the number times its unit, modulo 2 to the power 64; a number that is out of
  range itself is refused.\<close>

theorem duration_seconds:
  assumes "duration_unit u = Some m"
  shows "case parse_duration_seconds (Some (show_nat n @ u)) of
      Inl _ \<Rightarrow> 2 ^ 64 \<le> n
    | Inr None \<Rightarrow> False
    | Inr (Some w) \<Rightarrow> n < 2 ^ 64 \<and> unat w = n * unat m mod 2 ^ 64"
proof (cases "u = []")
  case True
  have tw: "takeWhile is_ascii_digit (show_nat n) = show_nat n"
    using show_nat_digits [of n] by (simp add: list_all_iff takeWhile_eq_all_conv)
  have m: "m = 1" using assms True by (simp add: duration_unit_def)
  show ?thesis
    using True str_trim_show_nat [of "[]" n]
    by (simp add: parse_duration_seconds_def Let_def parse_u64_show unat_of_nat take_bit_eq_mod tw m)
next
  case False
  then obtain c where c: "u = [c]" "\<not> is_ascii_digit c" "\<not> is_ascii_ws c" using duration_unit_chars [OF assms] by blast
  have trim: "str_trim (show_nat n @ [c]) = show_nat n @ [c]"
    using str_trim_after [of "show_nat n @ [c]" "[]"] c(3) digit_not_ws [OF hd_show_nat_digit [of n]] by simp
  have "strip_plus (show_nat n @ [c]) = show_nat n @ [c]"
    using digit_neq_char [OF hd_show_nat_digit [of n], of "CHR ''+''"] by (cases "show_nat n") (auto simp: strip_plus_def)
  then have none: "parse_u64 (show_nat n @ [c]) = None"
    using c(2) by (simp add: parse_u64_def read_nat_def)
  have digits: "\<forall>x \<in> set (show_nat n). is_ascii_digit x" using show_nat_digits [of n] by (simp add: list_all_iff)
  have tw: "takeWhile is_ascii_digit (show_nat n @ [c]) = show_nat n" "dropWhile is_ascii_digit (show_nat n @ [c]) = [c]"
    using digits c(2) by (simp_all add: takeWhile_append2 dropWhile_append2)
  show ?thesis
    using assms unfolding c(1)
    by (simp add: parse_duration_seconds_def Let_def trim none tw parse_u64_show unat_word_ariths unat_of_nat
        take_bit_eq_mod mod_mult_left_eq)
qed

lemma split_once_first: "c \<notin> set a \<Longrightarrow> split_once [c] (a @ c # b) = Some (a, b)"
  by (induction a) auto

definition sel_get :: "(string \<times> json) list \<Rightarrow> string \<Rightarrow> string \<Rightarrow> json option" where
  "sel_get out cap attr = Option.bind (bt_get out cap) (\<lambda>v. json_get v attr)"

definition all_objects :: "(string \<times> json) list \<Rightarrow> bool" where
  "all_objects out \<longleftrightarrow> (\<forall>c v. bt_get out c = Some v \<longrightarrow> (\<exists>obj. v = JObject obj))"

lemma find_snoc: "find P (xs @ [x]) = (case find P xs of None \<Rightarrow> if P x then Some x else None | Some y \<Rightarrow> Some y)"
  by (induction xs) auto

lemma add_requirement_ok:
  assumes "CHR ''.'' \<notin> set c" and "CHR ''='' \<notin> set c" and "CHR ''='' \<notin> set a" and "all_objects acc"
  shows "\<exists>acc'. add_requirement parse (c @ ''.'' @ a @ ''='' @ raw) acc = Inr acc' \<and> all_objects acc' \<and>
    (\<forall>cap attr. sel_get acc' cap attr =
      (if c = cap \<and> a = attr then Some (unwrap_or (parse raw) (JString raw)) else sel_get acc cap attr))"
proof -
  have split: "split_once ''='' (c @ ''.'' @ a @ ''='' @ raw) = Some (c @ ''.'' @ a, raw)"
    "split_once ''.'' (c @ ''.'' @ a) = Some (c, a)"
    using assms split_once_first [of "CHR ''=''" "c @ ''.'' @ a" raw] split_once_first [of "CHR ''.''" c a] by simp_all
  obtain obj where obj: "unwrap_or (bt_get acc c) (JObject []) = JObject obj" "\<And>k. bt_get obj k = sel_get acc c k"
    using assms(4) by (cases "bt_get acc c") (auto simp: all_objects_def sel_get_def json_get_def bt_get_def)
  let ?acc = "bt_insert c (JObject (bt_insert a (unwrap_or (parse raw) (JString raw)) obj)) acc"
  have "add_requirement parse (c @ ''.'' @ a @ ''='' @ raw) acc = Inr ?acc"
    by (simp only: add_requirement_def split option.case prod.case Let_def obj(1) json.case)
  moreover have "all_objects ?acc" using assms(4) by (simp add: all_objects_def)
  moreover have "sel_get ?acc cap attr =
      (if c = cap \<and> a = attr then Some (unwrap_or (parse raw) (JString raw)) else sel_get acc cap attr)" for cap attr
    by (auto simp: sel_get_def json_get_def obj(2))
  ultimately show ?thesis by blast
qed

text \<open>Further: the inline requirements of \<^verbatim>\<open>orion find\<close> make the selector they say: each attribute of each
  capability has the value of the last requirement that names it.\<close>

theorem inline_selector:
  assumes "list_all (\<lambda>(cap, attr, raw). CHR ''.'' \<notin> set cap \<and> CHR ''='' \<notin> set cap \<and> CHR ''='' \<notin> set attr) qs"
  shows "\<exists>out. build_inline parse (map (\<lambda>(cap, attr, raw). cap @ ''.'' @ attr @ ''='' @ raw) qs) [] = Inr out \<and>
    (\<forall>cap attr. sel_get out cap attr =
      (case find (\<lambda>(c, a, _). c = cap \<and> a = attr) (rev qs) of
         None \<Rightarrow> None
       | Some (_, _, raw) \<Rightarrow> Some (unwrap_or (parse raw) (JString raw))))"
proof -
  have "\<exists>out. build_inline parse (map (\<lambda>(cap, attr, raw). cap @ ''.'' @ attr @ ''='' @ raw) qs) acc = Inr out \<and>
    (\<forall>cap attr. sel_get out cap attr =
      (case find (\<lambda>(c, a, _). c = cap \<and> a = attr) (rev qs) of
         None \<Rightarrow> sel_get acc cap attr
       | Some (_, _, raw) \<Rightarrow> Some (unwrap_or (parse raw) (JString raw))))" if "all_objects acc" for acc
    using assms that
  proof (induction qs arbitrary: acc)
    case (Cons q qs)
    obtain c a raw where q: "q = (c, a, raw)" by (cases q) auto
    obtain acc' where acc': "add_requirement parse (c @ ''.'' @ a @ ''='' @ raw) acc = Inr acc'" "all_objects acc'"
      "\<And>cap attr. sel_get acc' cap attr =
        (if c = cap \<and> a = attr then Some (unwrap_or (parse raw) (JString raw)) else sel_get acc cap attr)"
      using add_requirement_ok [of c a acc parse raw] Cons.prems q by auto
    from Cons.IH [OF _ acc'(2)] Cons.prems(1) obtain out where
      "build_inline parse (map (\<lambda>(cap, attr, raw). cap @ ''.'' @ attr @ ''='' @ raw) qs) acc' = Inr out"
      "\<And>cap attr. sel_get out cap attr =
        (case find (\<lambda>(c, a, _). c = cap \<and> a = attr) (rev qs) of
           None \<Rightarrow> sel_get acc' cap attr
         | Some (_, _, raw) \<Rightarrow> Some (unwrap_or (parse raw) (JString raw)))" by auto
    then show ?case using acc' by (auto simp: q find_snoc split: option.split)
  qed simp
  note run = this
  have none: "sel_get [] cap attr = None" for cap attr by (simp add: sel_get_def bt_get_def)
  have "all_objects []" by (simp add: all_objects_def bt_get_def)
  from run [OF this, unfolded none] show ?thesis .
qed

subsection \<open>Witnesses\<close>

theorem table_read_back_witness:
  "run_json (\<lambda>_. None) None \<lparr>ja_headers = [], ja_no_header = False, ja_delim = None, ja_passthrough = False, ja_skip = 0,
      ja_no_trim = False\<rparr> (str_lines (render_table [''node'', ''last''] [[''n1'', ''1 s''], [''worker-2'', []]])) =
    ([JObject [(''last'', JString ''1 s''), (''node'', JString ''n1'')],
      JObject [(''last'', JString []), (''node'', JString ''worker-2'')]], 0)"
proof -
  let ?h = "[''node'', ''last'']" and ?r = "[[''n1'', ''1 s''], [''worker-2'', []]]"
  have "table_headers_ok ?h" "list_all (table_row_ok ?h) ?r" by code_simp+
  note eq = table_read_back [OF this, of "\<lambda>_. None"]
  have "map (\<lambda>row. JObject (pack_row (map (\<lambda>h. normalize_header h False) ?h) row True)) ?r =
      [JObject [(''last'', JString ''1 s''), (''node'', JString ''n1'')],
       JObject [(''last'', JString []), (''node'', JString ''worker-2'')]]" by code_simp
  with eq show ?thesis by simp
qed

theorem duration_seconds_witness:
  "case parse_duration_seconds (Some (show_nat 24 @ ''h'')) of
      Inl _ \<Rightarrow> (2::nat) ^ 64 \<le> 24
    | Inr None \<Rightarrow> False
    | Inr (Some w) \<Rightarrow> (24::nat) < 2 ^ 64 \<and> unat w = 86400"
  using duration_seconds [of "''h''" 3600 24] by (simp add: duration_unit_def split: sum.splits option.splits)

end
