(* ===== verification/Cli_Generate.thy ===== *)
theory Cli_Generate
  imports Cli_Text
begin

text \<open>
  The resource documents the client generates (\<^verbatim>\<open>cmd/generate.rs\<close>, \<^verbatim>\<open>cmd/shell.rs\<close>): the arguments of
  each command, the document it makes, and the errors it reports instead. A YAML mapping keeps the
  order in which its keys were first inserted; its values are those of JSON.
\<close>

subsection \<open>Generated documents (\<^verbatim>\<open>generate.rs\<close>)\<close>

definition ym_insert :: "string \<Rightarrow> json \<Rightarrow> (string \<times> json) list \<Rightarrow> (string \<times> json) list" where
  "ym_insert k v m =
     (if k \<in> fst ` set m then map (\<lambda>(j, w). if j = k then (j, v) else (j, w)) m else m @ [(k, v)])"

definition ym_opt :: "string \<Rightarrow> json option \<Rightarrow> (string \<times> json) list \<Rightarrow> (string \<times> json) list" where
  "ym_opt k v m = (case v of None \<Rightarrow> m | Some x \<Rightarrow> ym_insert k x m)"

definition jnum :: "'a::len word \<Rightarrow> json" where
  "jnum n = JNumber (PosInt (ucast n))"

text \<open>Pairs for labels and variables; the first argument is the subject of the message for a word that is none.\<close>

fun parse_kv :: "string \<Rightarrow> string list \<Rightarrow> (string \<times> json) list \<Rightarrow> string + (string \<times> json) list" where
  "parse_kv msg [] m = Inr m"
| "parse_kv msg (kv # kvs) m =
     (case split_once ''='' kv of
        None \<Rightarrow> Inl (msg @ '' must look like K=V, got '' @ debug_str kv)
      | Some (k, v) \<Rightarrow> parse_kv msg kvs (ym_insert k (JString v) m))"

definition emit_doc :: "string \<Rightarrow> string \<Rightarrow> (string \<times> json) list option \<Rightarrow> json \<Rightarrow> json" where
  "emit_doc kind name labels spec =
     (let metadata = ym_insert ''name'' (JString name) [];
          metadata' = (case labels of None \<Rightarrow> metadata | Some l \<Rightarrow> if l = [] then metadata else ym_insert ''labels'' (JObject l) metadata)
      in JObject [(''apiVersion'', JString ''orionmesh.dev/v1''), (''kind'', JString kind),
           (''metadata'', JObject metadata'), (''spec'', spec)])"

definition build_runtime_block ::
  "string \<Rightarrow> string option \<Rightarrow> string option \<Rightarrow> string list \<Rightarrow> string list \<Rightarrow> string + json" where
  "build_runtime_block rt exec img args env =
     (let m = ym_insert ''kind'' (JString rt) []
      in case (if rt = ''native'' then
                 (case exec of None \<Rightarrow> Inl ''--exec is required when --runtime=native''
                  | Some e \<Rightarrow> Inr (ym_insert ''exec'' (JString e) m))
               else if rt = ''docker'' then
                 (case img of None \<Rightarrow> Inl ''--image is required when --runtime=docker''
                  | Some i \<Rightarrow> Inr (ym_insert ''image'' (JString i) m))
               else Inl (''unsupported runtime kind: '' @ rt)) of
           Inl e \<Rightarrow> Inl e
         | Inr m1 \<Rightarrow>
             (let m2 = (if args = [] then m1 else ym_insert ''args'' (JArray (map JString args)) m1)
              in if env = [] then Inr (JObject m2)
                 else (case parse_kv ''--env'' env [] of
                         Inl e \<Rightarrow> Inl e
                       | Inr em \<Rightarrow> Inr (JObject (ym_insert ''env'' (JObject em) m2)))))"

definition parse_u16 :: "string \<Rightarrow> u16 option" where
  "parse_u16 s =
     (case read_nat (strip_plus s) of None \<Rightarrow> None | Some n \<Rightarrow> if n < 2 ^ 16 then Some (of_nat n) else None)"

text \<open>Why a text is no number of the width: the first character at which the parser fails decides.\<close>

definition parse_int_error :: "nat \<Rightarrow> string \<Rightarrow> string" where
  "parse_int_error w s =
     (if s = [] then ''cannot parse integer from empty string''
      else (case read_nat (takeWhile is_ascii_digit (strip_plus s)) of
              None \<Rightarrow> ''invalid digit found in string''
            | Some n \<Rightarrow> if n < 2 ^ w then ''invalid digit found in string'' else ''number too large to fit in target type''))"

fun build_ports :: "string list \<Rightarrow> string + json list" where
  "build_ports [] = Inr []"
| "build_ports (p # ps) =
     (case split_once '':'' p of
        None \<Rightarrow> Inl (''--port must look like NAME:PORT, got '' @ debug_str p)
      | Some (name, port) \<Rightarrow>
          (case parse_u16 port of
             None \<Rightarrow> Inl (parse_int_error 16 port)
           | Some n \<Rightarrow>
               (case build_ports ps of
                  Inl e \<Rightarrow> Inl e
                | Inr out \<Rightarrow> Inr (JObject [(''name'', JString name), (''port'', jnum n), (''protocol'', JString ''tcp'')] # out))))"

definition build_workload_spec ::
  "string \<Rightarrow> string option \<Rightarrow> string option \<Rightarrow> string list \<Rightarrow> string list \<Rightarrow> string list \<Rightarrow> u32 option \<Rightarrow> string option \<Rightarrow>
     string + json" where
  "build_workload_spec rt exec img args env ports replicas restart =
     (case build_runtime_block rt exec img args env of
        Inl e \<Rightarrow> Inl e
      | Inr block \<Rightarrow>
          (let spec = ym_opt ''replicas'' (map_option jnum replicas) [(''runtime'', block)]
           in case (if ports = [] then Inr spec
                    else (case build_ports ports of Inl e \<Rightarrow> Inl e | Inr out \<Rightarrow> Inr (ym_insert ''ports'' (JArray out) spec))) of
                Inl e \<Rightarrow> Inl e
              | Inr spec' \<Rightarrow> Inr (JObject (ym_insert ''restart_policy'' (JString (unwrap_or restart ''always'')) spec'))))"

record queue_args =
  qa_name :: string
  qa_type :: string
  qa_max_age :: "string option"
  qa_max_msgs :: "u64 option"
  qa_max_bytes :: "u64 option"
  qa_subject :: "string option"
  qa_stream :: "string option"
  qa_replicas :: u32
  qa_description :: "string option"

definition build_queue :: "queue_args \<Rightarrow> string + json" where
  "build_queue a =
     (case parse_duration_seconds (qa_max_age a) of
        Inl e \<Rightarrow> Inl e
      | Inr age \<Rightarrow>
          Inr (emit_doc ''Queue'' (qa_name a) None (JObject
            (ym_opt ''description'' (map_option JString (qa_description a))
            (ym_opt ''replicas'' (if qa_replicas a \<noteq> 1 then Some (jnum (qa_replicas a)) else None)
            (ym_opt ''stream'' (map_option JString (qa_stream a))
            (ym_opt ''subject'' (map_option JString (qa_subject a))
            (ym_opt ''max_bytes'' (map_option jnum (qa_max_bytes a))
            (ym_opt ''max_msgs'' (map_option jnum (qa_max_msgs a))
            (ym_opt ''max_age_seconds'' (map_option jnum age)
              [(''type'', JString (qa_type a))])))))))))) "

record workload_args =
  wa_name :: string
  wa_runtime :: string
  wa_exec :: "string option"
  wa_image :: "string option"
  wa_args :: "string list"
  wa_env :: "string list"
  wa_labels :: "string list"

definition build_service :: "workload_args \<Rightarrow> u32 option \<Rightarrow> string option \<Rightarrow> string list \<Rightarrow> string + json" where
  "build_service a replicas restart ports =
     (case parse_kv ''label/env'' (wa_labels a) [] of
        Inl e \<Rightarrow> Inl e
      | Inr labels \<Rightarrow>
          (case build_workload_spec (wa_runtime a) (wa_exec a) (wa_image a) (wa_args a) (wa_env a) ports replicas restart of
             Inl e \<Rightarrow> Inl e
           | Inr spec \<Rightarrow> Inr (emit_doc ''Service'' (wa_name a) (Some labels) spec)))"

definition build_task :: "workload_args \<Rightarrow> u32 option \<Rightarrow> string + json" where
  "build_task a timeout =
     (case parse_kv ''label/env'' (wa_labels a) [] of
        Inl e \<Rightarrow> Inl e
      | Inr labels \<Rightarrow>
          (case build_runtime_block (wa_runtime a) (wa_exec a) (wa_image a) (wa_args a) (wa_env a) of
             Inl e \<Rightarrow> Inl e
           | Inr block \<Rightarrow>
               Inr (emit_doc ''Task'' (wa_name a) (Some labels)
                 (JObject (ym_opt ''timeout_seconds'' (map_option jnum timeout) [(''runtime'', block)])))))"

definition build_schedule :: "string \<Rightarrow> string \<Rightarrow> string \<Rightarrow> json" where
  "build_schedule name cron task =
     emit_doc ''Schedule'' name None (JObject [(''cron'', JString cron), (''task'', JString task)])"

text \<open>A one-shot task for a command; words without an equals sign among the variables are dropped.\<close>

definition exec_doc :: "string \<Rightarrow> string \<Rightarrow> string option \<Rightarrow> string list \<Rightarrow> string list \<Rightarrow> string + json" where
  "exec_doc name rt img env argv =
     (if argv = [] then Inl ''nothing to exec''
      else
        (let env_map = fold (\<lambda>kv m. case split_once ''='' kv of None \<Rightarrow> m | Some (k, v) \<Rightarrow> ym_insert k (JString v) m) env [];
             base = [(''kind'', JString rt)]
         in case (if rt = ''native'' then Inr (base @ [(''exec'', JString (hd argv)), (''args'', JArray (map JString (tl argv)))])
                  else (case img of
                          None \<Rightarrow> Inl ''--image required for docker runtime''
                        | Some i \<Rightarrow> Inr (base @ [(''image'', JString i), (''args'', JArray (map JString argv))]))) of
              Inl e \<Rightarrow> Inl e
            | Inr m \<Rightarrow>
                (let m' = (if env_map = [] then m else m @ [(''env'', JObject env_map)])
                 in Inr (JObject [(''apiVersion'', JString ''orionmesh.dev/v1''), (''kind'', JString ''Task''),
                      (''metadata'', JObject [(''name'', JString name)]), (''spec'', JObject [(''runtime'', JObject m')])]))))"

text \<open>A service that works on a queue. The queue's specification is the one the controller returned,
  or none; the NATS address of the environment is an argument.\<close>

record processor_args =
  pa_name :: string
  pa_queue :: string
  pa_lang :: string
  pa_group :: "string option"
  pa_replicas :: u32
  pa_debug :: bool
  pa_debug_port :: "u16 option"
  pa_debug_suspend :: bool
  pa_template :: "string option"
  pa_env :: "string list"

definition queue_type_text :: "queue_type \<Rightarrow> string" where
  "queue_type_text t = (case t of Work_Queue \<Rightarrow> ''work'' | Topic_Queue \<Rightarrow> ''topic'')"

definition processor_command :: "processor_args \<Rightarrow> u16 \<Rightarrow> string \<times> string list" where
  "processor_command a port =
     (if pa_lang a = ''python'' then
        (let template = unwrap_or (pa_template a) ''examples/10-queues/python/processor.py''
         in (''python'', if pa_debug a
               then [''-m'', ''debugpy'', ''--listen'', ''0.0.0.0:'' @ show_nat (unat port)] @
                    (if pa_debug_suspend a then [''--wait-for-client''] else []) @ [template]
               else [template]))
      else if pa_lang a = ''java'' then
        (let jar = unwrap_or (pa_template a) ''examples/10-queues/java/target/orion-queue-processor.jar''
         in (''java'', (if pa_debug a
               then [''-agentlib:jdwp=transport=dt_socket,server=y,suspend='' @ (if pa_debug_suspend a then ''y'' else ''n'') @
                     '',address=*:'' @ show_nat (unat port)] else []) @ [''-jar'', jar]))
      else (unwrap_or (pa_template a) ''target/release/orion-queue-processor'', []))"

definition processor_group :: "processor_args \<Rightarrow> queue_type \<Rightarrow> string" where
  "processor_group a t =
     (case pa_group a of
        Some g \<Rightarrow> g
      | None \<Rightarrow> (case t of Work_Queue \<Rightarrow> pa_queue a @ ''-workers'' | Topic_Queue \<Rightarrow> pa_queue a @ ''-watchers''))"

definition processor_env :: "string option \<Rightarrow> queue_spec option \<Rightarrow> processor_args \<Rightarrow> u16 \<Rightarrow> (string \<times> json) list" where
  "processor_env nats_url qspec a port =
     (let qtype = (case qspec of None \<Rightarrow> Work_Queue | Some q \<Rightarrow> qs_queue_type q);
          (subject, cfg) = queue_stream_config (pa_queue a) (unwrap_or qspec default_queue_spec);
          base = [(''NATS_URL'', JString (unwrap_or nats_url ''nats://127.0.0.1:4222'')), (''ORION_QUEUE_NAME'', JString (pa_queue a)),
            (''ORION_QUEUE_SUBJECT'', JString subject), (''ORION_QUEUE_STREAM'', JString (sg_name cfg)),
            (''ORION_QUEUE_TYPE'', JString (queue_type_text qtype)), (''ORION_QUEUE_GROUP'', JString (processor_group a qtype))];
          base' = (if pa_debug a then ym_insert ''ORION_DEBUG_PORT'' (jnum port) base else base)
      in fold (\<lambda>kv m. case split_once ''='' kv of None \<Rightarrow> m | Some (k, v) \<Rightarrow> ym_insert k (JString v) m) (pa_env a) base')"

definition build_processor :: "string option \<Rightarrow> queue_spec option \<Rightarrow> processor_args \<Rightarrow> json" where
  "build_processor nats_url qspec a =
     (let port = unwrap_or (pa_debug_port a) (if pa_lang a = ''java'' then 5005 else 5678);
          (exec, args) = processor_command a port;
          block = JObject [(''kind'', JString ''native''), (''exec'', JString exec), (''args'', JArray (map JString args)),
            (''env'', JObject (processor_env nats_url qspec a port))];
          spec = [(''runtime'', block)] @ (if 1 < pa_replicas a then [(''replicas'', jnum (pa_replicas a))] else []) @
            [(''restart_policy'', JString ''on_failure'')] @
            (if pa_debug a then [(''ports'', JArray [JObject [(''name'', JString (if pa_lang a = ''java'' then ''jdwp'' else ''debugpy'')),
               (''port'', jnum port), (''protocol'', JString ''tcp'')]])] else [])
      in emit_doc ''Service'' (pa_name a) (Some [(''role'', JString ''processor''), (''queue'', JString (pa_queue a)),
           (''lang'', JString (pa_lang a))]) (JObject spec))"

record sidecar_args =
  sa_name :: string
  sa_source :: string
  sa_queue :: string
  sa_filter :: "string option"
  sa_interval_seconds :: u32
  sa_controller_url :: "string option"

definition sidecar_env :: "sidecar_args \<Rightarrow> (string \<times> json) list" where
  "sidecar_env a = ym_opt ''SIDECAR_FILTER_REGEX'' (map_option JString (sa_filter a))
     [(''NATS_URL'', JString ''nats://127.0.0.1:4222''),
      (''ORION_CONTROLLER_URL'', JString (unwrap_or (sa_controller_url a) ''http://127.0.0.1:7878'')),
      (''SIDECAR_SOURCE_SERVICE'', JString (sa_source a)), (''ORION_QUEUE_NAME'', JString (sa_queue a)),
      (''ORION_QUEUE_SUBJECT'', JString (default_queue_subject (sa_queue a))),
      (''ORION_QUEUE_STREAM'', JString (default_queue_stream (sa_queue a))),
      (''SIDECAR_INTERVAL_SECONDS'', JString (show_nat (unat (sa_interval_seconds a))))]"

definition build_sidecar :: "sidecar_args \<Rightarrow> json" where
  "build_sidecar a =
     emit_doc ''Service'' (sa_name a) (Some [(''role'', JString ''sidecar''), (''source'', JString (sa_source a)),
       (''queue'', JString (sa_queue a))])
       (JObject [(''runtime'', JObject [(''kind'', JString ''native''), (''exec'', JString ''target/debug/orion-sidecar''),
          (''args'', JArray []), (''env'', JObject (sidecar_env a))]), (''restart_policy'', JString ''on_failure'')])"
subsection \<open>Reading a document\<close>

definition json_at :: "json \<Rightarrow> string list \<Rightarrow> json option" where
  "json_at v path = fold (\<lambda>k found. Option.bind found (\<lambda>w. json_get w k)) path (Some v)"

text \<open>The value the last word of a key gives it.\<close>

definition kv_get :: "string list \<Rightarrow> string \<Rightarrow> string option" where
  "kv_get kvs = map_of (rev (List.map_filter (split_once ''='') kvs))"

definition is_pair :: "string \<Rightarrow> bool" where
  "is_pair kv \<longleftrightarrow> split_once ''='' kv \<noteq> None"

definition port_of :: "string \<Rightarrow> (string \<times> u16) option" where
  "port_of p = (case split_once '':'' p of None \<Rightarrow> None | Some (name, n) \<Rightarrow> map_option (Pair name) (parse_u16 n))"

definition port_json :: "string \<times> u16 \<Rightarrow> json" where
  "port_json = (\<lambda>(name, n). JObject [(''name'', JString name), (''port'', jnum n), (''protocol'', JString ''tcp'')])"

definition runtime_given :: "workload_args \<Rightarrow> bool" where
  "runtime_given a \<longleftrightarrow> wa_runtime a = ''native'' \<and> wa_exec a \<noteq> None \<or> wa_runtime a = ''docker'' \<and> wa_image a \<noteq> None"

definition service_args_ok :: "workload_args \<Rightarrow> string list \<Rightarrow> bool" where
  "service_args_ok a ports \<longleftrightarrow> list_all is_pair (wa_labels a) \<and> runtime_given a \<and> list_all is_pair (wa_env a) \<and>
     list_all (\<lambda>p. port_of p \<noteq> None) ports"

lemma json_at_Nil [simp]: "json_at v [] = Some v"
  by (simp add: json_at_def)

lemma fold_bind_None [simp]: "fold (\<lambda>k found. Option.bind found (\<lambda>w. json_get w k)) path None = None"
  by (induction path) auto

lemma json_at_Cons: "json_at v (k # path) = Option.bind (json_get v k) (\<lambda>w. json_at w path)"
  by (cases "json_get v k") (simp_all add: json_at_def)

lemma json_at_object [simp]: "json_at (JObject m) (k # path) = Option.bind (map_of m k) (\<lambda>w. json_at w path)"
  by (simp add: json_at_Cons json_get_def bt_get_def)

lemma map_of_replace:
  "map_of (map (\<lambda>(j, w). if j = k then (j, v) else (j, w)) m) i =
     (if i = k \<and> k \<in> fst ` set m then Some v else map_of m i)"
proof (induction m)
  case (Cons e m)
  then show ?case by (cases e; cases "i = k") auto
qed simp

lemma map_of_ym_insert [simp]: "map_of (ym_insert k v m) i = (if i = k then Some v else map_of m i)"
proof (cases "k \<in> fst ` set m")
  case False
  then have "map_of m k = None" by (simp add: map_of_eq_None_iff)
  with False show ?thesis by (simp add: ym_insert_def map_add_def split: option.split)
qed (simp add: ym_insert_def map_of_replace)

lemma map_of_ym_opt [simp]:
  "map_of (ym_opt k v m) i = (if i = k \<and> v \<noteq> None then v else map_of m i)"
  by (cases v) (auto simp: ym_opt_def)

lemma ym_insert_neq_Nil [simp]: "ym_insert k v m \<noteq> []"
  by (cases m) (auto simp: ym_insert_def)

text \<open>Folding words into a mapping: the last word of a key wins, a word that is no pair changes nothing.\<close>

lemma kv_get_Cons:
  "kv_get (kv # kvs) k =
     (case kv_get kvs k of Some v \<Rightarrow> Some v
      | None \<Rightarrow> (case split_once ''='' kv of Some (j, v) \<Rightarrow> if j = k then Some v else None | None \<Rightarrow> None))"
  by (auto simp: kv_get_def map_filter_simps map_add_def split: option.split)

lemma kv_get_Nil [simp]: "kv_get [] k = None"
  by (simp add: kv_get_def map_filter_simps)

lemma fold_kv:
  "map_of (fold (\<lambda>kv m. case split_once ''='' kv of None \<Rightarrow> m | Some (k, v) \<Rightarrow> ym_insert k (JString v) m) kvs m) i =
     (case kv_get kvs i of Some v \<Rightarrow> Some (JString v) | None \<Rightarrow> map_of m i)"
  by (induction kvs arbitrary: m) (auto simp: kv_get_Cons split: option.split)

lemma parse_kv_pairs:
  "list_all is_pair kvs \<Longrightarrow> parse_kv msg kvs m =
     Inr (fold (\<lambda>kv m. case split_once ''='' kv of None \<Rightarrow> m | Some (k, v) \<Rightarrow> ym_insert k (JString v) m) kvs m)"
  by (induction msg kvs m rule: parse_kv.induct) (auto simp: is_pair_def split: option.splits)

lemma parse_kv_bad: "\<not> list_all is_pair kvs \<Longrightarrow> \<exists>e. parse_kv msg kvs m = Inl e"
  by (induction msg kvs m rule: parse_kv.induct) (auto simp: is_pair_def split: option.splits)

lemma parse_kv_cases:
  obtains (pairs) m' where "list_all is_pair kvs" "parse_kv msg kvs m = Inr m'"
    "\<And>i. map_of m' i = (case kv_get kvs i of Some v \<Rightarrow> Some (JString v) | None \<Rightarrow> map_of m i)"
  | (bad) e where "\<not> list_all is_pair kvs" "parse_kv msg kvs m = Inl e"
  using parse_kv_pairs [of kvs msg m] parse_kv_bad [of kvs msg m] fold_kv [of kvs m] by fastforce

lemma build_ports_Some:
  "port_of p = Some q \<Longrightarrow>
     build_ports (p # ps) = (case build_ports ps of Inl e \<Rightarrow> Inl e | Inr out \<Rightarrow> Inr (port_json q # out))"
  by (auto simp: port_of_def port_json_def split: option.splits sum.split)

lemma build_ports_None: "port_of p = None \<Longrightarrow> \<exists>e. build_ports (p # ps) = Inl e"
  by (auto simp: port_of_def split: option.splits)

lemma build_ports_ok:
  "list_all (\<lambda>p. port_of p \<noteq> None) ps \<Longrightarrow> build_ports ps = Inr (map port_json (List.map_filter port_of ps))"
  by (induction ps) (auto simp: build_ports_Some map_filter_simps simp del: build_ports.simps(2))

lemma build_ports_bad: "\<not> list_all (\<lambda>p. port_of p \<noteq> None) ps \<Longrightarrow> \<exists>e. build_ports ps = Inl e"
proof (induction ps)
  case (Cons p ps)
  then show ?case using build_ports_None [of p ps] build_ports_Some [of p _ ps] by (cases "port_of p") fastforce+
qed simp

lemma build_runtime_block_bad:
  "\<not> (runtime_given a \<and> list_all is_pair (wa_env a)) \<Longrightarrow>
     \<exists>e. build_runtime_block (wa_runtime a) (wa_exec a) (wa_image a) args (wa_env a) = Inl e"
  using parse_kv_bad [of "wa_env a" "''--env''" "[]"]
  by (auto simp: build_runtime_block_def runtime_given_def Let_def split: option.split)

text \<open>Where a runtime starts from: the executable of a native one, the image of a container.\<close>

definition runtime_source :: "workload_args \<Rightarrow> string \<times> string option" where
  "runtime_source a = (if wa_runtime a = ''native'' then (''exec'', wa_exec a) else (''image'', wa_image a))"

lemma build_runtime_block_ok:
  assumes "runtime_given a" and "list_all is_pair (wa_env a)"
  obtains m where "build_runtime_block (wa_runtime a) (wa_exec a) (wa_image a) args (wa_env a) = Inr (JObject m)"
    "map_of m ''kind'' = Some (JString (wa_runtime a))"
    "map_of m (fst (runtime_source a)) = map_option JString (snd (runtime_source a))"
    "map_of m ''args'' = (if args = [] then None else Some (JArray (map JString args)))"
    "\<And>k. json_at (JObject m) [''env'', k] = map_option JString (kv_get (wa_env a) k)"
proof -
  from assms(2) obtain em where em: "parse_kv ''--env'' (wa_env a) [] = Inr em"
    "\<And>i. map_of em i = map_option JString (kv_get (wa_env a) i)"
    by (cases rule: parse_kv_cases [of "wa_env a" "''--env''" "[]"]) (auto split: option.splits)
  obtain key v where src: "runtime_source a = (key, Some v)" "key = ''exec'' \<or> key = ''image''"
    using assms(1) by (auto simp: runtime_source_def runtime_given_def)
  define m where "m = ym_opt ''env'' (if wa_env a = [] then None else Some (JObject em))
    (ym_opt ''args'' (if args = [] then None else Some (JArray (map JString args)))
      (ym_insert key (JString v) (ym_insert ''kind'' (JString (wa_runtime a)) [])))"
  have "build_runtime_block (wa_runtime a) (wa_exec a) (wa_image a) args (wa_env a) = Inr (JObject m)"
    using assms(1) src(1) em(1)
    by (auto simp: build_runtime_block_def Let_def m_def ym_opt_def runtime_source_def runtime_given_def split: if_splits)
  moreover have "json_at (JObject m) [''env'', k] = map_option JString (kv_get (wa_env a) k)" for k
    using src(2) em(2) by (auto simp: m_def)
  ultimately show ?thesis
    using src by (intro that) (auto simp: m_def)
qed

lemma json_at_emit_doc:
  "json_at (emit_doc kind name labels spec) [''apiVersion''] = Some (JString ''orionmesh.dev/v1'')"
  "json_at (emit_doc kind name labels spec) [''kind''] = Some (JString kind)"
  "json_at (emit_doc kind name labels spec) [''metadata'', ''name''] = Some (JString name)"
  "json_at (emit_doc kind name labels spec) (''spec'' # path) = json_at spec path"
  "json_at (emit_doc kind name (Some l) spec) [''metadata'', ''labels'', k] = map_of l k"
  by (simp_all add: emit_doc_def Let_def split: option.split)

lemma build_workload_spec_bad:
  assumes "\<not> (runtime_given a \<and> list_all is_pair (wa_env a) \<and> list_all (\<lambda>p. port_of p \<noteq> None) ports)"
  shows "\<exists>e. build_workload_spec (wa_runtime a) (wa_exec a) (wa_image a) (wa_args a) (wa_env a) ports replicas restart = Inl e"
proof (cases "runtime_given a \<and> list_all is_pair (wa_env a)")
  case True
  with assms have "\<exists>e. build_ports ports = Inl e" "ports \<noteq> []" using build_ports_bad [of ports] by auto
  then show ?thesis by (auto simp: build_workload_spec_def Let_def split: sum.split)
next
  case False
  from build_runtime_block_bad [OF this, of "wa_args a"] show ?thesis
    by (auto simp: build_workload_spec_def)
qed

subsection \<open>Properties\<close>

text \<open>C33: the service a command line generates. It fails exactly when a label or a variable is no
  pair, a port is no name with a number of sixteen bits, or the runtime has nothing to start; otherwise
  the document has the kind, the name, each label and variable with its last value, the executable or
  the image, the arguments, the replicas, the ports in order and the restart policy that were asked for.\<close>

theorem service_document:
  "case build_service a replicas restart ports of
     Inl _ \<Rightarrow> \<not> service_args_ok a ports
   | Inr doc \<Rightarrow>
       service_args_ok a ports \<and>
       json_at doc [''kind''] = Some (JString ''Service'') \<and>
       json_at doc [''metadata'', ''name''] = Some (JString (wa_name a)) \<and>
       (\<forall>k. json_at doc [''metadata'', ''labels'', k] = map_option JString (kv_get (wa_labels a) k)) \<and>
       json_at doc [''spec'', ''runtime'', ''kind''] = Some (JString (wa_runtime a)) \<and>
       json_at doc [''spec'', ''runtime'', fst (runtime_source a)] = map_option JString (snd (runtime_source a)) \<and>
       json_at doc [''spec'', ''runtime'', ''args''] = (if wa_args a = [] then None else Some (JArray (map JString (wa_args a)))) \<and>
       (\<forall>k. json_at doc [''spec'', ''runtime'', ''env'', k] = map_option JString (kv_get (wa_env a) k)) \<and>
       json_at doc [''spec'', ''replicas''] = map_option jnum replicas \<and>
       json_at doc [''spec'', ''ports''] =
         (if ports = [] then None else Some (JArray (map port_json (List.map_filter port_of ports)))) \<and>
       json_at doc [''spec'', ''restart_policy''] = Some (JString (unwrap_or restart ''always''))"
proof (cases "service_args_ok a ports")
  case True
  then have ok: "list_all is_pair (wa_labels a)" "runtime_given a" "list_all is_pair (wa_env a)"
      "list_all (\<lambda>p. port_of p \<noteq> None) ports" by (auto simp: service_args_ok_def)
  obtain lm where lm: "parse_kv ''label/env'' (wa_labels a) [] = Inr lm"
      "\<And>k. map_of lm k = map_option JString (kv_get (wa_labels a) k)"
    using ok(1) by (cases rule: parse_kv_cases [of "wa_labels a" "''label/env''" "[]"]) (auto split: option.splits)
  obtain m where m: "build_runtime_block (wa_runtime a) (wa_exec a) (wa_image a) (wa_args a) (wa_env a) = Inr (JObject m)"
      "map_of m ''kind'' = Some (JString (wa_runtime a))"
      "map_of m (fst (runtime_source a)) = map_option JString (snd (runtime_source a))"
      "map_of m ''args'' = (if wa_args a = [] then None else Some (JArray (map JString (wa_args a))))"
      "\<And>k. json_at (JObject m) [''env'', k] = map_option JString (kv_get (wa_env a) k)"
    using build_runtime_block_ok [OF ok(2,3), of "wa_args a"] by metis
  show ?thesis
    using True m lm build_ports_ok [OF ok(4)]
    by (auto simp: build_service_def build_workload_spec_def Let_def json_at_emit_doc)
next
  case False
  then show ?thesis
    using parse_kv_bad [of "wa_labels a" "''label/env''" "[]"]
      build_workload_spec_bad [of a ports replicas restart]
    by (auto simp: build_service_def service_args_ok_def split: sum.split)
qed

lemma processor_env_get:
  "map_of (processor_env nats_url qspec a port) k =
     (case kv_get (pa_env a) k of
        Some v \<Rightarrow> Some (JString v)
      | None \<Rightarrow>
          (let q = unwrap_or qspec default_queue_spec; (subject, cfg) = queue_stream_config (pa_queue a) q;
               qtype = (case qspec of None \<Rightarrow> Work_Queue | Some s \<Rightarrow> qs_queue_type s)
           in map_of (ym_opt ''ORION_DEBUG_PORT'' (if pa_debug a then Some (jnum port) else None)
                [(''NATS_URL'', JString (unwrap_or nats_url ''nats://127.0.0.1:4222'')), (''ORION_QUEUE_NAME'', JString (pa_queue a)),
                 (''ORION_QUEUE_SUBJECT'', JString subject), (''ORION_QUEUE_STREAM'', JString (sg_name cfg)),
                 (''ORION_QUEUE_TYPE'', JString (queue_type_text qtype)), (''ORION_QUEUE_GROUP'', JString (processor_group a qtype))]) k))"
  by (simp add: processor_env_def Let_def fold_kv split_beta ym_opt_def split: option.split)

lemma build_processor_env:
  "json_at (build_processor nats_url qspec a) [''spec'', ''runtime'', ''env'', k] =
     map_of (processor_env nats_url qspec a (unwrap_or (pa_debug_port a) (if pa_lang a = ''java'' then 5005 else 5678))) k"
  by (simp add: build_processor_def Let_def split_beta json_at_emit_doc)

lemma build_sidecar_env:
  "json_at (build_sidecar s) [''spec'', ''runtime'', ''env'', k] = map_of (sidecar_env s) k"
  by (simp add: build_sidecar_def json_at_emit_doc)

text \<open>Further: the processor generated for a queue the controller knows reads the subject and the stream
  that publishers of that queue use, unless a variable of the command line says otherwise. The sidecar
  generated for a queue does so only when the queue keeps the default ones: it never asks the
  controller, so a queue with its own subject or stream is fed on the wrong one.\<close>

theorem generated_workers_queue:
  "json_at (build_processor nats_url (Some q) a) [''spec'', ''runtime'', ''env'', ''ORION_QUEUE_SUBJECT''] =
     Some (JString (unwrap_or (kv_get (pa_env a) ''ORION_QUEUE_SUBJECT'') (fst (queue_stream_config (pa_queue a) q)))) \<and>
   json_at (build_processor nats_url (Some q) a) [''spec'', ''runtime'', ''env'', ''ORION_QUEUE_STREAM''] =
     Some (JString (unwrap_or (kv_get (pa_env a) ''ORION_QUEUE_STREAM'') (sg_name (snd (queue_stream_config (pa_queue a) q))))) \<and>
   (json_at (build_sidecar s) [''spec'', ''runtime'', ''env'', ''ORION_QUEUE_SUBJECT''] =
      Some (JString (fst (queue_stream_config (sa_queue s) q))) \<longleftrightarrow>
      unwrap_or (qs_subject q) (default_queue_subject (sa_queue s)) = default_queue_subject (sa_queue s)) \<and>
   (json_at (build_sidecar s) [''spec'', ''runtime'', ''env'', ''ORION_QUEUE_STREAM''] =
      Some (JString (sg_name (snd (queue_stream_config (sa_queue s) q)))) \<longleftrightarrow>
      unwrap_or (qs_stream q) (default_queue_stream (sa_queue s)) = default_queue_stream (sa_queue s))"
proof (intro conjI)
  have cfg: "fst (queue_stream_config n q) = unwrap_or (qs_subject q) (default_queue_subject n)"
    "sg_name (snd (queue_stream_config n q)) = unwrap_or (qs_stream q) (default_queue_stream n)" for n
    by (simp_all add: queue_stream_config_def Let_def)
  show "json_at (build_sidecar s) [''spec'', ''runtime'', ''env'', ''ORION_QUEUE_SUBJECT''] =
      Some (JString (fst (queue_stream_config (sa_queue s) q))) \<longleftrightarrow>
      unwrap_or (qs_subject q) (default_queue_subject (sa_queue s)) = default_queue_subject (sa_queue s)"
    "json_at (build_sidecar s) [''spec'', ''runtime'', ''env'', ''ORION_QUEUE_STREAM''] =
      Some (JString (sg_name (snd (queue_stream_config (sa_queue s) q)))) \<longleftrightarrow>
      unwrap_or (qs_stream q) (default_queue_stream (sa_queue s)) = default_queue_stream (sa_queue s)"
    unfolding build_sidecar_env cfg by (auto simp: sidecar_env_def)
qed (simp_all add: build_processor_env processor_env_get Let_def split_beta split: option.split)

text \<open>Further: the variables of an executed command: a word that is no pair is an error for the generators
  and is dropped without a word by \<^verbatim>\<open>orion exec\<close>, which otherwise gives the task the same variables.\<close>

theorem exec_document:
  assumes "argv \<noteq> []" and "rt = ''native'' \<or> img \<noteq> None"
  shows "\<exists>doc. exec_doc name rt img env argv = Inr doc \<and>
     json_at doc [''kind''] = Some (JString ''Task'') \<and> json_at doc [''metadata'', ''name''] = Some (JString name) \<and>
     json_at doc [''spec'', ''runtime'', ''kind''] = Some (JString rt) \<and>
     json_at doc [''spec'', ''runtime'', ''args''] = Some (JArray (map JString (if rt = ''native'' then tl argv else argv))) \<and>
     json_at doc [''spec'', ''runtime'', if rt = ''native'' then ''exec'' else ''image''] =
       Some (JString (if rt = ''native'' then hd argv else the img)) \<and>
     (\<forall>k. json_at doc [''spec'', ''runtime'', ''env'', k] = map_option JString (kv_get (filter is_pair env) k))"
proof -
  have drop: "kv_get (filter is_pair env) k = kv_get env k" for k
    by (induction env) (auto simp: kv_get_Cons is_pair_def split: option.split)
  have var: "map_of (fold (\<lambda>kv m. case split_once ''='' kv of None \<Rightarrow> m | Some (k, v) \<Rightarrow> ym_insert k (JString v) m) env []) k
      = map_option JString (kv_get env k)" for k
    by (simp add: fold_kv split: option.split)
  let ?em = "fold (\<lambda>kv m. case split_once ''='' kv of None \<Rightarrow> m | Some (k, v) \<Rightarrow> ym_insert k (JString v) m) env []"
  show ?thesis
  proof (cases "?em = []")
    case True
    with var have "kv_get env k = None" for k by (metis map_of.simps(1) map_option_is_None option.distinct(1))
    with True assms show ?thesis by (auto simp: exec_doc_def Let_def drop)
  next
    case False
    with assms show ?thesis by (auto simp: exec_doc_def Let_def drop var)
  qed
qed

theorem exec_document_witness:
  "\<exists>doc. exec_doc ''t'' ''native'' None [''A=1'', ''B''] [''echo'', ''hi''] = Inr doc \<and>
     json_at doc [''spec'', ''runtime'', ''exec''] = Some (JString ''echo'') \<and>
     json_at doc [''spec'', ''runtime'', ''env'', ''A''] = Some (JString ''1'') \<and>
     json_at doc [''spec'', ''runtime'', ''env'', ''B''] = None"
  using exec_document [of "[''echo'', ''hi'']" "''native''" None "''t''" "[''A=1'', ''B'']"]
  by (auto simp: kv_get_def is_pair_def map_filter_simps)

end
