(* ===== verification/Connectors.thy ===== *)
theory Connectors
  imports Http_Api Hardware
begin

text \<open>
  The connectors: the Prometheus scraper, the Kafka bridge, the OpenSearch sink, the webhook
  receiver, the file watcher, the log sidecar and the SQLite tap (\<^verbatim>\<open>crates/orion-prom-scrape\<close>,
  \<^verbatim>\<open>-kafka-bridge\<close>, \<^verbatim>\<open>-opensearch-sink\<close>, \<^verbatim>\<open>-webhook\<close>, \<^verbatim>\<open>-file-watcher\<close>, \<^verbatim>\<open>-sidecar\<close>,
  \<^verbatim>\<open>-sqlite-tap\<close>), each with its pure helpers and one round of its loop. A connector publishes
  typed events to a queue; the events handed to the client are kept in order. A publish that fails
  ends the loop where the code passes the error on; the acknowledgement is ignored by all of them.
\<close>

subsection \<open>Publishing\<close>

record 'm outbox =
  ob_attempts :: nat
  ob_sent :: "(string \<times> 'm) list"

record connector_ext =
  kx_parse_json :: "string \<Rightarrow> json option"
  kx_rfc3339 :: "datetime \<Rightarrow> string"
  kx_publish_error :: "nat \<Rightarrow> string option"

definition outbox_new :: "'m outbox" where
  "outbox_new = \<lparr>ob_attempts = 0, ob_sent = []\<rparr>"

definition js_publish :: "connector_ext \<Rightarrow> string \<Rightarrow> 'm \<Rightarrow> 'm outbox \<Rightarrow> (string + unit) \<times> 'm outbox" where
  "js_publish ext subject m ob =
     (let ob' = ob\<lparr>ob_attempts := Suc (ob_attempts ob)\<rparr>
      in case kx_publish_error ext (ob_attempts ob) of
           Some e \<Rightarrow> (Inl e, ob')
         | None \<Rightarrow> (Inr (), ob'\<lparr>ob_sent := ob_sent ob' @ [(subject, m)]\<rparr>))"

text \<open>Publishing a list in order; the first error ends it.\<close>

fun publish_all :: "connector_ext \<Rightarrow> string \<Rightarrow> 'm list \<Rightarrow> 'm outbox \<Rightarrow> (string + unit) \<times> 'm outbox" where
  "publish_all ext subject [] ob = (Inr (), ob)"
| "publish_all ext subject (m # ms) ob =
     (case js_publish ext subject m ob of
        (Inl e, ob') \<Rightarrow> (Inl e, ob')
      | (Inr _, ob') \<Rightarrow> publish_all ext subject ms ob')"

subsection \<open>Prometheus scraper (\<^verbatim>\<open>orion-prom-scrape\<close>)\<close>

record scraped_sample =
  ss_at :: string
  ss_source :: string
  ss_name :: string
  ss_labels :: json
  ss_value :: f64

definition trim_matches :: "char \<Rightarrow> string \<Rightarrow> string" where
  "trim_matches c s = rev (dropWhile (\<lambda>x. x = c) (rev (dropWhile (\<lambda>x. x = c) s)))"

definition rsplit_once :: "char \<Rightarrow> string \<Rightarrow> (string \<times> string) option" where
  "rsplit_once c s =
     (if c \<in> set s
      then Some (rev (tl (dropWhile (\<lambda>x. x \<noteq> c) (rev s))), rev (takeWhile (\<lambda>x. x \<noteq> c) (rev s)))
      else None)"

definition str_find :: "char \<Rightarrow> string \<Rightarrow> nat option" where
  "str_find c s = (if c \<in> set s then Some (length (takeWhile (\<lambda>x. x \<noteq> c) s)) else None)"

definition str_rfind :: "char \<Rightarrow> string \<Rightarrow> nat option" where
  "str_rfind c s = (if c \<in> set s then Some (length s - 1 - length (takeWhile (\<lambda>x. x \<noteq> c) (rev s))) else None)"

text \<open>Slicing \<^verbatim>\<open>s[a..b]\<close>; none is a panic.\<close>

definition str_slice :: "nat \<Rightarrow> nat \<Rightarrow> string \<Rightarrow> string option" where
  "str_slice a b s = (if a \<le> b \<and> b \<le> length s then Some (take (b - a) (drop a s)) else None)"

definition parse_label :: "string \<Rightarrow> (string \<times> json) list \<Rightarrow> (string \<times> json) list" where
  "parse_label kv obj =
     (case split_once ''='' (str_trim kv) of
        None \<Rightarrow> obj
      | Some (k, v) \<Rightarrow> bt_insert (str_trim k) (JString (trim_matches (CHR 0x22) (str_trim v))) obj)"

definition parse_labels :: "string \<Rightarrow> json" where
  "parse_labels s = JObject (fold parse_label (split_on (CHR '','') s) [])"

definition parse_metric_head :: "string \<Rightarrow> (string \<times> json) option" where
  "parse_metric_head head =
     (case (str_find (CHR ''{'') head, str_rfind (CHR ''}'') head) of
        (Some start, Some end') \<Rightarrow>
          (case str_slice (start + 1) end' head of
             None \<Rightarrow> None
           | Some labels \<Rightarrow> Some (str_trim (take start head), parse_labels labels))
      | _ \<Rightarrow> Some (str_trim head, JObject []))"

text \<open>One line: none is a panic, an empty list a line without a sample.\<close>

definition parse_sample :: "string \<Rightarrow> (string \<times> json \<times> f64) list option" where
  "parse_sample line =
     (let trimmed = str_trim line
      in if trimmed = [] \<or> hd trimmed = CHR ''#'' then Some []
         else (case rsplit_once (CHR '' '') trimmed of
                 None \<Rightarrow> Some []
               | Some (head, val) \<Rightarrow>
                   (case parse_f64 val of
                      None \<Rightarrow> Some []
                    | Some value \<Rightarrow> map_option (\<lambda>(name, labels). [(name, labels, value)]) (parse_metric_head head))))"

fun parse_lines :: "string list \<Rightarrow> (string \<times> json \<times> f64) list option" where
  "parse_lines [] = Some []"
| "parse_lines (l # ls) =
     (case parse_sample l of
        None \<Rightarrow> None
      | Some s \<Rightarrow> map_option (\<lambda>ss. s @ ss) (parse_lines ls))"

definition parse_scrape :: "string \<Rightarrow> (string \<times> json \<times> f64) list option" where
  "parse_scrape body = parse_lines (str_lines body)"

text \<open>The slice between the braces is out of order when the last closing brace stands before the
  first opening one.\<close>

definition crossed_braces :: "string \<Rightarrow> bool" where
  "crossed_braces h =
     (case (str_find (CHR ''{'') h, str_rfind (CHR ''}'') h) of (Some i, Some j) \<Rightarrow> j < i | _ \<Rightarrow> False)"

text \<open>One round over the targets; a response is an error, a status outside the 2xx range, or a
  body. The task panics where the parser does.\<close>

datatype http_answer = Http_Failed string | Http_Status u16 | Http_Body string

datatype loop_end = Loop_Error string | Loop_Panic

fun scrape_round ::
  "connector_ext \<Rightarrow> datetime \<Rightarrow> string \<Rightarrow> (string \<times> http_answer) list \<Rightarrow> scraped_sample outbox \<Rightarrow>
     (loop_end + unit) \<times> scraped_sample outbox" where
  "scrape_round ext now subject [] ob = (Inr (), ob)"
| "scrape_round ext now subject ((url, answer) # rest) ob =
     (case answer of
        Http_Body body \<Rightarrow>
          (case parse_scrape body of
             None \<Rightarrow> (Inl Loop_Panic, ob)
           | Some parsed \<Rightarrow>
               (case publish_all ext subject
                       (map (\<lambda>(name, labels, value). \<lparr>ss_at = kx_rfc3339 ext now, ss_source = url, ss_name = name,
                              ss_labels = labels, ss_value = value\<rparr>) parsed) ob of
                  (Inl e, ob') \<Rightarrow> (Inl (Loop_Error e), ob')
                | (Inr _, ob') \<Rightarrow> scrape_round ext now subject rest ob'))
      | _ \<Rightarrow> scrape_round ext now subject rest ob)"

text \<open>The alert receiver: an event per alert; a failed publication is ignored, and the sender is told
  that all is well.\<close>

record alert =
  al_status :: string
  al_labels :: json
  al_annotations :: json
  al_starts_at :: string

record alertmanager_payload =
  ap_status :: string
  ap_receiver :: string
  ap_alerts :: "alert list"

record alert_event =
  ae_receiver :: string
  ae_status :: string
  ae_alert_status :: string
  ae_labels :: json
  ae_annotations :: json
  ae_starts_at :: string
  ae_at :: string
  ae_subject :: string

datatype hook_status = Hook_Ok | Hook_Unauthorized | Hook_Internal

definition alert_event_of :: "connector_ext \<Rightarrow> datetime \<Rightarrow> string \<Rightarrow> alertmanager_payload \<Rightarrow> alert \<Rightarrow> alert_event" where
  "alert_event_of ext now subject p a =
     \<lparr>ae_receiver = ap_receiver p, ae_status = ap_status p, ae_alert_status = al_status a, ae_labels = al_labels a,
      ae_annotations = al_annotations a, ae_starts_at = al_starts_at a, ae_at = kx_rfc3339 ext now, ae_subject = subject\<rparr>"

definition receive_alerts ::
  "connector_ext \<Rightarrow> datetime \<Rightarrow> string \<Rightarrow> alertmanager_payload \<Rightarrow> alert_event outbox \<Rightarrow> hook_status \<times> alert_event outbox" where
  "receive_alerts ext now subject p ob =
     (Hook_Ok, fold (\<lambda>a ob. snd (js_publish ext subject (alert_event_of ext now subject p a) ob)) (ap_alerts p) ob)"

subsection \<open>Kafka bridge (\<^verbatim>\<open>orion-kafka-bridge\<close>)\<close>

datatype direction = OrionToKafka | KafkaToOrion

definition direction_parse :: "string \<Rightarrow> direction option" where
  "direction_parse s =
     (if s \<in> {''orion->kafka'', ''out'', ''orion_to_kafka''} then Some OrionToKafka
      else if s \<in> {''kafka->orion'', ''in'', ''kafka_to_orion''} then Some KafkaToOrion
      else None)"

record outbound_envelope =
  oe_orion_subject :: string
  oe_at :: string
  oe_body :: json

record inbound_event =
  ie_kafka_topic :: string
  ie_kafka_partition :: i32
  ie_kafka_offset :: i64
  ie_at :: string
  ie_body :: json
  ie_subject :: string

definition body_value :: "connector_ext \<Rightarrow> string \<Rightarrow> json" where
  "body_value ext bytes = unwrap_or (kx_parse_json ext bytes) (JString bytes)"

definition make_outbound :: "connector_ext \<Rightarrow> string \<Rightarrow> string \<Rightarrow> datetime \<Rightarrow> outbound_envelope" where
  "make_outbound ext subject bytes now =
     \<lparr>oe_orion_subject = subject, oe_at = kx_rfc3339 ext now, oe_body = body_value ext bytes\<rparr>"

definition make_inbound ::
  "connector_ext \<Rightarrow> string \<Rightarrow> i32 \<Rightarrow> i64 \<Rightarrow> string \<Rightarrow> string \<Rightarrow> datetime \<Rightarrow> inbound_event" where
  "make_inbound ext topic part offset bytes subject now =
     \<lparr>ie_kafka_topic = topic, ie_kafka_partition = part, ie_kafka_offset = offset, ie_at = kx_rfc3339 ext now,
      ie_body = body_value ext bytes, ie_subject = subject\<rparr>"

text \<open>One record of the topic: none is a receive error, which is skipped.\<close>

record kafka_record =
  kr_topic :: string
  kr_partition :: i32
  kr_offset :: i64
  kr_payload :: "string option"

fun run_kafka_to_orion ::
  "connector_ext \<Rightarrow> datetime \<Rightarrow> string \<Rightarrow> kafka_record option list \<Rightarrow> inbound_event outbox \<Rightarrow>
     (string + unit) \<times> inbound_event outbox" where
  "run_kafka_to_orion ext now subject [] ob = (Inr (), ob)"
| "run_kafka_to_orion ext now subject (None # rest) ob = run_kafka_to_orion ext now subject rest ob"
| "run_kafka_to_orion ext now subject (Some m # rest) ob =
     (case js_publish ext subject
             (make_inbound ext (kr_topic m) (kr_partition m) (kr_offset m) (unwrap_or (kr_payload m) []) subject now) ob of
        (Inl e, ob') \<Rightarrow> (Inl e, ob')
      | (Inr _, ob') \<Rightarrow> run_kafka_to_orion ext now subject rest ob')"

text \<open>The other direction: a message that Kafka does not take is dropped.\<close>

definition run_orion_to_kafka ::
  "connector_ext \<Rightarrow> datetime \<Rightarrow> string \<Rightarrow> (string \<times> bool) list \<Rightarrow> outbound_envelope list" where
  "run_orion_to_kafka ext now subject msgs =
     map (\<lambda>(bytes, _). make_outbound ext subject bytes now) (filter snd msgs)"

subsection \<open>Webhook receiver (\<^verbatim>\<open>orion-webhook\<close>)\<close>

text \<open>Hexadecimal decoding and the keyed hash are other packages; the hash has no value for a key
  it does not take.\<close>

record webhook_ext =
  wx_conn :: connector_ext
  wx_hex_decode :: "string \<Rightarrow> u8 list option"
  wx_hmac_sha256 :: "string \<Rightarrow> string \<Rightarrow> u8 list option"

definition verify_hmac_sha256 :: "webhook_ext \<Rightarrow> string \<Rightarrow> string \<Rightarrow> string \<Rightarrow> bool" where
  "verify_hmac_sha256 ext secret body header_value =
     (let expected = unwrap_or (strip_prefix ''sha256='' header_value) header_value
      in case wx_hex_decode ext expected of
           None \<Rightarrow> False
         | Some expected_bytes \<Rightarrow>
             (case wx_hmac_sha256 ext secret body of
                None \<Rightarrow> False
              | Some mac \<Rightarrow> mac = expected_bytes))"

record webhook_event =
  we_at :: string
  we_headers :: json
  we_body :: json
  we_raw_body :: string
  we_subject :: string

record webhook_state =
  wb_subject :: string
  wb_secret :: "string option"

text \<open>Headers have lower-case names; a value that is not text is none.\<close>

type_synonym header_map = "(string \<times> string option) list"

definition header_get :: "header_map \<Rightarrow> string \<Rightarrow> string option option" where
  "header_get hs name = map_of hs name"

definition signature_header :: "header_map \<Rightarrow> string" where
  "signature_header hs =
     (case option_or (header_get hs ''x-orion-signature'')
             (option_or (header_get hs ''x-hub-signature-256'') (header_get hs ''x-signature-256'')) of
        Some (Some s) \<Rightarrow> s
      | _ \<Rightarrow> [])"

definition receive_inner ::
  "webhook_ext \<Rightarrow> datetime \<Rightarrow> webhook_state \<Rightarrow> string option \<Rightarrow> header_map \<Rightarrow> string \<Rightarrow> webhook_event outbox \<Rightarrow>
     hook_status \<times> webhook_event outbox" where
  "receive_inner ext now st route headers body ob =
     (if (case wb_secret st of None \<Rightarrow> False
          | Some secret \<Rightarrow> \<not> verify_hmac_sha256 ext secret body (signature_header headers))
      then (Hook_Unauthorized, ob)
      else
        (let subj = (case route of Some r \<Rightarrow> wb_subject st @ ''.'' @ r | None \<Rightarrow> wb_subject st);
             headers_obj = fold (\<lambda>(k, v) obj. case v of None \<Rightarrow> obj | Some s \<Rightarrow> bt_insert k (JString s) obj) headers [];
             event = \<lparr>we_at = kx_rfc3339 (wx_conn ext) now, we_headers = JObject headers_obj,
               we_body = body_value (wx_conn ext) body, we_raw_body = body, we_subject = subj\<rparr>
         in case js_publish (wx_conn ext) subj event ob of
              (Inl _, ob') \<Rightarrow> (Hook_Internal, ob')
            | (Inr _, ob') \<Rightarrow> (Hook_Ok, ob')))"

subsection \<open>Dev Portal client (\<^verbatim>\<open>orion-devportal\<close>)\<close>

record peer_runtime_record =
  pp_name :: string
  pp_kind :: string
  pp_base_url :: string
  pp_admin_ui_url :: "string option"
  pp_config :: json
  pp_lifecycle :: string

record register_peer_runtime_body =
  rp_name :: string
  rp_kind :: string
  rp_base_url :: string
  rp_admin_ui_url :: "string option"
  rp_config :: json

datatype dev_portal_error = NotConfigured | Dp_Http string | Dp_Status u16 string

text \<open>The answer of a request: a transport error, or a status with the text of the body and what it
  decodes to.\<close>

type_synonym 'a dp_answer = "string + u16 \<times> string \<times> (string + 'a)"

definition dp_result :: "'a dp_answer \<Rightarrow> dev_portal_error + 'a" where
  "dp_result r =
     (case r of
        Inl e \<Rightarrow> Inl (Dp_Http e)
      | Inr (status, txt, decoded) \<Rightarrow>
          if \<not> (200 \<le> status \<and> status < 300) then Inl (Dp_Status status txt)
          else (case decoded of Inl e \<Rightarrow> Inl (Dp_Http e) | Inr v \<Rightarrow> Inr v))"

definition list_peer_runtimes ::
  "string option \<Rightarrow> (string \<Rightarrow> peer_runtime_record list dp_answer) \<Rightarrow> dev_portal_error + peer_runtime_record list" where
  "list_peer_runtimes base send =
     (case base of None \<Rightarrow> Inl NotConfigured | Some b \<Rightarrow> dp_result (send (b @ ''/api/peer-runtimes'')))"

definition register_peer_runtime ::
  "string option \<Rightarrow> (string \<Rightarrow> register_peer_runtime_body \<Rightarrow> peer_runtime_record dp_answer) \<Rightarrow>
     register_peer_runtime_body \<Rightarrow> dev_portal_error + peer_runtime_record" where
  "register_peer_runtime base send body =
     (case base of None \<Rightarrow> Inl NotConfigured | Some b \<Rightarrow> dp_result (send (b @ ''/api/peer-runtimes'') body))"

subsection \<open>Publishing in order\<close>

lemma js_publish_None:
  "kx_publish_error ext (ob_attempts ob) = None \<Longrightarrow>
     js_publish ext s m ob = (Inr (), ob\<lparr>ob_attempts := Suc (ob_attempts ob), ob_sent := ob_sent ob @ [(s, m)]\<rparr>)"
  by (simp add: js_publish_def Let_def)

lemma js_publish_sent:
  "ob_sent (snd (js_publish ext s m ob)) =
     ob_sent ob @ (if isl (fst (js_publish ext s m ob)) then [] else [(s, m)])"
  by (simp add: js_publish_def Let_def split: option.split)

lemma publish_all_ok:
  assumes "\<And>k. kx_publish_error ext k = None"
  shows "publish_all ext s ms ob =
    (Inr (), ob\<lparr>ob_attempts := ob_attempts ob + length ms, ob_sent := ob_sent ob @ map (Pair s) ms\<rparr>)"
  by (induction ms arbitrary: ob) (simp_all add: js_publish_None assms)

subsection \<open>The scraper on the controller's text\<close>

lemma str_lines_text:
  assumes "list_all (\<lambda>l. newline \<notin> set l \<and> CHR 0x0D \<notin> set l) ls"
  shows "str_lines (concat (map text_line ls)) = ls"
  using assms
proof (induction ls)
  case (Cons l ls)
  then have "chomp_cr l = l"
    by (cases l rule: rev_cases) (auto simp: chomp_cr_def)
  then show ?case
    using Cons str_lines_line [of l "concat (map text_line ls)"] by (simp add: text_line_def [of l] newline_def)
qed simp

lemma rsplit_once_last: "c \<notin> set d \<Longrightarrow> rsplit_once c (h @ c # d) = Some (h, d)"
proof -
  assume c: "c \<notin> set d"
  then have "takeWhile (\<lambda>x. x \<noteq> c) (rev d @ c # rev h) = rev d"
    and "dropWhile (\<lambda>x. x \<noteq> c) (rev d @ c # rev h) = c # rev h"
    by (subst takeWhile_append2; auto) (subst dropWhile_append2; auto simp: c)
  then show ?thesis by (simp add: rsplit_once_def)
qed

lemma show_nat_not_in: "\<not> is_ascii_digit c \<Longrightarrow> c \<notin> set (show_nat n)"
  using show_nat_digits [of n] by (auto simp: list_all_iff)

text \<open>A name, a blank and a number make one sample.\<close>

lemma parse_sample_nat:
  assumes "h \<noteq> []" and "\<not> is_ascii_ws (hd h)" and "hd h \<noteq> CHR ''#''" and "n < 2 ^ 53"
  shows "parse_sample (h @ CHR '' '' # show_nat n) =
    map_option (\<lambda>(name, labels). [(name, labels, F_Fin (of_nat n))]) (parse_metric_head h)"
proof -
  have "is_ascii_digit (last (show_nat n))"
    using show_nat_digits [of n] by (simp add: list_all_iff)
  then have "str_trim ((h @ CHR '' '' # show_nat n) @ []) = h @ CHR '' '' # show_nat n"
    using assms(1,2) by (intro str_trim_after) (simp_all add: digit_not_ws)
  moreover have "rsplit_once (CHR '' '') (h @ CHR '' '' # show_nat n) = Some (h, show_nat n)"
    by (intro rsplit_once_last show_nat_not_in) (simp add: is_ascii_digit_def)
  ultimately show ?thesis
    using assms by (simp add: parse_sample_def Let_def parse_f64_show_nat)
qed

lemma parse_sample_comment: "parse_sample (CHR ''#'' # s) = Some []"
proof -
  have "str_trim (CHR ''#'' # s) = CHR ''#'' # rev (dropWhile is_ascii_ws (rev s))"
    by (simp add: str_trim_def is_ascii_ws_def dropWhile_append)
  then show ?thesis by (simp add: parse_sample_def)
qed

text \<open>The heads the controller writes.\<close>

lemma parse_controller_heads:
  "parse_metric_head ''orion_controller_uptime_seconds'' = Some (''orion_controller_uptime_seconds'', JObject [])"
  "parse_metric_head ''orion_agents_total'' = Some (''orion_agents_total'', JObject [])"
  "parse_metric_head ''orion_agents_live'' = Some (''orion_agents_live'', JObject [])"
  "parse_metric_head ''orion_instances_alive'' = Some (''orion_instances_alive'', JObject [])"
  "parse_metric_head ''orion_instances_exited'' = Some (''orion_instances_exited'', JObject [])"
  "parse_metric_head ''orion_instances_failed'' = Some (''orion_instances_failed'', JObject [])"
  "parse_metric_head ''orion_schedule_fires_total'' = Some (''orion_schedule_fires_total'', JObject [])"
  by code_simp+

lemma parse_status_heads:
  "parse_metric_head (''orion_health_status'' @ quoted_status ''healthy'') =
     Some (''orion_health_status'', JObject [(''status'', JString ''healthy'')])"
  "parse_metric_head (''orion_health_status'' @ quoted_status ''unhealthy'') =
     Some (''orion_health_status'', JObject [(''status'', JString ''unhealthy'')])"
  by code_simp+

text \<open>The sample lines the controller writes.\<close>

lemma parse_controller_samples:
  assumes "n < 2 ^ 53"
  shows
    "parse_sample (''orion_controller_uptime_seconds '' @ show_nat n) = Some [(''orion_controller_uptime_seconds'', JObject [], F_Fin (of_nat n))]"
    "parse_sample (''orion_agents_total '' @ show_nat n) = Some [(''orion_agents_total'', JObject [], F_Fin (of_nat n))]"
    "parse_sample (''orion_agents_live '' @ show_nat n) = Some [(''orion_agents_live'', JObject [], F_Fin (of_nat n))]"
    "parse_sample (''orion_instances_alive '' @ show_nat n) = Some [(''orion_instances_alive'', JObject [], F_Fin (of_nat n))]"
    "parse_sample (''orion_instances_exited '' @ show_nat n) = Some [(''orion_instances_exited'', JObject [], F_Fin (of_nat n))]"
    "parse_sample (''orion_instances_failed '' @ show_nat n) = Some [(''orion_instances_failed'', JObject [], F_Fin (of_nat n))]"
    "parse_sample (''orion_schedule_fires_total '' @ show_nat n) = Some [(''orion_schedule_fires_total'', JObject [], F_Fin (of_nat n))]"
    "parse_sample (''orion_health_status'' @ quoted_status ''healthy'' @ '' '' @ show_nat n) =
       Some [(''orion_health_status'', JObject [(''status'', JString ''healthy'')], F_Fin (of_nat n))]"
    "parse_sample (''orion_health_status'' @ quoted_status ''unhealthy'' @ '' '' @ show_nat n) =
       Some [(''orion_health_status'', JObject [(''status'', JString ''unhealthy'')], F_Fin (of_nat n))]"
  using parse_sample_nat [OF _ _ _ assms, of "''orion_controller_uptime_seconds''"]
    parse_sample_nat [OF _ _ _ assms, of "''orion_agents_total''"]
    parse_sample_nat [OF _ _ _ assms, of "''orion_agents_live''"]
    parse_sample_nat [OF _ _ _ assms, of "''orion_instances_alive''"]
    parse_sample_nat [OF _ _ _ assms, of "''orion_instances_exited''"]
    parse_sample_nat [OF _ _ _ assms, of "''orion_instances_failed''"]
    parse_sample_nat [OF _ _ _ assms, of "''orion_schedule_fires_total''"]
    parse_sample_nat [OF _ _ _ assms, of "''orion_health_status'' @ quoted_status ''healthy''"]
    parse_sample_nat [OF _ _ _ assms, of "''orion_health_status'' @ quoted_status ''unhealthy''"]
  unfolding parse_controller_heads parse_status_heads
  by (simp_all add: is_ascii_ws_def)

lemmas controller_sample_rules = parse_controller_samples [simplified]

text \<open>C23: the scraper reads the controller's metrics text back in full: one sample per metric, in
  order, with the health status as its label and the number that was printed, as long as the
  numbers are below 2 to the power 53, where every integer is a float.\<close>

theorem scrape_controller_metrics:
  assumes "mx_uptime_seconds m = int up"
    and "list_all (\<lambda>n. n < 2 ^ 53) [up, mx_agents_total m, mx_agents_live m, mx_instances_alive m,
      mx_instances_exited m, mx_instances_failed m, mx_health_healthy m, mx_health_unhealthy m,
      unat (mx_schedule_fires_total m)]"
  shows "parse_scrape (format_prometheus m) = Some
    [(''orion_controller_uptime_seconds'', JObject [], F_Fin (of_nat up)),
     (''orion_agents_total'', JObject [], F_Fin (of_nat (mx_agents_total m))),
     (''orion_agents_live'', JObject [], F_Fin (of_nat (mx_agents_live m))),
     (''orion_instances_alive'', JObject [], F_Fin (of_nat (mx_instances_alive m))),
     (''orion_instances_exited'', JObject [], F_Fin (of_nat (mx_instances_exited m))),
     (''orion_instances_failed'', JObject [], F_Fin (of_nat (mx_instances_failed m))),
     (''orion_health_status'', JObject [(''status'', JString ''healthy'')], F_Fin (of_nat (mx_health_healthy m))),
     (''orion_health_status'', JObject [(''status'', JString ''unhealthy'')], F_Fin (of_nat (mx_health_unhealthy m))),
     (''orion_schedule_fires_total'', JObject [], F_Fin (of_nat (unat (mx_schedule_fires_total m))))]"
proof -
  have free: "newline \<notin> set (show_nat n)" "CHR 0x0D \<notin> set (show_nat n)" for n
    by (auto intro!: show_nat_not_in simp: newline_def is_ascii_digit_def)
  have up: "show_int (mx_uptime_seconds m) = show_nat up"
    by (simp add: assms(1) show_int_def)
  have lines: "str_lines (concat (map text_line ls)) = ls"
    if "list_all (\<lambda>l. newline \<notin> set l \<and> CHR 0x0D \<notin> set l) ls" for ls
    using that by (rule str_lines_text)
  show ?thesis
    unfolding parse_scrape_def format_prometheus_def up
    apply (subst lines)
    subgoal by (simp add: free quoted_status_def) (simp add: newline_def)
    subgoal using assms(2) by (simp add: parse_sample_comment controller_sample_rules)
    done
qed

subsection \<open>Where the scraper fails\<close>

lemma str_find_nth: "str_find c s = Some i \<Longrightarrow> i < length s \<and> s ! i = c"
proof -
  assume a: "str_find c s = Some i"
  then have "takeWhile (\<lambda>x. x \<noteq> c) s \<noteq> s"
    by (auto simp: str_find_def takeWhile_eq_all_conv split: if_splits)
  then have "length (takeWhile (\<lambda>x. x \<noteq> c) s) < length s"
    by (metis le_neq_implies_less length_takeWhile_le takeWhile_eq_take take_all_iff)
  then show ?thesis
    using a nth_length_takeWhile [of "\<lambda>x. x \<noteq> c" s] by (auto simp: str_find_def split: if_splits)
qed

lemma str_rfind_nth: "str_rfind c s = Some i \<Longrightarrow> i < length s \<and> s ! i = c"
proof -
  assume a: "str_rfind c s = Some i"
  then obtain k where k: "str_find c (rev s) = Some k" "i = length s - 1 - k"
    by (auto simp: str_find_def str_rfind_def split: if_splits)
  then show ?thesis using str_find_nth [OF k(1)] by (auto simp: rev_nth)
qed

lemma parse_metric_head_None: "parse_metric_head h = None \<longleftrightarrow> crossed_braces h"
proof (cases "str_find (CHR ''{'') h")
  case (Some i)
  show ?thesis
  proof (cases "str_rfind (CHR ''}'') h")
    case (Some j)
    with \<open>str_find (CHR ''{'') h = Some i\<close> have "i \<noteq> j" "j < length h"
      by (auto dest!: str_find_nth str_rfind_nth)
    with Some \<open>str_find (CHR ''{'') h = Some i\<close> show ?thesis
      by (auto simp: parse_metric_head_def crossed_braces_def str_slice_def)
  qed (simp add: parse_metric_head_def crossed_braces_def Some)
qed (simp add: parse_metric_head_def crossed_braces_def)

lemma parse_lines_None: "parse_lines ls = None \<longleftrightarrow> (\<exists>l \<in> set ls. parse_sample l = None)"
  by (induction ls) (auto split: option.split)

text \<open>Further: the scraper panics on a text exactly when one of its lines, not a comment, ends in a number
  and has before that its last closing brace in front of its first opening brace: a malformed
  target stops the task for all targets.\<close>

theorem scrape_panics_iff:
  "parse_scrape body = None \<longleftrightarrow>
    (\<exists>l h v. l \<in> set (str_lines body) \<and> (\<exists>c s. str_trim l = c # s \<and> c \<noteq> CHR ''#'') \<and>
       rsplit_once (CHR '' '') (str_trim l) = Some (h, v) \<and> parse_f64 v \<noteq> None \<and> crossed_braces h)"
proof -
  have "parse_sample l = None \<longleftrightarrow> (\<exists>h v. (\<exists>c s. str_trim l = c # s \<and> c \<noteq> CHR ''#'') \<and>
      rsplit_once (CHR '' '') (str_trim l) = Some (h, v) \<and> parse_f64 v \<noteq> None \<and> crossed_braces h)" for l
    by (cases "str_trim l")
      (auto simp: parse_sample_def Let_def parse_metric_head_None split: option.split)
  then show ?thesis
    by (auto simp: parse_scrape_def parse_lines_None)
qed

text \<open>Further: a sample line that carries a timestamp, as the text format allows, is misread: the
  timestamp becomes the value, and the value part of the name.\<close>

theorem scrape_timestamp_misread:
  assumes "name \<noteq> []" and "\<not> is_ascii_ws (hd name)" and "hd name \<noteq> CHR ''#''" and "CHR ''{'' \<notin> set name"
    and "ts < 2 ^ 53"
  shows "parse_sample (name @ '' '' @ show_nat v @ '' '' @ show_nat ts) =
    Some [(name @ '' '' @ show_nat v, JObject [], F_Fin (of_nat ts))]"
proof -
  let ?h = "name @ '' '' @ show_nat v"
  have "is_ascii_digit (last (show_nat v))"
    using show_nat_digits [of v] by (simp add: list_all_iff)
  then have "str_trim (?h @ []) = ?h"
    using assms(1,2) by (intro str_trim_after) (simp_all add: digit_not_ws)
  moreover have "CHR ''{'' \<notin> set ?h"
    using assms(4) show_nat_not_in [of "CHR ''{''" v] by (simp add: is_ascii_digit_def)
  ultimately have "parse_metric_head ?h = Some (?h, JObject [])"
    by (simp add: parse_metric_head_def str_find_def)
  then show ?thesis
    using parse_sample_nat [of ?h ts] assms by simp
qed

subsection \<open>The webhook\<close>

text \<open>Further: with a secret set the receiver publishes a request's event only if the signature header
  carries, after an optional algorithm prefix, the hexadecimal text of the keyed hash of this very
  body; it is refused otherwise, and nothing is sent. A published event carries the body unchanged
  and goes to the subject, extended by the route.\<close>

theorem webhook_authentic:
  assumes "wb_secret st = Some secret"
    and "receive_inner ext now st route headers body ob = (status, ob')"
  shows "(status = Hook_Unauthorized \<longleftrightarrow> \<not> verify_hmac_sha256 ext secret body (signature_header headers)) \<and>
    (status \<noteq> Hook_Ok \<longrightarrow> ob_sent ob' = ob_sent ob) \<and>
    (status = Hook_Ok \<longrightarrow> (\<exists>mac e. wx_hmac_sha256 ext secret body = Some mac \<and>
       wx_hex_decode ext (unwrap_or (strip_prefix ''sha256='' (signature_header headers)) (signature_header headers)) = Some mac \<and>
       ob_sent ob' = ob_sent ob @ [(we_subject e, e)] \<and> we_raw_body e = body \<and>
       we_subject e = wb_subject st @ (case route of Some r \<Rightarrow> ''.'' @ r | None \<Rightarrow> [])))"
proof (cases "verify_hmac_sha256 ext secret body (signature_header headers)")
  case False
  then show ?thesis using assms by (auto simp: receive_inner_def)
next
  case True
  then obtain mac where "wx_hmac_sha256 ext secret body = Some mac"
    "wx_hex_decode ext (unwrap_or (strip_prefix ''sha256='' (signature_header headers)) (signature_header headers)) = Some mac"
    by (auto simp: verify_hmac_sha256_def Let_def split: option.splits)
  with True assms show ?thesis
    by (auto simp: receive_inner_def Let_def js_publish_def split: option.splits)
qed

text \<open>Further: of the alerts of a request exactly those are sent whose publication works; the sender
  gets the same answer when all of them are lost.\<close>

theorem alerts_answer_ignores_loss:
  assumes "receive_alerts ext now subject p ob = (status, ob')"
  shows "status = Hook_Ok \<and> ob_attempts ob' = ob_attempts ob + length (ap_alerts p) \<and>
    ob_sent ob' = ob_sent ob @ map (\<lambda>(_, a). (subject, alert_event_of ext now subject p a))
      (filter (\<lambda>(i, _). kx_publish_error ext (ob_attempts ob + i) = None) (enumerate 0 (ap_alerts p)))"
proof -
  have "ob_attempts ob' = ob_attempts ob + length as \<and>
      ob_sent ob' = ob_sent ob @ map (\<lambda>(_, a). (subject, alert_event_of ext now subject p a))
        (filter (\<lambda>(i, _). kx_publish_error ext (ob_attempts ob + i - n) = None) (enumerate n as))"
    if "ob' = fold (\<lambda>a ob. snd (js_publish ext subject (alert_event_of ext now subject p a) ob)) as ob" for as n ob ob'
    using that
  proof (induction as arbitrary: ob ob' n)
    case (Cons a as)
    let ?ob = "snd (js_publish ext subject (alert_event_of ext now subject p a) ob)"
    have att: "ob_attempts ?ob = Suc (ob_attempts ob)"
      by (simp add: js_publish_def Let_def split: option.split)
    have "ob_sent ?ob = ob_sent ob @ (if kx_publish_error ext (ob_attempts ob) = None
        then [(subject, alert_event_of ext now subject p a)] else [])"
      by (simp add: js_publish_def Let_def split: option.split)
    then show ?case using Cons.IH [of ob' ?ob "Suc n"] Cons.prems att by simp
  qed simp
  from this [of ob' "ap_alerts p" ob 0] show ?thesis using assms by (simp add: receive_alerts_def)
qed

text \<open>Further: without an address the portal's client answers every call with the same error and
  sends nothing; with one, a success is passed on only for a status of the 2xx range.\<close>

theorem devportal_stub:
  "list_peer_runtimes None send = Inl NotConfigured \<and> register_peer_runtime None send' body = Inl NotConfigured \<and>
   (list_peer_runtimes (Some b) send = Inr rs \<longleftrightarrow>
      (\<exists>status t. send (b @ ''/api/peer-runtimes'') = Inr (status, t, Inr rs) \<and> 200 \<le> status \<and> status < 300)) \<and>
   (register_peer_runtime (Some b) send' body = Inr r \<longleftrightarrow>
      (\<exists>status t. send' (b @ ''/api/peer-runtimes'') body = Inr (status, t, Inr r) \<and> 200 \<le> status \<and> status < 300))"
  by (auto simp: list_peer_runtimes_def register_peer_runtime_def dp_result_def split: sum.splits if_splits)

subsection \<open>Witnesses\<close>

definition demo_conn :: connector_ext where
  "demo_conn = \<lparr>kx_parse_json = (\<lambda>_. None), kx_rfc3339 = show_int, kx_publish_error = (\<lambda>_. None)\<rparr>"

definition demo_hook :: webhook_ext where
  "demo_hook = \<lparr>wx_conn = demo_conn, wx_hex_decode = (\<lambda>s. if s = ''0a'' then Some [10] else None),
     wx_hmac_sha256 = (\<lambda>k b. if k = ''key'' \<and> b = ''hi'' then Some [10] else Some [0])\<rparr>"

definition demo_metrics :: metrics_snapshot where
  "demo_metrics = \<lparr>mx_uptime_seconds = 5, mx_agents_total = 2, mx_agents_live = 1, mx_instances_alive = 3,
     mx_instances_exited = 0, mx_instances_failed = 0, mx_health_healthy = 3, mx_health_unhealthy = 0,
     mx_schedule_fires_total = 7\<rparr>"

theorem scrape_controller_metrics_witness:
  "map_option (map (\<lambda>(name, _, v). (name, v))) (parse_scrape (format_prometheus demo_metrics)) = Some
     [(''orion_controller_uptime_seconds'', F_Fin 5), (''orion_agents_total'', F_Fin 2),
      (''orion_agents_live'', F_Fin 1), (''orion_instances_alive'', F_Fin 3),
      (''orion_instances_exited'', F_Fin 0), (''orion_instances_failed'', F_Fin 0),
      (''orion_health_status'', F_Fin 3), (''orion_health_status'', F_Fin 0),
      (''orion_schedule_fires_total'', F_Fin 7)]"
  using scrape_controller_metrics [of demo_metrics 5] by (simp add: demo_metrics_def)

theorem webhook_authentic_witness:
  "fst (receive_inner demo_hook 0 \<lparr>wb_subject = ''q'', wb_secret = Some ''key''\<rparr> None
      [(''x-hub-signature-256'', Some ''sha256=0a'')] ''hi'' outbox_new) = Hook_Ok \<and>
   fst (receive_inner demo_hook 0 \<lparr>wb_subject = ''q'', wb_secret = Some ''key''\<rparr> None
      [(''x-hub-signature-256'', Some ''sha256=0a'')] ''ho'' outbox_new) = Hook_Unauthorized"
proof -
  let ?st = "\<lparr>wb_subject = ''q'', wb_secret = Some ''key''\<rparr>"
  let ?hs = "[(''x-hub-signature-256'', Some ''sha256=0a'')]"
  have "\<not> verify_hmac_sha256 demo_hook ''key'' ''ho'' (signature_header ?hs)"
    by (simp add: verify_hmac_sha256_def signature_header_def header_get_def demo_hook_def strip_prefix_def Let_def)
  then have "fst (receive_inner demo_hook 0 ?st None ?hs ''ho'' outbox_new) = Hook_Unauthorized"
    using webhook_authentic [OF _ prod.collapse [symmetric], of ?st "''key''" demo_hook 0 None ?hs "''ho''" outbox_new]
    by simp
  moreover have "verify_hmac_sha256 demo_hook ''key'' ''hi'' (signature_header ?hs)"
    by (simp add: verify_hmac_sha256_def signature_header_def header_get_def demo_hook_def strip_prefix_def Let_def)
  then have "fst (receive_inner demo_hook 0 ?st None ?hs ''hi'' outbox_new) = Hook_Ok"
    by (simp add: receive_inner_def Let_def js_publish_def demo_hook_def demo_conn_def)
  ultimately show ?thesis by simp
qed

end
