(* ===== verification/Polling.thy ===== *)
theory Polling
  imports Connectors
begin

text \<open>
  The connectors that follow a growing source with a cursor: the OpenSearch sink, the log sidecar,
  the SQLite tap and the file watcher, each with one round of its loop and the loop itself; then
  what following a source means, and which of them do.
\<close>

subsection \<open>OpenSearch sink (\<^verbatim>\<open>orion-opensearch-sink\<close>)\<close>

record log_doc =
  ld_at :: string
  ld_kind :: string
  ld_name :: string
  ld_node_id :: string
  ld_stream :: string
  ld_line :: string

text \<open>The JSON text of the action line and of a document are arguments.\<close>

definition build_bulk_body :: "(string \<Rightarrow> string) \<Rightarrow> (log_doc \<Rightarrow> string) \<Rightarrow> string \<Rightarrow> log_doc list \<Rightarrow> string" where
  "build_bulk_body action_text doc_text index docs =
     concat (map (\<lambda>d. action_text index @ [newline] @ doc_text d @ [newline]) docs)"

record sink_state =
  sk_since :: "(string, datetime) hash_map"
  sk_shipped :: "log_doc list list"

definition doc_of :: "connector_ext \<Rightarrow> log_archive_entry \<Rightarrow> log_doc" where
  "doc_of ext e = \<lparr>ld_at = kx_rfc3339 ext (la_at e), ld_kind = la_kind e, ld_name = la_name e,
     ld_node_id = la_node_id e, ld_stream = la_stream e, ld_line = la_line e\<rparr>"

definition bump_since :: "string \<Rightarrow> datetime \<Rightarrow> (string, datetime) hash_map \<Rightarrow> (string, datetime) hash_map" where
  "bump_since name ts since =
     hm_insert name (case hm_get since name of None \<Rightarrow> ts | Some t \<Rightarrow> if t < ts then ts else t) since"

text \<open>A fetch gets the lines after a time, newest first, or nothing when it fails.\<close>

fun sink_fetch ::
  "connector_ext \<Rightarrow> (string \<Rightarrow> datetime option \<Rightarrow> log_archive_entry list option) \<Rightarrow> string list \<Rightarrow>
     (string, datetime) hash_map \<Rightarrow> log_doc list \<times> (string, datetime) hash_map" where
  "sink_fetch ext fetch [] since = ([], since)"
| "sink_fetch ext fetch (name # names) since =
     (case fetch name (hm_get since name) of
        None \<Rightarrow> sink_fetch ext fetch names since
      | Some entries \<Rightarrow>
          (let since' = fold (\<lambda>e. bump_since name (la_at e)) (rev entries) since;
               (docs, since'') = sink_fetch ext fetch names since'
           in (map (doc_of ext) (rev entries) @ docs, since'')))"

definition sink_round ::
  "connector_ext \<Rightarrow> (string \<Rightarrow> datetime option \<Rightarrow> log_archive_entry list option) \<Rightarrow> string list \<Rightarrow> bool \<Rightarrow>
     sink_state \<Rightarrow> sink_state" where
  "sink_round ext fetch names ship_ok st =
     (let (batch, since) = sink_fetch ext fetch names (sk_since st)
      in if batch = [] then st\<lparr>sk_since := since\<rparr>
         else st\<lparr>sk_since := since, sk_shipped := sk_shipped st @ (if ship_ok then [batch] else [])\<rparr>)"

subsection \<open>Log sidecar (\<^verbatim>\<open>orion-sidecar\<close>)\<close>

record sidecar_event =
  se_source_service :: string
  se_stream :: string
  se_at :: string
  se_line :: string
  se_node_id :: string
  se_subject :: string

definition line_matches :: "(string \<Rightarrow> bool) option \<Rightarrow> string \<Rightarrow> bool" where
  "line_matches f line = (case f of Some r \<Rightarrow> r line | None \<Rightarrow> True)"

definition sidecar_event_of :: "connector_ext \<Rightarrow> string \<Rightarrow> log_archive_entry \<Rightarrow> sidecar_event" where
  "sidecar_event_of ext subject e = \<lparr>se_source_service = la_name e, se_stream = la_stream e,
     se_at = kx_rfc3339 ext (la_at e), se_line = la_line e, se_node_id = la_node_id e, se_subject = subject\<rparr>"

fun sidecar_forward ::
  "connector_ext \<Rightarrow> (string \<Rightarrow> bool) option \<Rightarrow> string \<Rightarrow> log_archive_entry list \<Rightarrow> datetime option \<Rightarrow>
     sidecar_event outbox \<Rightarrow> (string + unit) \<times> datetime option \<times> sidecar_event outbox" where
  "sidecar_forward ext f subject [] since ob = (Inr (), since, ob)"
| "sidecar_forward ext f subject (e # es) since ob =
     (if line_matches f (la_line e) then
        (case js_publish ext subject (sidecar_event_of ext subject e) ob of
           (Inl err, ob') \<Rightarrow> (Inl err, Some (la_at e), ob')
         | (Inr _, ob') \<Rightarrow> sidecar_forward ext f subject es (Some (la_at e)) ob')
      else sidecar_forward ext f subject es since ob)"

definition sidecar_round ::
  "connector_ext \<Rightarrow> (datetime option \<Rightarrow> log_archive_entry list option) \<Rightarrow> (string \<Rightarrow> bool) option \<Rightarrow> string \<Rightarrow>
     datetime option \<Rightarrow> sidecar_event outbox \<Rightarrow> (string + unit) \<times> datetime option \<times> sidecar_event outbox" where
  "sidecar_round ext fetch f subject since ob =
     (case fetch since of
        None \<Rightarrow> (Inr (), since, ob)
      | Some entries \<Rightarrow> sidecar_forward ext f subject (rev entries) since ob)"

text \<open>The loop over the answers of its fetches; an error of the publication ends it.\<close>

fun sidecar_loop ::
  "connector_ext \<Rightarrow> (string \<Rightarrow> bool) option \<Rightarrow> string \<Rightarrow> (datetime option \<Rightarrow> log_archive_entry list option) list \<Rightarrow>
     datetime option \<Rightarrow> sidecar_event outbox \<Rightarrow> (string + unit) \<times> datetime option \<times> sidecar_event outbox" where
  "sidecar_loop ext f subject [] since ob = (Inr (), since, ob)"
| "sidecar_loop ext f subject (fetch # rest) since ob =
     (case sidecar_round ext fetch f subject since ob of
        (Inl e, since', ob') \<Rightarrow> (Inl e, since', ob')
      | (Inr _, since', ob') \<Rightarrow> sidecar_loop ext f subject rest since' ob')"

subsection \<open>SQLite tap (\<^verbatim>\<open>orion-sqlite-tap\<close>)\<close>

record cdc_event =
  ce_at :: string
  ce_table :: string
  ce_rowid :: int
  ce_row :: json
  ce_subject :: string

definition build_select :: "string \<Rightarrow> int \<Rightarrow> string" where
  "build_select table since =
     ''SELECT rowid AS _orion_rowid, * FROM '' @ [CHR 0x22] @ table @ [CHR 0x22] @ '' WHERE rowid > '' @ show_int since @
     '' ORDER BY rowid ASC LIMIT 1000''"

text \<open>What the statement selects from a table, whose rows carry their row identifier.\<close>

definition tap_select :: "int \<Rightarrow> (int \<times> json) list \<Rightarrow> (int \<times> json) list" where
  "tap_select since rows = take 1000 (sort_key fst (filter (\<lambda>r. since < fst r) rows))"

definition tap_start :: "bool \<Rightarrow> (int \<times> json) list \<Rightarrow> int" where
  "tap_start from_zero rows = (if from_zero \<or> rows = [] then 0 else Max (fst ` set rows))"

definition cdc_event_of :: "connector_ext \<Rightarrow> datetime \<Rightarrow> string \<Rightarrow> string \<Rightarrow> int \<times> json \<Rightarrow> cdc_event" where
  "cdc_event_of ext now table subject = (\<lambda>(rowid, row).
     \<lparr>ce_at = kx_rfc3339 ext now, ce_table = table, ce_rowid = rowid, ce_row = row, ce_subject = subject\<rparr>)"

fun tap_rows ::
  "connector_ext \<Rightarrow> datetime \<Rightarrow> string \<Rightarrow> string \<Rightarrow> (int \<times> json) list \<Rightarrow> int \<Rightarrow> cdc_event outbox \<Rightarrow>
     (string + unit) \<times> int \<times> cdc_event outbox" where
  "tap_rows ext now table subject [] cursor ob = (Inr (), cursor, ob)"
| "tap_rows ext now table subject (r # rs) cursor ob =
     (case js_publish ext subject (cdc_event_of ext now table subject r) ob of
        (Inl e, ob') \<Rightarrow> (Inl e, cursor, ob')
      | (Inr _, ob') \<Rightarrow> tap_rows ext now table subject rs (fst r) ob')"

text \<open>One tick: the statement fails, and nothing happens, or its rows are published.\<close>

definition tap_tick ::
  "connector_ext \<Rightarrow> datetime \<Rightarrow> string \<Rightarrow> string \<Rightarrow> (int \<times> json) list option \<Rightarrow> int \<Rightarrow> cdc_event outbox \<Rightarrow>
     (string + unit) \<times> int \<times> cdc_event outbox" where
  "tap_tick ext now table subject rows cursor ob =
     (case rows of
        None \<Rightarrow> (Inr (), cursor, ob)
      | Some rows \<Rightarrow> tap_rows ext now table subject (tap_select cursor rows) cursor ob)"

text \<open>The loop over the tables it finds; an error of the publication ends it.\<close>

fun tap_loop ::
  "connector_ext \<Rightarrow> string \<Rightarrow> string \<Rightarrow> (datetime \<times> (int \<times> json) list option) list \<Rightarrow> int \<Rightarrow> cdc_event outbox \<Rightarrow>
     (string + unit) \<times> int \<times> cdc_event outbox" where
  "tap_loop ext table subject [] cursor ob = (Inr (), cursor, ob)"
| "tap_loop ext table subject ((now, rows) # rest) cursor ob =
     (case tap_tick ext now table subject rows cursor ob of
        (Inl e, cursor', ob') \<Rightarrow> (Inl e, cursor', ob')
      | (Inr _, cursor', ob') \<Rightarrow> tap_loop ext table subject rest cursor' ob')"

subsection \<open>File watcher (\<^verbatim>\<open>orion-file-watcher\<close>)\<close>

record file_event =
  fe_path :: string
  fe_line :: string
  fe_at :: string
  fe_subject :: string

definition trim_end_newlines :: "string \<Rightarrow> string" where
  "trim_end_newlines s = rev (dropWhile (\<lambda>c. c = newline \<or> c = CHR 0x0D) (rev s))"

definition make_event :: "connector_ext \<Rightarrow> string \<Rightarrow> string \<Rightarrow> string \<Rightarrow> datetime \<Rightarrow> file_event" where
  "make_event ext subject path line now =
     \<lparr>fe_path = path, fe_line = trim_end_newlines line, fe_at = kx_rfc3339 ext now, fe_subject = subject\<rparr>"

type_synonym cursor_map = "(string, u64) hash_map"

definition cursor_advance :: "u64 \<Rightarrow> u64 \<Rightarrow> u64 \<times> bool" where
  "cursor_advance offset new_size = (if new_size < offset then (0, True) else (offset, False))"

definition cursor_get :: "cursor_map \<Rightarrow> string \<Rightarrow> u64" where
  "cursor_get cs path = unwrap_or (hm_get cs path) 0"

definition cursor_update :: "string \<Rightarrow> u64 \<Rightarrow> cursor_map \<Rightarrow> cursor_map" where
  "cursor_update path offset cs = hm_insert path offset cs"

text \<open>\<^verbatim>\<open>str::split_inclusive\<close>: the pieces up to and including each newline.\<close>

fun split_inclusive :: "string \<Rightarrow> string list" where
  "split_inclusive [] = []"
| "split_inclusive (c # cs) =
     (if c = newline then [c] # split_inclusive cs
      else (case split_inclusive cs of [] \<Rightarrow> [[c]] | p # ps \<Rightarrow> (c # p) # ps))"

definition events_of :: "connector_ext \<Rightarrow> datetime \<Rightarrow> string \<Rightarrow> string \<Rightarrow> string \<Rightarrow> file_event list" where
  "events_of ext now subject path txt =
     map (\<lambda>line. make_event ext subject path line now) (filter (\<lambda>line. str_trim line \<noteq> []) (split_inclusive txt))"

text \<open>A poll sees the size of the file, or that there is none, and then reads the file from the
  offset to its end, which may lie beyond that size, or fails to.\<close>

definition poll_one ::
  "connector_ext \<Rightarrow> datetime \<Rightarrow> string \<Rightarrow> string \<Rightarrow> u64 option \<Rightarrow> (u64 \<Rightarrow> string + string) \<Rightarrow> cursor_map \<Rightarrow>
     file_event outbox \<Rightarrow> (string + unit) \<times> cursor_map \<times> file_event outbox" where
  "poll_one ext now subject path meta read_from cursors ob =
     (case meta of
        None \<Rightarrow> (Inr (), cursors, ob)
      | Some sz \<Rightarrow>
          (let (start, _) = cursor_advance (cursor_get cursors path) sz
           in if sz \<le> start then (Inr (), cursors, ob)
              else (case read_from start of
                      Inl e \<Rightarrow> (Inl e, cursors, ob)
                    | Inr buf \<Rightarrow>
                        (let new_offset = start + of_nat (length buf);
                             cursors' = cursor_update path new_offset cursors;
                             (res, ob') = publish_all ext subject (events_of ext now subject path buf) ob
                         in (res, cursors', ob')))))"

text \<open>At the start the cursors stand at the end of the files that exist, unless all of their
  content is wanted.\<close>

definition seed_cursors :: "bool \<Rightarrow> (string \<times> u64 option) list \<Rightarrow> cursor_map" where
  "seed_cursors from_start files =
     (if from_start then []
      else fold (\<lambda>(path, meta) cs. case meta of None \<Rightarrow> cs | Some sz \<Rightarrow> cursor_update path sz cs) files [])"

text \<open>The loop over its polls, in the order of the ticks and of the paths within a tick; an error is
  logged.\<close>

record file_poll =
  fp_now :: datetime
  fp_path :: string
  fp_meta :: "u64 option"
  fp_read :: "u64 \<Rightarrow> string + string"

fun watch_loop ::
  "connector_ext \<Rightarrow> string \<Rightarrow> file_poll list \<Rightarrow> cursor_map \<Rightarrow> file_event outbox \<Rightarrow> cursor_map \<times> file_event outbox" where
  "watch_loop ext subject [] cursors ob = (cursors, ob)"
| "watch_loop ext subject (p # ps) cursors ob =
     (let (_, cursors', ob') = poll_one ext (fp_now p) subject (fp_path p) (fp_meta p) (fp_read p) cursors ob
      in watch_loop ext subject ps cursors' ob')"

subsection \<open>Following a source\<close>

text \<open>A source grows; its items stay in order, and new ones come last. A cursor stands behind some
  number of items. A poll takes items from there on and moves the cursor behind them. Then a run of
  polls sends every item once, in order and without a gap.\<close>

fun polls_ready :: "('w \<Rightarrow> 'c \<Rightarrow> bool) \<Rightarrow> ('w \<Rightarrow> 'c \<times> 'o \<Rightarrow> 'c \<times> 'o) \<Rightarrow> 'w list \<Rightarrow> 'c \<times> 'o \<Rightarrow> bool" where
  "polls_ready rdy poll [] s = True"
| "polls_ready rdy poll (w # ws) s = (rdy w (fst s) \<and> polls_ready rdy poll ws (poll w s))"

locale growing_source =
  fixes items :: "'w \<Rightarrow> 'i list"
    and grows :: "'w \<Rightarrow> 'w \<Rightarrow> bool"
    and covers :: "'w \<Rightarrow> 'c \<Rightarrow> nat \<Rightarrow> bool"
  assumes grows_items: "grows w w' \<Longrightarrow> prefix (items w) (items w')"
    and grows_covers: "grows w w' \<Longrightarrow> covers w c n \<Longrightarrow> covers w' c n"
    and covers_le: "covers w c n \<Longrightarrow> n \<le> length (items w)"
begin

lemma chain_items: "successively grows (w # ws) \<Longrightarrow> prefix (items w) (items (last (w # ws)))"
proof (induction ws arbitrary: w)
  case (Cons w' ws)
  then have "prefix (items w) (items w')" "prefix (items w') (items (last (w' # ws)))"
    by (auto intro: grows_items)
  then show ?case by (auto intro: prefix_order.trans)
qed simp

lemma chain_take:
  assumes "successively grows (w # ws)"
  shows "successively grows (w # take k ws) \<and>
    prefix (items (last (w # take k ws))) (items (last (w # ws)))"
proof (cases "drop k ws")
  case Nil
  then show ?thesis using assms by simp
next
  case (Cons v vs)
  have split: "w # ws = (w # take k ws) @ v # vs" using Cons by (metis append_Cons append_take_drop_id)
  then have "successively grows ((w # take k ws) @ v # vs)" using assms by simp
  then have "successively grows (w # take k ws)" "successively grows (last (w # take k ws) # v # vs)"
    by (simp_all only: successively_append_iff successively.simps list.distinct list.sel simp_thms)
  moreover have "last (w # ws) = last (last (w # take k ws) # v # vs)"
    by (simp only: split last_appendR list.distinct last_ConsR not_False_eq_True)
  ultimately show ?thesis using chain_items by metis
qed

text \<open>What one poll sends and what the later ones send join without a gap.\<close>

lemma segments_join:
  assumes "prefix J I" and "n \<le> length J"
  shows "take k (drop n J) @ take m (drop (min (n + k) (length J)) I) =
    take (min (n + k) (length J) - n + m) (drop n I)"
proof -
  obtain R where I: "I = J @ R" using assms(1) by (auto simp: prefix_def)
  let ?d = "min (n + k) (length J) - n"
  have "take k (drop n J) = take ?d (drop n J)"
    by (simp add: min_def)
  also have "\<dots> = take ?d (drop n I)"
    using assms(2) by (simp add: I)
  finally have "take k (drop n J) = take ?d (drop n I)" .
  moreover have "drop (min (n + k) (length J)) I = drop ?d (drop n I)"
    using assms(2) by simp
  ultimately show ?thesis by (simp add: take_add)
qed

end

locale followed_source = growing_source items grows covers
  for items :: "'w \<Rightarrow> 'i list" and grows :: "'w \<Rightarrow> 'w \<Rightarrow> bool" and covers :: "'w \<Rightarrow> 'c \<Rightarrow> nat \<Rightarrow> bool" +
  fixes ready :: "'w \<Rightarrow> 'c \<Rightarrow> bool"
    and poll :: "'w \<Rightarrow> 'c \<times> 'o \<Rightarrow> 'c \<times> 'o"
    and sent :: "'o \<Rightarrow> 'i list"
  assumes poll_takes: "ready w c \<Longrightarrow> covers w c n \<Longrightarrow>
      \<exists>k. sent (snd (poll w (c, ob))) = sent ob @ take k (drop n (items w)) \<and>
        covers w (fst (poll w (c, ob))) (min (n + k) (length (items w)))"
begin

lemma sends_segment:
  assumes "successively grows (w # ws)" and "covers w c n" and "polls_ready ready poll ws (c, ob)"
  shows "\<exists>m. sent (snd (fold poll ws (c, ob))) = sent ob @ take m (drop n (items (last (w # ws)))) \<and>
    covers (last (w # ws)) (fst (fold poll ws (c, ob))) (min (n + m) (length (items (last (w # ws)))))"
  using assms
proof (induction ws arbitrary: w c n ob)
  case Nil
  then show ?case using covers_le [OF Nil.prems(2)] by (intro exI [of _ 0]) (simp add: min_def)
next
  case (Cons w' ws)
  let ?I = "items (last (w' # ws))"
  have cov: "covers w' c n" and chain: "successively grows (w' # ws)" and rdy: "ready w' c"
    using Cons.prems by (auto intro: grows_covers)
  have pre: "prefix (items w') ?I" by (rule chain_items [OF chain])
  obtain c' ob' where s: "poll w' (c, ob) = (c', ob')" by fastforce
  from poll_takes [OF rdy cov, of ob] obtain k where
    k: "sent ob' = sent ob @ take k (drop n (items w'))" "covers w' c' (min (n + k) (length (items w')))"
    by (auto simp: s)
  let ?n = "min (n + k) (length (items w'))"
  have "polls_ready ready poll ws (c', ob')" using Cons.prems(3) by (simp add: s)
  from Cons.IH [OF chain k(2) this] obtain m where
    m: "sent (snd (fold poll ws (c', ob'))) = sent ob' @ take m (drop ?n ?I)"
      "covers (last (w' # ws)) (fst (fold poll ws (c', ob'))) (min (?n + m) (length ?I))"
    by auto
  have "n \<le> length (items w')" by (rule covers_le [OF cov])
  then have "n + (?n - n + m) = ?n + m" by simp
  then show ?case
    using m k(1) segments_join [OF pre covers_le [OF cov], of k m]
    by (intro exI [of _ "?n - n + m"]) (simp add: s)
qed

text \<open>A run that stops early has sent a part of it.\<close>

lemma sends_segment_take:
  assumes "successively grows (w # ws)" and "covers w c n" and "polls_ready ready poll (take k ws) (c, ob)"
  shows "\<exists>m. sent (snd (fold poll (take k ws) (c, ob))) = sent ob @ take m (drop n (items (last (w # ws))))"
proof -
  obtain J where J: "J = items (last (w # take k ws))" "prefix J (items (last (w # ws)))"
    using chain_take [OF assms(1)] by blast
  obtain m where m: "sent (snd (fold poll (take k ws) (c, ob))) = sent ob @ take m (drop n J)"
    using sends_segment [OF conjunct1 [OF chain_take [OF assms(1)]] assms(2,3)] J(1) by blast
  have "take m (drop n J) = take (min m (length J - n)) (drop n (items (last (w # ws))))"
    using J(2) by (cases "n \<le> length J") (auto simp: prefix_def min_def)
  with m show ?thesis by auto
qed

end

text \<open>A poll that takes everything there is.\<close>

locale eager_source = growing_source items grows covers
  for items :: "'w \<Rightarrow> 'i list" and grows :: "'w \<Rightarrow> 'w \<Rightarrow> bool" and covers :: "'w \<Rightarrow> 'c \<Rightarrow> nat \<Rightarrow> bool" +
  fixes ready :: "'w \<Rightarrow> 'c \<Rightarrow> bool"
    and poll :: "'w \<Rightarrow> 'c \<times> 'o \<Rightarrow> 'c \<times> 'o"
    and sent :: "'o \<Rightarrow> 'i list"
  assumes poll_all: "ready w c \<Longrightarrow> covers w c n \<Longrightarrow>
      sent (snd (poll w (c, ob))) = sent ob @ drop n (items w) \<and>
      covers w (fst (poll w (c, ob))) (length (items w))"

sublocale eager_source \<subseteq> followed_source
proof (unfold_locales, goal_cases)
  case (1 w c n ob)
  then show ?case
    using poll_all [of w c n ob] covers_le [of w c n] by (intro exI [of _ "length (items w)"]) simp
qed

context eager_source
begin

lemma sends_all:
  assumes "successively grows (w # ws)" and "ws \<noteq> []" and "covers w c n" and "polls_ready ready poll ws (c, ob)"
  shows "sent (snd (fold poll ws (c, ob))) = sent ob @ drop n (items (last ws)) \<and>
    covers (last ws) (fst (fold poll ws (c, ob))) (length (items (last ws)))"
  using assms
proof (induction ws arbitrary: w c n ob)
  case (Cons w' ws)
  have cov: "covers w' c n" and chain: "successively grows (w' # ws)" and rdy: "ready w' c"
    using Cons.prems by (auto intro: grows_covers)
  obtain c' ob' where s: "poll w' (c, ob) = (c', ob')" by fastforce
  have one: "sent ob' = sent ob @ drop n (items w')" "covers w' c' (length (items w'))"
    using poll_all [OF rdy cov, of ob] by (simp_all add: s)
  show ?case
  proof (cases "ws = []")
    case False
    obtain R where R: "items (last ws) = items w' @ R"
      using chain_items [OF chain] False by (auto simp: prefix_def)
    have "n \<le> length (items w')" by (rule covers_le [OF cov])
    then show ?thesis
      using Cons.IH [OF chain False one(2), of ob'] Cons.prems(4) one(1) False by (simp add: s R)
  qed (use one in \<open>simp add: s\<close>)
qed simp

end

subsection \<open>The tap follows its table\<close>

text \<open>A table that only grows at its end: row identifiers are positive and increase. At a tick the
  statement works, or fails.\<close>

record tap_world =
  tw_now :: datetime
  tw_rows :: "(int \<times> json) list"
  tw_ok :: bool

definition table_ok :: "(int \<times> json) list \<Rightarrow> bool" where
  "table_ok rows \<longleftrightarrow> sorted_wrt (<) (map fst rows) \<and> list_all (\<lambda>r. 0 < fst r) rows"

definition table_grows :: "tap_world \<Rightarrow> tap_world \<Rightarrow> bool" where
  "table_grows w w' \<longleftrightarrow> table_ok (tw_rows w') \<and> prefix (tw_rows w) (tw_rows w')"

definition tap_covers :: "tap_world \<Rightarrow> int \<Rightarrow> nat \<Rightarrow> bool" where
  "tap_covers w c n \<longleftrightarrow> table_ok (tw_rows w) \<and> n \<le> length (tw_rows w) \<and>
     c = (if n = 0 then 0 else fst (tw_rows w ! (n - 1)))"

definition tap_sees :: "tap_world \<Rightarrow> datetime \<times> (int \<times> json) list option" where
  "tap_sees w = (tw_now w, if tw_ok w then Some (tw_rows w) else None)"

definition tap_poll ::
  "connector_ext \<Rightarrow> string \<Rightarrow> string \<Rightarrow> tap_world \<Rightarrow> int \<times> cdc_event outbox \<Rightarrow> int \<times> cdc_event outbox" where
  "tap_poll ext table subject w s =
     snd (tap_tick ext (fst (tap_sees w)) table subject (snd (tap_sees w)) (fst s) (snd s))"

definition tap_sent :: "cdc_event outbox \<Rightarrow> (int \<times> json) list" where
  "tap_sent ob = map (\<lambda>(_, e). (ce_rowid e, ce_row e)) (ob_sent ob)"

lemma filter_after_strict:
  fixes f :: "'v \<Rightarrow> 'k::linorder"
  assumes "sorted_wrt (<) (map f rows)" and "0 < n" and "n \<le> length rows"
  shows "filter (\<lambda>r. f (rows ! (n - 1)) < f r) rows = drop n rows"
proof -
  have lt: "f (rows ! i) < f (rows ! j)" if "i < j" "j < length rows" for i j
    using sorted_wrt_nth_less [OF assms(1), of i j] that by simp
  let ?c = "f (rows ! (n - 1))"
  have "filter (\<lambda>r. ?c < f r) (take n rows) = []"
  proof (rule filter_False, rule ballI)
    fix r assume "r \<in> set (take n rows)"
    then obtain i where i: "i < n" "r = rows ! i" using assms(3) by (auto simp: in_set_conv_nth)
    show "\<not> ?c < f r"
    proof (cases "i = n - 1")
      case False
      then show ?thesis using i assms(2,3) lt [of i "n - 1"] by fastforce
    qed (use i in simp)
  qed
  moreover have "filter (\<lambda>r. ?c < f r) (drop n rows) = drop n rows"
  proof (rule filter_True, rule ballI)
    fix r assume "r \<in> set (drop n rows)"
    then obtain i where "i < length rows - n" "r = rows ! (n + i)" by (auto simp: in_set_conv_nth)
    then show "?c < f r" using assms(2,3) lt [of "n - 1" "n + i"] by simp
  qed
  ultimately have "filter (\<lambda>r. ?c < f r) (take n rows @ drop n rows) = drop n rows"
    by (simp only: filter_append append_Nil)
  then show ?thesis by simp
qed

lemma sort_key_sorted: "sorted_wrt (<) (map f xs) \<Longrightarrow> sort_key (f :: 'v \<Rightarrow> 'k::linorder) xs = xs"
  by (induction xs) (auto simp: insort_is_Cons less_imp_le)

lemma tap_rows_sent:
  "\<exists>k \<le> length rs. tap_sent (snd (snd (tap_rows ext now table subject rs c ob))) = tap_sent ob @ take k rs \<and>
     fst (snd (tap_rows ext now table subject rs c ob)) = (if k = 0 then c else fst (rs ! (k - 1))) \<and>
     (fst (tap_rows ext now table subject rs c ob) = Inr () \<longleftrightarrow> k = length rs)"
proof (induction rs arbitrary: c ob)
  case (Cons r rs)
  obtain res ob' where p: "js_publish ext subject (cdc_event_of ext now table subject r) ob = (res, ob')" by fastforce
  show ?case
  proof (cases res)
    case (Inl e)
    then have "ob_sent ob' = ob_sent ob"
      using js_publish_sent [of ext subject "cdc_event_of ext now table subject r" ob] by (simp add: p)
    with Inl show ?thesis by (intro exI [of _ 0]) (simp add: p tap_sent_def)
  next
    case (Inr u)
    then have "ob_sent ob' = ob_sent ob @ [(subject, cdc_event_of ext now table subject r)]"
      using js_publish_sent [of ext subject "cdc_event_of ext now table subject r" ob] by (simp add: p)
    then have "tap_sent ob' = tap_sent ob @ [r]"
      by (simp add: tap_sent_def cdc_event_of_def split_beta)
    moreover from Cons.IH [of "fst r" ob'] obtain k where "k \<le> length rs"
      "tap_sent (snd (snd (tap_rows ext now table subject rs (fst r) ob'))) = tap_sent ob' @ take k rs"
      "fst (snd (tap_rows ext now table subject rs (fst r) ob')) = (if k = 0 then fst r else fst (rs ! (k - 1)))"
      "fst (tap_rows ext now table subject rs (fst r) ob') = Inr () \<longleftrightarrow> k = length rs"
      by blast
    ultimately show ?thesis
      using Inr by (intro exI [of _ "Suc k"]) (auto simp: p nth_Cons split: nat.split)
  qed
qed simp

lemma tap_select_after:
  assumes "tap_covers w c n"
  shows "tap_select c (tw_rows w) = take 1000 (drop n (tw_rows w))"
proof -
  have s: "sorted_wrt (<) (map fst (tw_rows w))" and n: "n \<le> length (tw_rows w)"
    using assms by (auto simp: tap_covers_def table_ok_def)
  have "filter (\<lambda>r. c < fst r) (tw_rows w) = drop n (tw_rows w)"
  proof (cases "n = 0")
    case True
    then show ?thesis using assms by (auto simp: tap_covers_def table_ok_def filter_id_conv list_all_iff)
  next
    case False
    then show ?thesis using filter_after_strict [OF s _ n] assms by (simp add: tap_covers_def)
  qed
  moreover have "sorted_wrt (<) (map fst (drop n (tw_rows w)))"
    using s by (simp add: drop_map [symmetric] sorted_wrt_drop)
  ultimately show ?thesis by (simp add: tap_select_def sort_key_sorted)
qed

interpretation tap: followed_source tw_rows table_grows tap_covers "\<lambda>_ _. True" "tap_poll ext table subject" tap_sent
proof (unfold_locales, goal_cases)
  case (1 w w')
  then show ?case by (simp add: table_grows_def)
next
  case (2 w w' c n)
  then show ?case by (auto simp: table_grows_def tap_covers_def prefix_def nth_append)
next
  case (3 w c n)
  then show ?case by (simp add: tap_covers_def)
next
  case (4 w c n ob)
  show ?case
  proof (cases "tw_ok w")
    case True
    let ?rs = "take 1000 (drop n (tw_rows w))"
    obtain k where k: "k \<le> length ?rs"
      "tap_sent (snd (snd (tap_rows ext (tw_now w) table subject ?rs c ob))) = tap_sent ob @ take k ?rs"
      "fst (snd (tap_rows ext (tw_now w) table subject ?rs c ob)) = (if k = 0 then c else fst (?rs ! (k - 1)))"
      using tap_rows_sent [of ?rs ext "tw_now w" table subject c ob] by blast
    have len: "n + k \<le> length (tw_rows w)" "k \<le> 1000"
      using k(1) 4(2) by (auto simp: tap_covers_def)
    have poll: "tap_poll ext table subject w (c, ob) = snd (tap_rows ext (tw_now w) table subject ?rs c ob)"
      using True by (simp add: tap_poll_def tap_sees_def tap_tick_def tap_select_after [OF 4(2)])
    have "fst (snd (tap_rows ext (tw_now w) table subject ?rs c ob)) =
        (if n + k = 0 then 0 else fst (tw_rows w ! (n + k - 1)))"
      using k(3) len 4(2) by (auto simp: tap_covers_def)
    then have "tap_covers w (fst (tap_poll ext table subject w (c, ob))) (min (n + k) (length (tw_rows w)))"
      using 4(2) len unfolding tap_covers_def poll by (simp add: min_absorb1)
    moreover have "take k ?rs = take k (drop n (tw_rows w))"
      using len by (simp add: min_def)
    ultimately show ?thesis
      using k(2) unfolding poll by metis
  next
    case False
    then show ?thesis
      using 4 by (intro exI [of _ 0]) (auto simp: tap_poll_def tap_sees_def tap_tick_def tap_covers_def)
  qed
qed

lemma polls_ready_True [simp]: "polls_ready (\<lambda>_ _. True) poll ws s"
  by (induction ws arbitrary: s) auto

lemma tap_loop_fold:
  "\<exists>k \<le> length ws. snd (tap_loop ext table subject (map tap_sees ws) c ob) =
     fold (tap_poll ext table subject) (take k ws) (c, ob) \<and>
     (fst (tap_loop ext table subject (map tap_sees ws) c ob) = Inr () \<longrightarrow> k = length ws)"
proof (induction ws arbitrary: c ob)
  case (Cons w ws)
  obtain now rows where w: "tap_sees w = (now, rows)" by fastforce
  obtain res c' ob' where t: "tap_tick ext now table subject rows c ob = (res, c', ob')" by (metis prod.exhaust)
  have p: "tap_poll ext table subject w (c, ob) = (c', ob')" by (simp add: tap_poll_def w t)
  show ?case
  proof (cases res)
    case (Inl e)
    then show ?thesis by (intro exI [of _ 1]) (simp add: w t p)
  next
    case (Inr u)
    from Cons.IH [of c' ob'] obtain k where "k \<le> length ws"
      "snd (tap_loop ext table subject (map tap_sees ws) c' ob') = fold (tap_poll ext table subject) (take k ws) (c', ob')"
      "fst (tap_loop ext table subject (map tap_sees ws) c' ob') = Inr () \<longrightarrow> k = length ws" by blast
    with Inr show ?thesis by (intro exI [of _ "Suc k"]) (simp add: w t p)
  qed
qed simp


lemma tap_tick_ok:
  assumes "\<And>k. kx_publish_error ext k = None" and "distinct (map fst rows)"
    and "S = sort_key fst (filter (\<lambda>r. c < fst r) rows)"
  shows "\<exists>c' ob'. tap_tick ext now table subject (Some rows) c ob = (Inr (), c', ob') \<and>
    tap_sent ob' = tap_sent ob @ take 1000 S \<and> sort_key fst (filter (\<lambda>r. c' < fst r) rows) = drop 1000 S"
proof -
  let ?t = "tap_rows ext now table subject (take 1000 S) c ob"
  have ok: "fst (tap_rows ext now table subject rs c ob) = Inr ()" for rs c ob
    by (induction rs arbitrary: c ob) (simp_all add: js_publish_None assms(1))
  have "distinct (map fst S)"
    using assms(2) mset_map [of fst S] mset_map [of fst "filter (\<lambda>r. c < fst r) rows"]
      mset_eq_imp_distinct_iff [of "map fst S" "map fst (filter (\<lambda>r. c < fst r) rows)"]
    by (simp add: assms(3) distinct_map_filter)
  then have strict: "sorted_wrt (<) (map fst S)"
    by (simp add: strict_sorted_iff assms(3))
  obtain k where k: "k \<le> length (take 1000 S)"
    "tap_sent (snd (snd ?t)) = tap_sent ob @ take k (take 1000 S)"
    "fst (snd ?t) = (if k = 0 then c else fst (take 1000 S ! (k - 1)))" "k = length (take 1000 S)"
    using tap_rows_sent [of "take 1000 S" ext now table subject c ob] ok by blast
  have gt: "c < fst r" if "r \<in> set S" for r using that by (simp add: assms(3))
  have "sort_key fst (filter (\<lambda>r. fst (snd ?t) < fst r) rows) = drop 1000 S"
  proof (cases "S = []")
    case True
    then show ?thesis using k(3,4) assms(3) by simp
  next
    case False
    then have "0 < k" "k \<le> 1000" "k \<le> length S" using k(4) by auto
    then have c': "fst (snd ?t) = fst (S ! (k - 1))" "0 < k" "k \<le> length S" using k(3) by simp_all
    then have "c < fst (snd ?t)" using gt by simp
    then have "filter (\<lambda>r. fst (snd ?t) < fst r) rows =
        filter (\<lambda>r. fst (snd ?t) < fst r) (filter (\<lambda>r. c < fst r) rows)"
      by (auto intro!: filter_cong)
    then have "sort_key fst (filter (\<lambda>r. fst (snd ?t) < fst r) rows) = filter (\<lambda>r. fst (snd ?t) < fst r) S"
      by (simp add: assms(3) filter_sort)
    also have "\<dots> = drop k S" using filter_after_strict [OF strict c'(2,3)] by (simp add: c'(1))
    finally show ?thesis using k(4) by (cases "length S \<le> 1000") simp_all
  qed
  moreover have "tap_sent (snd (snd ?t)) = tap_sent ob @ take 1000 S"
    unfolding k(2) k(4) by (simp only: take_all order.refl)
  ultimately show ?thesis
    using ok [of "take 1000 S" c ob]
    by (intro exI [of _ "fst (snd ?t)"] exI [of _ "snd (snd ?t)"])
      (simp add: tap_tick_def tap_select_def assms(3) [symmetric] prod_eq_iff)
qed

text \<open>C24: when publishing works, a table of any order is drained in steps of a thousand: after k
  ticks the first thousand times k of the rows beyond the cursor have been sent, smallest
  identifier first, so that enough ticks send them all.\<close>

theorem tap_drains:
  assumes "\<And>k. kx_publish_error ext k = None" and "distinct (map fst rows)"
  shows "tap_sent (snd (snd (tap_loop ext table subject (replicate k (now, Some rows)) c ob))) =
    tap_sent ob @ take (1000 * k) (sort_key fst (filter (\<lambda>r. c < fst r) rows))"
proof (induction k arbitrary: c ob)
  case (Suc k)
  define S where "S = sort_key fst (filter (\<lambda>r. c < fst r) rows)"
  obtain c' ob' where "tap_tick ext now table subject (Some rows) c ob = (Inr (), c', ob')"
    "tap_sent ob' = tap_sent ob @ take 1000 S" "sort_key fst (filter (\<lambda>r. c' < fst r) rows) = drop 1000 S"
    using tap_tick_ok [OF assms S_def] by blast
  then show ?case using Suc.IH [of c' ob'] by (simp add: S_def [symmetric] take_add)
qed simp

subsection \<open>The sidecar follows the archive\<close>

text \<open>The archive of a service in time order, and what the controller answers from it: the lines
  after the time, newest first, a thousand at most.\<close>

definition after_since :: "datetime option \<Rightarrow> log_archive_entry \<Rightarrow> bool" where
  "after_since since e = (case since of None \<Rightarrow> True | Some t \<Rightarrow> t < la_at e)"

definition archive_query :: "log_archive_entry list \<Rightarrow> datetime option \<Rightarrow> log_archive_entry list option" where
  "archive_query A since = Some (take 1000 (rev (filter (after_since since) A)))"

definition archive_ok :: "log_archive_entry list \<Rightarrow> bool" where
  "archive_ok A \<longleftrightarrow> sorted_wrt (<) (map la_at A)"

definition archive_grows :: "log_archive_entry list \<Rightarrow> log_archive_entry list \<Rightarrow> bool" where
  "archive_grows A A' \<longleftrightarrow> archive_ok A' \<and> prefix A A'"

definition matching_lines :: "(string \<Rightarrow> bool) option \<Rightarrow> log_archive_entry list \<Rightarrow> log_archive_entry list" where
  "matching_lines f A = filter (\<lambda>e. line_matches f (la_line e)) A"

definition sidecar_covers ::
  "(string \<Rightarrow> bool) option \<Rightarrow> log_archive_entry list \<Rightarrow> datetime option \<Rightarrow> nat \<Rightarrow> bool" where
  "sidecar_covers f A since n \<longleftrightarrow> archive_ok A \<and> n \<le> length (matching_lines f A) \<and>
     since = (if n = 0 then None else Some (la_at (matching_lines f A ! (n - 1))))"

definition sidecar_ready :: "log_archive_entry list \<Rightarrow> datetime option \<Rightarrow> bool" where
  "sidecar_ready A since \<longleftrightarrow> length (filter (after_since since) A) \<le> 1000"

definition reliable :: "connector_ext \<Rightarrow> connector_ext" where
  "reliable ext = ext\<lparr>kx_publish_error := \<lambda>_. None\<rparr>"

definition sidecar_poll ::
  "connector_ext \<Rightarrow> (string \<Rightarrow> bool) option \<Rightarrow> string \<Rightarrow> log_archive_entry list \<Rightarrow>
     datetime option \<times> sidecar_event outbox \<Rightarrow> datetime option \<times> sidecar_event outbox" where
  "sidecar_poll ext f subject A s = snd (sidecar_round ext (archive_query A) f subject (fst s) (snd s))"

lemma after_since_Some: "after_since (Some t) = (\<lambda>e. t < la_at e)"
  by (simp add: after_since_def fun_eq_iff)

lemma reliable_simps [simp]:
  "kx_publish_error (reliable ext) k = None" "sidecar_event_of (reliable ext) = sidecar_event_of ext"
  "kx_rfc3339 (reliable ext) = kx_rfc3339 ext"
  by (simp_all add: reliable_def sidecar_event_of_def fun_eq_iff)

lemma reliable_eq: "(\<And>k. kx_publish_error ext k = None) \<Longrightarrow> reliable ext = ext"
  by (simp add: reliable_def fun_eq_iff)

lemma matching_lines_simps [simp]:
  "matching_lines f [] = []"
  "matching_lines f (e # es) = (if line_matches f (la_line e) then e # matching_lines f es else matching_lines f es)"
  by (simp_all add: matching_lines_def)

lemma sidecar_forward_ok:
  "\<exists>ob'. sidecar_forward (reliable ext) f subject es since ob =
     (Inr (), (if matching_lines f es = [] then since else Some (la_at (last (matching_lines f es)))), ob') \<and>
     map snd (ob_sent ob') = map snd (ob_sent ob) @ map (sidecar_event_of ext subject) (matching_lines f es)"
proof (induction es arbitrary: since ob)
  case (Cons e es)
  show ?case
  proof (cases "line_matches f (la_line e)")
    case True
    let ?ob = "ob\<lparr>ob_attempts := Suc (ob_attempts ob), ob_sent := ob_sent ob @ [(subject, sidecar_event_of ext subject e)]\<rparr>"
    from Cons.IH [of "Some (la_at e)" ?ob] True show ?thesis
      by (auto simp: js_publish_None)
  next
    case False
    with Cons.IH [of since ob] show ?thesis by auto
  qed
qed simp

lemma matching_after:
  assumes "sidecar_covers f A since n"
  shows "matching_lines f (filter (after_since since) A) = drop n (matching_lines f A)"
proof -
  have s: "sorted_wrt (<) (map la_at (matching_lines f A))" and n: "n \<le> length (matching_lines f A)"
    using assms by (auto simp: sidecar_covers_def archive_ok_def matching_lines_def sorted_wrt_map sorted_wrt_filter)
  have "matching_lines f (filter (after_since since) A) = filter (after_since since) (matching_lines f A)"
    by (simp add: matching_lines_def filter_filter conj_commute)
  also have "\<dots> = drop n (matching_lines f A)"
  proof (cases "n = 0")
    case True
    then show ?thesis using assms by (simp add: sidecar_covers_def after_since_def)
  next
    case False
    then have "since = Some (la_at (matching_lines f A ! (n - 1)))" using assms by (simp add: sidecar_covers_def)
    then have "after_since since = (\<lambda>e. la_at (matching_lines f A ! (n - 1)) < la_at e)"
      by (simp add: after_since_def fun_eq_iff)
    then show ?thesis using filter_after_strict [OF s _ n] False by simp
  qed
  finally show ?thesis .
qed

interpretation sidecar: eager_source "\<lambda>A. map (sidecar_event_of ext subject) (matching_lines f A)" archive_grows
  "sidecar_covers f" sidecar_ready "sidecar_poll (reliable ext) f subject" "\<lambda>ob. map snd (ob_sent ob)"
proof (unfold_locales, goal_cases)
  case (1 w w')
  then show ?case by (auto simp: archive_grows_def matching_lines_def prefix_def)
next
  case (2 w w' c n)
  then show ?case by (auto simp: archive_grows_def sidecar_covers_def matching_lines_def prefix_def nth_append)
next
  case (3 w c n)
  then show ?case by (simp add: sidecar_covers_def)
next
  case (4 w c n ob)
  let ?new = "filter (after_since c) w" and ?M = "matching_lines f w"
  obtain ob' where r: "sidecar_forward (reliable ext) f subject ?new c ob =
      (Inr (), (if drop n ?M = [] then c else Some (la_at (last (drop n ?M)))), ob')"
    "map snd (ob_sent ob') = map snd (ob_sent ob) @ map (sidecar_event_of ext subject) (drop n ?M)"
    using sidecar_forward_ok [of ext f subject ?new c ob] unfolding matching_after [OF 4(2)] by blast
  have "sidecar_poll (reliable ext) f subject w (c, ob) =
      ((if drop n ?M = [] then c else Some (la_at (last (drop n ?M)))), ob')"
    using 4(1) r(1) by (simp add: sidecar_poll_def sidecar_round_def archive_query_def sidecar_ready_def)
  moreover have "sidecar_covers f w (if drop n ?M = [] then c else Some (la_at (last (drop n ?M)))) (length ?M)"
    using 4(2) by (auto simp: sidecar_covers_def last_conv_nth)
  ultimately show ?case using r(2) by (simp add: drop_map)
qed

lemma sidecar_loop_fold:
  "snd (sidecar_loop (reliable ext) f subject (map archive_query ws) since ob) =
     fold (sidecar_poll (reliable ext) f subject) ws (since, ob)"
proof (induction ws arbitrary: since ob)
  case (Cons A ws)
  obtain c ob' where "sidecar_round (reliable ext) (archive_query A) f subject since ob = (Inr (), c, ob')"
    using sidecar_forward_ok [of ext f subject "rev (the (archive_query A since))" since ob]
    by (auto simp: sidecar_round_def archive_query_def)
  then show ?case using Cons.IH [of c ob'] by (simp add: sidecar_poll_def)
qed simp

text \<open>Further: the sidecar sends every matching line of the archive once and in time order, as long as
  publishing works and never more than a thousand lines wait behind its position.\<close>

theorem sidecar_follows_archive:
  assumes "\<And>k. kx_publish_error ext k = None" and "successively archive_grows ([] # ws)" and "ws \<noteq> []"
    and "polls_ready sidecar_ready (sidecar_poll ext f subject) ws (None, ob)"
  shows "map snd (ob_sent (snd (snd (sidecar_loop ext f subject (map archive_query ws) None ob)))) =
    map snd (ob_sent ob) @ map (sidecar_event_of ext subject) (filter (\<lambda>e. line_matches f (la_line e)) (last ws))"
proof -
  have r: "reliable ext = ext" using assms(1) by (rule reliable_eq)
  have "sidecar_covers f [] None 0" by (simp add: sidecar_covers_def archive_ok_def matching_lines_def)
  from sidecar.sends_all [OF assms(2,3) this, of ext subject ob] show ?thesis
    using assms(4) sidecar_loop_fold [of ext f subject ws None ob] by (simp add: r matching_lines_def)
qed

subsection \<open>The watcher follows its file\<close>

text \<open>A file that grows by whole lines; a poll sees its size and reads the rest of it.\<close>

record file_world =
  fw_now :: datetime
  fw_content :: string

definition whole_lines :: "string \<Rightarrow> bool" where
  "whole_lines s \<longleftrightarrow> s = [] \<or> last s = newline"

definition file_lines :: "string \<Rightarrow> string list" where
  "file_lines s = map trim_end_newlines (filter (\<lambda>l. str_trim l \<noteq> []) (split_inclusive s))"

definition file_ok :: "file_world \<Rightarrow> bool" where
  "file_ok w \<longleftrightarrow> whole_lines (fw_content w) \<and> length (fw_content w) < 2 ^ 64"

definition file_grows :: "file_world \<Rightarrow> file_world \<Rightarrow> bool" where
  "file_grows w w' \<longleftrightarrow> file_ok w \<and> file_ok w' \<and> prefix (fw_content w) (fw_content w')"

definition file_covers :: "string \<Rightarrow> file_world \<Rightarrow> cursor_map \<Rightarrow> nat \<Rightarrow> bool" where
  "file_covers path w cursors n \<longleftrightarrow> file_ok w \<and>
     (\<exists>k \<le> length (fw_content w). cursor_get cursors path = of_nat k \<and> whole_lines (take k (fw_content w)) \<and>
        n = length (file_lines (take k (fw_content w))))"

definition file_sees :: "string \<Rightarrow> file_world \<Rightarrow> file_poll" where
  "file_sees path w = \<lparr>fp_now = fw_now w, fp_path = path, fp_meta = Some (of_nat (length (fw_content w))),
     fp_read = (\<lambda>off. Inr (drop (unat off) (fw_content w)))\<rparr>"

definition watch_poll ::
  "connector_ext \<Rightarrow> string \<Rightarrow> string \<Rightarrow> file_world \<Rightarrow> cursor_map \<times> file_event outbox \<Rightarrow> cursor_map \<times> file_event outbox" where
  "watch_poll ext subject path w s = watch_loop ext subject [file_sees path w] (fst s) (snd s)"

definition watch_sent :: "file_event outbox \<Rightarrow> string list" where
  "watch_sent ob = map (\<lambda>(_, e). fe_line e) (ob_sent ob)"

lemma split_inclusive_append:
  "whole_lines a \<Longrightarrow> split_inclusive (a @ b) = split_inclusive a @ split_inclusive b"
proof (induction a)
  case (Cons c a)
  show ?case
  proof (cases "a = []")
    case True
    then show ?thesis using Cons.prems by (simp add: whole_lines_def)
  next
    case False
    then have w: "whole_lines a" "a \<noteq> []" using Cons.prems by (simp_all add: whole_lines_def)
    then have "split_inclusive a \<noteq> []" by (cases a) (auto split: list.split)
    then show ?thesis using Cons.IH [OF w(1)] by (cases "split_inclusive a") auto
  qed
qed simp

lemma file_lines_append: "whole_lines a \<Longrightarrow> file_lines (a @ b) = file_lines a @ file_lines b"
  by (simp add: file_lines_def split_inclusive_append)

lemma concat_split_inclusive: "concat (split_inclusive s) = s"
  by (induction s) (auto split: list.split)

lemma events_of_lines: "map fe_line (events_of ext now subject path s) = file_lines s"
  by (simp add: events_of_def file_lines_def make_event_def comp_def)

lemma unat_of_nat_u64: "k < 2 ^ 64 \<Longrightarrow> unat (of_nat k :: u64) = k"
  by (simp add: unat_of_nat take_bit_nat_eq_self)

text \<open>A poll of a file with the cursor within it.\<close>

lemma watch_poll_within:
  assumes "length (fw_content w) < 2 ^ 64" and "k \<le> length (fw_content w)" and "cursor_get cursors path = of_nat k"
  shows "watch_sent (snd (watch_poll (reliable ext) subject path w (cursors, ob))) =
      watch_sent ob @ file_lines (drop k (fw_content w)) \<and>
    cursor_get (fst (watch_poll (reliable ext) subject path w (cursors, ob))) path = of_nat (length (fw_content w))"
proof -
  let ?n = "length (fw_content w)"
  have k: "unat (of_nat k :: u64) = k" and n: "unat (of_nat ?n :: u64) = ?n"
    using assms(1,2) by (simp_all add: unat_of_nat_u64)
  have le: "(of_nat ?n :: u64) \<le> of_nat k \<longleftrightarrow> ?n \<le> k" and lt: "\<not> (of_nat ?n :: u64) < of_nat k"
    using assms(2) by (simp_all add: word_le_nat_alt word_less_nat_alt k n)
  have off: "(of_nat k :: u64) + of_nat (?n - k) = of_nat ?n"
    using assms(2) by (simp flip: of_nat_add)
  show ?thesis
  proof (cases "?n \<le> k")
    case True
    then have "k = ?n" using assms(2) by simp
    then show ?thesis
      using assms(3) by (simp add: watch_poll_def file_sees_def poll_one_def cursor_advance_def Let_def file_lines_def)
  next
    case False
    then show ?thesis
      using assms(3) le lt k off events_of_lines [of "reliable ext" "fw_now w" subject path "drop k (fw_content w)"]
      by (simp add: watch_poll_def file_sees_def poll_one_def cursor_advance_def Let_def publish_all_ok
          watch_sent_def comp_def cursor_get_def cursor_update_def)
  qed
qed

interpretation watcher: eager_source "\<lambda>w. file_lines (fw_content w)" file_grows "file_covers path" "\<lambda>_ _. True"
  "watch_poll (reliable ext) subject path" watch_sent
proof (unfold_locales, goal_cases)
  case (1 w w')
  then show ?case by (auto simp: file_grows_def file_ok_def prefix_def file_lines_append)
next
  case (2 w w' c n)
  then obtain k R where "k \<le> length (fw_content w)" "cursor_get c path = of_nat k" "whole_lines (take k (fw_content w))"
    "n = length (file_lines (take k (fw_content w)))" "fw_content w' = fw_content w @ R" "file_ok w'"
    by (auto simp: file_grows_def file_covers_def prefix_def)
  then show ?case unfolding file_covers_def by (intro conjI exI [of _ k]) simp_all
next
  case (3 w c n)
  then show ?case
    by (auto simp: file_covers_def) (metis append_take_drop_id file_lines_append length_append le_add1)
next
  case (4 w c n ob)
  then obtain k where k: "file_ok w" "k \<le> length (fw_content w)" "cursor_get c path = of_nat k"
    "whole_lines (take k (fw_content w))" "n = length (file_lines (take k (fw_content w)))"
    by (auto simp: file_covers_def)
  have "file_lines (fw_content w) = file_lines (take k (fw_content w)) @ file_lines (drop k (fw_content w))"
    using file_lines_append [OF k(4), of "drop k (fw_content w)"] by simp
  then have "drop n (file_lines (fw_content w)) = file_lines (drop k (fw_content w))"
    by (simp add: k(5))
  then show ?case
    using watch_poll_within [OF _ k(2,3), of ext subject ob] k(1) by (auto simp: file_covers_def file_ok_def)
qed

lemma watch_loop_fold: "watch_loop ext subject (map (file_sees path) ws) cursors ob = fold (watch_poll ext subject path) ws (cursors, ob)"
  by (induction ws arbitrary: cursors ob) (simp_all add: watch_poll_def split_beta)

text \<open>C22: the watcher tails a file that grows by whole lines exactly: starting at byte k, after any
  polls it has sent every line of the rest of the file that is not blank, once and in order, when
  publishing works.\<close>

theorem watcher_tails_file:
  assumes "\<And>k. kx_publish_error ext k = None" and "successively file_grows (w # ws)" and "ws \<noteq> []"
    and "k \<le> length (fw_content w)" and "cursor_get cursors path = of_nat k" and "whole_lines (take k (fw_content w))"
  shows "map (\<lambda>(_, e). fe_line e) (ob_sent (snd (watch_loop ext subject (map (file_sees path) ws) cursors ob))) =
    map (\<lambda>(_, e). fe_line e) (ob_sent ob) @
      map trim_end_newlines (filter (\<lambda>l. str_trim l \<noteq> []) (split_inclusive (drop k (fw_content (last ws)))))"
proof -
  have r: "reliable ext = ext" using assms(1) by (rule reliable_eq)
  let ?n = "length (file_lines (take k (fw_content w)))"
  have "file_ok w" using assms(2,3) by (cases ws) (auto simp: file_grows_def)
  then have cov: "file_covers path w cursors ?n" using assms(4-6) by (auto simp: file_covers_def)
  have "watch_sent (snd (fold (watch_poll (reliable ext) subject path) ws (cursors, ob))) =
      watch_sent ob @ drop ?n (file_lines (fw_content (last ws)))"
    using watcher.sends_all [OF assms(2,3) cov, of ext subject ob] by simp
  moreover have "successively (\<lambda>v v'. prefix (fw_content v) (fw_content v')) (w # ws)"
    using assms(2) by (rule successively_mono) (simp add: file_grows_def)
  then have "prefix (fw_content w) (fw_content (last (w # ws)))"
    by (induction ws arbitrary: w) (auto intro: prefix_order.trans)
  then obtain R where "fw_content (last ws) = fw_content w @ R" using assms(3) by (auto simp: prefix_def)
  then have "fw_content (last ws) = take k (fw_content w) @ drop k (fw_content (last ws))"
    using assms(4) by (metis append_take_drop_id take_append diff_is_0_eq take0 append_Nil2)
  then have "drop ?n (file_lines (fw_content (last ws))) = file_lines (drop k (fw_content (last ws)))"
    using file_lines_append [OF assms(6), of "drop k (fw_content (last ws))"] by simp
  ultimately show ?thesis
    by (simp add: r watch_sent_def file_lines_def watch_loop_fold)
qed

lemma split_inclusive_one:
  "newline \<notin> set x \<Longrightarrow> split_inclusive (x @ [newline]) = [x @ [newline]] \<and> (x \<noteq> [] \<longrightarrow> split_inclusive x = [x])"
  by (induction x) auto

lemma file_lines_one:
  assumes "newline \<notin> set x" and "str_trim x \<noteq> []" and "last x \<noteq> CHR 0x0D"
  shows "file_lines (x @ [newline]) = [x] \<and> file_lines x = [x]"
proof -
  have x: "x \<noteq> []" using assms(2) by (auto simp: str_trim_def)
  have "last x \<noteq> newline" using assms(1) x last_in_set by fastforce
  then have trim: "trim_end_newlines x = x" "trim_end_newlines (x @ [newline]) = x"
    using x assms(3) by (cases x rule: rev_cases; simp add: trim_end_newlines_def)+
  obtain c where "c \<in> set x" "\<not> is_ascii_ws c"
    using assms(2) dropWhile_eq_Nil_conv [of is_ascii_ws x] by (auto simp: str_trim_def dest: set_dropWhileD)
  moreover have "is_ascii_ws newline" by (simp add: is_ascii_ws_def newline_def)
  ultimately have "str_trim (x @ [newline]) = str_trim x"
    by (simp add: str_trim_def dropWhile_append1 [of c])
  then show ?thesis
    using split_inclusive_one [OF assms(1)] x assms(2) by (simp add: file_lines_def trim)
qed

text \<open>Further: a poll that falls between the two halves of a line sends them as two lines: the file
  has the one line, the queue has two.\<close>

theorem watcher_splits_line:
  assumes "\<And>k. kx_publish_error ext k = None" and "newline \<notin> set x" and "newline \<notin> set y"
    and "str_trim x \<noteq> []" and "str_trim y \<noteq> []" and "last x \<noteq> CHR 0x0D" and "last y \<noteq> CHR 0x0D"
    and "length (x @ y @ [newline]) < 2 ^ 64" and "cursor_get cursors path = 0"
  shows "watch_sent (snd (watch_loop ext subject (map (file_sees path)
      [\<lparr>fw_now = t, fw_content = x\<rparr>, \<lparr>fw_now = t', fw_content = x @ y @ [newline]\<rparr>]) cursors ob)) = watch_sent ob @ [x, y]"
proof -
  have r: "reliable ext = ext" using assms(1) by (rule reliable_eq)
  let ?w = "\<lparr>fw_now = t, fw_content = x\<rparr>" and ?w' = "\<lparr>fw_now = t', fw_content = x @ y @ [newline]\<rparr>"
  obtain c1 ob1 where p: "watch_poll ext subject path ?w (cursors, ob) = (c1, ob1)" by fastforce
  have one: "watch_sent ob1 = watch_sent ob @ [x]" "cursor_get c1 path = of_nat (length x)"
    using watch_poll_within [of ?w 0 cursors path ext subject ob] assms(8,9) file_lines_one [OF assms(2,4,6)]
    by (simp_all add: r p)
  have "watch_sent (snd (watch_poll ext subject path ?w' (c1, ob1))) = watch_sent ob1 @ [y]"
    using watch_poll_within [of ?w' "length x" c1 path ext subject ob1] assms(8) one(2) file_lines_one [OF assms(3,5,7)]
    by (simp add: r)
  then show ?thesis unfolding watch_loop_fold using one(1) p by simp
qed

text \<open>Further: the cursor moves before the lines are sent: when the first publication of a poll fails
  the lines it read are never sent, although the loop goes on.\<close>

theorem watcher_loses_on_error:
  assumes "kx_publish_error ext (ob_attempts ob) = Some e" and "length (fw_content w) < 2 ^ 64"
    and "k < length (fw_content w)" and "cursor_get cursors path = of_nat k"
    and "file_lines (drop k (fw_content w)) \<noteq> []"
  shows "watch_sent (snd (watch_loop ext subject (map (file_sees path) (w # replicate n w)) cursors ob)) = watch_sent ob"
proof -
  let ?n = "length (fw_content w)" and ?p = "watch_poll ext subject path w"
  have k: "unat (of_nat k :: u64) = k" and n: "unat (of_nat ?n :: u64) = ?n"
    using assms(2,3) by (simp_all add: unat_of_nat_u64)
  have lt: "\<not> (of_nat ?n :: u64) \<le> of_nat k" "\<not> (of_nat ?n :: u64) < of_nat k"
    using assms(3) by (simp_all add: word_le_nat_alt word_less_nat_alt k n)
  have off: "(of_nat k :: u64) + of_nat (?n - k) = of_nat ?n"
    using assms(3) by (simp flip: of_nat_add)
  obtain m ms where "events_of ext (fw_now w) subject path (drop k (fw_content w)) = m # ms"
    using assms(5) events_of_lines [of ext "fw_now w" subject path "drop k (fw_content w)"]
    by (cases "events_of ext (fw_now w) subject path (drop k (fw_content w))") auto
  then have first: "?p (cursors, ob) = (cursor_update path (of_nat ?n) cursors, ob\<lparr>ob_attempts := Suc (ob_attempts ob)\<rparr>)"
    using assms(1,4) lt k off
    by (simp add: watch_poll_def file_sees_def poll_one_def cursor_advance_def Let_def js_publish_def)
  have still: "?p (c, b) = (c, b)" if "cursor_get c path = of_nat ?n" for c b
    using that by (simp add: watch_poll_def file_sees_def poll_one_def cursor_advance_def Let_def)
  have "fold (watch_poll ext subject path) (replicate n w) (c, b) = (c, b)" if "cursor_get c path = of_nat ?n" for c b
    using that by (induction n) (simp_all add: still)
  then show ?thesis
    unfolding watch_loop_fold using first by (simp add: cursor_get_def cursor_update_def watch_sent_def)
qed

subsection \<open>The sink\<close>

text \<open>What a fetch of every name adds to the batch and to the times.\<close>

definition sink_seen :: "datetime option \<Rightarrow> log_archive_entry list \<Rightarrow> datetime option" where
  "sink_seen since new = (if new = [] then since else Some (la_at (last new)))"

lemma bump_since_sorted:
  assumes "archive_ok es" and "list_all (\<lambda>e. after_since (hm_get since name) e) es"
  shows "hm_get (fold (\<lambda>e. bump_since name (la_at e)) es since) j =
    (if j = name then sink_seen (hm_get since name) es else hm_get since j)"
  using assms
proof (induction es arbitrary: since)
  case (Cons e es)
  have get: "hm_get (bump_since name (la_at e) since) j = (if j = name then Some (la_at e) else hm_get since j)" for j
    using Cons.prems(2) by (auto simp: bump_since_def after_since_def split: option.splits)
  have "archive_ok es" "list_all (\<lambda>e'. after_since (hm_get (bump_since name (la_at e) since) name) e') es"
    using Cons.prems(1) by (auto simp: archive_ok_def get after_since_def list_all_iff)
  from Cons.IH [OF this] show ?case by (simp add: get sink_seen_def)
qed (simp add: sink_seen_def)

lemma sink_fetch_archive:
  assumes "distinct names" and "list_all (\<lambda>n. archive_ok (A n) \<and> sidecar_ready (A n) (hm_get since n)) names"
  shows "fst (sink_fetch ext (\<lambda>n. archive_query (A n)) names since) =
      concat (map (\<lambda>n. map (doc_of ext) (filter (after_since (hm_get since n)) (A n))) names) \<and>
    hm_get (snd (sink_fetch ext (\<lambda>n. archive_query (A n)) names since)) j =
      (if j \<in> set names then sink_seen (hm_get since j) (filter (after_since (hm_get since j)) (A j)) else hm_get since j)"
  using assms
proof (induction names arbitrary: since)
  case (Cons n names)
  let ?new = "filter (after_since (hm_get since n)) (A n)"
  let ?since = "fold (\<lambda>e. bump_since n (la_at e)) ?new since"
  have q: "archive_query (A n) (hm_get since n) = Some (rev ?new)"
    using Cons.prems(2) by (simp add: archive_query_def sidecar_ready_def)
  have "archive_ok ?new" "list_all (\<lambda>e. after_since (hm_get since n) e) ?new"
    using Cons.prems(2) by (auto simp: archive_ok_def sorted_wrt_map sorted_wrt_filter list_all_iff)
  note get = bump_since_sorted [OF this]
  have rest: "hm_get ?since m = hm_get since m" if "m \<in> set names" for m
    using that Cons.prems(1) by (auto simp: get)
  have "list_all (\<lambda>n. archive_ok (A n) \<and> sidecar_ready (A n) (hm_get ?since n)) names"
    using Cons.prems(2) by (simp add: list_all_iff rest)
  note IH = Cons.IH [OF _ this]
  show ?case using IH Cons.prems(1) rest by (auto simp: q get split_beta Let_def cong: map_cong)
qed simp

text \<open>Further: the sink moves its position when it reads, not when it ships: the lines of a batch that the
  search engine does not take are in no later batch. After a failed round over the archives A and
  a good one over longer archives, only the lines behind A have been shipped.\<close>

theorem sink_loses_failed_batch:
  assumes "distinct names" and "sk_since st = []"
    and "list_all (\<lambda>n. archive_ok (A' n) \<and> prefix (A n) (A' n) \<and> length (A' n) \<le> 1000) names"
    and "batch = concat (map (\<lambda>n. map (doc_of ext) (drop (length (A n)) (A' n))) names)"
  shows "sk_shipped (sink_round ext (\<lambda>n. archive_query (A' n)) names True
      (sink_round ext (\<lambda>n. archive_query (A n)) names False st)) =
    sk_shipped st @ (if batch = [] then [] else [batch])"
proof -
  have ok: "archive_ok (A n)" "archive_ok (A' n)" "prefix (A n) (A' n)" "length (A' n) \<le> 1000" "length (A n) \<le> 1000"
    if "n \<in> set names" for n
    using assms(3) that by (auto simp: list_all_iff archive_ok_def prefix_def sorted_wrt_append)
  have ready: "sidecar_ready (A n) s" "sidecar_ready (A' n) s" if "n \<in> set names" for n s
    using ok(4,5) [OF that] by (auto simp: sidecar_ready_def intro: order.trans [OF length_filter_le])
  define st1 where "st1 = sink_round ext (\<lambda>n. archive_query (A n)) names False st"
  have shipped: "sk_shipped st1 = sk_shipped st"
    by (simp add: st1_def sink_round_def split_beta Let_def)
  have "list_all (\<lambda>n. archive_ok (A n) \<and> sidecar_ready (A n) (hm_get [] n)) names"
    using ok ready by (auto simp: list_all_iff)
  from sink_fetch_archive [OF assms(1) this, of ext]
  have since: "hm_get (sk_since st1) n = sink_seen None (A n)" if "n \<in> set names" for n
    using that by (simp add: st1_def sink_round_def assms(2) split_beta Let_def after_since_def)
  have new: "filter (after_since (hm_get (sk_since st1) n)) (A' n) = drop (length (A n)) (A' n)" if n: "n \<in> set names" for n
  proof (cases "A n = []")
    case True
    then show ?thesis by (simp add: since [OF n] sink_seen_def after_since_def)
  next
    case False
    have "A' n ! (length (A n) - 1) = last (A n)"
      using ok(3) [OF n] False by (auto simp: prefix_def nth_append last_conv_nth)
    then show ?thesis
      using filter_after_strict [of la_at "A' n" "length (A n)"] ok(2,3) [OF n] False
      by (simp add: since [OF n] sink_seen_def after_since_Some archive_ok_def prefix_length_le)
  qed
  have "list_all (\<lambda>n. archive_ok (A' n) \<and> sidecar_ready (A' n) (hm_get (sk_since st1) n)) names"
    using ok ready by (auto simp: list_all_iff)
  from sink_fetch_archive [OF assms(1) this, of ext]
  have "fst (sink_fetch ext (\<lambda>n. archive_query (A' n)) names (sk_since st1)) = batch"
    unfolding assms(4) by (simp add: new cong: map_cong)
  then show ?thesis
    unfolding st1_def [symmetric] sink_round_def [of _ _ _ _ st1]
    by (cases "sink_fetch ext (\<lambda>n. archive_query (A' n)) names (sk_since st1)") (simp add: shipped)
qed

subsection \<open>Witnesses\<close>

definition demo_rows :: "(int \<times> json) list" where
  "demo_rows = [(3, JNull), (1, JNull), (7, JNull)]"

definition demo_entry :: "datetime \<Rightarrow> string \<Rightarrow> log_archive_entry" where
  "demo_entry t l = \<lparr>la_at = t, la_kind = ''Service'', la_name = ''web'', la_node_id = ''n1'', la_stream = ''stdout'', la_line = l\<rparr>"

lemma tap_sent_new: "tap_sent outbox_new = []"
  by (simp add: tap_sent_def outbox_new_def)


theorem tap_drains_witness:
  "tap_sent (snd (snd (tap_loop demo_conn ''t'' ''q'' (replicate 1 (0, Some demo_rows)) 1 outbox_new))) =
     [(3, JNull), (7, JNull)]"
  using tap_drains [of demo_conn demo_rows "''t''" "''q''" 1 0 1 outbox_new]
  by (simp add: demo_conn_def demo_rows_def tap_sent_new del: tap_loop.simps)

theorem sidecar_follows_archive_witness:
  "map snd (ob_sent (snd (snd (sidecar_loop demo_conn (Some (\<lambda>l. l = ''a'')) ''q''
      (map archive_query [[demo_entry 1 ''a''], [demo_entry 1 ''a'', demo_entry 2 ''b'', demo_entry 3 ''a'']]) None outbox_new)))) =
    map (sidecar_event_of demo_conn ''q'') [demo_entry 1 ''a'', demo_entry 3 ''a'']"
proof -
  let ?ws = "[[demo_entry 1 ''a''], [demo_entry 1 ''a'', demo_entry 2 ''b'', demo_entry 3 ''a'']]"
  have "successively archive_grows ([] # ?ws)"
    by (simp add: archive_grows_def archive_ok_def demo_entry_def)
  moreover have "polls_ready sidecar_ready (sidecar_poll demo_conn (Some (\<lambda>l. l = ''a'')) ''q'') ?ws (None, outbox_new)"
    by (simp add: sidecar_ready_def after_since_def)
  ultimately show ?thesis
    using sidecar_follows_archive [of demo_conn ?ws "Some (\<lambda>l. l = ''a'')" "''q''" outbox_new]
    by (simp add: demo_conn_def demo_entry_def line_matches_def outbox_new_def del: sidecar_loop.simps)
qed

theorem watcher_tails_file_witness:
  "map (\<lambda>(_, e). fe_line e) (ob_sent (snd (watch_loop demo_conn ''q'' (map (file_sees ''/log'')
      [\<lparr>fw_now = 0, fw_content = [CHR ''a'', newline, CHR ''b'', newline]\<rparr>]) [] outbox_new))) = [''a'', ''b'']"
proof -
  let ?w = "\<lparr>fw_now = 0, fw_content = [CHR ''a'', newline, CHR ''b'', newline]\<rparr>"
  have "file_grows ?w ?w" by (simp add: file_grows_def file_ok_def whole_lines_def)
  then have "map (\<lambda>(_, e). fe_line e) (ob_sent (snd (watch_loop demo_conn ''q'' (map (file_sees ''/log'') [?w]) [] outbox_new))) =
      map trim_end_newlines (filter (\<lambda>l. str_trim l \<noteq> []) (split_inclusive [CHR ''a'', newline, CHR ''b'', newline]))"
    using watcher_tails_file [of demo_conn ?w "[?w]" 0 "[]" "''/log''" "''q''" outbox_new]
    by (simp add: demo_conn_def cursor_get_def whole_lines_def outbox_new_def del: watch_loop.simps split_inclusive.simps)
  also have "\<dots> = [''a'', ''b'']" by code_simp
  finally show ?thesis .
qed

theorem sink_loses_failed_batch_witness:
  "sk_shipped (sink_round demo_conn (\<lambda>n. archive_query [demo_entry 1 ''a'', demo_entry 2 ''b'']) [''web''] True
      (sink_round demo_conn (\<lambda>n. archive_query [demo_entry 1 ''a'']) [''web''] False \<lparr>sk_since = [], sk_shipped = []\<rparr>)) =
    [[doc_of demo_conn (demo_entry 2 ''b'')]]"
  using sink_loses_failed_batch [of "[''web'']" "\<lparr>sk_since = [], sk_shipped = []\<rparr>"
      "\<lambda>n. [demo_entry 1 ''a'', demo_entry 2 ''b'']" "\<lambda>n. [demo_entry 1 ''a'']" _ demo_conn, OF _ _ _ refl]
  by (simp add: archive_ok_def demo_entry_def)

end
