(* ===== verification/Cli_Commands.thy ===== *)
theory Cli_Commands
  imports Cli_Generate Auth Polling
begin

text \<open>
  The commands of the client (\<^verbatim>\<open>crates/orion-cli/src/cmd\<close>) that talk to the controller and the bus:
  the connection (\<^verbatim>\<open>main.rs\<close>, \<^verbatim>\<open>http.rs\<close>), the commands on one resource (\<^verbatim>\<open>apply.rs\<close>, \<^verbatim>\<open>run.rs\<close>, \<^verbatim>\<open>delete.rs\<close>,
  \<^verbatim>\<open>dispatch.rs\<close>, \<^verbatim>\<open>stop_restart.rs\<close>, \<^verbatim>\<open>shell.rs\<close>), the tables (\<^verbatim>\<open>get.rs\<close>, \<^verbatim>\<open>instances.rs\<close>), publishing to and
  reading from a queue (\<^verbatim>\<open>queue.rs\<close>), following a log (\<^verbatim>\<open>logs.rs\<close>) and snapshots (\<^verbatim>\<open>snapshot.rs\<close>).
  A request is the controller's handler on its state; an answer is read back as the record it was
  written from. Messages with characters outside ASCII are shortened to their ASCII part.
\<close>

subsection \<open>The connection\<close>

datatype cli_error = Cli_Error string | Cli_Panic

definition dirs_token_path :: "environ \<Rightarrow> string" where
  "dirs_token_path env =
     (case env ''HOME'' of Some home \<Rightarrow> path_push home ''.config/orion/cluster.token'' | None \<Rightarrow> ''.orion-cluster-token'')"

text \<open>The flag, or its variable, or the token file.\<close>

definition cli_token :: "string option \<Rightarrow> environ \<Rightarrow> file_system \<Rightarrow> string option" where
  "cli_token flag env fs =
     (case (case flag of Some t \<Rightarrow> Some t | None \<Rightarrow> env ENV_TOKEN) of
        Some t \<Rightarrow> Some t
      | None \<Rightarrow> (case fs (dirs_token_path env) of Inr s \<Rightarrow> Some (str_trim s) | Inl _ \<Rightarrow> None))"

definition trim_end_char :: "char \<Rightarrow> string \<Rightarrow> string" where
  "trim_end_char c s = rev (dropWhile (\<lambda>x. x = c) (rev s))"

definition cli_context :: "string \<Rightarrow> string \<Rightarrow> string option \<Rightarrow> environ \<Rightarrow> file_system \<Rightarrow> cli_ctx" where
  "cli_context controller nats_url flag env fs =
     \<lparr>cc_controller = trim_end_char (CHR ''/'') controller, cc_nats_url = nats_url, cc_token = cli_token flag env fs\<rparr>"

definition http_url :: "cli_ctx \<Rightarrow> string \<Rightarrow> string" where
  "http_url ctx path = cc_controller ctx @ path"

text \<open>The authorization header of every request; which texts a header may hold is an argument.\<close>

definition http_headers :: "(string \<Rightarrow> bool) \<Rightarrow> cli_ctx \<Rightarrow> string + string option" where
  "http_headers header_ok ctx =
     (case cc_token ctx of
        None \<Rightarrow> Inr None
      | Some t \<Rightarrow>
          (if t = [] then Inr None
           else if header_ok (''Bearer '' @ t) then Inr (Some (''Bearer '' @ t)) else Inl ''invalid token characters''))"

subsection \<open>Commands on one resource\<close>

definition api_failed :: "api_error \<Rightarrow> cli_error" where
  "api_failed e = Cli_Error (api_error.ae_message e)"

text \<open>A handler that panics closes the connection: the request fails.\<close>

fun handler_failed :: "handler_error \<Rightarrow> cli_error" where
  "handler_failed (Api e) = api_failed e"
| "handler_failed Panic = Cli_Error ''connection closed''"

text \<open>The file is parsed and validated before it is sent.\<close>

definition read_resource :: "ctl_ext \<Rightarrow> string \<Rightarrow> cli_error + resource" where
  "read_resource ext body =
     (case cx_from_yaml ext body of
        Inl e \<Rightarrow> Inl (Cli_Error ''parsing resource yaml'')
      | Inr r \<Rightarrow> (case validate r of Inl e \<Rightarrow> Inl (Cli_Error ''validating resource'') | Inr _ \<Rightarrow> Inr r))"

definition run_validate :: "ctl_ext \<Rightarrow> string \<Rightarrow> cli_error + string" where
  "run_validate ext body =
     (case read_resource ext body of
        Inl e \<Rightarrow> Inl e
      | Inr r \<Rightarrow> Inr (''ok: kind='' @ kind_str r @ '' name='' @ md_name (rs_metadata r)))"

definition run_apply ::
  "ctl_ext \<Rightarrow> datetime \<Rightarrow> bool \<Rightarrow> string \<Rightarrow> app_state \<Rightarrow> (cli_error + string) \<times> app_state" where
  "run_apply ext now dry_run body st =
     (case read_resource ext body of
        Inl e \<Rightarrow> (Inl e, st)
      | Inr r \<Rightarrow>
          (case apply_resource ext debug_str now (if dry_run then Some ''1'' else None) body st of
             (Inl e, st') \<Rightarrow> (Inl (api_failed e), st')
           | (Inr out, st') \<Rightarrow>
               (Inr (if ao_dry_run out then ''[dry-run] would apply '' @ ao_kind out @ ''/'' @ ao_name out
                     else ''applied '' @ ao_kind out @ ''/'' @ ao_name out @ '' (generation '' @
                       show_nat (unat (ao_generation out)) @ '')''), st')))"

text \<open>Applying a service or a task and dispatching it.\<close>

definition run_run ::
  "ctl_ext \<Rightarrow> datetime \<Rightarrow> string \<Rightarrow> app_state \<Rightarrow> (cli_error + dispatch_outcome) \<times> app_state" where
  "run_run ext now body st =
     (case read_resource ext body of
        Inl e \<Rightarrow> (Inl e, st)
      | Inr r \<Rightarrow>
          (if kind_str r \<noteq> ''Service'' \<and> kind_str r \<noteq> ''Task''
           then (Inl (Cli_Error ''orion run only supports kind=Service|Task''), st)
           else (case apply_resource ext debug_str now None body st of
                   (Inl e, st') \<Rightarrow> (Inl (api_failed e), st')
                 | (Inr _, st') \<Rightarrow>
                     (case dispatch_resource ext now (kind_str r) (md_name (rs_metadata r)) st' of
                        (Inl e, st'') \<Rightarrow> (Inl (handler_failed e), st'')
                      | (Inr out, st'') \<Rightarrow> (Inr out, st'')))))"

definition run_delete :: "string \<Rightarrow> string \<Rightarrow> app_state \<Rightarrow> (cli_error + string) \<times> app_state" where
  "run_delete k name st =
     (let kind = canonical_kind k
      in case http_delete_resource kind name st of
           (Inl e, st') \<Rightarrow> (Inl (api_failed e), st')
         | (Inr out, st') \<Rightarrow>
             (Inr ((if de_deleted out then ''deleted '' else ''no-op (not present) '') @ kind @ ''/'' @ name), st'))"

definition run_dispatch :: "ctl_ext \<Rightarrow> datetime \<Rightarrow> string \<Rightarrow> string \<Rightarrow> app_state \<Rightarrow> (cli_error + dispatch_outcome) \<times> app_state" where
  "run_dispatch ext now k name st =
     (case dispatch_resource ext now (canonical_kind k) name st of
        (Inl e, st') \<Rightarrow> (Inl (handler_failed e), st')
      | (Inr out, st') \<Rightarrow> (Inr out, st'))"

definition run_stop :: "ctl_ext \<Rightarrow> datetime \<Rightarrow> string \<Rightarrow> string \<Rightarrow> app_state \<Rightarrow> (cli_error + string) \<times> app_state" where
  "run_stop ext now k name st =
     (let kind = canonical_kind k
      in case stop_workload ext now kind name st of
           (Inl e, st') \<Rightarrow> (Inl (api_failed e), st')
         | (Inr out, st') \<Rightarrow>
             (Inr (''stopped '' @ kind @ ''/'' @ name @ '' ('' @ show_nat (unat (so_stopped out)) @ '' instance(s))''), st'))"

definition run_restart ::
  "ctl_ext \<Rightarrow> datetime \<Rightarrow> datetime \<Rightarrow> string \<Rightarrow> string \<Rightarrow> app_state \<Rightarrow> (cli_error + string) \<times> app_state" where
  "run_restart ext now later k name st =
     (let kind = canonical_kind k
      in case restart_workload ext now later kind name st of
           (Inl e, st') \<Rightarrow> (Inl (handler_failed e), st')
         | (Inr _, st') \<Rightarrow> (Inr (''restart requested for '' @ kind @ ''/'' @ name), st'))"

text \<open>Executing a command: a task is applied, dispatched, its log read once, and the task deleted.\<close>

record exec_args =
  xa_name :: "string option"
  xa_runtime :: string
  xa_image :: "string option"
  xa_env :: "string list"
  xa_watch :: bool
  xa_keep :: bool
  xa_argv :: "string list"

record exec_clock =
  xc_uuid_text :: string
  xc_now :: datetime
  xc_meanwhile :: "app_state \<Rightarrow> app_state"

text \<open>The clock of an execution: the fresh identifier, the time, and what the mesh does to the
  controller in the two seconds before the log is read. Without a log to read nobody waits.\<close>

definition run_exec ::
  "ctl_ext \<Rightarrow> (json \<Rightarrow> string) \<Rightarrow> exec_clock \<Rightarrow> exec_args \<Rightarrow> app_state \<Rightarrow> (cli_error + log_entry list) \<times> app_state" where
  "run_exec ext to_yaml clk a st =
     (let name = (case xa_name a of Some n \<Rightarrow> n | None \<Rightarrow> ''oexec-'' @ take 8 (xc_uuid_text clk))
      in case exec_doc name (xa_runtime a) (xa_image a) (xa_env a) (xa_argv a) of
           Inl e \<Rightarrow> (Inl (Cli_Error e), st)
         | Inr doc \<Rightarrow>
             (case apply_resource ext debug_str (xc_now clk) None (to_yaml doc) st of
                (Inl e, st1) \<Rightarrow> (Inl (api_failed e), st1)
              | (Inr _, st1) \<Rightarrow>
                  (case dispatch_resource ext (xc_now clk) ''Task'' name st1 of
                     (Inl e, st2) \<Rightarrow> (Inl (handler_failed e), st2)
                   | (Inr _, st2) \<Rightarrow>
                       (let st3 = (if xa_watch a then xc_meanwhile clk st2 else st2);
                            lines = (if xa_watch a then lv_entries (get_logs ''Task'' name None st3) else [])
                        in (Inr lines, if xa_keep a then st3 else snd (http_delete_resource ''Task'' name st3))))))"

subsection \<open>Tables (\<^verbatim>\<open>get.rs\<close>, \<^verbatim>\<open>instances.rs\<close>)\<close>

definition str_at :: "json \<Rightarrow> string list \<Rightarrow> string option" where
  "str_at v path = Option.bind (json_at v path) as_str"

definition node_table_row :: "json \<Rightarrow> string list" where
  "node_table_row n =
     [unwrap_or (str_at n [''node_id'']) ''?'', unwrap_or (str_at n [''inventory'', ''arch'']) ''-'',
      unwrap_or (str_at n [''inventory'', ''os'']) ''-'',
      unwrap_or (map_option (split_first (CHR ''+'')) (str_at n [''last_seen_at''])) ''-'']"

text \<open>The JSON text of a value is an argument.\<close>

definition resource_table_row :: "(json \<Rightarrow> string) \<Rightarrow> json \<Rightarrow> string list" where
  "resource_table_row print r =
     [unwrap_or (str_at r [''kind'']) ''?'', unwrap_or (str_at r [''metadata'', ''name'']) ''?'',
      unwrap_or (map_option (\<lambda>g. unwrap_or (map_option (\<lambda>n. show_nat (unat n)) (as_u64 g)) (print g))
        (json_at r [''metadata'', ''generation''])) ''-'',
      unwrap_or (str_at r [''status'', ''phase'']) ''-'']"

definition instance_table_row :: "(json \<Rightarrow> string) \<Rightarrow> json \<Rightarrow> string list" where
  "instance_table_row print r =
     [unwrap_or (str_at r [''kind'']) ''?'', unwrap_or (str_at r [''name'']) ''?'',
      unwrap_or (map_option print (json_at r [''replica_index''])) ''-'', unwrap_or (str_at r [''node'']) ''?'',
      unwrap_or (map_option (split_first (CHR ''.''))
        (Option.bind (case json_at r [''started_at''] of Some v \<Rightarrow> Some v | None \<Rightarrow> json_at r [''startedAt'']) as_str)) ''?'',
      unwrap_or (map_option (take 8) (str_at r [''instance_id''])) ''?'']"

text \<open>The services that match a selector, each with its labels as JSON text.\<close>

definition find_row :: "(json \<Rightarrow> string) \<Rightarrow> json \<Rightarrow> string list" where
  "find_row print r =
     [unwrap_or (str_at r [''metadata'', ''name'']) ''?'', unwrap_or (map_option print (json_at r [''metadata'', ''labels''])) []]"

definition run_find ::
  "ctl_ext \<Rightarrow> (json \<Rightarrow> string) \<Rightarrow> (resource \<Rightarrow> json) \<Rightarrow> string option \<Rightarrow> string list \<Rightarrow> app_state \<Rightarrow> cli_error + string list list" where
  "run_find ext print to_json file reqs st =
     (case (case file of Some body \<Rightarrow> Inr body
            | None \<Rightarrow> (case build_inline (cx_parse_json ext) reqs [] of Inl e \<Rightarrow> Inl e | Inr out \<Rightarrow> Inr (print (JObject out)))) of
        Inl e \<Rightarrow> Inl (Cli_Error e)
      | Inr body \<Rightarrow>
          (case find_services ext body st of
             Inl e \<Rightarrow> Inl (api_failed e)
           | Inr services \<Rightarrow> Inr (map (\<lambda>r. find_row print (to_json r)) services)))"

definition instances_path :: "string option \<Rightarrow> string option \<Rightarrow> string" where
  "instances_path kind name =
     (case (kind, name) of
        (Some k, Some n) \<Rightarrow> ''/v1/instances/'' @ canonical_kind k @ ''/'' @ n
      | _ \<Rightarrow> ''/v1/instances'')"

subsection \<open>Queues (\<^verbatim>\<open>queue.rs\<close>)\<close>

definition fetch_queue_resource :: "ctl_ext \<Rightarrow> string \<Rightarrow> app_state \<Rightarrow> cli_error + resource option" where
  "fetch_queue_resource ext name st =
     (case http_get_resource ext ''Queue'' name st of
        Inl e \<Rightarrow> (if api_error.ae_status e = NOT_FOUND then Inr None else Inl (api_failed e))
      | Inr r \<Rightarrow> Inr (Some r))"

definition queue_of :: "resource \<Rightarrow> queue_spec option" where
  "queue_of r = (case rs_body r of Body_Queue spec _ \<Rightarrow> Some spec | _ \<Rightarrow> None)"

definition fetch_queue :: "ctl_ext \<Rightarrow> string \<Rightarrow> app_state \<Rightarrow> cli_error + queue_spec option" where
  "fetch_queue ext name st =
     (case fetch_queue_resource ext name st of Inl e \<Rightarrow> Inl e | Inr r \<Rightarrow> Inr (Option.bind r queue_of))"

definition default_queue_yaml :: "string \<Rightarrow> string" where
  "default_queue_yaml name =
     ''apiVersion: orionmesh.dev/v1'' @ [newline] @ ''kind: Queue'' @ [newline] @ ''metadata:'' @ [newline] @
     ''  name: '' @ name @ [newline] @ ''spec:'' @ [newline] @ ''  type: work'' @ [newline]"

text \<open>The queue to publish to; one that is missing is created when that is allowed.\<close>

definition pub_queue :: "ctl_ext \<Rightarrow> datetime \<Rightarrow> string \<Rightarrow> bool \<Rightarrow> app_state \<Rightarrow> (cli_error + queue_spec) \<times> app_state" where
  "pub_queue ext now name allow_missing st =
     (case fetch_queue ext name st of
        Inl e \<Rightarrow> (Inl e, st)
      | Inr (Some q) \<Rightarrow> (Inr q, st)
      | Inr None \<Rightarrow>
          (if \<not> allow_missing then (Inl (Cli_Error (''queue '' @ name @ '' not found'')), st)
           else (case apply_resource ext debug_str now None (default_queue_yaml name) st of
                   (Inl e, st') \<Rightarrow> (Inl (api_failed e), st')
                 | (Inr _, st') \<Rightarrow>
                     (case fetch_queue ext name st' of
                        Inl e \<Rightarrow> (Inl e, st')
                      | Inr None \<Rightarrow> (Inl (Cli_Error ''queue auto-create failed''), st')
                      | Inr (Some q) \<Rightarrow> (Inr q, st')))))"

definition publish_subject :: "string \<Rightarrow> string option \<Rightarrow> json \<Rightarrow> string" where
  "publish_subject subject subject_from row =
     (case subject_from of
        None \<Rightarrow> subject
      | Some field \<Rightarrow>
          (case Option.bind (json_get row field) as_str of Some sfx \<Rightarrow> subject @ ''.'' @ sfx | None \<Rightarrow> subject))"

text \<open>Cutting a text at a byte fails in the middle of a character.\<close>

definition cut_text :: "nat \<Rightarrow> string \<Rightarrow> string option" where
  "cut_text n s =
     (if n < length s \<and> 128 \<le> (of_char (s ! n) :: nat) \<and> (of_char (s ! n) :: nat) < 192 then None else Some (take n s))"

definition bad_line :: "string \<Rightarrow> cli_error" where
  "bad_line l = (case cut_text 80 l of None \<Rightarrow> Cli_Panic | Some t \<Rightarrow> Cli_Error (''invalid json on stdin: '' @ t))"

text \<open>Publishing the lines of the input: a line that is not JSON and a publication that fails end it.
  Whether a publication fails depends on its subject and on how many there were.\<close>

fun pub_lines ::
  "(string \<Rightarrow> json option) \<Rightarrow> (string \<Rightarrow> nat \<Rightarrow> string option) \<Rightarrow> string \<Rightarrow> string option \<Rightarrow> string list \<Rightarrow>
     (string \<times> string) list \<Rightarrow> (cli_error + nat) \<times> (string \<times> string) list" where
  "pub_lines parse fails subject subject_from [] sent = (Inr (length sent), sent)"
| "pub_lines parse fails subject subject_from (l # ls) sent =
     (if blank_line l then pub_lines parse fails subject subject_from ls sent
      else (case parse l of
              None \<Rightarrow> (Inl (bad_line l), sent)
            | Some row \<Rightarrow>
                (let to = publish_subject subject subject_from row
                 in case fails to (length sent) of
                      Some e \<Rightarrow> (Inl (Cli_Error e), sent)
                    | None \<Rightarrow> pub_lines parse fails subject subject_from ls (sent @ [(to, l)]))))"

definition run_pub ::
  "ctl_ext \<Rightarrow> datetime \<Rightarrow> (stream_config \<Rightarrow> string option) \<Rightarrow> (string \<Rightarrow> nat \<Rightarrow> string option) \<Rightarrow> string \<Rightarrow> string option \<Rightarrow>
     bool \<Rightarrow> string list \<Rightarrow> app_state \<Rightarrow> (cli_error + nat) \<times> (string \<times> string) list \<times> app_state" where
  "run_pub ext now ensure fails name subject_from allow_missing input st =
     (case pub_queue ext now name allow_missing st of
        (Inl e, st') \<Rightarrow> (Inl e, [], st')
      | (Inr q, st') \<Rightarrow>
          (let (subject, cfg) = queue_stream_config name q
           in case ensure cfg of
                Some e \<Rightarrow> (Inl (Cli_Error (''ensuring stream for queue '' @ name)), [], st')
              | None \<Rightarrow>
                  (let (res, sent) = pub_lines (cx_parse_json ext) fails subject subject_from input [] in (res, sent, st'))))"

text \<open>The name of the host in the durable name of a topic's reader.\<close>

definition cli_hostname :: "environ \<Rightarrow> string" where
  "cli_hostname env =
     map (\<lambda>c. if is_ascii_alphanumeric c \<or> c = CHR ''-'' \<or> c = CHR ''_'' then c else CHR ''_'')
       (case env ''HOSTNAME'' of Some h \<Rightarrow> h | None \<Rightarrow> unwrap_or (env ''HOST'') ''host'')"

definition sub_durable :: "string \<Rightarrow> queue_type \<Rightarrow> string option \<Rightarrow> string \<Rightarrow> nat \<Rightarrow> string" where
  "sub_durable name t grp host pid =
     (case t of
        Work_Queue \<Rightarrow> unwrap_or grp (name @ ''-workers'')
      | Topic_Queue \<Rightarrow> unwrap_or grp (name @ ''-'' @ host @ ''-'' @ show_nat pid))"

text \<open>What a reader opens: the queue must exist; the durable name and the subject follow from it.\<close>

definition sub_open :: "ctl_ext \<Rightarrow> environ \<Rightarrow> nat \<Rightarrow> string \<Rightarrow> string option \<Rightarrow> app_state \<Rightarrow> cli_error + string \<times> string" where
  "sub_open ext env pid name grp st =
     (case fetch_queue ext name st of
        Inl e \<Rightarrow> Inl e
      | Inr None \<Rightarrow> Inl (Cli_Error (''queue '' @ name @ '' not found''))
      | Inr (Some q) \<Rightarrow>
          Inr (sub_durable name (qs_queue_type q) grp (cli_hostname env) pid, fst (queue_stream_config name q)))"

text \<open>A row of the list of queues; the broker's counts of a stream are an argument.\<close>

definition queue_ls_row :: "(string \<Rightarrow> (nat \<times> nat) option) \<Rightarrow> resource \<Rightarrow> string list option" where
  "queue_ls_row info r =
     (case queue_of r of
        None \<Rightarrow> None
      | Some spec \<Rightarrow>
          (let name = md_name (rs_metadata r); (subject, cfg) = queue_stream_config name spec;
               (msgs, consumers) = (case info (sg_name cfg) of Some (m, c) \<Rightarrow> (show_nat m, show_nat c) | None \<Rightarrow> (''-'', ''-''))
           in Some [name, queue_type_text (qs_queue_type spec), subject, msgs, consumers]))"

definition queue_ls :: "ctl_ext \<Rightarrow> (string \<Rightarrow> (nat \<times> nat) option) \<Rightarrow> app_state \<Rightarrow> cli_error + string" where
  "queue_ls ext info st =
     (case http_list_resources ext ''Queue'' st of
        Inl e \<Rightarrow> Inl (api_failed e)
      | Inr rs \<Rightarrow> Inr (render_table [''name'', ''type'', ''subject'', ''messages'', ''consumers''] (List.map_filter (queue_ls_row info) rs)))"

text \<open>Purging asks for the name unless told not to; the broker's purge is an argument.\<close>

definition run_purge ::
  "ctl_ext \<Rightarrow> (string \<Rightarrow> string + nat) \<Rightarrow> string \<Rightarrow> bool \<Rightarrow> string \<Rightarrow> app_state \<Rightarrow> cli_error + nat" where
  "run_purge ext purge name yes typed st =
     (if \<not> yes \<and> str_trim typed \<noteq> name then Inl (Cli_Error ''confirmation did not match'')
      else (case fetch_queue ext name st of
              Inl e \<Rightarrow> Inl e
            | Inr None \<Rightarrow> Inl (Cli_Error (''queue '' @ name @ '' not found''))
            | Inr (Some q) \<Rightarrow>
                (case purge (sg_name (snd (queue_stream_config name q))) of Inl e \<Rightarrow> Inl (Cli_Error e) | Inr n \<Rightarrow> Inr n)))"

text \<open>What the consumer yields: a message, an error, the end of the stream or a time-out.\<close>

datatype 'm sub_event = Sub_Message 'm | Sub_Error | Sub_End | Sub_Timeout

record 'm sub_state =
  ss_printed :: "'m list"
  ss_acked :: "'m list"
  ss_done :: bool

definition sub_step :: "bool \<Rightarrow> nat \<Rightarrow> bool \<Rightarrow> 'm sub_event \<Rightarrow> 'm sub_state \<Rightarrow> 'm sub_state" where
  "sub_step forever limit no_ack ev st =
     (if ss_done st then st
      else (case ev of
              Sub_Message m \<Rightarrow>
                (let st' = st\<lparr>ss_printed := ss_printed st @ [m], ss_acked := (if no_ack then ss_acked st else ss_acked st @ [m])\<rparr>
                 in st'\<lparr>ss_done := \<not> forever \<and> 0 < limit \<and> limit \<le> length (ss_printed st')\<rparr>)
            | Sub_End \<Rightarrow> st\<lparr>ss_done := True\<rparr>
            | _ \<Rightarrow> st))"

definition run_sub :: "bool \<Rightarrow> nat \<Rightarrow> bool \<Rightarrow> 'm sub_event list \<Rightarrow> 'm sub_state" where
  "run_sub forever limit no_ack evs =
     fold (sub_step forever limit no_ack) evs \<lparr>ss_printed = [], ss_acked = [], ss_done = False\<rparr>"

subsection \<open>Following a log (\<^verbatim>\<open>logs.rs\<close>)\<close>

definition logs_tail :: "nat option \<Rightarrow> 'e list \<Rightarrow> 'e list" where
  "logs_tail n es = (case n of None \<Rightarrow> es | Some k \<Rightarrow> if k < length es then drop (length es - k) es else es)"

definition logs_start :: "string \<Rightarrow> string \<Rightarrow> nat option \<Rightarrow> app_state \<Rightarrow> nat \<times> log_entry list" where
  "logs_start kind name tail st =
     (let v = get_logs kind name None st in (lv_total v, logs_tail tail (lv_entries v)))"

definition logs_poll :: "string \<Rightarrow> string \<Rightarrow> app_state \<Rightarrow> nat \<times> log_entry list \<Rightarrow> nat \<times> log_entry list" where
  "logs_poll kind name st s =
     (let v = get_logs kind name (Some (fst s)) st in (lv_total v, snd s @ lv_entries v))"

text \<open>A round whose request fails changes nothing.\<close>

definition logs_round :: "string \<Rightarrow> string \<Rightarrow> app_state option \<Rightarrow> nat \<times> log_entry list \<Rightarrow> nat \<times> log_entry list" where
  "logs_round kind name answer s = (case answer of None \<Rightarrow> s | Some st \<Rightarrow> logs_poll kind name st s)"

subsection \<open>Snapshots (\<^verbatim>\<open>snapshot.rs\<close>)\<close>

definition snapshot_default_kinds :: string where
  "snapshot_default_kinds =
     ''Service,Task,Schedule,Dataset,Model,Project,Volume,Network,Queue,Runtime,Capability,Policy,Integration,Secret''"

definition snapshot_kinds :: "string \<Rightarrow> string list" where
  "snapshot_kinds arg = map str_trim (split_on (CHR '','') arg)"

text \<open>The values of every kind that can be listed; the JSON form of a resource is an argument.\<close>

definition snapshot_values :: "ctl_ext \<Rightarrow> (resource \<Rightarrow> json) \<Rightarrow> string list \<Rightarrow> app_state \<Rightarrow> json list" where
  "snapshot_values ext to_json kinds st =
     concat (map (\<lambda>kind. case http_list_resources ext kind st of Inl _ \<Rightarrow> [] | Inr rs \<Rightarrow> map to_json rs) kinds)"

definition snapshot_create ::
  "ctl_ext \<Rightarrow> (resource \<Rightarrow> json) \<Rightarrow> (json \<Rightarrow> string + string) \<Rightarrow> string \<Rightarrow> app_state \<Rightarrow> string + string" where
  "snapshot_create ext to_json to_yaml kinds st = emit_multi_doc to_yaml (snapshot_values ext to_json (snapshot_kinds kinds) st)"

definition restore_doc ::
  "ctl_ext \<Rightarrow> datetime \<Rightarrow> string \<Rightarrow> nat \<times> nat \<times> app_state \<Rightarrow> nat \<times> nat \<times> app_state" where
  "restore_doc ext now doc = (\<lambda>(applied, failed, st).
     (case apply_resource ext debug_str now None doc st of
        (Inl _, st') \<Rightarrow> (applied, Suc failed, st')
      | (Inr _, st') \<Rightarrow> (Suc applied, failed, st')))"

definition snapshot_restore ::
  "ctl_ext \<Rightarrow> datetime \<Rightarrow> string \<Rightarrow> app_state \<Rightarrow> nat \<times> nat \<times> app_state" where
  "snapshot_restore ext now body st = fold (restore_doc ext now) (split_multi_doc body) (0, 0, st)"
subsection \<open>Lemmas\<close>

lemma sub_step_done [simp]: "ss_done st \<Longrightarrow> fold (sub_step forever limit no_ack) evs st = st"
  by (induction evs) (auto simp: sub_step_def)

definition messages_of :: "'m sub_event list \<Rightarrow> 'm list" where
  "messages_of evs = List.map_filter (\<lambda>ev. case ev of Sub_Message m \<Rightarrow> Some m | _ \<Rightarrow> None) evs"

lemma messages_of_simps [simp]:
  "messages_of [] = []" "messages_of (Sub_Message m # evs) = m # messages_of evs"
  "messages_of (Sub_Error # evs) = messages_of evs" "messages_of (Sub_End # evs) = messages_of evs"
  "messages_of (Sub_Timeout # evs) = messages_of evs"
  by (simp_all add: messages_of_def map_filter_simps)

text \<open>A reader without an end in sight takes every message up to its limit.\<close>

lemma sub_fold:
  assumes "Sub_End \<notin> set evs" and "\<not> ss_done st" and "limited \<longleftrightarrow> \<not> forever \<and> 0 < limit"
    and "limited \<longrightarrow> length (ss_printed st) < limit" and "ss_acked st = (if no_ack then [] else ss_printed st)"
  shows "let st' = fold (sub_step forever limit no_ack) evs st; all = ss_printed st @ messages_of evs
    in ss_printed st' = (if limited then take limit all else all) \<and>
       ss_acked st' = (if no_ack then [] else ss_printed st') \<and>
       (ss_done st' \<longleftrightarrow> limited \<and> limit \<le> length all)"
  using assms
proof (induction evs arbitrary: st)
  case (Cons ev evs)
  show ?case
  proof (cases ev)
    case (Sub_Message m)
    let ?s = "sub_step forever limit no_ack (Sub_Message m) st"
    have s: "ss_printed ?s = ss_printed st @ [m]" "ss_acked ?s = (if no_ack then [] else ss_printed ?s)"
      "ss_done ?s \<longleftrightarrow> limited \<and> limit \<le> length (ss_printed st) + 1"
      using Cons.prems by (auto simp: sub_step_def Let_def)
    show ?thesis
    proof (cases "ss_done ?s")
      case True
      then show ?thesis using s Cons.prems(4) by (simp add: Sub_Message Let_def take_Cons')
    next
      case False
      show ?thesis using Cons.IH [of ?s] Cons.prems s False by (auto simp: Sub_Message Let_def)
    qed
  qed (use Cons in \<open>auto simp: sub_step_def\<close>)
qed (auto simp: Let_def)

lemma pub_lines_all:
  assumes "list_all (\<lambda>l. blank_line l \<or> parse l \<noteq> None) ls" and "\<forall>to n. fails to n = None"
  shows "pub_lines parse fails subject sf ls sent =
    (let out = sent @ map (\<lambda>l. (publish_subject subject sf (the (parse l)), l)) (filter (\<lambda>l. \<not> blank_line l) ls)
     in (Inr (length out), out))"
  using assms by (induction ls arbitrary: sent) (auto simp: Let_def)

lemma pub_lines_stops:
  assumes "list_all (\<lambda>l. blank_line l \<or> parse l \<noteq> None) ls" and "parse l = Some row" and "\<not> blank_line l"
    and "\<forall>l' n. l' \<in> set ls \<longrightarrow> \<not> blank_line l' \<longrightarrow> fails (publish_subject subject sf (the (parse l'))) n = None"
    and "\<forall>n. fails (publish_subject subject sf row) n = Some (err n)"
  shows "pub_lines parse fails subject sf (ls @ l # rest) sent =
    (let out = sent @ map (\<lambda>l. (publish_subject subject sf (the (parse l)), l)) (filter (\<lambda>l. \<not> blank_line l) ls)
     in (Inl (Cli_Error (err (length out))), out))"
  using assms by (induction ls arbitrary: sent) (auto simp: Let_def)

lemma run_pub_known:
  assumes "fetch_queue ext name st = Inr (Some q)" and "ensure (snd (queue_stream_config name q)) = None"
  shows "run_pub ext now ensure fails name sf missing input st =
    (let (res, sent) = pub_lines (cx_parse_json ext) fails (fst (queue_stream_config name q)) sf input [] in (res, sent, st))"
  using assms by (simp add: run_pub_def pub_queue_def Let_def split_beta)

lemma purge_confirmed:
  "run_purge ext purge name yes typed st = Inr n \<Longrightarrow>
     (yes \<or> str_trim typed = name) \<and>
     (\<exists>q. fetch_queue ext name st = Inr (Some q) \<and> purge (sg_name (snd (queue_stream_config name q))) = Inr n)"
  by (auto simp: run_purge_def split: if_splits sum.splits option.splits)

lemma logs_poll_eq:
  "logs_poll kind name st (c, out) =
     (length (ring_of (as_logs st) (kind, name)),
      out @ drop (min c (length (ring_of (as_logs st) (kind, name)))) (ring_of (as_logs st) (kind, name)))"
  by (simp add: logs_poll_def get_logs_def lb_snapshot_eq Let_def)

lemma logs_start_eq:
  "logs_start kind name None st =
     (length (ring_of (as_logs st) (kind, name)), ring_of (as_logs st) (kind, name))"
  by (simp add: logs_start_def logs_tail_def get_logs_def lb_snapshot_eq Let_def)

lemma logs_rounds:
  "fold (logs_round kind name) answers s = fold (logs_poll kind name) (List.map_filter (\<lambda>a. a) answers) s"
  by (induction answers arbitrary: s) (auto simp: logs_round_def map_filter_simps split: option.split)

subsection \<open>A follower of a log\<close>

text \<open>As long as a ring is not full it only grows at its end, and a follower's position is the number of
  lines it has printed.\<close>

definition ring_grows :: "string \<times> string \<Rightarrow> app_state \<Rightarrow> app_state \<Rightarrow> bool" where
  "ring_grows key st st' \<longleftrightarrow> prefix (ring_of (as_logs st) key) (ring_of (as_logs st') key)"

definition ring_covers :: "string \<times> string \<Rightarrow> app_state \<Rightarrow> nat \<Rightarrow> nat \<Rightarrow> bool" where
  "ring_covers key st c n \<longleftrightarrow> n = c \<and> c \<le> length (ring_of (as_logs st) key)"

interpretation follower: eager_source "\<lambda>st. ring_of (as_logs st) (kind, name)" "ring_grows (kind, name)"
  "ring_covers (kind, name)" "\<lambda>_ _. True" "logs_poll kind name" "\<lambda>out. out" for kind name
proof (unfold_locales, goal_cases)
  case (1 st st')
  then show ?case by (simp add: ring_grows_def)
next
  case (2 st st' c n)
  then show ?case by (auto simp: ring_grows_def ring_covers_def dest: prefix_length_le)
next
  case (3 st c n)
  then show ?case by (simp add: ring_covers_def)
next
  case (4 st c n out)
  then show ?case by (simp add: ring_covers_def logs_poll_eq)
qed

text \<open>The states a follower sees after each batch of lines.\<close>

fun after_batches :: "app_state \<Rightarrow> (string \<times> string \<times> log_entry) list list \<Rightarrow> app_state list" where
  "after_batches st [] = []"
| "after_batches st (b # bs) =
     (let st' = st\<lparr>as_logs := push_all b (as_logs st)\<rparr> in st' # after_batches st' bs)"

lemma lines_of_append [simp]: "lines_of key (a @ b) = lines_of key a @ lines_of key b"
  by (simp add: lines_of_def)

lemma after_batches_grow:
  assumes "length (ring_of (as_logs st) key) + length (lines_of key (concat bs)) \<le> LOG_RING_CAPACITY"
  shows "successively (ring_grows key) (st # after_batches st bs) \<and>
    ring_of (as_logs (last (st # after_batches st bs))) key = ring_of (as_logs st) key @ lines_of key (concat bs)"
  using assms
proof (induction bs arbitrary: st)
  case (Cons b bs)
  let ?st = "st\<lparr>as_logs := push_all b (as_logs st)\<rparr>"
  have "ring_of (as_logs ?st) key = ring_of (as_logs st) key @ lines_of key b"
    using Cons.prems by (simp add: ring_of_push_all last_lines_short)
  then show ?case using Cons.IH [of ?st] Cons.prems by (simp add: ring_grows_def Let_def)
qed (simp add: lines_of_def)

lemma follower_stuck:
  assumes "length (ring_of (as_logs st) (kind, name)) = LOG_RING_CAPACITY"
  shows "fold (logs_poll kind name) (after_batches st bs) (LOG_RING_CAPACITY, out) = (LOG_RING_CAPACITY, out)"
  using assms
proof (induction bs arbitrary: st)
  case (Cons b bs)
  let ?st = "st\<lparr>as_logs := push_all b (as_logs st)\<rparr>"
  have "length (ring_of (as_logs ?st) (kind, name)) = LOG_RING_CAPACITY"
    using Cons.prems by (simp add: ring_of_push_all length_last_lines)
  with Cons.IH [of ?st] show ?case by (simp add: Let_def logs_poll_eq)
qed simp

subsection \<open>Properties\<close>

text \<open>C32: following a log. While the controller's ring has room for every line, a follower prints each
  line of the workload once and in order, however the lines arrive between its polls and however many
  requests fail in between. Once the ring is full it prints nothing more: the position it is given stays
  the length of the ring.\<close>

theorem logs_follow:
  assumes "bs \<noteq> []" and "List.map_filter (\<lambda>a. a) answers = after_batches st bs"
  shows "(length (ring_of (as_logs st) (kind, name)) + length (lines_of (kind, name) (concat bs)) \<le> LOG_RING_CAPACITY \<longrightarrow>
      snd (fold (logs_round kind name) answers (logs_start kind name None st)) =
        ring_of (as_logs st) (kind, name) @ lines_of (kind, name) (concat bs)) \<and>
    (length (ring_of (as_logs st) (kind, name)) = LOG_RING_CAPACITY \<longrightarrow>
      snd (fold (logs_round kind name) answers (logs_start kind name None st)) = ring_of (as_logs st) (kind, name))"
  unfolding logs_rounds assms(2)
proof (intro conjI impI)
  assume room: "length (ring_of (as_logs st) (kind, name)) + length (lines_of (kind, name) (concat bs)) \<le> LOG_RING_CAPACITY"
  have ne: "after_batches st bs \<noteq> []" using assms(1) by (cases bs) (auto simp: Let_def)
  have cov: "ring_covers (kind, name) st (length (ring_of (as_logs st) (kind, name))) (length (ring_of (as_logs st) (kind, name)))"
    by (simp add: ring_covers_def)
  show "snd (fold (logs_poll kind name) (after_batches st bs) (logs_start kind name None st)) =
      ring_of (as_logs st) (kind, name) @ lines_of (kind, name) (concat bs)"
    using follower.sends_all [OF conjunct1 [OF after_batches_grow [OF room]] ne cov polls_ready_True]
      conjunct2 [OF after_batches_grow [OF room]] ne
    by (simp add: logs_start_eq)
qed (simp add: logs_start_eq follower_stuck)

text \<open>Further: reading a queue with a limit: as long as the consumer does not end, the reader prints the first
  messages up to its limit, in order, acknowledges exactly those unless told not to, and is finished
  exactly when it has seen that many; errors and time-outs in between change nothing. Without a limit,
  or for ever, it prints them all.\<close>

theorem sub_takes_first:
  assumes "Sub_End \<notin> set evs"
  shows "let st = run_sub forever limit no_ack evs; limited = (\<not> forever \<and> 0 < limit)
    in ss_printed st = (if limited then take limit (messages_of evs) else messages_of evs) \<and>
       ss_acked st = (if no_ack then [] else ss_printed st) \<and>
       (ss_done st \<longleftrightarrow> limited \<and> limit \<le> length (messages_of evs))"
  using sub_fold [OF assms, of "\<lparr>ss_printed = [], ss_acked = [], ss_done = False\<rparr>" "\<not> forever \<and> 0 < limit" forever limit no_ack]
  by (simp add: run_sub_def Let_def)

text \<open>Further: publishing to a queue that exists. When every line that is not blank is JSON and every
  publication works, each such line is published once, in order, to the queue's subject, and the count
  is theirs. With \<^verbatim>\<open>--subject-from\<close> a row whose field is a text goes to a subject below the queue's, which
  the stream of the queue does not list: on a broker that refuses such subjects the command stops there,
  and the rows after it are lost.\<close>

theorem pub_to_queue:
  assumes "fetch_queue ext name st = Inr (Some q)" and "ensure (snd (queue_stream_config name q)) = None"
    and "list_all (\<lambda>l. blank_line l \<or> cx_parse_json ext l \<noteq> None) ls"
  shows "((\<forall>to n. fails to n = None) \<longrightarrow>
      run_pub ext now ensure fails name None missing ls st =
        (let out = map (Pair (fst (queue_stream_config name q))) (filter (\<lambda>l. \<not> blank_line l) ls) in (Inr (length out), out, st))) \<and>
    ((\<forall>to n. fails to n = (if to \<in> set (sg_subjects (snd (queue_stream_config name q))) then None else Some e)) \<and>
     \<not> blank_line l \<and> cx_parse_json ext l = Some row \<and> Option.bind (json_get row field) as_str = Some sfx \<and>
     (\<forall>l'. l' \<in> set ls \<and> \<not> blank_line l' \<longrightarrow> Option.bind (json_get (the (cx_parse_json ext l')) field) as_str = None) \<longrightarrow>
      run_pub ext now ensure fails name (Some field) missing (ls @ l # rest) st =
        (Inl (Cli_Error e), map (Pair (fst (queue_stream_config name q))) (filter (\<lambda>l. \<not> blank_line l) ls), st))"
proof (intro conjI impI)
  assume "\<forall>to n. fails to n = None"
  then show "run_pub ext now ensure fails name None missing ls st =
      (let out = map (Pair (fst (queue_stream_config name q))) (filter (\<lambda>l. \<not> blank_line l) ls) in (Inr (length out), out, st))"
    using pub_lines_all [OF assms(3)] by (simp add: run_pub_known [OF assms(1), of ensure, OF assms(2)] Let_def publish_subject_def)
next
  let ?s = "fst (queue_stream_config name q)"
  assume broker: "(\<forall>to n. fails to n = (if to \<in> set (sg_subjects (snd (queue_stream_config name q))) then None else Some e)) \<and>
     \<not> blank_line l \<and> cx_parse_json ext l = Some row \<and> Option.bind (json_get row field) as_str = Some sfx \<and>
     (\<forall>l'. l' \<in> set ls \<and> \<not> blank_line l' \<longrightarrow> Option.bind (json_get (the (cx_parse_json ext l')) field) as_str = None)"
  have subj: "sg_subjects (snd (queue_stream_config name q)) = [?s]" by (simp add: queue_stream_config_def Let_def)
  have plain: "publish_subject ?s (Some field) (the (cx_parse_json ext l')) = ?s" if "l' \<in> set ls" "\<not> blank_line l'" for l'
    using broker that by (simp add: publish_subject_def)
  have lost: "publish_subject ?s (Some field) row = ?s @ ''.'' @ sfx" using broker by (simp add: publish_subject_def)
  have "map (\<lambda>l. (publish_subject ?s (Some field) (the (cx_parse_json ext l)), l)) (filter (\<lambda>l. \<not> blank_line l) ls) =
      map (Pair ?s) (filter (\<lambda>l. \<not> blank_line l) ls)" using plain by simp
  then show "run_pub ext now ensure fails name (Some field) missing (ls @ l # rest) st =
      (Inl (Cli_Error e), map (Pair ?s) (filter (\<lambda>l. \<not> blank_line l) ls), st)"
    using pub_lines_stops [OF assms(3), of l row fails ?s "Some field" "\<lambda>_. e" rest "[]"] broker plain
    by (simp add: run_pub_known [OF assms(1), of ensure, OF assms(2)] Let_def subj lost)
qed

text \<open>A valid resource that can be stored is applied, and is what the store holds then.\<close>

lemma apply_valid:
  assumes "cx_from_yaml ext body = Inr r" and "validate r = Inr ()" and "storable (cx_store ext) r" and "db_ready (as_store st)"
  obtains out where "apply_resource ext dbg now None body st =
    (Inr out, st\<lparr>as_store := snd (upsert_resource (cx_store ext) now r (as_store st))\<rparr>)"
proof -
  obtain b where b: "ex_encode_resource (cx_store ext) r = Inr b" using assms(3) by (auto simp: storable_def split: sum.splits)
  obtain rows where rows: "query db_resource (as_store st) = Inr rows" using db_ready_query [OF assms(4)] by blast
  obtain g d where g: "upsert_resource (cx_store ext) now r (as_store st) = (Inr g, d)"
    using b rows by (simp add: upsert_resource_def upsert_read_def upsert_write_def)
  show ?thesis
    using that assms(1,2) by (simp add: apply_resource_def Let_def g is_dry_run_def)
qed

definition restorable :: "ctl_ext \<Rightarrow> string \<Rightarrow> resource \<Rightarrow> bool" where
  "restorable ext doc r \<longleftrightarrow> cx_from_yaml ext doc = Inr r \<and> validate r = Inr () \<and> storable (cx_store ext) r"

lemma restore_docs:
  assumes "list_all2 (restorable ext) docs rs" and "db_ready (as_store st)"
  shows "fold (restore_doc ext now) docs (n, m, st) =
    (n + length rs, m, st\<lparr>as_store := fold (\<lambda>r d. snd (upsert_resource (cx_store ext) now r d)) rs (as_store st)\<rparr>)"
  using assms
proof (induction docs rs arbitrary: n st rule: list_all2_induct)
  case (Cons doc docs r rs)
  let ?st = "st\<lparr>as_store := snd (upsert_resource (cx_store ext) now r (as_store st))\<rparr>"
  from Cons.hyps(1) have r: "cx_from_yaml ext doc = Inr r" "validate r = Inr ()" "storable (cx_store ext) r"
    by (auto simp: restorable_def)
  obtain out where "apply_resource ext debug_str now None doc st = (Inr out, ?st)"
    using apply_valid [OF r Cons.prems, of debug_str now] by blast
  moreover have "db_ready (as_store ?st)" using rst.ready_save [OF Cons.prems] by simp
  ultimately show ?case using Cons.IH [of ?st "Suc n"] by (simp add: restore_doc_def)
qed simp

definition no_status :: "resource \<Rightarrow> resource" where
  "no_status r = r\<lparr>rs_body := (case rs_body r of
     Body_Node s _ \<Rightarrow> Body_Node s None | Body_Service s _ \<Rightarrow> Body_Service s None | Body_Task s _ \<Rightarrow> Body_Task s None
   | Body_Job s _ \<Rightarrow> Body_Job s None | Body_Schedule s _ \<Rightarrow> Body_Schedule s None | Body_Dataset s _ \<Rightarrow> Body_Dataset s None
   | Body_Model s _ \<Rightarrow> Body_Model s None | Body_Project s _ \<Rightarrow> Body_Project s None | Body_Secret s _ \<Rightarrow> Body_Secret s None
   | Body_Volume s _ \<Rightarrow> Body_Volume s None | Body_Network s _ \<Rightarrow> Body_Network s None | Body_Queue s _ \<Rightarrow> Body_Queue s None
   | Body_Workflow s _ \<Rightarrow> Body_Workflow s None | Body_Runtime s _ \<Rightarrow> Body_Runtime s None
   | Body_Capability s _ \<Rightarrow> Body_Capability s None | Body_Policy s _ \<Rightarrow> Body_Policy s None
   | Body_Integration s _ \<Rightarrow> Body_Integration s None)\<rparr>"

lemma no_status_facts [simp]:
  "resource_key_of (no_status r) = resource_key_of r" "validate (no_status r) = validate r" "kind_str (no_status r) = kind_str r"
  by (cases "rs_body r"; simp add: no_status_def resource_key_of_def validate_def kind_str_def)+

text \<open>What the encoder and the decoder must do for a resource of a snapshot: its document without the
  status is plain, and is read, with or without the mark that opens a stream, as the resource without its
  status, which is valid and can be stored.\<close>

definition snapshot_codec :: "ctl_ext \<Rightarrow> (resource \<Rightarrow> json) \<Rightarrow> (json \<Rightarrow> string + string) \<Rightarrow> resource \<Rightarrow> string \<Rightarrow> bool" where
  "snapshot_codec ext to_json to_yaml r t \<longleftrightarrow>
     to_yaml (case to_json r of JObject obj \<Rightarrow> JObject (bt_remove ''status'' obj) | v \<Rightarrow> v) = Inr (t @ [newline]) \<and>
     plain_doc t \<and> restorable ext t (no_status r) \<and> restorable ext (doc_mark @ t) (no_status r)"

definition snapshot_resources :: "ctl_ext \<Rightarrow> string list \<Rightarrow> app_state \<Rightarrow> resource list" where
  "snapshot_resources ext kinds st =
     concat (map (\<lambda>kind. case http_list_resources ext kind st of Inl _ \<Rightarrow> [] | Inr rs \<Rightarrow> rs) kinds)"

lemma snapshot_values_eq: "snapshot_values ext to_json kinds st = map to_json (snapshot_resources ext kinds st)"
  by (induction kinds) (auto simp: snapshot_values_def snapshot_resources_def split: sum.split)

lemma snapshot_restorable:
  assumes "list_all2 (snapshot_codec ext to_json to_yaml) rs ts"
  shows "list_all2 (restorable ext) (case ts of [] \<Rightarrow> [] | t # ts' \<Rightarrow> (doc_mark @ t) # ts') (map no_status rs)"
proof -
  have "list_all2 (restorable ext) ts (map no_status rs)"
    using assms by (induction rule: list_all2_induct) (simp_all add: snapshot_codec_def)
  then show ?thesis using assms by (cases ts; cases rs) (auto simp: snapshot_codec_def)
qed

lemma find_distinct:
  "distinct (map f xs) \<Longrightarrow> x \<in> set xs \<Longrightarrow> find (\<lambda>y. f y = f x) xs = Some x"
  by (induction xs) (auto dest: image_eqI)

text \<open>C30: a snapshot of one mesh restored in another. When the documents are plain and the decoder reads
  them back, every document is applied, none fails, and the store of the other mesh returns for the key
  of each resource of the snapshot that resource without its status, and for every other key what it
  returned before.\<close>

theorem snapshot_restores:
  assumes "list_all2 (snapshot_codec ext to_json to_yaml) (snapshot_resources ext (snapshot_kinds kinds) st) ts"
    and "distinct (map resource_key_of (snapshot_resources ext (snapshot_kinds kinds) st))" and "db_ready (as_store other)"
  shows "\<exists>body other'. snapshot_create ext to_json to_yaml kinds st = Inr body \<and>
    snapshot_restore ext now body other = (length (snapshot_resources ext (snapshot_kinds kinds) st), 0, other') \<and>
    (\<forall>key. get_resource (cx_store ext) (as_store other') key =
      (case find (\<lambda>r. resource_key_of r = key) (snapshot_resources ext (snapshot_kinds kinds) st) of
         Some r \<Rightarrow> Inr (Some (no_status r))
       | None \<Rightarrow> get_resource (cx_store ext) (as_store other) key))"
proof -
  let ?rs = "snapshot_resources ext (snapshot_kinds kinds) st"
  have yaml: "list_all2 (\<lambda>v t. to_yaml (case v of JObject obj \<Rightarrow> JObject (bt_remove ''status'' obj) | v \<Rightarrow> v) = Inr (t @ [newline]))
      (map to_json ?rs) ts"
    using assms(1) by (simp add: list_all2_conv_all_nth snapshot_codec_def)
  have plain: "list_all plain_doc ts"
    using assms(1) by (auto simp: list_all2_conv_all_nth list_all_length snapshot_codec_def)
  obtain body where body: "snapshot_create ext to_json to_yaml kinds st = Inr body"
      "split_multi_doc body = (case ts of [] \<Rightarrow> [] | t # ts' \<Rightarrow> (doc_mark @ t) # ts')"
    using split_emitted [OF yaml plain] by (auto simp: snapshot_create_def snapshot_values_eq)
  note docs = restore_docs [OF snapshot_restorable [OF assms(1)] assms(3), of now 0 0]
  have "list_all (storable (cx_store ext)) (map no_status ?rs)"
    using snapshot_restorable [OF assms(1)] by (auto simp: list_all2_conv_all_nth list_all_length restorable_def)
  note got = rst.fetch_saves [OF assms(3) this, of now]
  have last: "find (\<lambda>r. resource_key_of r = key) (rev (map no_status ?rs)) =
      map_option no_status (find (\<lambda>r. resource_key_of r = key) ?rs)" for key
  proof (cases "find (\<lambda>r. resource_key_of r = key) ?rs")
    case None
    then have "find (\<lambda>r. resource_key_of r = key) (rev (map no_status ?rs)) = None" unfolding find_None_iff by auto
    with None show ?thesis by simp
  next
    case (Some r)
    then have r: "r \<in> set ?rs" "resource_key_of r = key" by (auto simp: find_Some_iff)
    have "distinct (map resource_key_of (rev (map no_status ?rs)))"
      using assms(2) by (simp add: rev_map [symmetric] comp_def)
    from find_distinct [OF this, of "no_status r"] r Some show ?thesis by simp
  qed
  show ?thesis
    using body docs got by (auto simp: snapshot_restore_def last split: option.split)
qed

lemma cli_token_header:
  "cc_token (cli_context c n flag env fs) = cli_token flag env fs"
  by (simp add: cli_context_def)

lemma bearer_needed: "require_bearer (Enforce t) h = Next \<longleftrightarrow> h = Some (''Bearer '' @ t)"
proof (cases h)
  case (Some g)
  have "strip_prefix ''Bearer '' g = None \<Longrightarrow> g \<noteq> ''Bearer '' @ t" by (metis option.distinct(1) strip_prefix_iff)
  then show ?thesis
    by (auto simp: Some require_bearer_def auth_is_disabled_def auth_token_def constant_time_eq_iff as_bytes_inject
        strip_prefix_iff split: option.split)
qed (simp add: require_bearer_def auth_is_disabled_def auth_token_def)

text \<open>C31: the client and the controller of one machine. Where both take the token from the same
  environment and files, the token file is not moved by its variable, there is a home directory, and the
  variable of the token, when it is set, has no blanks around it and is not empty, the controller accepts
  the header the client sends. The hypotheses are needed: the client reads neither the variable of the
  token file nor the controller's file for machines without a home, and does not trim.\<close>

theorem cli_token_accepted:
  assumes "auth_from_env env fs = Inr mode" and "env ''ORION_TOKEN_FILE'' = None" and "env ''HOME'' \<noteq> None"
    and "case env ENV_TOKEN of None \<Rightarrow> True | Some v \<Rightarrow> str_trim v = v \<and> v \<noteq> []"
    and "\<forall>t. mode = Enforce t \<longrightarrow> header_ok (''Bearer '' @ t)"
  shows "mode = Disabled \<or>
    (\<exists>h. http_headers header_ok (cli_context controller nats None env fs) = Inr h \<and> require_bearer mode h = Next)"
proof (cases mode)
  case (Enforce t)
  from assms(3) obtain home where home: "env ''HOME'' = Some home" by auto
  have "cli_token None env fs = Some t" "t \<noteq> []"
    using assms(1,2,4) home Enforce
    by (auto simp: auth_from_env_def token_from_file_def token_path_def cli_token_def dirs_token_path_def Let_def
        split: if_splits option.splits sum.splits io_error.splits)
  then show ?thesis
    using assms(5) Enforce by (simp add: http_headers_def cli_token_header bearer_needed)
qed simp

text \<open>Further: with the token file moved by its variable the controller enforces the token of that file, and
  refuses a client that found none, or another one, in the home directory.\<close>

theorem cli_ignores_token_file:
  assumes "\<not> env_is_disabled env" and "env ENV_TOKEN = None" and "env ''ORION_TOKEN_FILE'' = Some p"
    and "fs p = Inr s" and "str_trim s \<noteq> []" and "cli_token None env fs \<noteq> Some (str_trim s)"
  shows "auth_from_env env fs = Inr (Enforce (str_trim s)) \<and>
    (case http_headers header_ok (cli_context controller nats None env fs) of
       Inl _ \<Rightarrow> True | Inr h \<Rightarrow> require_bearer (Enforce (str_trim s)) h \<noteq> Next)"
proof -
  have "auth_from_env env fs = Inr (Enforce (str_trim s))"
    using assms(1-5) by (simp add: auth_from_env_def token_from_file_def token_path_def)
  then show ?thesis
    using assms(6) by (auto simp: http_headers_def cli_token_header bearer_needed split: option.split)
qed

text \<open>Further: purging a queue drops its stream and no other, and only with the flag or the name typed.\<close>

theorem purge_needs_confirmation:
  "case run_purge ext purge name yes typed st of
     Inl _ \<Rightarrow> True
   | Inr n \<Rightarrow> (yes \<or> str_trim typed = name) \<and>
       (\<exists>q. fetch_queue ext name st = Inr (Some q) \<and> purge (sg_name (snd (queue_stream_config name q))) = Inr n)"
  using purge_confirmed by (auto split: sum.split)

text \<open>Further: deleting a resource that is not there is an error: the message for a deletion without
  effect is never printed.\<close>

theorem delete_never_noop:
  "case run_delete k name st of
     (Inl _, _) \<Rightarrow> True
   | (Inr line, _) \<Rightarrow> line = ''deleted '' @ canonical_kind k @ ''/'' @ name"
  by (auto simp: run_delete_def http_delete_resource_def Let_def split: sum.splits prod.splits if_splits)

text \<open>Further: a kind without a name does not filter the list of instances.\<close>

theorem instances_kind_ignored:
  "instances_path (Some k) None = instances_path None None \<and>
   instances_path (Some k) (Some n) = ''/v1/instances/'' @ canonical_kind k @ ''/'' @ n"
  by (simp add: instances_path_def)

text \<open>Further: the default kinds of a snapshot are the kinds of the controller without nodes, jobs and
  workflows: a snapshot of every resource leaves the workflows out.\<close>

theorem snapshot_omits_workflows:
  "set (snapshot_kinds snapshot_default_kinds) = set list_kinds - {''Node'', ''Job'', ''Workflow''}"
  by code_simp

lemma dispatch_workload_store [simp]: "as_store (snd (dispatch_workload ext now wk name rt g reps st)) = as_store st"
  by (simp add: dispatch_workload_def)

lemma dispatch_resource_store [simp]: "as_store (snd (dispatch_resource ext now kind name st)) = as_store st"
  by (simp add: dispatch_resource_def Let_def split_beta split: sum.split option.split)


subsection \<open>Witnesses\<close>

definition demo_line :: log_entry where
  "demo_line = \<lparr>le_at = 1, le_node_id = ''mini'', le_stream = ''stdout'', le_line = ''hello''\<rparr>"

theorem logs_follow_witness:
  "snd (fold (logs_round ''Task'' ''backup'') (None # map Some (after_batches demo_state [[(''Task'', ''backup'', demo_line)], []]))
     (logs_start ''Task'' ''backup'' None demo_state)) = [demo_line]"
proof -
  have "ring_of (as_logs demo_state) (''Task'', ''backup'') = []"
    by (simp add: ring_of_def demo_state_def app_state_new_def hm_get_def)
  moreover have "List.map_filter (\<lambda>a. a) (None # map Some ws) = ws" for ws :: "app_state list"
    by (induction ws) (simp_all add: map_filter_simps)
  ultimately show ?thesis
    using logs_follow [of "[[(''Task'', ''backup'', demo_line)], []]" "None # map Some (after_batches demo_state [[(''Task'', ''backup'', demo_line)], []])"
        demo_state "''Task''" "''backup''"]
    by (simp add: lines_of_def LOG_RING_CAPACITY_def)
qed

theorem sub_takes_first_witness:
  "ss_acked (run_sub False 2 False [Sub_Message ''a'', Sub_Error, Sub_Message ''b'', Sub_Message ''c'']) = [''a'', ''b'']"
  using sub_takes_first [of "[Sub_Message ''a'', Sub_Error, Sub_Message ''b'', Sub_Message ''c'']" False 2 False]
  by (simp add: Let_def)

text \<open>A controller that knows one queue, and rows that are JSON objects with a field.\<close>

definition demo_queue :: resource where
  "demo_queue = demo_task\<lparr>rs_metadata := (rs_metadata demo_task)\<lparr>md_name := ''jobs''\<rparr>, rs_body := Body_Queue default_queue_spec None\<rparr>"

definition queue_ctl :: ctl_ext where
  "queue_ctl = demo_ctl\<lparr>cx_store := demo_ext\<lparr>ex_encode_resource := (\<lambda>_. Inr ''q''), ex_decode_resource := (\<lambda>s. if s = ''q'' then Inr demo_queue else Inl ''unknown'')\<rparr>,
     cx_from_yaml := (\<lambda>s. Inr demo_queue),
     cx_parse_json := (\<lambda>l. if l = ''row'' then Some (JObject [(''host'', JString ''a'')]) else Some JNull)\<rparr>"

definition queue_state :: app_state where
  "queue_state = demo_state\<lparr>as_store := demo_mesh\<lparr>db_resource := Some [((''Queue'', ''_'', ''jobs''),
     \<lparr>row_generation = 1, row_body = ''q'', row_updated_at = []\<rparr>)]\<rparr>\<rparr>"

lemma queue_demo_fetch: "fetch_queue queue_ctl ''jobs'' queue_state = Inr (Some default_queue_spec)"
  by (simp add: fetch_queue_def fetch_queue_resource_def http_get_resource_def lookup_resource_def get_resource_def
      query_def queue_state_def queue_ctl_def demo_mesh_def hm_get_def queue_of_def demo_queue_def)

lemma queue_demo_ready: "db_ready (as_store queue_state)" "storable (cx_store queue_ctl) demo_queue"
  "validate demo_queue = Inr ()" "resource_key_of demo_queue = (''Queue'', ''_'', ''jobs'')" "no_status demo_queue = demo_queue"
  by (simp_all add: queue_state_def demo_mesh_def db_ready_def hm_wf_def storable_def queue_ctl_def demo_queue_def
      demo_task_def validate_def validate_queue_name_def queue_name_char_def is_ascii_alphanumeric_def is_ascii_lower_def
      is_ascii_upper_def is_ascii_digit_def resource_key_of_def kind_str_def no_status_def)

theorem pub_to_queue_witness:
  "run_pub queue_ctl 0 (\<lambda>_. None) (\<lambda>to n. if to = ''orion.queue.jobs'' then None else Some ''no responders'') ''jobs''
     (Some ''host'') False [''null'', '' '', ''row'', ''null''] queue_state =
   (Inl (Cli_Error ''no responders''), [(''orion.queue.jobs'', ''null'')], queue_state)"
proof -
  have cfg: "fst (queue_stream_config ''jobs'' default_queue_spec) = ''orion.queue.jobs''"
    "sg_subjects (snd (queue_stream_config ''jobs'' default_queue_spec)) = [''orion.queue.jobs'']"
    by (simp_all add: queue_stream_config_def default_queue_spec_def default_queue_subject_def Let_def)
  have blank: "blank_line '' ''" "\<not> blank_line ''null''" "\<not> blank_line ''row''" by code_simp+
  show ?thesis
    using pub_to_queue [where ext = queue_ctl and name = "''jobs''" and st = queue_state and q = default_queue_spec
        and ensure = "\<lambda>_. None" and ls = "[''null'', '' '']" and l = "''row''" and rest = "[''null'']" and field = "''host''"
        and fails = "\<lambda>to n. if to = ''orion.queue.jobs'' then None else Some ''no responders''" and now = 0 and missing = False
        and e = "''no responders''" and row = "JObject [(''host'', JString ''a'')]" and sfx = "''a''"]
      queue_demo_fetch blank
    by (simp add: cfg) (simp add: queue_ctl_def json_get_def bt_get_def as_str_def)
qed

theorem snapshot_restores_witness:
  "\<exists>body other'. snapshot_create queue_ctl (\<lambda>_. JObject []) (\<lambda>_. Inr (''kind: Queue'' @ [newline])) ''Queue, Node'' queue_state = Inr body \<and>
     snapshot_restore queue_ctl 5 body demo_state = (1, 0, other') \<and>
     get_resource (cx_store queue_ctl) (as_store other') (''Queue'', ''_'', ''jobs'') = Inr (Some demo_queue)"
proof -
  have kinds: "snapshot_kinds ''Queue, Node'' = [''Queue'', ''Node'']" by code_simp
  have rs: "snapshot_resources queue_ctl (snapshot_kinds ''Queue, Node'') queue_state = [demo_queue]"
    unfolding kinds by (simp add: snapshot_resources_def http_list_resources_def list_by_kind_def query_def queue_state_def
        demo_mesh_def queue_ctl_def)
  have "plain_doc ''kind: Queue''" by code_simp
  then have "list_all2 (snapshot_codec queue_ctl (\<lambda>_. JObject []) (\<lambda>_. Inr (''kind: Queue'' @ [newline]))) [demo_queue] [''kind: Queue'']"
    using queue_demo_ready by (simp add: snapshot_codec_def restorable_def) (simp add: queue_ctl_def)
  from snapshot_restores [of queue_ctl "\<lambda>_. JObject []" _ "''Queue, Node''" queue_state, unfolded rs, OF this, of demo_state 5]
  show ?thesis
    using queue_demo_ready by (fastforce simp: demo_state_def app_state_new_def demo_mesh_def db_ready_def hm_wf_def)
qed

definition home_env :: environ where
  "home_env = (\<lambda>k. if k = ''HOME'' then Some ''/home/u'' else None)"

theorem cli_token_accepted_witness:
  "\<exists>h. http_headers (\<lambda>_. True) (cli_context ''http://c/'' ''nats'' None home_env (\<lambda>_. Inr '' secret '')) = Inr h \<and>
     require_bearer (Enforce ''secret'') h = Next"
proof -
  have "auth_from_env home_env (\<lambda>_. Inr '' secret '') = Inr (Enforce ''secret'')" by code_simp
  from cli_token_accepted [OF this] show ?thesis by (simp add: home_env_def ENV_TOKEN_def)
qed


end
