(* ===== verification/Cli_Stack.thy ===== *)
theory Cli_Stack
  imports Cli_Commands "HOL-Library.Log_Nat"
begin

text \<open>
  The commands of the client for a developer's machine (\<^verbatim>\<open>crates/orion-cli/src/cmd\<close>): the health report
  (\<^verbatim>\<open>doctor.rs\<close>), the local stack (\<^verbatim>\<open>up.rs\<close>), the benchmark (\<^verbatim>\<open>bench.rs\<close>), the dashboard (\<^verbatim>\<open>tui.rs\<close>) and the
  scaffold of a processor (\<^verbatim>\<open>init.rs\<close>). What the machine does, the programs on its path, the processes that
  start, the answers of its servers, is an argument of each.
\<close>

subsection \<open>Health report (\<^verbatim>\<open>doctor.rs\<close>)\<close>

datatype report_mark = Mark_Pass | Mark_Warn | Mark_Fail | Mark_Note

record report =
  rp_out :: "(report_mark \<times> string \<times> string) list"
  rp_ok :: nat
  rp_warn :: nat
  rp_fail :: nat

definition report_default :: report where
  "report_default = \<lparr>rp_out = [], rp_ok = 0, rp_warn = 0, rp_fail = 0\<rparr>"

definition fmt_detail :: "string \<Rightarrow> string" where
  "fmt_detail s = (if s = [] then [] else ''  ('' @ s @ '')'')"

definition report_ok :: "string \<Rightarrow> string \<Rightarrow> string \<Rightarrow> report \<Rightarrow> report" where
  "report_ok area msg detail r = r\<lparr>rp_ok := Suc (rp_ok r), rp_out := rp_out r @ [(Mark_Pass, area, msg @ fmt_detail detail)]\<rparr>"

definition report_warn :: "string \<Rightarrow> string \<Rightarrow> string \<Rightarrow> report \<Rightarrow> report" where
  "report_warn area msg detail r = r\<lparr>rp_warn := Suc (rp_warn r), rp_out := rp_out r @ [(Mark_Warn, area, msg @ fmt_detail detail)]\<rparr>"

definition report_fail :: "string \<Rightarrow> string \<Rightarrow> string \<Rightarrow> report \<Rightarrow> report" where
  "report_fail area msg detail r = r\<lparr>rp_fail := Suc (rp_fail r), rp_out := rp_out r @ [(Mark_Fail, area, msg @ fmt_detail detail)]\<rparr>"

definition report_note :: "string \<Rightarrow> report \<Rightarrow> report" where
  "report_note msg r = r\<lparr>rp_out := rp_out r @ [(Mark_Note, [], msg)]\<rparr>"

text \<open>What the probes find: the health page, nothing when it times out; the nodes; the broker with its
  name and version, and its streams one by one, nothing when they time out; the diagnostics.\<close>

record probes =
  pb_health :: "(string + string) option"
  pb_nodes :: "string + json"
  pb_broker :: "string + string \<times> string"
  pb_streams :: "(string + string) list option"
  pb_diag :: "string + json"

definition check_controller :: "cli_ctx \<Rightarrow> probes \<Rightarrow> report \<Rightarrow> report" where
  "check_controller ctx p r =
     (case pb_health p of
        Some (Inr _) \<Rightarrow> report_ok ''controller'' ''/health -> ok'' (cc_controller ctx) r
      | Some (Inl e) \<Rightarrow> report_fail ''controller'' (''/health -> '' @ e) (cc_controller ctx) r
      | None \<Rightarrow> report_fail ''controller'' ''/health -> timeout (2s)'' (cc_controller ctx) r)"

text \<open>The list of nodes is cut at its 120th byte.\<close>

definition check_agents :: "(json \<Rightarrow> string) \<Rightarrow> probes \<Rightarrow> report \<Rightarrow> cli_error + report" where
  "check_agents print p r =
     (case pb_nodes p of
        Inl e \<Rightarrow> Inr (report_fail ''agents'' (''/v1/nodes failed: '' @ e) [] r)
      | Inr v \<Rightarrow>
          (let n = (case as_array v of None \<Rightarrow> 0 | Some a \<Rightarrow> length a)
           in if n = 0 then Inr (report_warn ''agents'' ''/v1/nodes -> 0 nodes (no agent has reported)''
                ''start an agent: orion-agent --node-id <id>'' r)
              else (case cut_text 120 (print v) of
                      None \<Rightarrow> Inl Cli_Panic
                    | Some t \<Rightarrow> Inr (report_ok ''agents'' (''/v1/nodes -> '' @ show_nat n @ '' reporting'') t r))))"

definition check_broker :: "cli_ctx \<Rightarrow> probes \<Rightarrow> report \<Rightarrow> report" where
  "check_broker ctx p r =
     (case pb_broker p of
        Inl e \<Rightarrow> report_fail ''broker'' (''NATS connect failed: '' @ e) (cc_nats_url ctx) r
      | Inr (server, version) \<Rightarrow>
          (let r' = report_ok ''broker'' (''NATS connect -> server='' @ server @ '' v'' @ version) (cc_nats_url ctx) r
           in case pb_streams p of
                None \<Rightarrow> report_warn ''jetstream'' ''stream iteration timed out'' ''verify broker was started with -js'' r'
              | Some items \<Rightarrow>
                  report_ok ''jetstream'' (''streams iterable -> '' @
                    show_nat (count_where (\<lambda>i. case i of Inr _ \<Rightarrow> True | Inl _ \<Rightarrow> False) items) @ '' stream(s)'') [] r'))"

definition u64_at :: "json \<Rightarrow> string list \<Rightarrow> u64" where
  "u64_at v path = unwrap_or (Option.bind (json_at v path) as_u64) 0"

definition check_diag :: "probes \<Rightarrow> report \<Rightarrow> report" where
  "check_diag p r =
     (case pb_diag p of
        Inl _ \<Rightarrow> r
      | Inr v \<Rightarrow>
          (let r' = (if json_at v [''controller'', ''auth_disabled''] = Some (JBool True)
                     then report_warn ''auth'' ''controller running with ORION_AUTH_DISABLED=1''
                       ''dev mode is fine locally; do not run this way in production'' r
                     else report_ok ''auth'' ''cluster token enforced'' [] r)
           in report_note (''instances: '' @ show_nat (unat (u64_at v [''instances'', ''total''])) @ '' running, log buffer: '' @
                show_nat (unat (u64_at v [''logs'', ''buffered_lines''])) @ '' lines'') r'))"

text \<open>The report and the code the process ends with.\<close>

definition run_doctor :: "(json \<Rightarrow> string) \<Rightarrow> cli_ctx \<Rightarrow> bool \<Rightarrow> bool \<Rightarrow> probes \<Rightarrow> cli_error + report \<times> nat" where
  "run_doctor print ctx no_nats no_fail p =
     (case check_agents print p (check_controller ctx p report_default) of
        Inl e \<Rightarrow> Inl e
      | Inr r \<Rightarrow>
          (let r' = check_diag p (if no_nats then r else check_broker ctx p r)
           in Inr (r', if 0 < rp_fail r' \<and> \<not> no_fail then 1 else 0)))"

subsection \<open>The local stack (\<^verbatim>\<open>up.rs\<close>)\<close>

datatype nats_backend = Nats_Auto | Nats_Native | Nats_Docker | Nats_None

datatype resolved_nats = Resolved_Native | Resolved_Docker | Resolved_None

record up_args =
  ua_nats :: nats_backend
  ua_no_nats :: bool
  ua_no_ui :: bool
  ua_no_agent :: bool
  ua_nats_container :: string

text \<open>The machine: its search path, which files there are, which programs start, at which attempts the
  broker's port answers, and what the container engine says and does.\<close>

record machine =
  mc_path :: "string option"
  mc_is_file :: "string \<Rightarrow> bool"
  mc_spawn_error :: "string \<Rightarrow> string option"
  mc_port_open :: "nat \<Rightarrow> bool"
  mc_docker_ps :: "string + string"
  mc_docker_run :: "string + bool"

definition which :: "machine \<Rightarrow> string \<Rightarrow> string option" where
  "which mc name =
     find (mc_is_file mc) (map (\<lambda>dir. path_push dir name) (split_on (CHR '':'') (unwrap_or (mc_path mc) [])))"

definition find_bin_optional :: "machine \<Rightarrow> string \<Rightarrow> string option" where
  "find_bin_optional mc name =
     (case which mc name of
        Some p \<Rightarrow> Some p
      | None \<Rightarrow> find (mc_is_file mc) (map (\<lambda>dir. path_push dir name) [''target/release'', ''target/debug'']))"

definition find_bin :: "machine \<Rightarrow> string \<Rightarrow> string + string" where
  "find_bin mc name =
     (case find_bin_optional mc name of
        None \<Rightarrow> Inl (name @ '' not found on PATH or in target/{debug,release}. Run scripts/install-bins.sh.'')
      | Some p \<Rightarrow> Inr p)"

definition resolve_nats :: "machine \<Rightarrow> up_args \<Rightarrow> resolved_nats" where
  "resolve_nats mc a =
     (case (if ua_no_nats a then Nats_None else ua_nats a) of
        Nats_Auto \<Rightarrow> (if which mc ''nats-server'' \<noteq> None then Resolved_Native else Resolved_Docker)
      | Nats_Native \<Rightarrow> Resolved_Native
      | Nats_Docker \<Rightarrow> Resolved_Docker
      | Nats_None \<Rightarrow> Resolved_None)"

definition wait_for_nats_ready :: "machine \<Rightarrow> string + nat" where
  "wait_for_nats_ready mc =
     (case find (mc_port_open mc) [0..<40] of
        Some i \<Rightarrow> Inr ((i + 1) * 100)
      | None \<Rightarrow> Inl ''NATS did not become ready on 127.0.0.1:4222 within 4s'')"

definition ensure_docker_nats :: "machine \<Rightarrow> string \<Rightarrow> string + nat" where
  "ensure_docker_nats mc container =
     (case mc_docker_ps mc of
        Inl e \<Rightarrow> Inl ''running `docker ps`''
      | Inr names \<Rightarrow>
          (if list_ex (\<lambda>l. str_trim l = container) (str_lines names) then wait_for_nats_ready mc
           else (case mc_docker_run mc of
                   Inl e \<Rightarrow> Inl ''spawning docker run''
                 | Inr success \<Rightarrow> if success then wait_for_nats_ready mc else Inl ''docker run failed'')))"

text \<open>The children started so far are kept in the order of their start.\<close>

definition start_native_nats :: "machine \<Rightarrow> string list \<Rightarrow> (string + unit) \<times> string list" where
  "start_native_nats mc children =
     (case which mc ''nats-server'' of
        None \<Rightarrow> (Inl ''--nats=native requested but `nats-server` is not on PATH.'', children)
      | Some bin \<Rightarrow>
          (case mc_spawn_error mc bin of
             Some e \<Rightarrow> (Inl ''spawning nats-server'', children)
           | None \<Rightarrow>
               (case wait_for_nats_ready mc of
                  Inl e \<Rightarrow> (Inl e, children @ [''nats-server''])
                | Inr _ \<Rightarrow> (Inr (), children @ [''nats-server'']))))"

definition up_broker :: "machine \<Rightarrow> up_args \<Rightarrow> (string + unit) \<times> string list" where
  "up_broker mc a =
     (case resolve_nats mc a of
        Resolved_Native \<Rightarrow> start_native_nats mc []
      | Resolved_Docker \<Rightarrow> (case ensure_docker_nats mc (ua_nats_container a) of Inl e \<Rightarrow> (Inl e, []) | Inr _ \<Rightarrow> (Inr (), []))
      | Resolved_None \<Rightarrow> (Inr (), []))"

definition up_child :: "machine \<Rightarrow> string \<Rightarrow> string \<Rightarrow> string list \<Rightarrow> (string + unit) \<times> string list" where
  "up_child mc label bin children =
     (case find_bin mc bin of
        Inl e \<Rightarrow> (Inl e, children)
      | Inr p \<Rightarrow> (case mc_spawn_error mc p of Some e \<Rightarrow> (Inl (''spawning '' @ bin), children) | None \<Rightarrow> (Inr (), children @ [label])))"

text \<open>The dashboard is optional: without its program, or when it does not start, the stack goes on.\<close>

definition up_ui :: "machine \<Rightarrow> string list \<Rightarrow> string list" where
  "up_ui mc children =
     (case find_bin_optional mc ''orion-ui'' of
        None \<Rightarrow> children
      | Some p \<Rightarrow> (case mc_spawn_error mc p of Some e \<Rightarrow> children | None \<Rightarrow> children @ [''ui'']))"

text \<open>The start: broker, controller, agent, dashboard; the result is the error, if any, with the children
  that run.\<close>

definition up_start :: "machine \<Rightarrow> up_args \<Rightarrow> (string + unit) \<times> string list" where
  "up_start mc a =
     (case up_broker mc a of
        (Inl e, c) \<Rightarrow> (Inl e, c)
      | (Inr _, c) \<Rightarrow>
          (case up_child mc ''controller'' ''orion-controller'' c of
             (Inl e, c1) \<Rightarrow> (Inl e, c1)
           | (Inr _, c1) \<Rightarrow>
               (case (if ua_no_agent a then (Inr (), c1) else up_child mc ''agent'' ''orion-agent'' c1) of
                  (Inl e, c2) \<Rightarrow> (Inl e, c2)
                | (Inr _, c2) \<Rightarrow> (Inr (), if ua_no_ui a then c2 else up_ui mc c2))))"

definition up_shutdown :: "machine \<Rightarrow> up_args \<Rightarrow> string list \<Rightarrow> string list" where
  "up_shutdown mc a children =
     rev children @ (if resolve_nats mc a = Resolved_Docker then [''docker stop '' @ ua_nats_container a] else [])"

text \<open>The whole command: an error of the start ends it at once; otherwise it waits for the interrupt and
  shuts down. The result is the error, what was started and what was stopped.\<close>

definition run_up :: "machine \<Rightarrow> up_args \<Rightarrow> (string + unit) \<times> string list \<times> string list" where
  "run_up mc a =
     (case up_start mc a of
        (Inl e, c) \<Rightarrow> (Inl e, c, [])
      | (Inr _, c) \<Rightarrow> (Inr (), c, up_shutdown mc a c))"

subsection \<open>Benchmark (\<^verbatim>\<open>bench.rs\<close>)\<close>

text \<open>How many messages each publisher sends; without publishers the division fails.\<close>

definition producer_shares :: "u64 \<Rightarrow> u32 \<Rightarrow> u64 list option" where
  "producer_shares n publishers =
     (if publishers = 0 then None
      else (let per_pub = n div ucast publishers; leftover = n - per_pub * ucast publishers
            in Some (map (\<lambda>p. per_pub + (if p = 0 then leftover else 0)) [0..<unat publishers])))"

text \<open>What the consumer gets: a message with its stamp, if it has one, and the time it is read at; an
  error or the end of the messages; a time-out.\<close>

datatype bench_event = Bench_Message "int option" int | Bench_Skip | Bench_Timeout

fun consumer_run :: "nat \<Rightarrow> bench_event list \<Rightarrow> int list \<Rightarrow> int list" where
  "consumer_run want [] lat = lat"
| "consumer_run want (ev # evs) lat =
     (if want \<le> length lat then lat
      else (case ev of
              Bench_Message (Some ts) now \<Rightarrow> consumer_run want evs (lat @ [now - ts])
            | Bench_Message None now \<Rightarrow> consumer_run want evs lat
            | Bench_Skip \<Rightarrow> consumer_run want evs lat
            | Bench_Timeout \<Rightarrow> lat))"

text \<open>The product of a length with a double constant, truncated: the constant is its mantissa over
  $2^{53}$; the exact product is rounded to 53 significant bits, half to even.\<close>

definition round_even :: "nat \<Rightarrow> nat \<Rightarrow> nat" where
  "round_even k x =
     (let q = x div 2 ^ k; r = x mod 2 ^ k
      in if 2 * r < 2 ^ k \<or> 2 * r = 2 ^ k \<and> even q then q * 2 ^ k else (q + 1) * 2 ^ k)"

definition f64_scale :: "nat \<Rightarrow> nat \<Rightarrow> nat" where
  "f64_scale mantissa n =
     (let x = mantissa * n
      in (if x < 2 ^ 53 then x else round_even (floorlog 2 x - 53) x) div 2 ^ 53)"

definition F64_050 :: nat where
  "F64_050 = 4503599627370496"

definition F64_095 :: nat where
  "F64_095 = 8556839292003942"

definition F64_099 :: nat where
  "F64_099 = 8917127262193582"

text \<open>The position is one less than the truncated product; both the subtraction and the access are
  checked.\<close>

definition percentile :: "int list \<Rightarrow> nat \<Rightarrow> cli_error + int" where
  "percentile lat mantissa =
     (if lat = [] then Inr 0
      else (let k = f64_scale mantissa (length lat)
            in if k = 0 \<or> length lat < k then Inl Cli_Panic else Inr (lat ! (k - 1))))"

record consumer_stats =
  cs_p50 :: int
  cs_p95 :: int
  cs_p99 :: int
  cs_mean :: int

definition print_consumer_stats :: "int list \<Rightarrow> cli_error + consumer_stats" where
  "print_consumer_stats latencies =
     (let lat = sort latencies
      in case percentile lat F64_050 of
           Inl e \<Rightarrow> Inl e
         | Inr p50 \<Rightarrow>
             (case percentile lat F64_095 of
                Inl e \<Rightarrow> Inl e
              | Inr p95 \<Rightarrow>
                  (case percentile lat F64_099 of
                     Inl e \<Rightarrow> Inl e
                   | Inr p99 \<Rightarrow>
                       Inr \<lparr>cs_p50 = p50, cs_p95 = p95, cs_p99 = p99,
                         cs_mean = (if lat = [] then 0 else sgn (sum_list lat) * (\<bar>sum_list lat\<bar> div int (length lat)))\<rparr>)))"

subsection \<open>Dashboard (\<^verbatim>\<open>tui.rs\<close>)\<close>

datatype tui_tab = Tab_Overview | Tab_Nodes | Tab_Services | Tab_Queues

fun tab_next :: "tui_tab \<Rightarrow> tui_tab" where
  "tab_next Tab_Overview = Tab_Nodes" | "tab_next Tab_Nodes = Tab_Services"
| "tab_next Tab_Services = Tab_Queues" | "tab_next Tab_Queues = Tab_Overview"

fun tab_prev :: "tui_tab \<Rightarrow> tui_tab" where
  "tab_prev Tab_Overview = Tab_Queues" | "tab_prev Tab_Nodes = Tab_Overview"
| "tab_prev Tab_Services = Tab_Nodes" | "tab_prev Tab_Queues = Tab_Services"

record tui_snapshot =
  tn_nodes :: json
  tn_services :: json
  tn_queues :: json
  tn_instances :: json
  tn_diag_system :: json
  tn_last_refresh :: "datetime option"

datatype tui_key = Key_Char char | Key_Esc | Key_Right | Key_Tab | Key_Left | Key_BackTab | Key_Other

record tui_state =
  tu_snap :: tui_snapshot
  tu_tab :: tui_tab
  tu_last_fetch :: int

text \<open>An answer that fails is null.\<close>

definition tui_fetch :: "(string \<Rightarrow> string + json) \<Rightarrow> datetime \<Rightarrow> tui_snapshot" where
  "tui_fetch get now =
     (let g = (\<lambda>path. case get path of Inl _ \<Rightarrow> JNull | Inr v \<Rightarrow> v)
      in \<lparr>tn_nodes = g ''/v1/nodes'', tn_services = g ''/v1/resources/Service'', tn_queues = g ''/v1/resources/Queue'',
          tn_instances = g ''/v1/instances'', tn_diag_system = g ''/v1/diag/system'', tn_last_refresh = Some now\<rparr>)"

definition tui_key_step :: "int \<Rightarrow> int \<Rightarrow> tui_key \<Rightarrow> tui_state \<Rightarrow> tui_state option" where
  "tui_key_step refresh now k st =
     (if k \<in> {Key_Char CHR ''q'', Key_Esc} then None
      else if k = Key_Char CHR ''r'' then Some (st\<lparr>tu_last_fetch := now - (refresh + 1)\<rparr>)
      else if k \<in> {Key_Right, Key_Tab} then Some (st\<lparr>tu_tab := tab_next (tu_tab st)\<rparr>)
      else if k \<in> {Key_Left, Key_BackTab} then Some (st\<lparr>tu_tab := tab_prev (tu_tab st)\<rparr>)
      else if k = Key_Char CHR ''1'' then Some (st\<lparr>tu_tab := Tab_Overview\<rparr>)
      else if k = Key_Char CHR ''2'' then Some (st\<lparr>tu_tab := Tab_Nodes\<rparr>)
      else if k = Key_Char CHR ''3'' then Some (st\<lparr>tu_tab := Tab_Services\<rparr>)
      else if k = Key_Char CHR ''4'' then Some (st\<lparr>tu_tab := Tab_Queues\<rparr>)
      else Some st)"

text \<open>One pass of the loop before the keyboard is asked: refresh when it is time. The state it leaves is
  the one that is drawn.\<close>

definition tui_refresh :: "int \<Rightarrow> (string \<Rightarrow> string + json) \<Rightarrow> int \<Rightarrow> tui_state \<Rightarrow> tui_state" where
  "tui_refresh refresh get now st =
     (if refresh \<le> now - tu_last_fetch st then st\<lparr>tu_snap := tui_fetch get now, tu_last_fetch := now\<rparr> else st)"

fun run_tui :: "int \<Rightarrow> (int \<times> (string \<Rightarrow> string + json) \<times> tui_key option) list \<Rightarrow> tui_state \<Rightarrow> (int \<times> tui_state) list" where
  "run_tui refresh [] st = []"
| "run_tui refresh ((now, get, key) # rest) st =
     (let st1 = tui_refresh refresh get now st
      in (now, st1) # (case (case key of None \<Rightarrow> Some st1 | Some k \<Rightarrow> tui_key_step refresh now k st1) of
                         None \<Rightarrow> []
                       | Some st2 \<Rightarrow> run_tui refresh rest st2))"

definition tui_start :: "int \<Rightarrow> int \<Rightarrow> tui_state" where
  "tui_start refresh now =
     \<lparr>tu_snap = \<lparr>tn_nodes = JNull, tn_services = JNull, tn_queues = JNull, tn_instances = JNull, tn_diag_system = JNull,
        tn_last_refresh = None\<rparr>, tu_tab = Tab_Overview, tu_last_fetch = now - (refresh + 1)\<rparr>"

definition rows_of :: "(json \<Rightarrow> string list) \<Rightarrow> json \<Rightarrow> string list list" where
  "rows_of row v = (case as_array v of None \<Rightarrow> [] | Some vs \<Rightarrow> map row vs)"

definition node_rows :: "json \<Rightarrow> string list list" where
  "node_rows = rows_of (\<lambda>n. [unwrap_or (str_at n [''node_id'']) ''?'', unwrap_or (str_at n [''inventory'', ''arch'']) ''-'',
     unwrap_or (str_at n [''inventory'', ''os'']) ''-'', unwrap_or (str_at n [''last_seen_at'']) ''-''])"

definition service_rows :: "(json \<Rightarrow> string) \<Rightarrow> json \<Rightarrow> string list list" where
  "service_rows print = rows_of (\<lambda>s. [unwrap_or (str_at s [''metadata'', ''name'']) ''?'',
     unwrap_or (map_option print (json_at s [''spec'', ''replicas''])) ''1'',
     unwrap_or (str_at s [''spec'', ''runtime'', ''kind'']) ''?'', unwrap_or (str_at s [''spec'', ''restart_policy'']) ''?''])"

definition queue_rows :: "(json \<Rightarrow> string) \<Rightarrow> json \<Rightarrow> string list list" where
  "queue_rows print = rows_of (\<lambda>q. [unwrap_or (str_at q [''metadata'', ''name'']) ''?'',
     unwrap_or (str_at q [''spec'', ''type'']) ''work'',
     unwrap_or (map_option print (json_at q [''spec'', ''max_age_seconds''])) ''-''])"

record overview =
  ov_agents :: nat
  ov_services :: nat
  ov_queues :: nat
  ov_instances_total :: u64
  ov_log_lines :: u64
  ov_uptime_seconds :: u64

definition overview_summary :: "tui_snapshot \<Rightarrow> overview" where
  "overview_summary snap =
     (let len = (\<lambda>v. case as_array v of None \<Rightarrow> 0 | Some a \<Rightarrow> length a)
      in \<lparr>ov_agents = len (tn_nodes snap), ov_services = len (tn_services snap), ov_queues = len (tn_queues snap),
          ov_instances_total = u64_at (tn_diag_system snap) [''instances'', ''total''],
          ov_log_lines = u64_at (tn_diag_system snap) [''logs'', ''buffered_lines''],
          ov_uptime_seconds = u64_at (tn_diag_system snap) [''controller'', ''uptime_seconds'']\<rparr>)"

subsection \<open>Scaffold (\<^verbatim>\<open>init.rs\<close>)\<close>

text \<open>A path is the list of its names; the files are a map from paths to texts.\<close>

type_synonym path = "string list"
type_synonym files = "(string list, string) hash_map"

definition show_path :: "path \<Rightarrow> string" where
  "show_path p = concat (map (\<lambda>n. ''/'' @ n) p)"

text \<open>Which writes fail is an argument.\<close>

definition write_file :: "(path \<Rightarrow> bool) \<Rightarrow> path \<Rightarrow> string \<Rightarrow> bool \<Rightarrow> files \<Rightarrow> (string + unit) \<times> files" where
  "write_file denied p body force fs =
     (if hm_get fs p \<noteq> None \<and> \<not> force then (Inr (), fs)
      else if denied p then (Inl (''writing '' @ show_path p), fs)
      else (Inr (), hm_insert p body fs))"

fun write_files :: "(path \<Rightarrow> bool) \<Rightarrow> bool \<Rightarrow> (path \<times> string) list \<Rightarrow> files \<Rightarrow> (string + unit) \<times> files" where
  "write_files denied force [] fs = (Inr (), fs)"
| "write_files denied force ((p, body) # rest) fs =
     (case write_file denied p body force fs of
        (Inl e, fs') \<Rightarrow> (Inl e, fs')
      | (Inr _, fs') \<Rightarrow> write_files denied force rest fs')"

record init_args =
  na_name :: string
  na_queue :: string
  na_lang :: string
  na_group :: "string option"
  na_replicas :: u32
  na_force :: bool

text \<open>The texts of the templates, some with the name of the project.\<close>

record templates =
  tp_requirements :: string
  tp_python_setup :: "string \<Rightarrow> string"
  tp_python :: string
  tp_java_pom :: "string \<Rightarrow> string"
  tp_java_setup :: "string \<Rightarrow> string"
  tp_java :: string
  tp_cargo :: "string \<Rightarrow> string"
  tp_rust :: string

definition scaffold_python :: "templates \<Rightarrow> path \<Rightarrow> init_args \<Rightarrow> (path \<times> string) list \<times> path" where
  "scaffold_python tp dir a =
     ([(dir @ [''requirements.txt''], tp_requirements tp), (dir @ [''setup.sh''], tp_python_setup tp (na_name a)),
       (dir @ [''processor.py''], tp_python tp)], dir @ [''processor.py''])"

definition scaffold_java :: "templates \<Rightarrow> path \<Rightarrow> init_args \<Rightarrow> (path \<times> string) list \<times> path" where
  "scaffold_java tp dir a =
     (let java_file = dir @ [''src'', ''main'', ''java'', ''io'', ''orionmesh'', ''processor'', ''Processor.java'']
      in ([(dir @ [''pom.xml''], tp_java_pom tp (na_name a)), (dir @ [''setup.sh''], tp_java_setup tp (na_name a)),
           (java_file, tp_java tp)], java_file))"

definition scaffold_rust :: "templates \<Rightarrow> path \<Rightarrow> init_args \<Rightarrow> (path \<times> string) list \<times> path" where
  "scaffold_rust tp dir a =
     ([(dir @ [''Cargo.toml''], tp_cargo tp (na_name a)), (dir @ [''src'', ''main.rs''], tp_rust tp)], dir @ [''src'', ''main.rs''])"

text \<open>The command of the generated service, from the absolute path of the template.\<close>

definition service_command :: "init_args \<Rightarrow> path \<Rightarrow> string \<times> string list" where
  "service_command a template =
     (if na_lang a = ''python'' then (''python'', [show_path template])
      else if na_lang a = ''java'' then
        (''java'', [''-jar'', show_path (butlast (butlast template) @ [''target'', na_name a @ ''.jar''])])
      else (''cargo'', [''run'', ''--release'', ''--manifest-path'', show_path (butlast (butlast template)) @ ''/Cargo.toml'']))"

definition dquoted :: "string \<Rightarrow> string" where
  "dquoted s = [CHR 0x22] @ s @ [CHR 0x22]"

definition build_service_yaml :: "init_args \<Rightarrow> string \<Rightarrow> path \<Rightarrow> string" where
  "build_service_yaml a grp template =
     (let (exec, args) = service_command a template
      in concat (map text_line
           ([''apiVersion: orionmesh.dev/v1'', ''kind: Service'', ''metadata:'', ''  name: '' @ na_name a, ''  labels:'',
             ''    role: processor'', ''    queue: '' @ na_queue a, ''    lang: '' @ na_lang a, ''spec:'', ''  runtime:'',
             ''    kind: native'', ''    exec: '' @ exec, ''    args:''] @
            map (\<lambda>x. ''    - '' @ dquoted x) args @
            [''    env:'', ''      NATS_URL: '' @ dquoted ''nats://127.0.0.1:4222'', ''      ORION_QUEUE_NAME: '' @ dquoted (na_queue a),
             ''      ORION_QUEUE_SUBJECT: '' @ dquoted (default_queue_subject (na_queue a)),
             ''      ORION_QUEUE_STREAM: '' @ dquoted (default_queue_stream (na_queue a)),
             ''      ORION_QUEUE_TYPE: '' @ dquoted ''work'', ''      ORION_QUEUE_GROUP: '' @ dquoted grp] @
            (if 1 < na_replicas a then [''  replicas: '' @ show_nat (unat (na_replicas a))] else []) @
            [''  restart_policy: on_failure''])))"

definition init_processor :: "(path \<Rightarrow> bool) \<Rightarrow> templates \<Rightarrow> path \<Rightarrow> init_args \<Rightarrow> files \<Rightarrow> (string + unit) \<times> files" where
  "init_processor denied tp dir a fs =
     (let grp = unwrap_or (na_group a) (na_queue a @ ''-workers'');
          (out, template) = (if na_lang a = ''python'' then scaffold_python tp dir a
             else if na_lang a = ''java'' then scaffold_java tp dir a else scaffold_rust tp dir a)
      in write_files denied (na_force a)
           (out @ [(dir @ [na_name a @ ''.yaml''], build_service_yaml a grp template)]) fs)"

subsection \<open>Lemmas: the report and the stack\<close>

lemmas report_defs = report_ok_def report_warn_def report_fail_def report_note_def

definition report_counts :: "report \<Rightarrow> bool" where
  "report_counts r \<longleftrightarrow>
     rp_ok r = count_where (\<lambda>l. fst l = Mark_Pass) (rp_out r) \<and> rp_warn r = count_where (\<lambda>l. fst l = Mark_Warn) (rp_out r) \<and>
     rp_fail r = count_where (\<lambda>l. fst l = Mark_Fail) (rp_out r)"

lemma report_counts_steps [simp]:
  "report_counts report_default"
  "report_counts r \<Longrightarrow> report_counts (report_ok a m d r)" "report_counts r \<Longrightarrow> report_counts (report_warn a m d r)"
  "report_counts r \<Longrightarrow> report_counts (report_fail a m d r)" "report_counts r \<Longrightarrow> report_counts (report_note m r)"
  by (simp_all add: report_counts_def report_defs report_default_def count_where_def)

lemma check_counts [simp]:
  "report_counts r \<Longrightarrow> report_counts (check_controller ctx p r)" "report_counts r \<Longrightarrow> report_counts (check_broker ctx p r)"
  "report_counts r \<Longrightarrow> report_counts (check_diag p r)"
  by (auto simp: check_controller_def check_broker_def check_diag_def Let_def split: option.split sum.split)

lemma rp_fail_checks [simp]:
  "rp_fail (check_controller ctx p r) = rp_fail r + (case pb_health p of Some (Inr _) \<Rightarrow> 0 | _ \<Rightarrow> 1)"
  "rp_fail (check_broker ctx p r) = rp_fail r + (case pb_broker p of Inl _ \<Rightarrow> 1 | Inr _ \<Rightarrow> 0)"
  "rp_fail (check_diag p r) = rp_fail r"
  by (auto simp: check_controller_def check_broker_def check_diag_def report_defs Let_def split: option.split sum.split)

lemma check_agents_InrD:
  "check_agents print p r = Inr r' \<Longrightarrow>
     rp_fail r' = rp_fail r + (case pb_nodes p of Inl _ \<Rightarrow> 1 | Inr _ \<Rightarrow> 0) \<and> (report_counts r \<longrightarrow> report_counts r')"
  by (auto simp: check_agents_def Let_def split: sum.splits if_splits option.splits) (simp_all add: report_defs)

lemma up_broker_cases: "case up_broker mc a of (res, c) \<Rightarrow> c = [] \<or> c = [''nats-server''] \<and> resolve_nats mc a = Resolved_Native"
  by (auto simp: up_broker_def start_native_nats_def split: resolved_nats.split option.split sum.split)

lemma up_child_cases:
  "case up_child mc label bin c of (Inl _, c') \<Rightarrow> c' = c | (Inr _, c') \<Rightarrow> c' = c @ [label]"
  by (auto simp: up_child_def split: option.split sum.split)

lemma up_ui_cases: "up_ui mc c = c \<or> up_ui mc c = c @ [''ui'']"
  by (auto simp: up_ui_def split: option.split)

definition stack_core :: "up_args \<Rightarrow> string list" where
  "stack_core a = (if ua_no_agent a then [''controller''] else [''controller'', ''agent''])"

lemma up_start_shape:
  obtains b where "b = [] \<or> b = [''nats-server'']"
    "case up_start mc a of
       (Inl _, c) \<Rightarrow> c = b \<or> c = b @ [''controller'']
     | (Inr _, c) \<Rightarrow> c = b @ stack_core a \<or> c = b @ stack_core a @ [''ui'']"
proof -
  obtain rb b where b: "up_broker mc a = (rb, b)" by fastforce
  obtain rc c where c: "up_child mc ''controller'' ''orion-controller'' b = (rc, c)" by fastforce
  obtain ra d where d: "up_child mc ''agent'' ''orion-agent'' (b @ [''controller'']) = (ra, d)" by fastforce
  have cc: "case rc of Inl _ \<Rightarrow> c = b | Inr _ \<Rightarrow> c = b @ [''controller'']"
    using up_child_cases [where mc = mc and label = "''controller''" and bin = "''orion-controller''" and c = b]
    by (simp add: c split: sum.splits)
  have dd: "case ra of Inl _ \<Rightarrow> d = b @ [''controller''] | Inr _ \<Rightarrow> d = b @ [''controller'', ''agent'']"
    using up_child_cases [where mc = mc and label = "''agent''" and bin = "''orion-agent''" and c = "b @ [''controller'']"]
    by (simp add: d split: sum.splits)
  have shape: "case up_start mc a of
       (Inl _, c) \<Rightarrow> c = b \<or> c = b @ [''controller'']
     | (Inr _, c) \<Rightarrow> c = b @ stack_core a \<or> c = b @ stack_core a @ [''ui'']"
    using cc dd d up_ui_cases [of mc "b @ [''controller'']"] up_ui_cases [of mc d]
    by (simp add: up_start_def b c stack_core_def split: sum.splits)
  have "b = [] \<or> b = [''nats-server'']" using up_broker_cases [where mc = mc and a = a] b by auto
  from that [OF this shape] show ?thesis .
qed

definition stack_order :: "string list" where
  "stack_order = [''nats-server'', ''controller'', ''agent'', ''ui'']"

lemma stack_subseq:
  assumes "b = [] \<or> b = [''nats-server'']"
  shows "subseq b stack_order" "subseq (b @ [''controller'']) stack_order"
    "subseq (b @ stack_core a) stack_order" "subseq (b @ stack_core a @ [''ui'']) stack_order"
proof -
  have closed: "list_all (\<lambda>xs. subseq xs stack_order)
    [[], [''nats-server''], [''controller''], [''nats-server'', ''controller''], [''controller'', ''agent''],
     [''nats-server'', ''controller'', ''agent''], [''controller'', ''ui''], [''nats-server'', ''controller'', ''ui''],
     [''controller'', ''agent'', ''ui''], [''nats-server'', ''controller'', ''agent'', ''ui'']]" by code_simp
  show "subseq b stack_order" "subseq (b @ [''controller'']) stack_order"
    "subseq (b @ stack_core a) stack_order" "subseq (b @ stack_core a @ [''ui'']) stack_order"
    using assms closed by (cases "ua_no_agent a"; elim disjE; simp add: stack_core_def)+
qed

subsection \<open>Properties\<close>

text \<open>Further: the health report ends with an error code exactly when it may and one of the three probes fails:
  the controller's health page, its list of nodes, or, unless it is skipped, the connection to the broker;
  the counts of its summary are those of its lines. It ends without a report only when the text of the
  nodes is longer than 120 bytes and is cut within a character.\<close>

theorem doctor_exit_code:
  "case run_doctor print ctx no_nats no_fail p of
     Inl _ \<Rightarrow> (\<exists>v. pb_nodes p = Inr v \<and> cut_text 120 (print v) = None)
   | Inr (r, code) \<Rightarrow>
       report_counts r \<and> code \<in> {0, 1} \<and>
       (code = 1 \<longleftrightarrow> \<not> no_fail \<and>
          ((\<forall>t. pb_health p \<noteq> Some (Inr t)) \<or> (\<exists>e. pb_nodes p = Inl e) \<or> \<not> no_nats \<and> (\<exists>e. pb_broker p = Inl e)))"
proof (cases "check_agents print p (check_controller ctx p report_default)")
  case (Inl e)
  then show ?thesis
    by (auto simp: run_doctor_def check_agents_def Let_def split: sum.splits if_splits option.splits)
next
  case (Inr r)
  have d0: "rp_fail report_default = 0" by (simp add: report_default_def)
  show ?thesis
    using check_agents_InrD [OF Inr]
    by (auto simp: run_doctor_def Inr Let_def d0 split: sum.splits option.splits)
qed


subsection \<open>The benchmark\<close>

text \<open>Rounding stays on its side of every representable value, so it is monotone.\<close>

lemma round_even_cases:
  obtains (down) "round_even k x = x div 2 ^ k * 2 ^ k"
  | (up) "x mod 2 ^ k \<noteq> 0" "round_even k x = (x div 2 ^ k + 1) * 2 ^ k"
proof (cases "2 * (x mod 2 ^ k) < 2 ^ k \<or> 2 * (x mod 2 ^ k) = 2 ^ k \<and> even (x div 2 ^ k)")
  case True
  then show ?thesis by (intro that(1)) (simp add: round_even_def Let_def)
next
  case False
  then have "x mod 2 ^ k \<noteq> 0" by (intro notI) simp
  moreover have "round_even k x = (x div 2 ^ k + 1) * 2 ^ k" using False by (simp add: round_even_def Let_def)
  ultimately show ?thesis by (rule that(2))
qed

lemma round_even_le:
  assumes "2 ^ k dvd m" and "x \<le> m"
  shows "round_even k x \<le> m"
proof (cases rule: round_even_cases [of k x])
  case down
  have "x div 2 ^ k * 2 ^ k \<le> x" by (rule div_times_less_eq_dividend)
  with down assms(2) show ?thesis by linarith
next
  case up
  obtain j where m: "m = j * 2 ^ k" using assms(1) by (metis dvdE mult.commute)
  have "x div 2 ^ k * 2 ^ k + x mod 2 ^ k = x" by (rule div_mult_mod_eq)
  with up(1) assms(2) m have "x div 2 ^ k * 2 ^ k < j * 2 ^ k" by linarith
  then have "x div 2 ^ k + 1 \<le> j" by simp
  then have "(x div 2 ^ k + 1) * 2 ^ k \<le> j * 2 ^ k" by (rule mult_le_mono1)
  with up(2) m show ?thesis by simp
qed

lemma round_even_ge:
  assumes "2 ^ k dvd m" and "m \<le> x"
  shows "m \<le> round_even k x"
proof -
  obtain j where m: "m = j * 2 ^ k" using assms(1) by (metis dvdE mult.commute)
  have "j \<le> x div 2 ^ k" using assms(2) m by (simp add: less_eq_div_iff_mult_less_eq)
  then have "m \<le> x div 2 ^ k * 2 ^ k" unfolding m by (rule mult_le_mono1)
  then show ?thesis by (cases rule: round_even_cases [of k x]) simp_all
qed

lemma round_even_mono:
  assumes "x \<le> y"
  shows "round_even k x \<le> round_even k y"
proof (cases "x div 2 ^ k = y div 2 ^ k")
  case True
  have "x div 2 ^ k * 2 ^ k + x mod 2 ^ k \<le> y div 2 ^ k * 2 ^ k + y mod 2 ^ k"
    using assms by (simp only: div_mult_mod_eq)
  with True have "x mod 2 ^ k \<le> y mod 2 ^ k" by simp
  with True show ?thesis by (auto simp: round_even_def Let_def)
next
  case False
  with assms have "x div 2 ^ k + 1 \<le> y div 2 ^ k" by (simp add: div_le_mono le_neq_implies_less Suc_leI)
  then have up: "(x div 2 ^ k + 1) * 2 ^ k \<le> y div 2 ^ k * 2 ^ k" by (rule mult_le_mono1)
  have "round_even k x \<le> (x div 2 ^ k + 1) * 2 ^ k" by (cases rule: round_even_cases [of k x]) simp_all
  moreover have "y div 2 ^ k * 2 ^ k \<le> round_even k y" by (cases rule: round_even_cases [of k y]) simp_all
  ultimately show ?thesis using up by linarith
qed

definition f64_round :: "nat \<Rightarrow> nat" where
  "f64_round x = (if x < 2 ^ 53 then x else round_even (floorlog 2 x - 53) x)"

lemma f64_scale_eq: "f64_scale m n = f64_round (m * n) div 2 ^ 53"
  by (simp add: f64_scale_def f64_round_def Let_def)

lemma floorlog2_bounds: "0 < x \<Longrightarrow> 2 ^ (floorlog 2 x - 1) \<le> x \<and> x < 2 ^ floorlog 2 x"
  using floorlog_bounds [of x 2] by simp

lemma floorlog2_ge: "2 ^ 53 \<le> x \<Longrightarrow> 54 \<le> floorlog 2 x"
  by (rule floorlog_geI) simp_all

lemma f64_round_mono:
  assumes "x \<le> y"
  shows "f64_round x \<le> f64_round y"
proof (cases "y < 2 ^ 53")
  case False
  let ?k = "floorlog 2 y - 53"
  have y: "2 ^ (floorlog 2 y - 1) \<le> y" and ky: "54 \<le> floorlog 2 y"
    using False floorlog2_bounds [of y] floorlog2_ge [of y] by simp_all
  show ?thesis
  proof (cases "2 ^ 53 \<le> x \<and> floorlog 2 x = floorlog 2 y")
    case True
    then show ?thesis using False round_even_mono [OF assms, of ?k] by (simp add: f64_round_def)
  next
    case other: False
    let ?m = "2 ^ (floorlog 2 y - 1) :: nat"
    have "?m \<le> round_even ?k y" by (rule round_even_ge) (use y in \<open>simp_all add: le_imp_power_dvd\<close>)
    moreover have "f64_round x \<le> ?m"
    proof (cases "x < 2 ^ 53")
      case True
      have "(2::nat) ^ 53 \<le> ?m" using ky by (intro power_increasing) simp_all
      with True show ?thesis by (simp add: f64_round_def)
    next
      case x: False
      then have "floorlog 2 x < floorlog 2 y" using other floorlog_mono [OF assms, of 2] by simp
      then have "floorlog 2 x \<le> floorlog 2 y - 1" by simp
      then have "(2::nat) ^ floorlog 2 x \<le> ?m" by (intro power_increasing) simp_all
      moreover have "x < 2 ^ floorlog 2 x" using floorlog2_bounds [of x] x by simp
      ultimately have "x \<le> ?m" by linarith
      then have "round_even (floorlog 2 x - 53) x \<le> ?m"
        using \<open>floorlog 2 x \<le> floorlog 2 y - 1\<close> by (intro round_even_le) (simp_all add: le_imp_power_dvd)
      with x show ?thesis by (simp add: f64_round_def)
    qed
    ultimately show ?thesis using False by (simp add: f64_round_def)
  qed
qed (use assms in \<open>simp add: f64_round_def\<close>)

lemma f64_round_multiple:
  assumes "n < 2 ^ 53"
  shows "f64_round (n * 2 ^ 53) = n * 2 ^ 53"
proof (cases "n = 0")
  case False
  have "n * 2 ^ 53 < 2 ^ 106" using assms by simp
  then have "floorlog 2 (n * 2 ^ 53) \<le> 106" by (intro floorlog_leI) simp_all
  then have "(2::nat) ^ (floorlog 2 (n * 2 ^ 53) - 53) dvd n * 2 ^ 53" by (intro dvd_mult le_imp_power_dvd) simp
  from round_even_le [OF this order.refl] round_even_ge [OF this order.refl] False show ?thesis
    by (simp add: f64_round_def)
qed (simp add: f64_round_def)

lemma f64_scale_bounds:
  assumes "2 ^ 52 \<le> m" and "m < 2 ^ 53" and "2 \<le> n" and "n < 2 ^ 53"
  shows "1 \<le> f64_scale m n" "f64_scale m n \<le> n"
proof -
  have "2 ^ 52 * 2 \<le> m * n" using assms(1,3) by (rule mult_le_mono)
  then have "f64_round (1 * 2 ^ 53) \<le> f64_round (m * n)" by (intro f64_round_mono) simp
  then have "2 ^ 53 \<le> f64_round (m * n)" using f64_round_multiple [of 1] by simp
  then show "1 \<le> f64_scale m n" by (simp add: f64_scale_eq less_eq_div_iff_mult_less_eq)
  have "m * n \<le> n * 2 ^ 53" using assms(2) by (simp add: mult.commute)
  then have "f64_round (m * n) \<le> f64_round (n * 2 ^ 53)" by (rule f64_round_mono)
  then have "f64_round (m * n) \<le> n * 2 ^ 53" using f64_round_multiple [OF assms(4)] by simp
  then have "f64_round (m * n) div 2 ^ 53 \<le> n * 2 ^ 53 div 2 ^ 53" by (rule div_le_mono)
  then show "f64_scale m n \<le> n" by (simp add: f64_scale_eq)
qed

lemma f64_scale_one: "m < 2 ^ 53 \<Longrightarrow> f64_scale m 1 = 0"
  by (simp add: f64_scale_eq f64_round_def)

lemma f64_scale_mono: "m \<le> m' \<Longrightarrow> f64_scale m n \<le> f64_scale m' n"
  by (simp add: f64_scale_eq div_le_mono f64_round_mono)

lemmas f64_constants = F64_050_def F64_095_def F64_099_def

text \<open>C37: the statistics of the benchmark fail exactly when there is one latency; with none all are zero,
  and with two or more the three percentiles are latencies of the run in ascending order, between the
  smallest and the largest.\<close>

theorem bench_percentiles:
  assumes "length lat < 2 ^ 53"
  shows "case print_consumer_stats lat of
      Inl _ \<Rightarrow> length lat = 1
    | Inr s \<Rightarrow> length lat \<noteq> 1 \<and>
        (if lat = [] then cs_p50 s = 0 \<and> cs_p95 s = 0 \<and> cs_p99 s = 0
         else {cs_p50 s, cs_p95 s, cs_p99 s} \<subseteq> set lat \<and> cs_p50 s \<le> cs_p95 s \<and> cs_p95 s \<le> cs_p99 s)"
proof -
  consider "length lat = 0" | "length lat = 1" | "2 \<le> length lat" by linarith
  then show ?thesis
  proof cases
    case 1
    then show ?thesis by (simp add: print_consumer_stats_def percentile_def)
  next
    case 2
    then have "sort lat \<noteq> []" by (metis length_0_conv length_sort zero_neq_one)
    then have "percentile (sort lat) F64_050 = Inl Cli_Panic"
      using 2 f64_scale_one [of F64_050] by (simp add: percentile_def F64_050_def)
    then show ?thesis using 2 by (simp add: print_consumer_stats_def)
  next
    case 3
    let ?k = "\<lambda>m. f64_scale m (length lat)"
    have nonempty: "sort lat \<noteq> []" using 3 by (metis length_sort list.size(3) not_numeral_le_zero)
    have k: "1 \<le> ?k m \<and> ?k m \<le> length lat" if "m \<in> {F64_050, F64_095, F64_099}" for m
      using that f64_scale_bounds [of m "length lat"] 3 assms by (auto simp: f64_constants)
    have p: "percentile (sort lat) m = Inr (sort lat ! (?k m - 1))" "sort lat ! (?k m - 1) \<in> set lat"
      if "m \<in> {F64_050, F64_095, F64_099}" for m
    proof -
      have "?k m - 1 < length (sort lat)" using k [OF that] 3 by (cases "?k m") simp_all
      then show "sort lat ! (?k m - 1) \<in> set lat" using nth_mem set_sort by metis
      show "percentile (sort lat) m = Inr (sort lat ! (?k m - 1))"
        using k [OF that] nonempty by (simp add: percentile_def)
    qed
    have mono: "sort lat ! (?k m - 1) \<le> sort lat ! (?k m' - 1)" if "m \<le> m'" "m' \<in> {F64_050, F64_095, F64_099}" for m m'
      using that k [OF that(2)] f64_scale_mono [OF that(1), of "length lat"] by (intro sorted_nth_mono) auto
    have "lat \<noteq> []" using 3 by auto
    then show ?thesis
      using p [of F64_050] p [of F64_095] p [of F64_099] mono [of F64_050 F64_095] mono [of F64_095 F64_099] 3
      by (simp add: print_consumer_stats_def Let_def) (simp add: f64_constants)
  qed
qed

lemma shares_sum: "sum_list (map (\<lambda>p. a + (if p = 0 then b else 0)) [0..<Suc n]) = Suc n * a + (b::nat)"
  by (induction n) simp_all

text \<open>Further: the publishers of the benchmark share the messages: with at least one publisher there is a share
  for each and the shares add up to the count; with none the division fails.\<close>

theorem producer_shares_sum:
  "case producer_shares n publishers of
     None \<Rightarrow> publishers = 0
   | Some shares \<Rightarrow> publishers \<noteq> 0 \<and> length shares = unat publishers \<and> sum_list (map unat shares) = unat n"
proof (cases "publishers = 0")
  case False
  let ?p = "unat publishers" and ?n = "unat n"
  have p: "unat (ucast publishers :: u64) = ?p"
    using unat_lt_u32 [of publishers] by (simp add: unsigned_ucast_eq take_bit_nat_eq_self)
  have le: "?n div ?p * ?p \<le> ?n" by (rule div_times_less_eq_dividend)
  have nlt: "?n < 2 ^ 64" using unsigned_less [of n, where ?'a = nat] by simp
  have d: "?n div ?p < 2 ^ 64" using nlt div_le_dividend [of ?n ?p] by linarith
  have pd: "?n div ?p * ?p < 2 ^ 64" using le nlt by linarith
  have prod: "unat (n div ucast publishers * ucast publishers) = ?n div ?p * ?p"
    using d pd by (simp add: unat_word_ariths p)
  have left: "unat (n - n div ucast publishers * ucast publishers) = ?n - ?n div ?p * ?p"
    by (subst unat_sub) (use le in \<open>simp_all add: word_le_nat_alt prod\<close>)
  have share: "unat (n div ucast publishers + (if q = 0 then n - n div ucast publishers * ucast publishers else 0)) =
      ?n div ?p + (if q = 0 then ?n - ?n div ?p * ?p else 0)" for q :: nat
  proof -
    have "?p \<noteq> 0" using False by (simp add: unat_eq_0)
    then have "?n div ?p + (?n - ?n div ?p * ?p) \<le> ?n" using le by (cases ?p) (simp_all add: algebra_simps)
    then have "?n div ?p + (?n - ?n div ?p * ?p) < 2 ^ 64" using nlt by linarith
    then show ?thesis using d by (simp add: unat_word_ariths(1) left) (simp add: unat_word_ariths p)
  qed
  obtain k where k: "?p = Suc k" using False by (metis not0_implies_Suc unat_eq_0)
  have "sum_list (map (\<lambda>q. ?n div ?p + (if q = 0 then ?n - ?n div ?p * ?p else 0)) [0..<Suc k]) = ?n"
    unfolding shares_sum using le by (simp add: k mult.commute del: mult_Suc mult_Suc_right)
  then show ?thesis
    using False by (simp add: producer_shares_def Let_def comp_def share k)
qed (simp add: producer_shares_def)

subsection \<open>The dashboard\<close>

text \<open>Between two passes the state either carries the time of its last refresh, or is due for one.\<close>

definition tui_due :: "int \<Rightarrow> int \<Rightarrow> tui_state \<Rightarrow> bool" where
  "tui_due refresh now st \<longleftrightarrow>
     refresh \<le> now - tu_last_fetch st \<or> tu_last_fetch st \<le> now \<and> tn_last_refresh (tu_snap st) = Some (tu_last_fetch st)"

lemma tui_refresh_fresh:
  assumes "0 < refresh" and "tui_due refresh now st"
  shows "tu_last_fetch (tui_refresh refresh get now st) \<le> now \<and> now - tu_last_fetch (tui_refresh refresh get now st) < refresh \<and>
    tn_last_refresh (tu_snap (tui_refresh refresh get now st)) = Some (tu_last_fetch (tui_refresh refresh get now st))"
  using assms by (auto simp: tui_refresh_def tui_due_def tui_fetch_def Let_def)

lemma tui_key_due:
  assumes "tui_key_step refresh now k st = Some st'" and "tui_due refresh now st" and "now \<le> later"
  shows "tui_due refresh later st'"
  using assms by (auto simp: tui_key_step_def tui_due_def split: if_splits)

text \<open>Further: what the dashboard draws is never older than the refresh interval: with a clock that does not go
  back, at every pass the snapshot on the screen was fetched less than that many seconds ago, whatever
  keys were pressed.\<close>

theorem tui_draws_fresh:
  assumes "0 < refresh" and "sorted (start # map fst passes)"
  shows "list_all (\<lambda>(now, st). case tn_last_refresh (tu_snap st) of None \<Rightarrow> False | Some t \<Rightarrow> t \<le> now \<and> now - t < refresh)
    (run_tui refresh passes (tui_start refresh start))"
proof -
  have "list_all (\<lambda>(now, st). case tn_last_refresh (tu_snap st) of None \<Rightarrow> False | Some t \<Rightarrow> t \<le> now \<and> now - t < refresh)
      (run_tui refresh passes st)" if "sorted (before # map fst passes)" "tui_due refresh before st" for before st
    using that
  proof (induction passes arbitrary: before st)
    case (Cons p ps)
    obtain now get key where p: "p = (now, get, key)" by (cases p) auto
    let ?st = "tui_refresh refresh get now st"
    have later: "before \<le> now" "sorted (now # map fst ps)" using Cons.prems(1) by (auto simp: p)
    have "tui_due refresh now st" using Cons.prems(2) later(1) by (auto simp: tui_due_def)
    note fresh = tui_refresh_fresh [OF assms(1) this, of get]
    then have due: "tui_due refresh now ?st" by (simp add: tui_due_def)
    show ?case
    proof (cases "case key of None \<Rightarrow> Some ?st | Some k \<Rightarrow> tui_key_step refresh now k ?st")
      case None
      then show ?thesis using fresh by (simp add: p Let_def)
    next
      case (Some st2)
      then have "tui_due refresh now st2" using due tui_key_due [OF _ due order.refl] by (auto split: option.splits)
      with Cons.IH [OF later(2)] Some fresh show ?thesis by (simp add: p Let_def)
    qed
  qed simp
  moreover have "tui_due refresh start (tui_start refresh start)" by (simp add: tui_due_def tui_start_def)
  ultimately show ?thesis using assms(2) by blast
qed

text \<open>Further: stepping right and left through the tabs undo each other, and four steps come back.\<close>

theorem tui_tabs_cycle:
  "tab_prev (tab_next t) = t \<and> tab_next (tab_prev t) = t \<and> tab_next (tab_next (tab_next (tab_next t))) = t"
  by (cases t) simp_all

subsection \<open>The scaffold\<close>

lemma write_file_keeps:
  "\<not> force \<Longrightarrow> hm_get fs p = Some v \<Longrightarrow> hm_get (snd (write_file denied q body force fs)) p = Some v"
  by (auto simp: write_file_def)

lemma write_files_keeps:
  "\<not> force \<Longrightarrow> hm_get fs p = Some v \<Longrightarrow> hm_get (snd (write_files denied force out fs)) p = Some v"
proof (induction out arbitrary: fs)
  case (Cons e out)
  obtain q body where e: "e = (q, body)" by (cases e) auto
  obtain res fs' where w: "write_file denied q body force fs = (res, fs')" by fastforce
  have "hm_get fs' p = Some v" using write_file_keeps [OF Cons.prems, of denied q body] by (simp add: w)
  with Cons.IH [OF Cons.prems(1)] show ?case by (cases res) (simp_all add: e w)
qed simp

lemma write_files_there:
  "write_files denied force out fs = (Inr (), fs') \<Longrightarrow> \<not> force \<Longrightarrow> p \<in> fst ` set out \<Longrightarrow> hm_get fs' p \<noteq> None"
proof (induction out arbitrary: fs)
  case (Cons e out)
  obtain q body where e: "e = (q, body)" by (cases e) auto
  obtain res fs1 where w: "write_file denied q body force fs = (res, fs1)" by fastforce
  obtain u where res: "res = Inr u" and rest: "write_files denied force out fs1 = (Inr (), fs')"
    using Cons.prems(1) by (cases res) (auto simp: e w)
  have q: "\<exists>v. hm_get fs1 q = Some v" using w res by (auto simp: write_file_def split: if_splits)
  show ?case
  proof (cases "p \<in> fst ` set out")
    case False
    then have "p = q" using Cons.prems(3) by (simp add: e)
    with q write_files_keeps [OF Cons.prems(2), of fs1 q _ denied out] rest show ?thesis by auto
  qed (use Cons.IH [OF rest Cons.prems(2)] in blast)
qed simp

lemma write_files_again:
  "(\<forall>p \<in> fst ` set out. hm_get fs p \<noteq> None) \<Longrightarrow> \<not> force \<Longrightarrow> write_files denied force out fs = (Inr (), fs)"
  by (induction out) (auto simp: write_file_def)

text \<open>Further: the scaffold without \<^verbatim>\<open>--force\<close> changes no file that was there, whether it works or fails, and
  running it a second time changes nothing at all.\<close>

theorem init_idempotent:
  assumes "\<not> na_force a"
  shows "(\<forall>p v. hm_get fs p = Some v \<longrightarrow> hm_get (snd (init_processor denied tp dir a fs)) p = Some v) \<and>
    (fst (init_processor denied tp dir a fs) = Inr () \<longrightarrow>
       init_processor denied' tp dir a (snd (init_processor denied tp dir a fs)) = (Inr (), snd (init_processor denied tp dir a fs)))"
proof -
  obtain out where out: "\<And>d f. init_processor d tp dir a f = write_files d False out f"
    using assms by (simp add: init_processor_def Let_def split_beta)
  have "hm_get (snd (write_files denied False out fs)) p = Some v" if "hm_get fs p = Some v" for p v
    using write_files_keeps [OF _ that, of False denied out] by simp
  moreover have "write_files denied' False out fs' = (Inr (), fs')" if "write_files denied False out fs = (Inr (), fs')" for fs'
    using write_files_there [OF that] by (intro write_files_again) auto
  ultimately show ?thesis unfolding out by (cases "write_files denied False out fs") auto
qed

text \<open>Further: the service generated with a scaffold starts what the scaffold builds, in two of three languages:
  the Python file itself, and the manifest of the Rust project. For Java the archive is looked for two
  directories above the source file, inside the source tree, where the build never puts one: not in the
  \<^verbatim>\<open>target\<close> of the project.\<close>

theorem scaffold_command:
  "if na_lang a = ''python'' then
     service_command a (snd (scaffold_python tp dir a)) = (''python'', [show_path (dir @ [''processor.py''])])
   else if na_lang a = ''java'' then
     service_command a (snd (scaffold_java tp dir a)) = (''java'', [''-jar'',
       show_path (dir @ [''src'', ''main'', ''java'', ''io'', ''orionmesh'', ''target'', na_name a @ ''.jar''])]) \<and>
     snd (service_command a (snd (scaffold_java tp dir a))) \<noteq> [''-jar'', show_path (dir @ [''target'', na_name a @ ''.jar''])]
   else service_command a (snd (scaffold_rust tp dir a)) =
     (''cargo'', [''run'', ''--release'', ''--manifest-path'', show_path dir @ ''/Cargo.toml''])"
proof -
  have "butlast (butlast (dir @ [''src'', ''main'', ''java'', ''io'', ''orionmesh'', ''processor'', ''Processor.java''])) =
      dir @ [''src'', ''main'', ''java'', ''io'', ''orionmesh'']"
    "butlast (butlast (dir @ [''src'', ''main.rs''])) = dir" by (simp_all add: butlast_append)
  then show ?thesis
    by (simp add: service_command_def scaffold_python_def scaffold_java_def scaffold_rust_def Let_def show_path_def)
qed

subsection \<open>Witnesses\<close>

theorem bench_percentiles_witness:
  "\<exists>s. print_consumer_stats [30, 10, 20] = Inr s \<and> {cs_p50 s, cs_p95 s, cs_p99 s} \<subseteq> {10, 20, 30} \<and> cs_p50 s \<le> cs_p95 s"
proof -
  have "\<not> (\<exists>e. print_consumer_stats [30, 10, 20] = Inl e)"
    using bench_percentiles [of "[30, 10, 20]"] by (auto split: sum.splits)
  then obtain s where "print_consumer_stats [30, 10, 20] = Inr s" by (cases "print_consumer_stats [30, 10, 20]") auto
  with bench_percentiles [of "[30, 10, 20]"] show ?thesis by auto
qed

theorem tui_draws_fresh_witness:
  "list_all (\<lambda>(now, st). case tn_last_refresh (tu_snap st) of None \<Rightarrow> False | Some t \<Rightarrow> t \<le> now \<and> now - t < 3)
    (run_tui 3 [(0, \<lambda>_. Inr JNull, Some (Key_Char CHR ''r'')), (1, \<lambda>_. Inl ''down'', None), (5, \<lambda>_. Inr JNull, Some Key_Esc)] (tui_start 3 0))"
  by (rule tui_draws_fresh) simp_all

theorem init_idempotent_witness:
  "hm_get (snd (init_processor (\<lambda>_. False) \<lparr>tp_requirements = [], tp_python_setup = (\<lambda>n. n), tp_python = ''p'', tp_java_pom = (\<lambda>n. n),
       tp_java_setup = (\<lambda>n. n), tp_java = [], tp_cargo = (\<lambda>n. n), tp_rust = []\<rparr> [''w'']
     \<lparr>na_name = ''w'', na_queue = ''q'', na_lang = ''python'', na_group = None, na_replicas = 1, na_force = False\<rparr>
     [([''w'', ''processor.py''], ''mine'')])) [''w'', ''processor.py''] = Some ''mine''"
  using init_idempotent [of "\<lparr>na_name = ''w'', na_queue = ''q'', na_lang = ''python'', na_group = None, na_replicas = 1, na_force = False\<rparr>"
      "[([''w'', ''processor.py''], ''mine'')]"]
  by (simp add: hm_get_def)

end
