(* ===== verification/Bus_Client.thy ===== *)
theory Bus_Client
  imports Bus Orion_Json
begin

text \<open>
  The convenience layer over the broker's client (\<^verbatim>\<open>crates/orion-bus/src/client.rs\<close>) and the two
  programs of the messaging demo (\<^verbatim>\<open>crates/orion-demo-bins/src/bin/pub.rs\<close>, \<^verbatim>\<open>sub.rs\<close>).

  What the broker answers to a connection, the creation of a stream, a publication, its
  acknowledgement and the acknowledgement of a received message is a parameter. The programs are
  functions of these answers: a publisher's endless loop is a number of rounds, a subscriber's loop
  a recursion over what it receives; both end at the first error.
\<close>

subsection \<open>The client layer (\<^verbatim>\<open>client.rs\<close>)\<close>

datatype client_error =
    Client_Connect string
  | Client_Publish string
  | Client_JsPublish string
  | Client_JsPublishAck string
  | Client_JsCreateStream string
  | Client_Json string

record connect_options =
  co_token :: "string option"
  co_timeout_seconds :: nat

definition client_options :: "string option \<Rightarrow> connect_options" where
  "client_options tok =
     \<lparr>co_token = (case tok of Some t \<Rightarrow> if t \<noteq> [] then Some t else None | None \<Rightarrow> None), co_timeout_seconds = 5\<rparr>"

definition client_connect ::
  "(connect_options \<Rightarrow> string \<Rightarrow> string + 'c) \<Rightarrow> string \<Rightarrow> string option \<Rightarrow> client_error + 'c" where
  "client_connect dial url tok =
     (case dial (client_options tok) url of Inl e \<Rightarrow> Inl (Client_Connect e) | Inr c \<Rightarrow> Inr c)"

definition ensure_stream :: "(stream_config \<Rightarrow> string + 's) \<Rightarrow> stream_config \<Rightarrow> client_error + 's" where
  "ensure_stream get_or_create cfg =
     (case get_or_create cfg of Inl e \<Rightarrow> Inl (Client_JsCreateStream e) | Inr s \<Rightarrow> Inr s)"

text \<open>A publication to a stream answers twice: when it is handed over, and with the sequence number
  when it is stored.\<close>

type_synonym js_sender = "string \<Rightarrow> string \<Rightarrow> string + (string + u64)"

definition publish_bytes :: "js_sender \<Rightarrow> string \<Rightarrow> string \<Rightarrow> client_error + u64" where
  "publish_bytes js subject payload =
     (case js subject payload of
        Inl e \<Rightarrow> Inl (Client_JsPublish e)
      | Inr (Inl e) \<Rightarrow> Inl (Client_JsPublishAck e)
      | Inr (Inr sequence) \<Rightarrow> Inr sequence)"

definition publish_json :: "js_sender \<Rightarrow> ('v \<Rightarrow> string + string) \<Rightarrow> string \<Rightarrow> 'v \<Rightarrow> client_error + u64" where
  "publish_json js to_vec subject v =
     (case to_vec v of
        Inl e \<Rightarrow> Inl (Client_Json e)
      | Inr bytes \<Rightarrow>
          (case js subject bytes of
             Inl e \<Rightarrow> Inl (Client_JsPublish e)
           | Inr (Inl e) \<Rightarrow> Inl (Client_JsPublishAck e)
           | Inr (Inr sequence) \<Rightarrow> Inr sequence))"

subsection \<open>The demo publisher (\<^verbatim>\<open>pub.rs\<close>)\<close>

record demo_pub_args =
  dpa_nats_url :: string
  dpa_subject :: string
  dpa_label :: "string option"
  dpa_jetstream :: bool
  dpa_stream :: string

record demo_bus =
  dm_connect_error :: "string \<Rightarrow> string option"
  dm_stream_error :: "string \<Rightarrow> string list \<Rightarrow> string option"
  dm_publish_error :: "nat \<Rightarrow> string option"
  dm_js_publish :: "nat \<Rightarrow> string + (string + u64)"
  dm_clock :: "nat \<Rightarrow> string"

definition demo_label :: "string option \<Rightarrow> string option \<Rightarrow> string" where
  "demo_label given replica =
     unwrap_or (option_or given (map_option (\<lambda>i. ''r'' @ i) replica)) ''demo''"

definition subject_wildcard :: "string \<Rightarrow> string" where
  "subject_wildcard subject =
     (if CHR ''>'' \<in> set subject \<or> CHR ''*'' \<in> set subject then subject else subject @ ''.>'')"

definition tick_subject :: "demo_pub_args \<Rightarrow> string" where
  "tick_subject a = (if dpa_jetstream a then dpa_subject a @ ''.tick'' else dpa_subject a)"

definition tick_line :: "u64 \<Rightarrow> string \<Rightarrow> string \<Rightarrow> string" where
  "tick_line i label ts = ''tick '' @ show_nat (unat i) @ '' from '' @ label @ '' at '' @ ts"

text \<open>One round: the number of the tick, and what was published so far.\<close>

definition pub_round ::
  "demo_bus \<Rightarrow> demo_pub_args \<Rightarrow> string \<Rightarrow> u64 \<times> (string \<times> string) list \<Rightarrow> string + u64 \<times> (string \<times> string) list" where
  "pub_round bus a label = (\<lambda>(i, sent).
     let i = i + 1; line = tick_line i label (dm_clock bus (length sent)); to = tick_subject a
     in if dpa_jetstream a then
          (case dm_js_publish bus (length sent) of
             Inl e \<Rightarrow> Inl e
           | Inr (Inl e) \<Rightarrow> Inl e
           | Inr (Inr _) \<Rightarrow> Inr (i, sent @ [(to, line)]))
        else
          (case dm_publish_error bus (length sent) of
             Some e \<Rightarrow> Inl e
           | None \<Rightarrow> Inr (i, sent @ [(to, line)])))"

fun pub_rounds ::
  "demo_bus \<Rightarrow> demo_pub_args \<Rightarrow> string \<Rightarrow> nat \<Rightarrow> u64 \<times> (string \<times> string) list \<Rightarrow> string + u64 \<times> (string \<times> string) list" where
  "pub_rounds bus a label 0 s = Inr s"
| "pub_rounds bus a label (Suc n) s =
     (case pub_round bus a label s of Inl e \<Rightarrow> Inl e | Inr s' \<Rightarrow> pub_rounds bus a label n s')"

definition demo_pub ::
  "demo_bus \<Rightarrow> demo_pub_args \<Rightarrow> string option \<Rightarrow> nat \<Rightarrow> string + u64 \<times> (string \<times> string) list" where
  "demo_pub bus a replica n =
     (case dm_connect_error bus (dpa_nats_url a) of
        Some e \<Rightarrow> Inl e
      | None \<Rightarrow>
          (case (if dpa_jetstream a then dm_stream_error bus (dpa_stream a) [subject_wildcard (dpa_subject a)] else None) of
             Some e \<Rightarrow> Inl e
           | None \<Rightarrow> pub_rounds bus a (demo_label (dpa_label a) replica) n (0, [])))"

subsection \<open>The demo subscriber (\<^verbatim>\<open>sub.rs\<close>)\<close>

record demo_sub_args =
  dsa_nats_url :: string
  dsa_subject :: string
  dsa_queue_group :: "string option"
  dsa_jetstream :: bool
  dsa_stream :: string
  dsa_durable :: "string option"
  dsa_label :: "string option"

record demo_msg =
  dg_subject :: string
  dg_payload :: string
  dg_sequence :: "u64 option"

definition sub_mode :: "demo_sub_args \<Rightarrow> string" where
  "sub_mode a =
     (if dsa_jetstream a then
        ''JetStream stream='' @ dsa_stream a @ '' durable='' @ unwrap_or (dsa_durable a) ''(ephemeral)''
      else case dsa_queue_group a of
             Some g \<Rightarrow> ''core queue-group '' @ [CHR 0x27] @ g @ [CHR 0x27]
           | None \<Rightarrow> ''core fan-out (no queue group)'')"

definition durable_name :: "demo_sub_args \<Rightarrow> string \<Rightarrow> string" where
  "durable_name a label = unwrap_or (dsa_durable a) (''ephemeral-'' @ label)"

definition core_line :: "string \<Rightarrow> demo_msg \<Rightarrow> string" where
  "core_line label m =
     ''[demo-sub:'' @ label @ ''] recv: '' @ dg_payload m @ '' (subject='' @ dg_subject m @ '')''"

definition run_core :: "string \<Rightarrow> demo_msg list \<Rightarrow> string list" where
  "run_core label msgs = map (core_line label) msgs"

definition js_line :: "string \<Rightarrow> demo_msg \<Rightarrow> string" where
  "js_line label m =
     ''[demo-sub:'' @ label @ ''] recv (seq='' @ show_nat (unat (unwrap_or (dg_sequence m) 0)) @ ''): '' @
     dg_payload m @ '' (subject='' @ dg_subject m @ '')''"

text \<open>The loop over the messages of a consumer: what is printed, what is acknowledged, and the error
  that ended it.\<close>

fun run_jetstream ::
  "(demo_msg \<Rightarrow> string option) \<Rightarrow> string \<Rightarrow> (string + demo_msg) list \<Rightarrow> string list \<times> demo_msg list \<times> string option" where
  "run_jetstream ack_error label [] = ([], [], None)"
| "run_jetstream ack_error label (Inl e # ms) = ([], [], Some e)"
| "run_jetstream ack_error label (Inr m # ms) =
     (case ack_error m of
        Some e \<Rightarrow> ([js_line label m], [], Some e)
      | None \<Rightarrow>
          (let (out, acked, fin) = run_jetstream ack_error label ms
           in (js_line label m # out, m # acked, fin)))"
text \<open>What the broker answers a subscriber, and what it delivers.\<close>

record demo_feed =
  df_connect_error :: "string \<Rightarrow> string option"
  df_subscribe_error :: "string \<Rightarrow> string option \<Rightarrow> string option"
  df_core :: "string \<Rightarrow> string option \<Rightarrow> demo_msg list"
  df_stream_error :: "string \<Rightarrow> string list \<Rightarrow> string option"
  df_consumer_error :: "string \<Rightarrow> string option"
  df_messages_error :: "string option"
  df_js :: "string \<Rightarrow> string \<Rightarrow> (string + demo_msg) list"
  df_ack_error :: "demo_msg \<Rightarrow> string option"

text \<open>Opening a durable consumer: the stream, the consumer and its messages, or the first error.\<close>

definition demo_open :: "demo_feed \<Rightarrow> demo_sub_args \<Rightarrow> string \<Rightarrow> string + (string + demo_msg) list" where
  "demo_open feed a label =
     (case df_stream_error feed (dsa_stream a) [subject_wildcard (dsa_subject a)] of
        Some e \<Rightarrow> Inl e
      | None \<Rightarrow>
          (let durable = durable_name a label
           in case df_consumer_error feed durable of
                Some e \<Rightarrow> Inl e
              | None \<Rightarrow>
                  (case df_messages_error feed of
                     Some e \<Rightarrow> Inl e
                   | None \<Rightarrow> Inr (df_js feed (dsa_stream a) durable))))"

text \<open>The program: its printed messages, the acknowledged ones, and the error it ends with.\<close>

definition demo_sub :: "demo_feed \<Rightarrow> demo_sub_args \<Rightarrow> string option \<Rightarrow> string list \<times> demo_msg list \<times> string option" where
  "demo_sub feed a replica =
     (let label = demo_label (dsa_label a) replica
      in case df_connect_error feed (dsa_nats_url a) of
           Some e \<Rightarrow> ([], [], Some e)
         | None \<Rightarrow>
             (if dsa_jetstream a then
                (case demo_open feed a label of
                   Inl e \<Rightarrow> ([], [], Some e)
                 | Inr msgs \<Rightarrow> run_jetstream (df_ack_error feed) label msgs)
              else
                (case df_subscribe_error feed (dsa_subject a) (dsa_queue_group a) of
                   Some e \<Rightarrow> ([], [], Some e)
                 | None \<Rightarrow> (run_core label (df_core feed (dsa_subject a) (dsa_queue_group a)), [], None))))"

subsection \<open>What the layer and the programs do\<close>

text \<open>Further: the two ways of publishing agree: a value is published as its bytes are, and fails
  before anything is sent when it has no JSON form.\<close>

theorem publish_json_bytes:
  "publish_json js to_vec subject v =
     (case to_vec v of Inl e \<Rightarrow> Inl (Client_Json e) | Inr bytes \<Rightarrow> publish_bytes js subject bytes)"
  by (simp add: publish_json_def publish_bytes_def split: sum.split)

text \<open>Further: an empty token is no token, so a client never offers the broker an empty
  credential.\<close>

theorem client_options_token: "co_token (client_options tok) \<noteq> Some [] \<and> (tok \<noteq> Some [] \<longrightarrow> co_token (client_options tok) = tok)"
  by (cases tok) (auto simp: client_options_def)

definition bus_accepts :: "demo_bus \<Rightarrow> demo_pub_args \<Rightarrow> bool" where
  "bus_accepts bus a \<longleftrightarrow>
     dm_connect_error bus (dpa_nats_url a) = None \<and>
     (if dpa_jetstream a
      then dm_stream_error bus (dpa_stream a) [subject_wildcard (dpa_subject a)] = None \<and>
           (\<forall>n. \<exists>k. dm_js_publish bus n = Inr (Inr k))
      else \<forall>n. dm_publish_error bus n = None)"

definition ticks :: "demo_bus \<Rightarrow> demo_pub_args \<Rightarrow> string \<Rightarrow> nat \<Rightarrow> (string \<times> string) list" where
  "ticks bus a label n = map (\<lambda>k. (tick_subject a, tick_line (of_nat (Suc k)) label (dm_clock bus k))) [0..<n]"

lemma length_ticks [simp]: "length (ticks bus a label n) = n"
  by (simp add: ticks_def)

lemma ticks_Suc: "ticks bus a label (Suc n) =
    ticks bus a label n @ [(tick_subject a, tick_line (of_nat (Suc n)) label (dm_clock bus n))]"
  by (simp add: ticks_def)

lemma pub_round_ticks:
  assumes "bus_accepts bus a"
  shows "pub_round bus a label (of_nat n, ticks bus a label n) = Inr (of_nat (Suc n), ticks bus a label (Suc n))"
proof -
  obtain k where "dpa_jetstream a \<Longrightarrow> dm_js_publish bus n = Inr (Inr k)"
    using assms unfolding bus_accepts_def by meson
  with assms show ?thesis
    by (simp add: pub_round_def Let_def ticks_Suc bus_accepts_def add.commute)
qed

lemma pub_rounds_ticks:
  "bus_accepts bus a \<Longrightarrow>
     pub_rounds bus a label n (of_nat m, ticks bus a label m) = Inr (of_nat (m + n), ticks bus a label (m + n))"
proof (induction n arbitrary: m)
  case (Suc n)
  then show ?case using Suc.IH [of "Suc m"] by (simp add: pub_round_ticks del: of_nat_Suc of_nat_add)
qed simp

text \<open>Further: on a broker that accepts everything the publisher sends the ticks in order, numbered
  from one, each to the one subject of its mode.\<close>

theorem demo_pub_ticks:
  assumes "bus_accepts bus a"
  shows "demo_pub bus a replica n = Inr (of_nat n, ticks bus a (demo_label (dpa_label a) replica) n)"
proof -
  have start: "((0 :: u64), []) = (of_nat 0, ticks bus a (demo_label (dpa_label a) replica) 0)"
    by (simp add: ticks_def)
  from assms show ?thesis
    unfolding demo_pub_def start pub_rounds_ticks [OF assms] by (auto simp: bus_accepts_def)
qed

text \<open>The documented meaning of the trailing wildcard: one or more tokens.\<close>

definition gt_matching :: "(string \<Rightarrow> string \<Rightarrow> bool) \<Rightarrow> bool" where
  "gt_matching matches \<longleftrightarrow>
     (\<forall>p s. CHR ''*'' \<notin> set p \<and> CHR ''>'' \<notin> set p \<longrightarrow>
        (matches (p @ ''.>'') s \<longleftrightarrow> (\<exists>t. s = p @ ''.'' @ t \<and> t \<noteq> [])))"

text \<open>Further: the stream the publisher creates stores its ticks, and only below its subject: a
  message on the subject itself, the one the publisher sends to without the flag, is not stored.
  When the subject is itself a wildcard, the subject of the ticks contains the wildcard.\<close>

theorem demo_stream_covers:
  assumes "gt_matching matches" and "dpa_jetstream a"
  shows "CHR ''*'' \<notin> set (dpa_subject a) \<and> CHR ''>'' \<notin> set (dpa_subject a) \<Longrightarrow>
           matches (subject_wildcard (dpa_subject a)) (tick_subject a) \<and>
           \<not> matches (subject_wildcard (dpa_subject a)) (dpa_subject a)"
    and "CHR ''*'' \<in> set (dpa_subject a) \<or> CHR ''>'' \<in> set (dpa_subject a) \<Longrightarrow>
           CHR ''*'' \<in> set (tick_subject a) \<or> CHR ''>'' \<in> set (tick_subject a)"
  using assms by (auto simp: gt_matching_def subject_wildcard_def tick_subject_def)

lemma run_jetstream_acks:
  assumes "run_jetstream ack_error label ms = (out, acked, fin)"
  shows "fin = None \<Longrightarrow> ms = map Inr acked \<and> out = map (js_line label) acked"
    and "\<exists>rest. ms = map Inr acked @ rest"
    and "\<exists>unacked. out = map (js_line label) acked @ unacked \<and> length unacked \<le> 1"
    and "\<forall>m \<in> set acked. ack_error m = None"
  using assms
  by (induction ack_error label ms arbitrary: out acked fin rule: run_jetstream.induct)
    (auto split: option.splits prod.splits)

text \<open>Further: the subscriber acknowledges what it prints. From a durable consumer, what is
  acknowledged is a prefix of what was delivered and everything printed, except a last message
  whose acknowledgement failed; without an error every message was printed and acknowledged.\<close>

theorem demo_sub_acks:
  assumes "demo_sub feed a replica = (out, acked, fin)" and "dsa_jetstream a"
  defines "label \<equiv> demo_label (dsa_label a) replica"
  shows "fin = None \<Longrightarrow> df_js feed (dsa_stream a) (durable_name a label) = map Inr acked \<and> out = map (js_line label) acked"
    and "\<exists>rest. df_js feed (dsa_stream a) (durable_name a label) = map Inr acked @ rest"
    and "\<exists>unacked. out = map (js_line label) acked @ unacked \<and> length unacked \<le> 1"
  using assms run_jetstream_acks [of "df_ack_error feed" label "df_js feed (dsa_stream a) (durable_name a label)" out acked fin]
  by (auto simp: demo_sub_def demo_open_def Let_def split: option.splits)

text \<open>Further: the consumer announced as ephemeral is durable, and two subscribers started without
  a label and a replica index share it: they split the messages between them.\<close>

theorem ephemeral_shared:
  assumes "dsa_jetstream a" and "dsa_durable a = None" and "dsa_label a = None"
  shows "sub_mode a = ''JetStream stream='' @ dsa_stream a @ '' durable=(ephemeral)''"
    and "durable_name a (demo_label (dsa_label a) None) = ''ephemeral-demo''"
  using assms by (simp_all add: sub_mode_def durable_name_def demo_label_def unwrap_or_def option_or_def)

end
