(* ===== verification/Cli_Requests.thy ===== *)
theory Cli_Requests
  imports Cli_Commands Bus_Client
begin

text \<open>
  The requests of the client as they go over the wire, and the commands that only read: the HTTP
  wrapper (\<^verbatim>\<open>http.rs\<close>), the connection to the broker (\<^verbatim>\<open>nats.rs\<close>), the output formats (\<^verbatim>\<open>output.rs\<close>),
  \<^verbatim>\<open>get.rs\<close>, \<^verbatim>\<open>describe.rs\<close>, \<^verbatim>\<open>diag.rs\<close>, \<^verbatim>\<open>schedules.rs\<close> and the description of a queue (\<^verbatim>\<open>queue.rs\<close>).
  The server is a parameter that answers a request, the parser of JSON text another. What a command
  prints is a list of documents and tables; the text of a document is serde's.
\<close>

subsection \<open>Requests (\<^verbatim>\<open>http.rs\<close>)\<close>

datatype request_method = Req_Get | Req_Post | Req_Delete

record http_request =
  hq_method :: request_method
  hq_url :: string
  hq_auth :: "string option"
  hq_content_type :: "string option"
  hq_body :: "string option"

record cli_answer =
  hp_status :: nat
  hp_status_text :: string
  hp_text :: "string + string"

text \<open>What a request meets: the server, the texts a header may hold, and the JSON parser.\<close>

record http_world =
  hw_server :: "http_request \<Rightarrow> string + cli_answer"
  hw_header_ok :: "string \<Rightarrow> bool"
  hw_parse :: "string \<Rightarrow> json option"

fun show_method :: "request_method \<Rightarrow> string" where
  "show_method Req_Get = ''GET''"
| "show_method Req_Post = ''POST''"
| "show_method Req_Delete = ''DELETE''"

definition http_send ::
  "http_world \<Rightarrow> cli_ctx \<Rightarrow> request_method \<Rightarrow> string \<Rightarrow> string option \<Rightarrow> string option \<Rightarrow> cli_error + cli_answer" where
  "http_send w ctx m path content body =
     (case http_headers (hw_header_ok w) ctx of
        Inl e \<Rightarrow> Inl (Cli_Error e)
      | Inr auth \<Rightarrow>
          (case hw_server w \<lparr>hq_method = m, hq_url = http_url ctx path, hq_auth = auth,
                             hq_content_type = content, hq_body = body\<rparr> of
             Inl _ \<Rightarrow> Inl (Cli_Error (show_method m @ '' '' @ http_url ctx path))
           | Inr r \<Rightarrow> Inr r))"

definition status_is_error :: "nat \<Rightarrow> bool" where
  "status_is_error s \<longleftrightarrow> 400 \<le> s \<and> s < 600"

definition status_is_success :: "nat \<Rightarrow> bool" where
  "status_is_success s \<longleftrightarrow> 200 \<le> s \<and> s < 300"

definition get_text :: "http_world \<Rightarrow> cli_ctx \<Rightarrow> string \<Rightarrow> cli_error + string" where
  "get_text w ctx path =
     (case http_send w ctx Req_Get path None None of
        Inl e \<Rightarrow> Inl e
      | Inr r \<Rightarrow>
          (if status_is_error (hp_status r) then Inl (Cli_Error (''GET '' @ http_url ctx path))
           else (case hp_text r of Inl e \<Rightarrow> Inl (Cli_Error e) | Inr t \<Rightarrow> Inr t)))"

definition get_json :: "http_world \<Rightarrow> cli_ctx \<Rightarrow> string \<Rightarrow> cli_error + json" where
  "get_json w ctx path =
     (case get_text w ctx path of
        Inl e \<Rightarrow> Inl e
      | Inr t \<Rightarrow>
          (case hw_parse w t of None \<Rightarrow> Inl (Cli_Error ''error decoding response body'') | Some v \<Rightarrow> Inr v))"

text \<open>The three requests that change something read their answer the same way; a body that cannot
  be read counts as empty.\<close>

definition read_answer :: "http_world \<Rightarrow> request_method \<Rightarrow> string \<Rightarrow> cli_answer \<Rightarrow> cli_error + json" where
  "read_answer w m url r =
     (let t = (case hp_text r of Inl _ \<Rightarrow> [] | Inr t \<Rightarrow> t)
      in if \<not> status_is_success (hp_status r)
         then Inl (Cli_Error (show_method m @ '' '' @ url @ '' -> '' @ hp_status_text r @ [newline] @ t))
         else if t = [] then Inr JNull
         else (case hw_parse w t of
                 None \<Rightarrow> Inl (Cli_Error (''decoding response from '' @ url @ [newline] @ t))
               | Some v \<Rightarrow> Inr v))"

definition post_yaml :: "http_world \<Rightarrow> cli_ctx \<Rightarrow> string \<Rightarrow> string \<Rightarrow> cli_error + json" where
  "post_yaml w ctx path body =
     (case http_send w ctx Req_Post path (Some ''application/yaml'') (Some body) of
        Inl e \<Rightarrow> Inl e
      | Inr r \<Rightarrow> read_answer w Req_Post (http_url ctx path) r)"

definition post_empty :: "http_world \<Rightarrow> cli_ctx \<Rightarrow> string \<Rightarrow> cli_error + json" where
  "post_empty w ctx path =
     (case http_send w ctx Req_Post path None None of
        Inl e \<Rightarrow> Inl e
      | Inr r \<Rightarrow> read_answer w Req_Post (http_url ctx path) r)"

definition delete_path :: "http_world \<Rightarrow> cli_ctx \<Rightarrow> string \<Rightarrow> cli_error + json" where
  "delete_path w ctx path =
     (case http_send w ctx Req_Delete path None None of
        Inl e \<Rightarrow> Inl e
      | Inr r \<Rightarrow> read_answer w Req_Delete (http_url ctx path) r)"

text \<open>The connection to the broker (\<^verbatim>\<open>nats.rs\<close>).\<close>

definition nats_connect :: "(connect_options \<Rightarrow> string \<Rightarrow> string + 'c) \<Rightarrow> cli_ctx \<Rightarrow> cli_error + 'c" where
  "nats_connect dial ctx =
     (case client_connect dial (cc_nats_url ctx) (cc_token ctx) of
        Inl _ \<Rightarrow> Inl (Cli_Error (''connecting to NATS at '' @ cc_nats_url ctx))
      | Inr c \<Rightarrow> Inr c)"

subsection \<open>Output (\<^verbatim>\<open>output.rs\<close>)\<close>

datatype out_format = Fmt_Table | Fmt_Json | Fmt_Yaml | Fmt_Wide

datatype printed =
    Printed_Json json
  | Printed_Yaml json
  | Printed_Table "string list" "string list list"
  | Printed_Line string

definition render_value :: "out_format \<Rightarrow> json \<Rightarrow> printed" where
  "render_value fmt v = (if fmt = Fmt_Json then Printed_Json v else Printed_Yaml v)"

subsection \<open>Reading commands (\<^verbatim>\<open>get.rs\<close>, \<^verbatim>\<open>describe.rs\<close>, \<^verbatim>\<open>diag.rs\<close>)\<close>

datatype get_what = Get_Nodes | Get_Kinds | Get_Kind "string list"

definition render_nodes_table :: "json \<Rightarrow> printed list" where
  "render_nodes_table v =
     (case as_array v of
        None \<Rightarrow> [Printed_Yaml v]
      | Some arr \<Rightarrow> [Printed_Table [''node'', ''arch'', ''os'', ''last seen''] (map node_table_row arr)])"

definition render_resource_table :: "(json \<Rightarrow> string) \<Rightarrow> json \<Rightarrow> printed list" where
  "render_resource_table print v =
     (case as_array v of
        None \<Rightarrow> [Printed_Yaml v]
      | Some arr \<Rightarrow> [Printed_Table [''kind'', ''name'', ''gen'', ''phase''] (map (resource_table_row print) arr)])"

definition kind_lines :: "json \<Rightarrow> printed list" where
  "kind_lines v =
     (case Option.bind (json_get v ''kinds'') as_array of
        None \<Rightarrow> []
      | Some arr \<Rightarrow> map Printed_Line (List.map_filter as_str arr))"

text \<open>The table formats have their own rendering, the others print the document.\<close>

definition by_format :: "out_format \<Rightarrow> json \<Rightarrow> (json \<Rightarrow> printed list) \<Rightarrow> printed list" where
  "by_format fmt v table =
     (case fmt of Fmt_Json \<Rightarrow> [Printed_Json v] | Fmt_Yaml \<Rightarrow> [Printed_Yaml v] | _ \<Rightarrow> table v)"

definition run_get ::
  "http_world \<Rightarrow> (json \<Rightarrow> string) \<Rightarrow> cli_ctx \<Rightarrow> out_format \<Rightarrow> get_what \<Rightarrow> cli_error + printed list" where
  "run_get w print ctx fmt what =
     (case what of
        Get_Nodes \<Rightarrow>
          (case get_json w ctx ''/v1/nodes'' of Inl e \<Rightarrow> Inl e | Inr v \<Rightarrow> Inr (by_format fmt v render_nodes_table))
      | Get_Kinds \<Rightarrow>
          (case get_json w ctx ''/v1/kinds'' of Inl e \<Rightarrow> Inl e | Inr v \<Rightarrow> Inr (by_format fmt v kind_lines))
      | Get_Kind parts \<Rightarrow>
          (case parts of
             [] \<Rightarrow> Inl Cli_Panic
           | k # rest \<Rightarrow>
               (let kind = canonical_kind k
                in case rest of
                     name # _ \<Rightarrow>
                       (case get_json w ctx (''/v1/resources/'' @ kind @ ''/'' @ name) of
                          Inl e \<Rightarrow> Inl e
                        | Inr v \<Rightarrow> Inr [render_value fmt v])
                   | [] \<Rightarrow>
                       (case get_json w ctx (''/v1/resources/'' @ kind) of
                          Inl e \<Rightarrow> Inl e
                        | Inr v \<Rightarrow> Inr (by_format fmt v (render_resource_table print))))))"

definition run_describe :: "http_world \<Rightarrow> cli_ctx \<Rightarrow> out_format \<Rightarrow> string \<Rightarrow> string \<Rightarrow> cli_error + printed list" where
  "run_describe w ctx fmt kind name =
     (case get_json w ctx (''/v1/resources/'' @ canonical_kind kind @ ''/'' @ name) of
        Inl e \<Rightarrow> Inl e
      | Inr v \<Rightarrow> Inr [render_value fmt v])"

datatype diag_sub = Diag_System | Diag_Jetstream

definition run_diag :: "http_world \<Rightarrow> cli_ctx \<Rightarrow> out_format \<Rightarrow> diag_sub \<Rightarrow> cli_error + printed list" where
  "run_diag w ctx fmt sub =
     (case get_json w ctx (case sub of Diag_System \<Rightarrow> ''/v1/diag/system'' | Diag_Jetstream \<Rightarrow> ''/v1/diag/jetstream'') of
        Inl e \<Rightarrow> Inl e
      | Inr v \<Rightarrow> Inr [render_value fmt v])"

subsection \<open>Schedules (\<^verbatim>\<open>schedules.rs\<close>)\<close>

datatype schedule_sub = Schedule_List | Schedule_Observed | Schedule_Create string string string

definition schedule_yaml :: "string \<Rightarrow> string \<Rightarrow> string \<Rightarrow> string" where
  "schedule_yaml name cron task =
     ''apiVersion: orionmesh.dev/v1'' @ [newline] @ ''kind: Schedule'' @ [newline] @ ''metadata:'' @ [newline] @
     ''  name: '' @ name @ [newline] @ ''spec:'' @ [newline] @ ''  cron: '' @ debug_str cron @ [newline] @
     ''  task: '' @ task @ [newline]"

definition run_schedule :: "http_world \<Rightarrow> cli_ctx \<Rightarrow> out_format \<Rightarrow> schedule_sub \<Rightarrow> cli_error + printed list" where
  "run_schedule w ctx fmt sub =
     (case sub of
        Schedule_List \<Rightarrow>
          (case get_json w ctx ''/v1/resources/Schedule'' of
             Inl e \<Rightarrow> Inl e
           | Inr v \<Rightarrow> Inr [render_value fmt v])
      | Schedule_Observed \<Rightarrow>
          (case get_json w ctx ''/v1/schedules/observed'' of
             Inl e \<Rightarrow> Inl e
           | Inr v \<Rightarrow> Inr [render_value fmt v])
      | Schedule_Create name cron task \<Rightarrow>
          (case post_yaml w ctx ''/v1/resources/apply'' (schedule_yaml name cron task) of
             Inl e \<Rightarrow> Inl e
           | Inr _ \<Rightarrow> Inr [Printed_Line (''applied Schedule/'' @ name)]))"
subsection \<open>A queue and its stream (\<^verbatim>\<open>queue.rs\<close>)\<close>

record stream_state =
  ss_messages :: u64
  ss_bytes :: u64
  ss_first_sequence :: u64
  ss_last_sequence :: u64
  ss_consumer_count :: nat

record consumer_info =
  ci_name :: string
  ci_num_ack_pending :: nat
  ci_delivered :: u64
  ci_ack_floor :: u64

text \<open>What the broker shows of a stream: its state, when it can be read, and its consumers, each with
  an error or its numbers.\<close>

record stream_view =
  sw_state :: "stream_state option"
  sw_consumers :: "(string + consumer_info) list"

fun debug_queue_type :: "queue_type \<Rightarrow> string" where
  "debug_queue_type Topic_Queue = ''Topic''"
| "debug_queue_type Work_Queue = ''Work''"

definition stream_state_lines :: "stream_state \<Rightarrow> string list" where
  "stream_state_lines s =
     [''messages: '' @ show_nat (unat (ss_messages s)), ''bytes:    '' @ show_nat (unat (ss_bytes s)),
      ''first_seq: '' @ show_nat (unat (ss_first_sequence s)), ''last_seq:  '' @ show_nat (unat (ss_last_sequence s)),
      ''consumers: '' @ show_nat (ss_consumer_count s)]"

definition consumer_line :: "consumer_info \<Rightarrow> string" where
  "consumer_line c =
     ''  '' @ ci_name c @ '' pending_acks='' @ show_nat (ci_num_ack_pending c) @
     '' delivered='' @ show_nat (unat (ci_delivered c)) @ '' ack_floor='' @ show_nat (unat (ci_ack_floor c))"

text \<open>The lines on standard output; errors of single consumers go to standard error. Without a
  connection to the broker only the resource is described. The last message has a dash that is not
  ASCII.\<close>

definition describe_stream :: "cli_error + (string \<Rightarrow> stream_view option) \<Rightarrow> string \<Rightarrow> string list" where
  "describe_stream broker stream =
     (case broker of
        Inl _ \<Rightarrow> []
      | Inr get_stream \<Rightarrow>
          (case get_stream stream of
             None \<Rightarrow> [''stream not yet created  publish a message first'']
           | Some sw \<Rightarrow>
               (case sw_state sw of None \<Rightarrow> [] | Some s \<Rightarrow> stream_state_lines s) @
               [[], ''-- consumers --''] @
               map consumer_line (List.map_filter result_ok (sw_consumers sw))))"

definition run_queue_describe ::
  "ctl_ext \<Rightarrow> cli_error + (string \<Rightarrow> stream_view option) \<Rightarrow> string \<Rightarrow> app_state \<Rightarrow> cli_error + string list" where
  "run_queue_describe ext broker name st =
     (case fetch_queue_resource ext name st of
        Inl e \<Rightarrow> Inl e
      | Inr None \<Rightarrow> Inl (Cli_Error (''queue '' @ name @ '' not found''))
      | Inr (Some r) \<Rightarrow>
          (case queue_of r of
             None \<Rightarrow> Inl (Cli_Error (''resource '' @ name @ '' is not a Queue''))
           | Some spec \<Rightarrow>
               (let (subject, cfg) = queue_stream_config name spec
                in Inr ([''name:    '' @ name, ''type:    '' @ debug_queue_type (qs_queue_type spec),
                         ''subject: '' @ subject, ''stream:  '' @ sg_name cfg] @
                        describe_stream broker (sg_name cfg)))))"

subsection \<open>What the requests carry and how answers are read\<close>

text \<open>Further: every request goes to the controller's address with the bearer token of the context,
  and with none when there is no token; a token that fits no header stops the command before anything
  is sent.\<close>

theorem http_send_request:
  "http_send w ctx m path content body =
     (let auth = (case cc_token ctx of Some t \<Rightarrow> if t = [] then None else Some (''Bearer '' @ t) | None \<Rightarrow> None)
      in if auth \<noteq> None \<and> \<not> hw_header_ok w (the auth) then Inl (Cli_Error ''invalid token characters'')
         else (case hw_server w \<lparr>hq_method = m, hq_url = cc_controller ctx @ path, hq_auth = auth,
                                 hq_content_type = content, hq_body = body\<rparr> of
                 Inl _ \<Rightarrow> Inl (Cli_Error (show_method m @ '' '' @ cc_controller ctx @ path))
               | Inr r \<Rightarrow> Inr r))"
  unfolding http_send_def http_headers_def http_url_def Let_def by (auto split: option.split)

lemma read_answer_ok:
  "read_answer w m url r = Inr v \<longleftrightarrow>
     status_is_success (hp_status r) \<and>
     (case hp_text r of Inl _ \<Rightarrow> v = JNull | Inr [] \<Rightarrow> v = JNull | Inr t \<Rightarrow> hw_parse w t = Some v)"
  by (auto simp: read_answer_def Let_def split: option.splits sum.splits list.splits)

text \<open>Further: what counts as a success of a changing request. The result is a value exactly when the
  server answered with a status of the two hundreds and a body that is empty, unreadable or JSON; an
  empty body is null.\<close>

theorem post_yaml_ok:
  "post_yaml w ctx path body = Inr v \<longleftrightarrow>
     (\<exists>auth r. http_headers (hw_header_ok w) ctx = Inr auth \<and>
        hw_server w \<lparr>hq_method = Req_Post, hq_url = http_url ctx path, hq_auth = auth,
                     hq_content_type = Some ''application/yaml'', hq_body = Some body\<rparr> = Inr r \<and>
        status_is_success (hp_status r) \<and>
        (case hp_text r of Inl _ \<Rightarrow> v = JNull | Inr [] \<Rightarrow> v = JNull | Inr t \<Rightarrow> hw_parse w t = Some v))"
  unfolding post_yaml_def http_send_def
  by (auto simp: read_answer_ok split: sum.splits)

text \<open>Further: a redirection that is not followed is read as a success by the reading requests and
  reported as an error by the changing ones.\<close>

theorem redirect_read_as_answer:
  assumes "http_headers (hw_header_ok w) ctx = Inr auth" and "300 \<le> hp_status r" and "hp_status r < 400"
    and "\<forall>q. hw_server w q = Inr r" and "hp_text r = Inr t" and "hw_parse w t = Some v"
  shows "get_json w ctx path = Inr v" and "\<exists>e. post_empty w ctx path = Inl e"
  using assms
  by (simp_all add: get_json_def get_text_def http_send_def post_empty_def read_answer_def Let_def
      status_is_error_def status_is_success_def)

text \<open>Further: describing a resource is getting it by name, in every format, whatever the server
  answers.\<close>

theorem describe_is_get: "run_describe w ctx fmt k name = run_get w print ctx fmt (Get_Kind (k # name # rest))"
  by (simp add: run_describe_def run_get_def Let_def split: sum.split)

text \<open>Further: a queue is described exactly if the controller has it, whatever state the broker is in:
  a broker that does not answer costs the lines on the stream only.\<close>

theorem queue_describe_total:
  "(\<exists>ls. run_queue_describe ext broker name st = Inr ls) \<longleftrightarrow>
     (\<exists>q. fetch_queue ext name st = Inr (Some q))"
  by (auto simp: run_queue_describe_def fetch_queue_def split: sum.splits option.splits prod.splits)

end
