(* ===== verification/Cli_Bench.thy ===== *)
theory Cli_Bench
  imports Cli_Stack Cli_Requests
begin

text \<open>
  The run of the queue benchmark (\<^verbatim>\<open>crates/orion-cli/src/cmd/bench.rs\<close>): the publishers, what they
  count, and the order of the two sides. The shares of the publishers, the consumer's loop and the
  percentiles are in \<open>Cli_Stack\<close>. A publisher is a task of its own; a publication that fails ends its
  task by a panic, which the run sees as a task without a count.
\<close>

subsection \<open>Publishers\<close>

record bench_ext =
  be_clock :: "nat \<Rightarrow> nat \<Rightarrow> u64"
  be_to_vec :: "json \<Rightarrow> string"
  be_publish_error :: "nat \<Rightarrow> nat \<Rightarrow> string option"

text \<open>A message of publisher \<open>p\<close>, in the order a map of serde prints its keys. The clock counts
  microseconds since 1970.\<close>

definition bench_payload :: "u64 \<Rightarrow> nat \<Rightarrow> nat \<Rightarrow> nat \<Rightarrow> json" where
  "bench_payload ts i p payload_size =
     JObject [(''_filler'', JString (replicate payload_size (CHR ''x''))), (''_i'', JNumber (PosInt (of_nat i))),
              (''_p'', JNumber (PosInt (of_nat p))), (''_ts_us'', JNumber (PosInt ts))]"

text \<open>The loop of one publisher from message \<open>i\<close> on: the bytes it counted unless it panicked, and
  what it handed to the broker. The acknowledgement is awaited and ignored.\<close>

fun publisher_loop ::
  "bench_ext \<Rightarrow> string \<Rightarrow> nat \<Rightarrow> nat \<Rightarrow> nat \<Rightarrow> nat \<Rightarrow> u64 \<Rightarrow> u64 option \<times> (string \<times> json) list" where
  "publisher_loop ext subject payload_size p i 0 bytes = (Some bytes, [])"
| "publisher_loop ext subject payload_size p i (Suc n) bytes =
     (let v = bench_payload (be_clock ext p i) i p payload_size;
          bytes = bytes + of_nat (length (be_to_vec ext v))
      in case be_publish_error ext p i of
           Some _ \<Rightarrow> (None, [])
         | None \<Rightarrow>
             (let (total, sent) = publisher_loop ext subject payload_size p (Suc i) n bytes
              in (total, (subject, v) # sent)))"

record producer_stats =
  ps_n :: u64
  ps_bytes :: u64

definition producer_run ::
  "bench_ext \<Rightarrow> string \<Rightarrow> u64 \<Rightarrow> nat \<Rightarrow> u32 \<Rightarrow> cli_error + producer_stats \<times> (string \<times> json) list list" where
  "producer_run ext subject n payload_size publishers =
     (case producer_shares n publishers of
        None \<Rightarrow> Inl Cli_Panic
      | Some shares \<Rightarrow>
          (let runs = map (\<lambda>(p, k). publisher_loop ext subject payload_size p 0 (unat k) 0) (enumerate 0 shares)
           in Inr (\<lparr>ps_n = n, ps_bytes = foldl (\<lambda>t r. t + unwrap_or (fst r) 0) 0 runs\<rparr>, map snd runs)))"

subsection \<open>The run\<close>

record bench_args =
  ba_name :: string
  ba_count :: u64
  ba_size :: nat
  ba_publishers :: u32
  ba_pub_only :: bool
  ba_sub_only :: bool
  ba_durable :: "string option"

definition lookup_queue :: "ctl_ext \<Rightarrow> string \<Rightarrow> app_state \<Rightarrow> cli_error + queue_spec" where
  "lookup_queue ext name st =
     (case http_get_resource ext ''Queue'' name st of
        Inl e \<Rightarrow> Inl (api_failed e)
      | Inr r \<Rightarrow>
          (case queue_of r of
             Some spec \<Rightarrow> Inr spec
           | None \<Rightarrow> Inl (Cli_Error (''resource '' @ name @ '' is not a Queue''))))"

definition bench_durable :: "bench_args \<Rightarrow> nat \<Rightarrow> string" where
  "bench_durable a pid = (case ba_durable a of Some d \<Rightarrow> d | None \<Rightarrow> ''bench-'' @ show_nat pid)"

text \<open>The consumer's task: its loop over what the durable consumer delivers, or an error from opening
  it. The wait for the task ends with its result, with its panic or after two minutes.\<close>

datatype consumer_end = Consumer_Opened "bench_event list" | Consumer_Failed string | Consumer_Panicked string | Consumer_Late

datatype bench_line =
    Bench_Start string string u64 nat u32
  | Bench_Published producer_stats
  | Bench_Consumed nat consumer_stats
  | Bench_Warning string

definition consumer_report :: "u64 \<Rightarrow> consumer_end \<Rightarrow> cli_error + bench_line list" where
  "consumer_report want c =
     (case c of
        Consumer_Opened evs \<Rightarrow>
          (let lat = consumer_run (unat want) evs []
           in case print_consumer_stats lat of Inl e \<Rightarrow> Inl e | Inr cs \<Rightarrow> Inr [Bench_Consumed (length lat) cs])
      | Consumer_Failed e \<Rightarrow> Inr [Bench_Warning (''consumer error: '' @ e)]
      | Consumer_Panicked e \<Rightarrow> Inr [Bench_Warning (''consumer join error: '' @ e)]
      | Consumer_Late \<Rightarrow>
          Inr [Bench_Warning (''consumer timed out waiting for '' @ show_nat (unat want) @ '' msgs'')])"

text \<open>What the rest of the run meets: the broker's answer to the connection and to the stream, and what
  the consumer of a stream, a durable name and a subject delivers after the publishers sent theirs.\<close>

record bench_world =
  bw_connect :: "cli_error + unit"
  bw_ensure :: "stream_config \<Rightarrow> client_error + unit"
  bw_consumer :: "string \<Rightarrow> string \<Rightarrow> string \<Rightarrow> (string \<times> json) list list \<Rightarrow> consumer_end"

definition run_bench ::
  "ctl_ext \<Rightarrow> bench_ext \<Rightarrow> bench_world \<Rightarrow> nat \<Rightarrow> bench_args \<Rightarrow> app_state \<Rightarrow> cli_error + bench_line list" where
  "run_bench ctl ext bw pid a st =
     (case lookup_queue ctl (ba_name a) st of
        Inl e \<Rightarrow> Inl e
      | Inr queue \<Rightarrow>
          (case bw_connect bw of
             Inl e \<Rightarrow> Inl e
           | Inr _ \<Rightarrow>
               (let (subject, cfg) = queue_stream_config (ba_name a) queue
                in case bw_ensure bw cfg of
                     Inl _ \<Rightarrow> Inl (Cli_Error (''ensuring stream for queue '' @ ba_name a))
                   | Inr _ \<Rightarrow>
                       (case (if ba_sub_only a then Inr (\<lparr>ps_n = 0, ps_bytes = 0\<rparr>, [])
                              else producer_run ext subject (ba_count a) (ba_size a) (ba_publishers a)) of
                          Inl e \<Rightarrow> Inl e
                        | Inr (stats, sent) \<Rightarrow>
                            (case (if ba_pub_only a then Inr []
                                   else consumer_report (ba_count a)
                                          (bw_consumer bw (sg_name cfg) (bench_durable a pid) subject sent)) of
                               Inl e \<Rightarrow> Inl e
                             | Inr lines \<Rightarrow>
                                 Inr (Bench_Start (ba_name a) subject (ba_count a) (ba_size a) (ba_publishers a) #
                                      (if ba_sub_only a then [] else [Bench_Published stats]) @ lines))))))"
subsection \<open>What the benchmark reports\<close>

text \<open>The bytes of what one publisher sent.\<close>

definition sent_bytes :: "bench_ext \<Rightarrow> (string \<times> json) list \<Rightarrow> u64" where
  "sent_bytes ext sent = of_nat (\<Sum>x \<leftarrow> sent. length (be_to_vec ext (snd x)))"

lemma sent_bytes_simps [simp]:
  "sent_bytes ext [] = 0"
  "sent_bytes ext (x # xs) = of_nat (length (be_to_vec ext (snd x))) + sent_bytes ext xs"
  by (simp_all add: sent_bytes_def)

text \<open>The messages of a publisher from number \<open>i\<close> on.\<close>

definition bench_messages :: "bench_ext \<Rightarrow> string \<Rightarrow> nat \<Rightarrow> nat \<Rightarrow> nat \<Rightarrow> nat \<Rightarrow> (string \<times> json) list" where
  "bench_messages ext subject payload_size p i n =
     map (\<lambda>k. (subject, bench_payload (be_clock ext p k) k p payload_size)) [i..<i + n]"

lemma bench_messages_simps [simp]:
  "bench_messages ext subject payload_size p i 0 = []"
  "bench_messages ext subject payload_size p i (Suc n) =
     (subject, bench_payload (be_clock ext p i) i p payload_size) # bench_messages ext subject payload_size p (Suc i) n"
  "length (bench_messages ext subject payload_size p i n) = n"
  by (simp_all add: bench_messages_def upt_conv_Cons del: upt_Suc)

lemma publisher_loop_works:
  "\<forall>k. be_publish_error ext p k = None \<Longrightarrow>
     publisher_loop ext subject payload_size p i n bytes =
       (Some (bytes + sent_bytes ext (bench_messages ext subject payload_size p i n)),
        bench_messages ext subject payload_size p i n)"
  by (induction n arbitrary: i bytes) (simp_all add: Let_def add.assoc)

lemma publisher_loop_prefix:
  "\<exists>k \<le> n. snd (publisher_loop ext subject payload_size p i n bytes) = bench_messages ext subject payload_size p i k"
proof (induction n arbitrary: i bytes)
  case (Suc n)
  let ?b = "bytes + of_nat (length (be_to_vec ext (bench_payload (be_clock ext p i) i p payload_size)))"
  show ?case
  proof (cases "be_publish_error ext p i")
    case None
    obtain k where "k \<le> n" "snd (publisher_loop ext subject payload_size p (Suc i) n ?b) =
        bench_messages ext subject payload_size p (Suc i) k"
      using Suc.IH by blast
    with None show ?thesis
      by (intro exI [of _ "Suc k"]) (simp add: Let_def case_prod_unfold)
  qed (auto simp: Let_def intro!: exI [of _ 0])
qed simp

lemma publisher_loop_refused:
  "\<forall>k. be_publish_error ext p k \<noteq> None \<Longrightarrow> snd (publisher_loop ext subject payload_size p i n bytes) = []"
  by (cases n) (auto simp: Let_def split: option.split dest: spec [of _ i])

lemma total_bytes:
  "foldl (\<lambda>t r. t + unwrap_or (fst r) 0) t (map (\<lambda>x. (Some (sent_bytes ext (g x)), g x)) xs) =
     t + sent_bytes ext (concat (map g xs))"
proof (induction xs arbitrary: t)
  case (Cons x xs)
  have "sent_bytes ext (a @ b) = sent_bytes ext a + sent_bytes ext b" for a b
    by (induction a) (simp_all add: add.assoc)
  with Cons show ?case by (simp add: unwrap_or_def add.assoc)
qed simp

text \<open>Further: with at least one publisher and a broker that takes everything, the publishers together
  send as many messages as asked for, and the bytes reported are those of the messages sent. Whatever
  the broker refuses, the number reported is the number asked for: with every publication refused
  nothing is sent and all of it is reported as published.\<close>

theorem producer_report:
  "case producer_run ext subject n payload_size publishers of
     Inl e \<Rightarrow> publishers = 0 \<and> e = Cli_Panic
   | Inr (stats, sent) \<Rightarrow>
       publishers \<noteq> 0 \<and> ps_n stats = n \<and>
       ((\<forall>p k. be_publish_error ext p k = None) \<longrightarrow>
          (\<Sum>s \<leftarrow> sent. length s) = unat n \<and> ps_bytes stats = sent_bytes ext (concat sent)) \<and>
       ((\<forall>p k. be_publish_error ext p k \<noteq> None) \<longrightarrow> concat sent = [])"
proof (cases "publishers = 0")
  case False
  obtain shares where shares: "producer_shares n publishers = Some shares" "sum_list (map unat shares) = unat n"
    using producer_shares_sum [where n = n and publishers = publishers] False by (auto split: option.splits)
  let ?runs = "map (\<lambda>(p, k). publisher_loop ext subject payload_size p 0 (unat k) 0) (enumerate 0 shares)"
  let ?stats = "\<lparr>ps_n = n, ps_bytes = foldl (\<lambda>t r. t + unwrap_or (fst r) 0) 0 ?runs\<rparr>"
  have works: "(\<Sum>s \<leftarrow> map snd ?runs. length s) = unat n \<and> ps_bytes ?stats = sent_bytes ext (concat (map snd ?runs))"
    if ok: "\<forall>p k. be_publish_error ext p k = None"
  proof -
    define g where "g = (\<lambda>x :: nat \<times> u64. bench_messages ext subject payload_size (fst x) 0 (unat (snd x)))"
    have runs: "?runs = map (\<lambda>x. (Some (sent_bytes ext (g x)), g x)) (enumerate 0 shares)"
      using ok by (simp add: publisher_loop_works case_prod_unfold g_def)
    have "(\<Sum>s \<leftarrow> map snd ?runs. length s) = (\<Sum>x \<leftarrow> enumerate 0 shares. unat (snd x))"
      unfolding runs by (simp add: comp_def g_def)
    also have "\<dots> = sum_list (map unat (map snd (enumerate 0 shares)))" by (simp only: map_map comp_def)
    finally show ?thesis
      unfolding runs using shares by (simp add: total_bytes comp_def)
  qed
  have refused: "concat (map snd ?runs) = []" if "\<forall>p k. be_publish_error ext p k \<noteq> None"
    using that by (auto simp: publisher_loop_refused simp del: not_None_eq)
  show ?thesis
    using False shares works refused by (simp add: producer_run_def Let_def)
qed (simp add: producer_run_def producer_shares_def)

text \<open>The stamp a consumer reads off a message (\<^verbatim>\<open>as_i64\<close>).\<close>

definition bench_stamp :: "json \<Rightarrow> int option" where
  "bench_stamp v =
     (case json_get v ''_ts_us'' of
        Some (JNumber (PosInt w)) \<Rightarrow> if uint w < 2 ^ 63 then Some (uint w) else None
      | Some (JNumber (NegInt i)) \<Rightarrow> Some i
      | _ \<Rightarrow> None)"

lemma consumer_run_bound: "length lat \<le> want \<Longrightarrow> length (consumer_run want evs lat) \<le> want"
proof (induction evs arbitrary: lat)
  case (Cons ev evs)
  show ?case
  proof (cases "want \<le> length lat")
    case False
    then have "length (consumer_run want evs (lat @ [x])) \<le> want" for x
      using Cons.IH [of "lat @ [x]"] by simp
    with Cons False show ?thesis by (auto split: bench_event.split option.split)
  qed (use Cons in simp)
qed simp

lemma consumer_run_stamped:
  "length lat + length tss \<le> want \<Longrightarrow>
     consumer_run want (map (\<lambda>(ts, now). Bench_Message (Some ts) now) tss) lat = lat @ map (\<lambda>(ts, now). now - ts) tss"
  by (induction tss arbitrary: lat) auto

text \<open>Further: the two sides fit. Every message a publisher sends carries a stamp the consumer reads, as
  long as the clock fits; when the consumer gets as many messages as it waits for, there is one latency
  for each, the difference of the two times; and there are never more latencies than messages asked
  for.\<close>

theorem bench_sides_fit:
  assumes "\<forall>p k. uint (be_clock ext p k) < 2 ^ 63"
    and "x \<in> set (snd (publisher_loop ext subject payload_size p i n bytes))"
  shows "\<exists>k. bench_stamp (snd x) = Some (uint (be_clock ext p k))"
    and "length tss = unat want \<Longrightarrow>
           consumer_run (unat want) (map (\<lambda>(ts, now). Bench_Message (Some ts) now) tss) [] = map (\<lambda>(ts, now). now - ts) tss"
    and "length (consumer_run (unat want) evs []) \<le> unat want"
proof -
  obtain k where "snd (publisher_loop ext subject payload_size p i n bytes) = bench_messages ext subject payload_size p i k"
    using publisher_loop_prefix by blast
  with assms(2) obtain j where "x = (subject, bench_payload (be_clock ext p j) j p payload_size)"
    by (auto simp: bench_messages_def)
  with assms(1) show "\<exists>k. bench_stamp (snd x) = Some (uint (be_clock ext p k))"
    by (auto simp: bench_stamp_def bench_payload_def json_get_def)
qed (simp_all add: consumer_run_stamped consumer_run_bound)

text \<open>Further: a benchmark of neither side only announces itself, and one that only publishes never
  reads from the stream.\<close>

theorem bench_one_side:
  assumes "run_bench ctl ext bw pid a st = Inr ls" and "ba_pub_only a"
  shows "length ls = (if ba_sub_only a then 1 else 2)"
    and "run_bench ctl ext (bw\<lparr>bw_consumer := c\<rparr>) pid a st = Inr ls"
  using assms by (auto simp: run_bench_def Let_def split: sum.splits prod.splits if_splits)

end
