(* ===== verification/Cli_Main.thy ===== *)
theory Cli_Main
  imports Cli_Bench Controller_Machine
begin

text \<open>
  The client as a whole (\<^verbatim>\<open>main\<close> of \<^verbatim>\<open>crates/orion-cli/src/main.rs\<close>): which command runs what, reading
  a document from a file or standard input, generating a document and applying it, and what every
  command does to a controller. A command is its parsed arguments; what it prints is in the theories
  of the single commands, here only whether it succeeds and the state of the controller afterwards
  are kept. The commands that never speak to a controller, or only read from it, leave it as it is;
  all others are compositions of the controller's requests, so no command takes a controller out of
  its reachable states.
\<close>

subsection \<open>Documents\<close>

text \<open>Reading a document (\<^verbatim>\<open>cmd/mod.rs\<close>).\<close>

definition read_yaml_input :: "(string + string) \<Rightarrow> file_system \<Rightarrow> string \<Rightarrow> cli_error + string" where
  "read_yaml_input stdin fs p =
     (if p = ''-'' then (case stdin of Inl _ \<Rightarrow> Inl (Cli_Error ''reading stdin'') | Inr s \<Rightarrow> Inr s)
      else (case fs p of Inl _ \<Rightarrow> Inl (Cli_Error (''reading '' @ p)) | Inr s \<Rightarrow> Inr s))"

text \<open>The documents of \<^verbatim>\<open>orion gen\<close> (\<^verbatim>\<open>generate.rs\<close>); the processor asks the controller for its queue, and
  goes on with the defaults when it gets none.\<close>

datatype gen_sub =
    Gen_Queue queue_args
  | Gen_Service workload_args "u32 option" "string option" "string list"
  | Gen_Task workload_args "u32 option"
  | Gen_Schedule string string string
  | Gen_Processor processor_args
  | Gen_Sidecar sidecar_args

definition known_queue :: "ctl_ext \<Rightarrow> string \<Rightarrow> app_state \<Rightarrow> queue_spec option" where
  "known_queue ext name st =
     (case http_get_resource ext ''Queue'' name st of Inl _ \<Rightarrow> None | Inr r \<Rightarrow> queue_of r)"

fun gen_doc :: "ctl_ext \<Rightarrow> environ \<Rightarrow> app_state \<Rightarrow> gen_sub \<Rightarrow> string + json" where
  "gen_doc ext env st (Gen_Queue a) = build_queue a"
| "gen_doc ext env st (Gen_Service a replicas restart ports) = build_service a replicas restart ports"
| "gen_doc ext env st (Gen_Task a timeout) = build_task a timeout"
| "gen_doc ext env st (Gen_Schedule name cron task) = Inr (build_schedule name cron task)"
| "gen_doc ext env st (Gen_Processor a) = Inr (build_processor (env ''NATS_URL'') (known_queue ext (pa_queue a) st) a)"
| "gen_doc ext env st (Gen_Sidecar a) = Inr (build_sidecar a)"

text \<open>The commands that apply a document they built themselves.\<close>

definition apply_built :: "ctl_ext \<Rightarrow> datetime \<Rightarrow> string \<Rightarrow> app_state \<Rightarrow> (cli_error + unit) \<times> app_state" where
  "apply_built ext now body st =
     (case apply_resource ext debug_str now None body st of
        (Inl e, st') \<Rightarrow> (Inl (api_failed e), st')
      | (Inr _, st') \<Rightarrow> (Inr (), st'))"

definition run_gen ::
  "ctl_ext \<Rightarrow> (json \<Rightarrow> string) \<Rightarrow> datetime \<Rightarrow> environ \<Rightarrow> bool \<Rightarrow> gen_sub \<Rightarrow> app_state \<Rightarrow> (cli_error + string) \<times> app_state" where
  "run_gen ext to_yaml now env apply sub st =
     (case gen_doc ext env st sub of
        Inl e \<Rightarrow> (Inl (Cli_Error e), st)
      | Inr doc \<Rightarrow>
          (if apply then
             (case apply_built ext now (to_yaml doc) st of
                (Inl e, st') \<Rightarrow> (Inl e, st')
              | (Inr _, st') \<Rightarrow> (Inr (to_yaml doc), st'))
           else (Inr (to_yaml doc), st)))"

subsection \<open>Commands (\<^verbatim>\<open>main.rs\<close>)\<close>

text \<open>The commands with the arguments their effect depends on. The commands without a controller are
  grouped: what they do to the machine they run on is in \<open>Cli_Text\<close> and \<open>Cli_Stack\<close>.\<close>

datatype local_cmd = Local_Json | Local_Up | Local_Init | Local_Completions | Local_Env

datatype cli_cmd =
    Cmd_Get get_what
  | Cmd_Describe string string
  | Cmd_Apply string bool
  | Cmd_Delete string string
  | Cmd_Dispatch string string
  | Cmd_Stop string string
  | Cmd_Restart string string
  | Cmd_Logs string string
  | Cmd_Instances "string option" "string option"
  | Cmd_Validate string
  | Cmd_Run string
  | Cmd_Schedule schedule_sub
  | Cmd_Diag diag_sub
  | Cmd_Queue_Pub string "string option" bool
  | Cmd_Queue_Ls
  | Cmd_Queue_Describe string
  | Cmd_Queue_Purge string bool
  | Cmd_Queue_Sub
  | Cmd_Gen gen_sub bool
  | Cmd_Find "string option" "string list"
  | Cmd_Snapshot_Create string
  | Cmd_Snapshot_Restore string
  | Cmd_Tui
  | Cmd_Doctor bool bool
  | Cmd_Bench bench_args
  | Cmd_Exec exec_args
  | Cmd_Local local_cmd

text \<open>What a command meets: its input, the files, the environment, the times at which its requests
  arrive, the server in a state of the controller, the broker, the probes of the health report, and the
  codecs. The dashboard, a subscription and the commands without a controller end as \<open>lw_rest\<close> says.\<close>

record cli_world =
  lw_stdin :: "string + string"
  lw_lines :: "string list"
  lw_files :: file_system
  lw_env :: environ
  lw_now :: datetime
  lw_later :: datetime
  lw_exec :: exec_clock
  lw_ensure :: "stream_config \<Rightarrow> string option"
  lw_publish :: "string \<Rightarrow> nat \<Rightarrow> string option"
  lw_rest :: "cli_cmd \<Rightarrow> cli_error + unit"
  lw_to_yaml :: "json \<Rightarrow> string"
  lw_ctx :: cli_ctx
  lw_format :: out_format
  lw_http :: "app_state \<Rightarrow> http_world"
  lw_print :: "json \<Rightarrow> string"
  lw_to_json :: "resource \<Rightarrow> json"
  lw_streams :: "string \<Rightarrow> (nat \<times> nat) option"
  lw_views :: "cli_error + (string \<Rightarrow> stream_view option)"
  lw_purge :: "string \<Rightarrow> string + nat"
  lw_typed :: string
  lw_probes :: "app_state \<Rightarrow> probes"
  lw_bench :: bench_ext
  lw_bench_world :: bench_world
  lw_pid :: nat

definition done_with :: "(cli_error + 'a) \<times> app_state \<Rightarrow> (cli_error + unit) \<times> app_state" where
  "done_with r = (map_sum id (\<lambda>_. ()) (fst r), snd r)"

text \<open>A command that only reads.\<close>

definition done_reading :: "cli_error + 'a \<Rightarrow> app_state \<Rightarrow> (cli_error + unit) \<times> app_state" where
  "done_reading r st = done_with (r, st)"

text \<open>A command on a document reads it first.\<close>

definition with_input ::
  "cli_world \<Rightarrow> string \<Rightarrow> (string \<Rightarrow> app_state \<Rightarrow> (cli_error + 'a) \<times> app_state) \<Rightarrow> app_state \<Rightarrow> (cli_error + unit) \<times> app_state" where
  "with_input w file f st =
     (case read_yaml_input (lw_stdin w) (lw_files w) file of Inl e \<Rightarrow> (Inl e, st) | Inr body \<Rightarrow> done_with (f body st))"

text \<open>Restoring succeeds whatever documents fail.\<close>

definition restore_all :: "ctl_ext \<Rightarrow> datetime \<Rightarrow> string \<Rightarrow> app_state \<Rightarrow> (cli_error + nat) \<times> app_state" where
  "restore_all ext now body st = (let (applied, failed, st') = snapshot_restore ext now body st in (Inr applied, st'))"

fun cli_main :: "ctl_ext \<Rightarrow> cli_world \<Rightarrow> cli_cmd \<Rightarrow> app_state \<Rightarrow> (cli_error + unit) \<times> app_state" where
  "cli_main ext w (Cmd_Apply file dry_run) st = with_input w file (run_apply ext (lw_now w) dry_run) st"
| "cli_main ext w (Cmd_Validate file) st = with_input w file (\<lambda>body st. (run_validate ext body, st)) st"
| "cli_main ext w (Cmd_Run file) st = with_input w file (run_run ext (lw_now w)) st"
| "cli_main ext w (Cmd_Delete k name) st = done_with (run_delete k name st)"
| "cli_main ext w (Cmd_Dispatch k name) st = done_with (run_dispatch ext (lw_now w) k name st)"
| "cli_main ext w (Cmd_Stop k name) st = done_with (run_stop ext (lw_now w) k name st)"
| "cli_main ext w (Cmd_Restart k name) st = done_with (run_restart ext (lw_now w) (lw_later w) k name st)"
| "cli_main ext w (Cmd_Schedule (Schedule_Create name cron task)) st =
     apply_built ext (lw_now w) (schedule_yaml name cron task) st"
| "cli_main ext w (Cmd_Queue_Pub name subject_from allow_missing) st =
     (let (res, sent, st') = run_pub ext (lw_now w) (lw_ensure w) (lw_publish w) name subject_from allow_missing (lw_lines w) st
      in done_with (res, st'))"
| "cli_main ext w (Cmd_Gen sub apply) st = done_with (run_gen ext (lw_to_yaml w) (lw_now w) (lw_env w) apply sub st)"
| "cli_main ext w (Cmd_Snapshot_Restore file) st = with_input w file (restore_all ext (lw_now w)) st"
| "cli_main ext w (Cmd_Exec a) st = done_with (run_exec ext (lw_to_yaml w) (lw_exec w) a st)"
| "cli_main ext w (Cmd_Get what) st = done_reading (run_get (lw_http w st) (lw_print w) (lw_ctx w) (lw_format w) what) st"
| "cli_main ext w (Cmd_Describe k name) st = done_reading (run_describe (lw_http w st) (lw_ctx w) (lw_format w) k name) st"
| "cli_main ext w (Cmd_Diag sub) st = done_reading (run_diag (lw_http w st) (lw_ctx w) (lw_format w) sub) st"
| "cli_main ext w (Cmd_Schedule sub) st = done_reading (run_schedule (lw_http w st) (lw_ctx w) (lw_format w) sub) st"
| "cli_main ext w (Cmd_Logs k name) st =
     done_reading (get_json (lw_http w st) (lw_ctx w) (''/v1/logs/'' @ canonical_kind k @ ''/'' @ name)) st"
| "cli_main ext w (Cmd_Instances k name) st = done_reading (get_json (lw_http w st) (lw_ctx w) (instances_path k name)) st"
| "cli_main ext w (Cmd_Find (Some file) reqs) st =
     with_input w file (\<lambda>body st. (run_find ext (lw_print w) (lw_to_json w) (Some body) reqs st, st)) st"
| "cli_main ext w (Cmd_Find None reqs) st = done_reading (run_find ext (lw_print w) (lw_to_json w) None reqs st) st"
| "cli_main ext w (Cmd_Snapshot_Create kinds) st =
     done_reading (map_sum Cli_Error id (snapshot_create ext (lw_to_json w) (Inr \<circ> lw_to_yaml w) kinds st)) st"
| "cli_main ext w Cmd_Queue_Ls st = done_reading (queue_ls ext (lw_streams w) st) st"
| "cli_main ext w (Cmd_Queue_Describe name) st = done_reading (run_queue_describe ext (lw_views w) name st) st"
| "cli_main ext w (Cmd_Queue_Purge name yes) st = done_reading (run_purge ext (lw_purge w) name yes (lw_typed w) st) st"
| "cli_main ext w (Cmd_Doctor no_nats no_fail) st =
     done_reading (run_doctor (lw_print w) (lw_ctx w) no_nats no_fail (lw_probes w st)) st"
| "cli_main ext w (Cmd_Bench a) st = done_reading (run_bench ext (lw_bench w) (lw_bench_world w) (lw_pid w) a st) st"
| "cli_main ext w cmd st = (lw_rest w cmd, st)"

subsection \<open>A command and its controller\<close>

text \<open>The state after an application does not depend on how errors are printed.\<close>

lemma apply_resource_state: "snd (apply_resource ext dbg now q body st) = snd (apply_resource ext dbg' now q body st)"
  by (auto simp: apply_resource_def Let_def split: sum.split prod.split)

lemma reachable_react: "reachable ext st \<Longrightarrow> reachable ext (ctl_react ext st ev)"
  by (rule reachable.step [OF _ ctl_step.react])

lemma reachable_apply: "reachable ext st \<Longrightarrow> reachable ext (snd (apply_resource ext dbg now q body st))"
  using reachable_react [of ext st "Http_Apply now q body"]
  by (simp add: apply_resource_state [where dbg' = "\<lambda>s. s" and dbg = dbg])

lemmas reachable_requests =
  reachable_react [where ev = "Http_Delete kind name" for kind name, simplified]
  reachable_react [where ev = "Http_Dispatch now kind name" for now kind name, simplified]
  reachable_react [where ev = "Http_Stop now kind name" for now kind name, simplified]
  reachable_react [where ev = "Http_Restart now later kind name" for now later kind name, simplified]

lemma snd_case_sum: "snd (case r of (Inl e, s) \<Rightarrow> (f e, s) | (Inr x, s) \<Rightarrow> (g x, s)) = snd r"
  by (cases r; cases "fst r") auto

lemma reachable_restore: "reachable ext st \<Longrightarrow> reachable ext (snd (snd (fold (restore_doc ext now) docs (m, n, st))))"
proof (induction docs arbitrary: m n st)
  case (Cons d docs)
  have "reachable ext (snd (snd (restore_doc ext now d (m, n, st))))"
    using reachable_apply [OF Cons.prems, of debug_str now None d]
    by (auto simp: restore_doc_def split: prod.splits sum.splits)
  with Cons.IH show ?case by (cases "restore_doc ext now d (m, n, st)") auto
qed simp
lemma reachable_apply_built: "reachable ext st \<Longrightarrow> reachable ext (snd (apply_built ext now body st))"
  using reachable_apply [of ext st debug_str now None body]
  by (auto simp: apply_built_def split: prod.splits sum.splits)

lemma reachable_run_apply: "reachable ext st \<Longrightarrow> reachable ext (snd (run_apply ext now dry body st))"
  using reachable_apply [of ext st debug_str now "if dry then Some ''1'' else None" body]
  by (auto simp: run_apply_def split: prod.splits sum.splits)

lemma reachable_run_dispatch: "reachable ext st \<Longrightarrow> reachable ext (snd (run_dispatch ext now k name st))"
  using reachable_requests(2) [of ext st now "canonical_kind k" name]
  by (auto simp: run_dispatch_def split: prod.splits sum.splits)

lemma reachable_run_run:
  assumes "reachable ext st"
  shows "reachable ext (snd (run_run ext now body st))"
proof (cases "read_resource ext body")
  case (Inr r)
  obtain res st' where a: "apply_resource ext debug_str now None body st = (res, st')" by fastforce
  have st': "reachable ext st'" using reachable_apply [OF assms, of debug_str now None body] by (simp add: a)
  obtain res' st'' where d: "dispatch_resource ext now (kind_str r) (md_name (rs_metadata r)) st' = (res', st'')" by fastforce
  have "reachable ext st''" using reachable_requests(2) [OF st', of now "kind_str r" "md_name (rs_metadata r)"] by (simp add: d)
  with st' assms show ?thesis by (cases res; cases res') (simp_all add: run_run_def Inr a d)
qed (use assms in \<open>simp add: run_run_def\<close>)

lemma reachable_run_delete: "reachable ext st \<Longrightarrow> reachable ext (snd (run_delete k name st))"
  using reachable_requests(1) [of ext st "canonical_kind k" name]
  by (auto simp: run_delete_def Let_def split: prod.splits sum.splits)

lemma reachable_run_stop: "reachable ext st \<Longrightarrow> reachable ext (snd (run_stop ext now k name st))"
  using reachable_requests(3) [of ext st now "canonical_kind k" name]
  by (auto simp: run_stop_def Let_def split: prod.splits sum.splits)

lemma reachable_run_restart: "reachable ext st \<Longrightarrow> reachable ext (snd (run_restart ext now later k name st))"
  using reachable_requests(4) [of ext st now later "canonical_kind k" name]
  by (auto simp: run_restart_def Let_def split: prod.splits sum.splits)

lemma reachable_run_pub:
  assumes "reachable ext st"
  shows "reachable ext (snd (snd (run_pub ext now ensure fails name sf allow input st)))"
proof -
  have "reachable ext (snd (pub_queue ext now name allow st))"
    using assms reachable_apply [OF assms, of debug_str now None "default_queue_yaml name"]
    by (auto simp: pub_queue_def split: sum.splits option.splits prod.splits)
  then show ?thesis
    by (auto simp: run_pub_def Let_def split_beta split: prod.splits sum.splits option.splits)
qed

lemma reachable_run_gen: "reachable ext st \<Longrightarrow> reachable ext (snd (run_gen ext to_yaml now env apply sub st))"
  using reachable_apply_built [of ext st now]
  by (auto simp: run_gen_def split: sum.splits prod.splits) (metis snd_conv)+

lemma reachable_run_exec:
  assumes "reachable ext st" and meanwhile: "\<And>s. reachable ext s \<Longrightarrow> reachable ext (xc_meanwhile clk s)"
  shows "reachable ext (snd (run_exec ext to_yaml clk a st))"
proof -
  define name where "name = (case xa_name a of Some n \<Rightarrow> n | None \<Rightarrow> ''oexec-'' @ take 8 (xc_uuid_text clk))"
  show ?thesis
  proof (cases "exec_doc name (xa_runtime a) (xa_image a) (xa_env a) (xa_argv a)")
    case (Inr doc)
    obtain res st1 where ap: "apply_resource ext debug_str (xc_now clk) None (to_yaml doc) st = (res, st1)" by fastforce
    have st1: "reachable ext st1" using reachable_apply [OF assms(1), of debug_str "xc_now clk" None "to_yaml doc"] by (simp add: ap)
    obtain res' st2 where di: "dispatch_resource ext (xc_now clk) ''Task'' name st1 = (res', st2)" by fastforce
    have st2: "reachable ext st2" using reachable_requests(2) [OF st1, of "xc_now clk" "''Task''" name] by (simp add: di)
    have "reachable ext (snd (http_delete_resource ''Task'' name s))" if "reachable ext s" for s
      using reachable_requests(1) [OF that] by simp
    with st1 st2 meanwhile [OF st2] show ?thesis
      by (auto simp: run_exec_def Inr ap di Let_def name_def [symmetric] split: sum.splits)
  qed (use assms in \<open>simp add: run_exec_def name_def [symmetric]\<close>)
qed

lemma snd_done_with [simp]: "snd (done_with r) = snd r" "snd (done_reading x st) = st"
  by (simp_all add: done_with_def done_reading_def)

lemma reachable_with_input:
  "(\<And>body. reachable ext (snd (f body st))) \<Longrightarrow> reachable ext st \<Longrightarrow> reachable ext (snd (with_input w file f st))"
  by (auto simp: with_input_def split: sum.split)

lemma reachable_restore_all: "reachable ext st \<Longrightarrow> reachable ext (snd (restore_all ext now body st))"
  using reachable_restore [of ext st now "split_multi_doc body" 0 0]
  by (auto simp: restore_all_def snapshot_restore_def Let_def split: prod.splits)

lemmas reachable_commands =
  reachable_run_apply reachable_run_run reachable_run_delete reachable_run_dispatch reachable_run_stop reachable_run_restart
  reachable_run_pub reachable_run_gen reachable_apply_built reachable_restore_all

lemma dry_run_state: "snd (run_apply ext now True body st) = st"
  by (auto simp: run_apply_def apply_resource_def is_dry_run_def Let_def split: sum.split prod.split)

lemma pub_present_state: "snd (snd (run_pub ext now ensure fails name sf False input st)) = st"
  by (auto simp: run_pub_def pub_queue_def Let_def split_beta split: sum.split option.split prod.split)

lemma gen_state: "snd (run_gen ext to_yaml now env False sub st) = st"
  by (simp add: run_gen_def split: sum.split)

lemma input_state: "(\<And>body. snd (f body st) = st) \<Longrightarrow> snd (with_input w file f st) = st"
  by (auto simp: with_input_def split: sum.split)

text \<open>The commands that may change a controller.\<close>

fun cmd_changes :: "cli_cmd \<Rightarrow> bool" where
  "cmd_changes (Cmd_Apply _ dry_run) = (\<not> dry_run)"
| "cmd_changes (Cmd_Run _) = True"
| "cmd_changes (Cmd_Delete _ _) = True"
| "cmd_changes (Cmd_Dispatch _ _) = True"
| "cmd_changes (Cmd_Stop _ _) = True"
| "cmd_changes (Cmd_Restart _ _) = True"
| "cmd_changes (Cmd_Schedule (Schedule_Create _ _ _)) = True"
| "cmd_changes (Cmd_Queue_Pub _ _ allow_missing) = allow_missing"
| "cmd_changes (Cmd_Gen _ apply) = apply"
| "cmd_changes (Cmd_Snapshot_Restore _) = True"
| "cmd_changes (Cmd_Exec _) = True"
| "cmd_changes _ = False"


subsection \<open>Witness\<close>

definition demo_world :: cli_world where
  "demo_world =
     \<lparr>lw_stdin = Inr ''t'', lw_lines = [], lw_files = (\<lambda>_. Inl Io_NotFound), lw_env = (\<lambda>_. None), lw_now = 2, lw_later = 3,
      lw_exec = \<lparr>xc_uuid_text = [], xc_now = 2, xc_meanwhile = (\<lambda>s. s)\<rparr>, lw_ensure = (\<lambda>_. None), lw_publish = (\<lambda>_ _. None),
      lw_rest = (\<lambda>_. Inr ()), lw_to_yaml = (\<lambda>_. ''t''), lw_ctx = \<lparr>cc_controller = [], cc_nats_url = [], cc_token = None\<rparr>,
      lw_format = Fmt_Json,
      lw_http = (\<lambda>_. \<lparr>hw_server = \<lambda>_. Inl [], hw_header_ok = \<lambda>_. True, hw_parse = \<lambda>_. None\<rparr>),
      lw_print = (\<lambda>_. []), lw_to_json = (\<lambda>_. JNull), lw_streams = (\<lambda>_. None), lw_views = Inl Cli_Panic, lw_purge = (\<lambda>_. Inl []),
      lw_typed = [], lw_probes = (\<lambda>_. \<lparr>pb_health = None, pb_nodes = Inl [], pb_broker = Inl [], pb_streams = None, pb_diag = Inl []\<rparr>),
      lw_bench = \<lparr>be_clock = \<lambda>_ _. 0, be_to_vec = \<lambda>_. [], be_publish_error = \<lambda>_ _. None\<rparr>, lw_bench_world = \<lparr>bw_connect = Inr (), bw_ensure = \<lambda>_. Inr (), bw_consumer = \<lambda>_ _ _ _. Consumer_Late\<rparr>,
      lw_pid = 1\<rparr>"


end
