(* ===== verification/Mcp.thy ===== *)
theory Mcp
  imports Connectors
begin

text \<open>
  The tool server (\<^verbatim>\<open>crates/orion-mcp\<close>): the list of tools with their input schemas
  (\<^verbatim>\<open>planned_tools\<close>, \<^verbatim>\<open>tool_input_schema\<close>, \<^verbatim>\<open>tools_list_response\<close>), the translation of
  a call into a request to the controller (\<^verbatim>\<open>call_tool\<close>) and the loop of the binary, which reads a
  request per line and writes a response per line. Sending a request, reading and printing JSON text
  are arguments.
\<close>

subsection \<open>Tools and their schemas\<close>

definition planned_tools :: "(string \<times> string) list" where
  "planned_tools =
     [(''orion_list_nodes'', ''List nodes the controller knows about (live agents + their inventory)''),
      (''orion_list_services'', ''List all Service resources''),
      (''orion_list_tasks'', ''List all Task resources''),
      (''orion_list_queues'', ''List all named Queues with their type + message backlog''),
      (''orion_get_resource'', ''Get a single resource by kind + name (returns the full YAML/JSON body)''),
      (''orion_apply_resource'', ''POST a YAML resource body to /v1/resources/apply''),
      (''orion_delete_resource'', ''Delete a resource by kind + name''),
      (''orion_dispatch'', ''Dispatch a Service or Task '' @ [CHR 0xE2, CHR 0x80, CHR 0x94] @ '' controller picks a node and runs it''),
      (''orion_logs'', ''Get the recent log buffer for a workload (kind + name)''),
      (''orion_find_capability'', ''POST a capability selector to /v1/find; returns matching Services''),
      (''orion_doctor'', ''Health check across broker, controller, agents, JetStream''),
      (''orion_diag_system'', ''Diagnostic snapshot of the controller's process + agents + instances''),
      (''orion_diag_jetstream'', ''JetStream stream + consumer summary'')]"

text \<open>Objects are ordered maps: the fields of a literal in the order of their names.\<close>

definition json_type :: "string \<Rightarrow> json" where
  "json_type t = JObject [(''type'', JString t)]"

definition kind_name_schema :: json where
  "kind_name_schema = JObject
     [(''properties'', JObject [(''kind'', json_type ''string''), (''name'', json_type ''string'')]),
      (''required'', JArray [JString ''kind'', JString ''name'']),
      (''type'', JString ''object'')]"

definition tool_input_schema :: "string \<Rightarrow> json" where
  "tool_input_schema name =
     (if name \<in> {''orion_list_nodes'', ''orion_list_services'', ''orion_list_tasks'', ''orion_list_queues'', ''orion_doctor'',
                 ''orion_diag_system'', ''orion_diag_jetstream''}
      then JObject [(''additionalProperties'', JBool False), (''properties'', JObject []), (''type'', JString ''object'')]
      else if name = ''orion_get_resource'' \<or> name = ''orion_delete_resource'' then kind_name_schema
      else if name = ''orion_apply_resource'' then
        JObject [(''properties'', JObject [(''yaml'', JObject [(''description'', JString ''Full resource YAML body''), (''type'', JString ''string'')])]),
                 (''required'', JArray [JString ''yaml'']), (''type'', JString ''object'')]
      else if name = ''orion_dispatch'' \<or> name = ''orion_logs'' then kind_name_schema
      else if name = ''orion_find_capability'' then
        JObject [(''properties'', JObject [(''selector'', JObject
                    [(''description'', JString (''Capability selector, e.g. {'' @ [CHR 0x22] @ ''llm'' @ [CHR 0x22] @ '': {'' @ [CHR 0x22] @
                        ''min_vram_gb'' @ [CHR 0x22] @ '': {'' @ [CHR 0x22] @ ''gte'' @ [CHR 0x22] @ '': 24}}}'')),
                     (''type'', JString ''object'')])]),
                 (''required'', JArray [JString ''selector'']), (''type'', JString ''object'')]
      else JObject [(''type'', JString ''object'')])"

subsection \<open>Calling a tool\<close>

datatype http_method = GET | POST | DELETE

datatype request_body = No_Body | Yaml_Body string | Json_Body json

record tool_request =
  tq_method :: http_method
  tq_url :: string
  tq_body :: request_body
  tq_bearer :: "string option"

definition trim_end_slashes :: "string \<Rightarrow> string" where
  "trim_end_slashes s = rev (dropWhile (\<lambda>c. c = CHR ''/'') (rev s))"

definition arg_str :: "json \<Rightarrow> string \<Rightarrow> string + string" where
  "arg_str args key =
     ok_or (Option.bind (json_get args key) as_str) (''missing string arg '' @ [CHR 0x27] @ key @ [CHR 0x27])"

definition with_kind_name :: "json \<Rightarrow> (string \<Rightarrow> string \<Rightarrow> 'a) \<Rightarrow> string + 'a" where
  "with_kind_name args f =
     (case arg_str args ''kind'' of
        Inl e \<Rightarrow> Inl e
      | Inr k \<Rightarrow> (case arg_str args ''name'' of Inl e \<Rightarrow> Inl e | Inr n \<Rightarrow> Inr (f k n)))"

definition tool_route :: "string \<Rightarrow> string \<Rightarrow> json \<Rightarrow> string + http_method \<times> string \<times> request_body" where
  "tool_route base tool args =
     (if tool = ''orion_list_nodes'' then Inr (GET, base @ ''/v1/nodes'', No_Body)
      else if tool = ''orion_list_services'' then Inr (GET, base @ ''/v1/resources/Service'', No_Body)
      else if tool = ''orion_list_tasks'' then Inr (GET, base @ ''/v1/resources/Task'', No_Body)
      else if tool = ''orion_list_queues'' then Inr (GET, base @ ''/v1/resources/Queue'', No_Body)
      else if tool = ''orion_doctor'' then Inr (GET, base @ ''/v1/diag/system'', No_Body)
      else if tool = ''orion_diag_system'' then Inr (GET, base @ ''/v1/diag/system'', No_Body)
      else if tool = ''orion_diag_jetstream'' then Inr (GET, base @ ''/v1/diag/jetstream'', No_Body)
      else if tool = ''orion_get_resource'' then
        with_kind_name args (\<lambda>k n. (GET, base @ ''/v1/resources/'' @ k @ ''/'' @ n, No_Body))
      else if tool = ''orion_delete_resource'' then
        with_kind_name args (\<lambda>k n. (DELETE, base @ ''/v1/resources/'' @ k @ ''/'' @ n, No_Body))
      else if tool = ''orion_dispatch'' then
        with_kind_name args (\<lambda>k n. (POST, base @ ''/v1/dispatch/'' @ k @ ''/'' @ n, No_Body))
      else if tool = ''orion_logs'' then
        with_kind_name args (\<lambda>k n. (GET, base @ ''/v1/logs/'' @ k @ ''/'' @ n, No_Body))
      else if tool = ''orion_apply_resource'' then
        (case arg_str args ''yaml'' of
           Inl e \<Rightarrow> Inl e
         | Inr yaml \<Rightarrow> Inr (POST, base @ ''/v1/resources/apply'', Yaml_Body yaml))
      else if tool = ''orion_find_capability'' then
        (case json_get args ''selector'' of
           None \<Rightarrow> Inl (''missing '' @ [CHR 0x27] @ ''selector'' @ [CHR 0x27])
         | Some selector \<Rightarrow> Inr (POST, base @ ''/v1/find'', Json_Body selector))
      else Inl (''unknown tool '' @ [CHR 0x27] @ tool @ [CHR 0x27]))"

text \<open>An answer is a transport error, or a status and the text of the body.\<close>

record mcp_ext =
  mc_parse_json :: "string \<Rightarrow> json option"
  mc_print_json :: "json \<Rightarrow> string"
  mc_version :: string
  mc_status_text :: "u16 \<Rightarrow> string"

definition call_tool ::
  "mcp_ext \<Rightarrow> (tool_request \<Rightarrow> string + u16 \<times> string) \<Rightarrow> string \<Rightarrow> string option \<Rightarrow> string \<Rightarrow> json \<Rightarrow> string + json" where
  "call_tool ext send controller token tool args =
     (case tool_route (trim_end_slashes controller) tool args of
        Inl e \<Rightarrow> Inl e
      | Inr (m, url, body) \<Rightarrow>
          (case send \<lparr>tq_method = m, tq_url = url, tq_body = body, tq_bearer = token\<rparr> of
             Inl e \<Rightarrow> Inl e
           | Inr (status, txt) \<Rightarrow>
               if \<not> (200 \<le> status \<and> status < 300)
               then Inl (''controller returned '' @ mc_status_text ext status @ '': '' @ txt)
               else Inr (unwrap_or (mc_parse_json ext txt) (JString txt))))"

subsection \<open>The server\<close>

record rpc_request =
  rq_jsonrpc :: string
  rq_id :: "json option"
  rq_method :: string
  rq_params :: json

record rpc_error =
  re_code :: int
  re_message :: string

record rpc_response =
  rr_jsonrpc :: string
  rr_id :: "json option"
  rr_result :: "json option"
  rr_error :: "rpc_error option"

definition rpc_ok :: "json option \<Rightarrow> json \<Rightarrow> rpc_response" where
  "rpc_ok i v = \<lparr>rr_jsonrpc = ''2.0'', rr_id = i, rr_result = Some v, rr_error = None\<rparr>"

definition rpc_err :: "json option \<Rightarrow> int \<Rightarrow> string \<Rightarrow> rpc_response" where
  "rpc_err i code msg = \<lparr>rr_jsonrpc = ''2.0'', rr_id = i, rr_result = None, rr_error = Some \<lparr>re_code = code, re_message = msg\<rparr>\<rparr>"

definition tools_list_response :: "json option \<Rightarrow> rpc_response" where
  "tools_list_response i = rpc_ok i (JObject [(''tools'', JArray (map (\<lambda>(name, desc).
     JObject [(''description'', JString desc), (''inputSchema'', tool_input_schema name), (''name'', JString name)])
     planned_tools))])"

definition rpc_respond ::
  "mcp_ext \<Rightarrow> (tool_request \<Rightarrow> string + u16 \<times> string) \<Rightarrow> string \<Rightarrow> string option \<Rightarrow> rpc_request \<Rightarrow> rpc_response" where
  "rpc_respond ext send controller token req =
     (let i = rq_id req
      in if rq_method req = ''initialize'' then
           rpc_ok i (JObject [(''capabilities'', JObject [(''tools'', JObject [])]), (''protocolVersion'', JString ''2024-11-05''),
             (''serverInfo'', JObject [(''name'', JString ''orion-mcp''), (''version'', JString (mc_version ext))])])
         else if rq_method req = ''tools/list'' then tools_list_response i
         else if rq_method req = ''tools/call'' then
           (let name = unwrap_or (Option.bind (json_get (rq_params req) ''name'') as_str) [];
                arguments = unwrap_or (json_get (rq_params req) ''arguments'') (JObject [])
            in case call_tool ext send controller token name arguments of
                 Inr result \<Rightarrow> rpc_ok i (JObject [(''content'', JArray [JObject
                   [(''text'', JString (mc_print_json ext result)), (''type'', JString ''text'')]])])
               | Inl e \<Rightarrow> rpc_err i (- 32000) (''tool error: '' @ e))
         else if rq_method req = ''ping'' then rpc_ok i (JObject [])
         else rpc_err i (- 32601) (''method not found: '' @ rq_method req))"

text \<open>One line of the input: a blank one has no answer. Sending is an argument per line: the
  controller's answers change.\<close>

definition rpc_line ::
  "mcp_ext \<Rightarrow> (string \<Rightarrow> string + rpc_request) \<Rightarrow> string \<Rightarrow> string option \<Rightarrow>
     (tool_request \<Rightarrow> string + u16 \<times> string) \<times> string \<Rightarrow> rpc_response list" where
  "rpc_line ext decode controller token = (\<lambda>(send, line).
     (let trimmed = str_trim line
      in if trimmed = [] then []
         else (case decode trimmed of
                 Inl e \<Rightarrow> [rpc_err None (- 32700) (''parse error: '' @ e)]
               | Inr req \<Rightarrow> [rpc_respond ext send controller token req])))"

definition mcp_serve ::
  "mcp_ext \<Rightarrow> (string \<Rightarrow> string + rpc_request) \<Rightarrow> string \<Rightarrow> string option \<Rightarrow>
     ((tool_request \<Rightarrow> string + u16 \<times> string) \<times> string) list \<Rightarrow> rpc_response list" where
  "mcp_serve ext decode controller token inputs = concat (map (rpc_line ext decode controller token) inputs)"

text \<open>Arguments that a schema admits: an object with every required field, each of the type its
  property states.\<close>

definition has_type :: "string \<Rightarrow> json \<Rightarrow> bool" where
  "has_type t v =
     (case v of JString _ \<Rightarrow> t = ''string'' | JObject _ \<Rightarrow> t = ''object'' | _ \<Rightarrow> False)"

definition schema_type :: "json \<Rightarrow> string \<Rightarrow> string" where
  "schema_type schema key =
     unwrap_or (Option.bind (Option.bind (Option.bind (json_get schema ''properties'') (\<lambda>p. json_get p key))
       (\<lambda>p. json_get p ''type'')) as_str) []"

definition required_fields :: "json \<Rightarrow> string list" where
  "required_fields schema =
     (case json_get schema ''required'' of Some (JArray ks) \<Rightarrow> List.map_filter as_str ks | _ \<Rightarrow> [])"

definition admits :: "json \<Rightarrow> json \<Rightarrow> bool" where
  "admits schema args \<longleftrightarrow> list_all (\<lambda>key. case json_get args key of
     None \<Rightarrow> False | Some v \<Rightarrow> has_type (schema_type schema key) v) (required_fields schema)"

subsection \<open>Every listed tool is served\<close>

lemma admits_kind_name:
  "admits kind_name_schema args \<Longrightarrow> \<exists>k n. json_get args ''kind'' = Some (JString k) \<and> json_get args ''name'' = Some (JString n)"
  by (auto simp: admits_def kind_name_schema_def required_fields_def schema_type_def json_type_def json_get_def [of "JObject _"]
      bt_get_def as_str_def has_type_def List.map_filter_simps split: option.splits json.splits)

lemma admits_yaml:
  "admits (tool_input_schema ''orion_apply_resource'') args \<Longrightarrow> \<exists>y. json_get args ''yaml'' = Some (JString y)"
  by (auto simp: admits_def tool_input_schema_def required_fields_def schema_type_def json_get_def [of "JObject _"]
      bt_get_def as_str_def has_type_def List.map_filter_simps split: option.splits json.splits)

lemma admits_selector:
  "admits (tool_input_schema ''orion_find_capability'') args \<Longrightarrow> \<exists>v. json_get args ''selector'' = Some v"
  by (auto simp: admits_def tool_input_schema_def required_fields_def json_get_def [of "JObject _"]
      bt_get_def as_str_def List.map_filter_simps split: option.splits)

lemma with_kind_name_ok:
  "json_get args ''kind'' = Some (JString k) \<Longrightarrow> json_get args ''name'' = Some (JString n) \<Longrightarrow>
     with_kind_name args f = Inr (f k n)"
  by (simp add: with_kind_name_def arg_str_def as_str_def)

lemma planned_tool_names:
  "fst ` set planned_tools =
     {''orion_list_nodes'', ''orion_list_services'', ''orion_list_tasks'', ''orion_list_queues'',
      ''orion_get_resource'', ''orion_apply_resource'', ''orion_delete_resource'', ''orion_dispatch'',
      ''orion_logs'', ''orion_find_capability'', ''orion_doctor'', ''orion_diag_system'',
      ''orion_diag_jetstream''}"
  unfolding planned_tools_def by (simp only: list.set image_insert image_empty fst_conv)

lemma planned_tool_groups:
  "fst ` set planned_tools =
     {''orion_list_nodes'', ''orion_list_services'', ''orion_list_tasks'', ''orion_list_queues'',
      ''orion_doctor'', ''orion_diag_system'', ''orion_diag_jetstream''} \<union>
     {''orion_get_resource'', ''orion_delete_resource'', ''orion_dispatch'', ''orion_logs''} \<union>
     {''orion_apply_resource''} \<union> {''orion_find_capability''}"
  unfolding planned_tool_names by auto

text \<open>Further: a tool is listed exactly if it is not unknown to the call: arguments its schema admits make
  a listed tool a request below the controller's address, and a name that is not listed is refused
  before anything is sent.\<close>

theorem mcp_tools_served:
  "(name \<in> fst ` set planned_tools \<longrightarrow> admits (tool_input_schema name) args \<longrightarrow>
      (\<exists>m path body. tool_route base name args = Inr (m, base @ ''/v1/'' @ path, body))) \<and>
   (name \<notin> fst ` set planned_tools \<longrightarrow>
      tool_route base name args = Inl (''unknown tool '' @ [CHR 0x27] @ name @ [CHR 0x27]))"
proof (intro conjI impI)
  assume "name \<notin> fst ` set planned_tools"
  then show "tool_route base name args = Inl (''unknown tool '' @ [CHR 0x27] @ name @ [CHR 0x27])"
    unfolding tool_route_def planned_tool_names insert_iff empty_iff de_Morgan_disj by (simp only: if_False simp_thms)
next
  assume listed: "name \<in> fst ` set planned_tools" and ok: "admits (tool_input_schema name) args"
  consider (fixed) "name \<in> {''orion_list_nodes'', ''orion_list_services'', ''orion_list_tasks'', ''orion_list_queues'',
      ''orion_doctor'', ''orion_diag_system'', ''orion_diag_jetstream''}"
    | (named) "name \<in> {''orion_get_resource'', ''orion_delete_resource'', ''orion_dispatch'', ''orion_logs''}"
    | (yaml) "name = ''orion_apply_resource''" | (find) "name = ''orion_find_capability''"
    using listed unfolding planned_tool_groups by (elim UnE) simp_all
  then show "\<exists>m path body. tool_route base name args = Inr (m, base @ ''/v1/'' @ path, body)"
  proof cases
    case fixed
    then show ?thesis by (auto simp: tool_route_def)
  next
    case named
    then have "admits kind_name_schema args" using ok by (auto simp: tool_input_schema_def)
    then obtain k n where "json_get args ''kind'' = Some (JString k)" "json_get args ''name'' = Some (JString n)"
      using admits_kind_name by blast
    note f = with_kind_name_ok [OF this]
    show ?thesis using named by (auto simp: tool_route_def f)
  next
    case yaml
    then show ?thesis using ok admits_yaml [of args] by (auto simp: tool_route_def arg_str_def as_str_def)
  next
    case find
    then show ?thesis using ok admits_selector [of args] by (auto simp: tool_route_def)
  qed
qed

text \<open>Further: the server answers every line that is not blank, in order, with one response that carries
  the request's id and either a result or an error; a request without an id, which is a notification
  and wants no answer, is answered too.\<close>

theorem mcp_answers_each_line:
  "map rr_id (mcp_serve ext decode controller token inputs) =
     map (\<lambda>(_, line). case decode (str_trim line) of Inl _ \<Rightarrow> None | Inr req \<Rightarrow> rq_id req)
       (filter (\<lambda>(_, line). str_trim line \<noteq> []) inputs) \<and>
   list_all (\<lambda>r. rr_jsonrpc r = ''2.0'' \<and> (rr_result r = None \<longleftrightarrow> rr_error r \<noteq> None))
     (mcp_serve ext decode controller token inputs)"
proof -
  have one: "rr_id (rpc_respond ext send controller token req) = rq_id req \<and>
      rr_jsonrpc (rpc_respond ext send controller token req) = ''2.0'' \<and>
      (rr_result (rpc_respond ext send controller token req) = None \<longleftrightarrow>
       rr_error (rpc_respond ext send controller token req) \<noteq> None)" for send req
    by (auto simp: rpc_respond_def Let_def rpc_ok_def rpc_err_def tools_list_response_def split: sum.split)
  show ?thesis
    by (induction inputs) (auto simp: mcp_serve_def rpc_line_def Let_def one rpc_err_def split: sum.split)
qed

text \<open>Further: a call succeeds only if the controller answered it with a status of the 2xx range, and
  every request carries the token.\<close>

theorem mcp_call_checked:
  assumes "call_tool ext send controller token tool args = Inr v"
  shows "\<exists>rq status reply. send rq = Inr (status, reply) \<and> 200 \<le> status \<and> status < 300 \<and> tq_bearer rq = token \<and>
    v = unwrap_or (mc_parse_json ext reply) (JString reply)"
proof -
  obtain m url body status reply where "send \<lparr>tq_method = m, tq_url = url, tq_body = body, tq_bearer = token\<rparr> = Inr (status, reply)"
    "200 \<le> status" "status < 300" "v = unwrap_or (mc_parse_json ext reply) (JString reply)"
    using assms by (auto simp: call_tool_def split: sum.splits if_splits)
  then show ?thesis by (metis tool_request.select_convs(4))
qed

subsection \<open>Witnesses\<close>

theorem mcp_tools_served_witness:
  "\<exists>m path body. tool_route ''http://c'' ''orion_logs''
     (JObject [(''kind'', JString ''Service''), (''name'', JString ''web'')]) = Inr (m, ''http://c'' @ ''/v1/'' @ path, body)"
proof -
  have "''orion_logs'' \<in> fst ` set planned_tools" by (simp add: planned_tool_names)
  moreover have "admits (tool_input_schema ''orion_logs'') (JObject [(''kind'', JString ''Service''), (''name'', JString ''web'')])"
    by code_simp
  ultimately show ?thesis using mcp_tools_served by blast
qed

end
