(* ===== verification/Http_Routes.thy ===== *)
theory Http_Routes
  imports Cli_Main Cli_Requests Mcp Auth
begin

text \<open>
  The routes of the controller (\<^verbatim>\<open>main\<close> in \<^verbatim>\<open>orion-controller/src/main.rs\<close>): which request reaches
  which handler, with the bearer check in front of everything but the health endpoint, and the
  handlers that only read a registry. Finding the pattern of a path is axum's and a parameter, with
  the documented laws as the hypothesis \<open>routes_by_pattern\<close>: a pattern matches segment by segment, a
  literal segment before a capture. Decoding a query string is a parameter too. The second part joins
  the routes with the clients: the requests of the command line client and of the tool server reach
  the handlers they are meant for, and a resource is read from end to end.
\<close>

subsection \<open>Handlers that read a registry\<close>

definition get_instances :: "string \<Rightarrow> string \<Rightarrow> app_state \<Rightarrow> instance_record list" where
  "get_instances kind name st = snapshot_for (as_instances st) kind name"

definition list_all_instances :: "app_state \<Rightarrow> instance_record list" where
  "list_all_instances st = snapshot_all (as_instances st)"

definition list_schedule_observations :: "app_state \<Rightarrow> (string, schedule_observation) hash_map" where
  "list_schedule_observations st = as_schedules st"

definition list_workflow_progress :: "app_state \<Rightarrow> (string, workflow_progress) hash_map" where
  "list_workflow_progress st = as_workflows st"

text \<open>The text of an identifier is an argument.\<close>

definition list_health :: "(uuid \<Rightarrow> string) \<Rightarrow> app_state \<Rightarrow> (string, health_snapshot) hash_map" where
  "list_health uuid_text st = fold (\<lambda>(k, v). hm_insert (uuid_text k) v) (as_health st) []"

definition health :: string where
  "health = ''ok''"

text \<open>What the monitoring endpoint of the broker answers: no answer, or a status with its text and the
  body as JSON.\<close>

definition fetch_nats_varz ::
  "(string \<Rightarrow> string + nat \<times> string \<times> (string + json)) \<Rightarrow> string \<Rightarrow> api_error + json" where
  "fetch_nats_varz get monitoring_url =
     (case get (monitoring_url @ ''/varz'') of
        Inl e \<Rightarrow> Inl (api_internal (''nats /varz: '' @ e))
      | Inr (status, status_text, body) \<Rightarrow>
          (if \<not> status_is_success status then Inl (api_internal (''nats /varz status '' @ status_text))
           else (case body of Inl e \<Rightarrow> Inl (api_internal (''nats /varz parse: '' @ e)) | Inr v \<Rightarrow> Inr v)))"

subsection \<open>The table\<close>

datatype verb = Verb_Get | Verb_Head | Verb_Post | Verb_Delete | Verb_Options | Verb_Other string

datatype endpoint =
    H_list_nodes | H_list_kinds | H_list_resources | H_get_resource | H_delete_resource | H_apply_resource
  | H_dispatch_resource | H_get_logs | H_search_logs | H_list_all_instances | H_get_instances | H_stop_workload
  | H_restart_workload | H_diag_system | H_diag_jetstream | H_list_schedule_observations | H_list_health
  | H_find_services | H_get_logs_archive | H_prometheus_metrics | H_list_workflow_progress | H_health

text \<open>The routes in front of which the layer of the bearer check is put.\<close>

definition guarded_routes :: "(string \<times> (verb \<times> endpoint) list) list" where
  "guarded_routes =
     [(''/v1/nodes'', [(Verb_Get, H_list_nodes)]),
      (''/v1/kinds'', [(Verb_Get, H_list_kinds)]),
      (''/v1/resources/:kind'', [(Verb_Get, H_list_resources)]),
      (''/v1/resources/:kind/:name'', [(Verb_Get, H_get_resource), (Verb_Delete, H_delete_resource)]),
      (''/v1/resources/apply'', [(Verb_Post, H_apply_resource)]),
      (''/v1/dispatch/:kind/:name'', [(Verb_Post, H_dispatch_resource)]),
      (''/v1/logs/:kind/:name'', [(Verb_Get, H_get_logs)]),
      (''/v1/logs/search'', [(Verb_Get, H_search_logs)]),
      (''/v1/instances'', [(Verb_Get, H_list_all_instances)]),
      (''/v1/instances/:kind/:name'', [(Verb_Get, H_get_instances)]),
      (''/v1/control/:kind/:name/stop'', [(Verb_Post, H_stop_workload)]),
      (''/v1/control/:kind/:name/restart'', [(Verb_Post, H_restart_workload)]),
      (''/v1/diag/system'', [(Verb_Get, H_diag_system)]),
      (''/v1/diag/jetstream'', [(Verb_Get, H_diag_jetstream)]),
      (''/v1/schedules/observed'', [(Verb_Get, H_list_schedule_observations)]),
      (''/v1/health/instances'', [(Verb_Get, H_list_health)]),
      (''/v1/find'', [(Verb_Post, H_find_services)]),
      (''/v1/logs-archive/:kind/:name'', [(Verb_Get, H_get_logs_archive)]),
      (''/metrics'', [(Verb_Get, H_prometheus_metrics)]),
      (''/v1/workflows/observed'', [(Verb_Get, H_list_workflow_progress)])]"

definition open_routes :: "(string \<times> (verb \<times> endpoint) list) list" where
  "open_routes = [(''/health'', [(Verb_Get, H_health)])]"

definition route_patterns :: "string list" where
  "route_patterns = map fst (guarded_routes @ open_routes)"

text \<open>The handler of a method; a handler for reading answers requests for the head as well.\<close>

definition method_handler :: "(verb \<times> endpoint) list \<Rightarrow> verb \<Rightarrow> endpoint option" where
  "method_handler hs v = map_of hs (if v = Verb_Head then Verb_Get else v)"

subsection \<open>Serving a request\<close>

record search_query =
  sq_q :: string
  sq_kind :: "string option"
  sq_name :: "string option"
  sq_limit :: "nat option"

record archive_query =
  aq_since :: "string option"
  aq_limit :: "i64 option"

text \<open>What the framework and the other services do for a request: the pattern of a path with what it
  captured, the query of each handler that has one, the requests to the broker, the clock after the
  pause of a restart.\<close>

record web_ext =
  wx_route :: "string list \<Rightarrow> string \<Rightarrow> (string \<times> string list) option"
  wx_apply_query :: "string \<Rightarrow> string + string option"
  wx_logs_query :: "string \<Rightarrow> string + nat option"
  wx_search_query :: "string \<Rightarrow> string + search_query"
  wx_archive_query :: "string \<Rightarrow> string + archive_query"
  wx_varz :: "string \<Rightarrow> string + nat \<times> string \<times> (string + json)"
  wx_jsz :: "string \<Rightarrow> string + json"
  wx_uuid_text :: "uuid \<Rightarrow> string"
  wx_now :: datetime
  wx_later :: datetime

record api_request =
  rq_verb :: verb
  rq_path :: string
  rq_query :: string
  rq_auth :: "string option"
  rq_body :: string

datatype reply =
    Re_Text string
  | Re_Nodes "node_view list"
  | Re_Kinds "string list"
  | Re_Resources "resource list"
  | Re_Resource resource
  | Re_Deleted delete_outcome
  | Re_Applied apply_outcome
  | Re_Dispatched dispatch_outcome
  | Re_Stopped stop_outcome
  | Re_Restarted restart_outcome
  | Re_Logs logs_view
  | Re_Hits "search_hit list"
  | Re_Archive "log_archive_entry list"
  | Re_Instances "instance_record list"
  | Re_System diag_system_view
  | Re_Jetstream diag_jetstream_view
  | Re_Schedules "(string, schedule_observation) hash_map"
  | Re_Health "(string, health_snapshot) hash_map"
  | Re_Workflows "(string, workflow_progress) hash_map"
  | Re_Error api_error
  | Re_Bad_Query string
  | Re_Unauthorized string
  | Re_Unknown_Path
  | Re_Wrong_Method
  | Re_Preflight
  | Re_Closed

text \<open>The status line of a reply; a handler that panics closes the connection without one.\<close>

fun reply_status :: "reply \<Rightarrow> nat option" where
  "reply_status (Re_Error e) =
     Some (case api_error.ae_status e of BAD_REQUEST \<Rightarrow> 400 | NOT_FOUND \<Rightarrow> 404 | INTERNAL_SERVER_ERROR \<Rightarrow> 500)"
| "reply_status (Re_Bad_Query e) = Some 400"
| "reply_status (Re_Unauthorized e) = Some 401"
| "reply_status Re_Unknown_Path = Some 404"
| "reply_status Re_Wrong_Method = Some 405"
| "reply_status Re_Closed = None"
| "reply_status _ = Some 200"

definition replied :: "('a \<Rightarrow> reply) \<Rightarrow> api_error + 'a \<Rightarrow> reply" where
  "replied f r = (case r of Inl e \<Rightarrow> Re_Error e | Inr x \<Rightarrow> f x)"

fun handled :: "('a \<Rightarrow> reply) \<Rightarrow> handler_error + 'a \<Rightarrow> reply" where
  "handled f (Inl (Api e)) = Re_Error e"
| "handled f (Inl Panic) = Re_Closed"
| "handled f (Inr x) = f x"

definition with_query :: "string + 'q \<Rightarrow> ('q \<Rightarrow> reply \<times> app_state) \<Rightarrow> app_state \<Rightarrow> reply \<times> app_state" where
  "with_query q f st = (case q of Inl e \<Rightarrow> (Re_Bad_Query e, st) | Inr x \<Rightarrow> f x)"

text \<open>The extractors of a handler in front of its body: what the path captured, the query, the body.\<close>

fun run_endpoint ::
  "ctl_ext \<Rightarrow> web_ext \<Rightarrow> auth_mode \<Rightarrow> endpoint \<Rightarrow> string list \<Rightarrow> api_request \<Rightarrow> app_state \<Rightarrow> reply \<times> app_state" where
  "run_endpoint ext wx mode H_list_nodes as rq st = (replied Re_Nodes (http_list_nodes ext (wx_now wx) st), st)"
| "run_endpoint ext wx mode H_list_kinds as rq st = (Re_Kinds list_kinds, st)"
| "run_endpoint ext wx mode H_list_resources as rq st = (replied Re_Resources (http_list_resources ext (as ! 0) st), st)"
| "run_endpoint ext wx mode H_get_resource as rq st = (replied Re_Resource (http_get_resource ext (as ! 0) (as ! 1) st), st)"
| "run_endpoint ext wx mode H_delete_resource as rq st =
     (let (r, st') = http_delete_resource (as ! 0) (as ! 1) st in (replied Re_Deleted r, st'))"
| "run_endpoint ext wx mode H_apply_resource as rq st =
     with_query (wx_apply_query wx (rq_query rq))
       (\<lambda>dry_run. let (r, st') = apply_resource ext debug_str (wx_now wx) dry_run (rq_body rq) st in (replied Re_Applied r, st')) st"
| "run_endpoint ext wx mode H_dispatch_resource as rq st =
     (let (r, st') = dispatch_resource ext (wx_now wx) (as ! 0) (as ! 1) st in (handled Re_Dispatched r, st'))"
| "run_endpoint ext wx mode H_get_logs as rq st =
     with_query (wx_logs_query wx (rq_query rq)) (\<lambda>since. (Re_Logs (get_logs (as ! 0) (as ! 1) since st), st)) st"
| "run_endpoint ext wx mode H_search_logs as rq st =
     with_query (wx_search_query wx (rq_query rq))
       (\<lambda>q. (Re_Hits (search_logs (sq_q q) (sq_kind q) (sq_name q) (sq_limit q) st), st)) st"
| "run_endpoint ext wx mode H_list_all_instances as rq st = (Re_Instances (list_all_instances st), st)"
| "run_endpoint ext wx mode H_get_instances as rq st = (Re_Instances (get_instances (as ! 0) (as ! 1) st), st)"
| "run_endpoint ext wx mode H_stop_workload as rq st =
     (let (r, st') = stop_workload ext (wx_now wx) (as ! 0) (as ! 1) st in (replied Re_Stopped r, st'))"
| "run_endpoint ext wx mode H_restart_workload as rq st =
     (let (r, st') = restart_workload ext (wx_now wx) (wx_later wx) (as ! 0) (as ! 1) st in (handled Re_Restarted r, st'))"
| "run_endpoint ext wx mode H_diag_system as rq st =
     (replied Re_System (diag_system ext (\<lambda>url. case fetch_nats_varz (wx_varz wx) url of Inl _ \<Rightarrow> None | Inr v \<Rightarrow> Some v)
        (auth_is_disabled mode) (wx_now wx) st), st)"
| "run_endpoint ext wx mode H_diag_jetstream as rq st = (replied Re_Jetstream (diag_jetstream (wx_jsz wx) st), st)"
| "run_endpoint ext wx mode H_list_schedule_observations as rq st = (Re_Schedules (list_schedule_observations st), st)"
| "run_endpoint ext wx mode H_list_health as rq st = (Re_Health (list_health (wx_uuid_text wx) st), st)"
| "run_endpoint ext wx mode H_find_services as rq st = (replied Re_Resources (find_services ext (rq_body rq) st), st)"
| "run_endpoint ext wx mode H_get_logs_archive as rq st =
     with_query (wx_archive_query wx (rq_query rq))
       (\<lambda>q. (replied Re_Archive (get_logs_archive ext (wx_now wx) (as ! 0) (as ! 1) (aq_since q) (aq_limit q) st), st)) st"
| "run_endpoint ext wx mode H_prometheus_metrics as rq st = (Re_Text (prometheus_metrics ext (wx_now wx) st), st)"
| "run_endpoint ext wx mode H_list_workflow_progress as rq st = (Re_Workflows (list_workflow_progress st), st)"
| "run_endpoint ext wx mode H_health as rq st = (Re_Text health, st)"

definition run_method ::
  "ctl_ext \<Rightarrow> web_ext \<Rightarrow> auth_mode \<Rightarrow> (verb \<times> endpoint) list \<Rightarrow> string list \<Rightarrow> api_request \<Rightarrow> app_state \<Rightarrow> reply \<times> app_state" where
  "run_method ext wx mode hs as rq st =
     (case method_handler hs (rq_verb rq) of
        None \<Rightarrow> (Re_Wrong_Method, st)
      | Some h \<Rightarrow> run_endpoint ext wx mode h as rq st)"

text \<open>The router with its layers. The bearer check is in front of the routes above it and of unknown
  paths; the layer for other origins is outermost and answers preflight requests itself.\<close>

definition serve :: "ctl_ext \<Rightarrow> web_ext \<Rightarrow> auth_mode \<Rightarrow> api_request \<Rightarrow> app_state \<Rightarrow> reply \<times> app_state" where
  "serve ext wx mode rq st =
     (if rq_verb rq = Verb_Options then (Re_Preflight, st)
      else let found = wx_route wx route_patterns (rq_path rq)
        in case Option.bind found (\<lambda>(p, as). map_option (\<lambda>hs. (hs, as)) (map_of open_routes p)) of
             Some (hs, as) \<Rightarrow> run_method ext wx mode hs as rq st
           | None \<Rightarrow>
               (case require_bearer mode (rq_auth rq) of
                  Reject e \<Rightarrow> (Re_Unauthorized e, st)
                | Next \<Rightarrow>
                    (case Option.bind found (\<lambda>(p, as). map_option (\<lambda>hs. (hs, as)) (map_of guarded_routes p)) of
                       Some (hs, as) \<Rightarrow> run_method ext wx mode hs as rq st
                     | None \<Rightarrow> (Re_Unknown_Path, st))))"
subsection \<open>Patterns and paths\<close>

definition is_capture :: "string \<Rightarrow> bool" where
  "is_capture seg = (case seg of c # _ \<Rightarrow> c = CHR '':'' | [] \<Rightarrow> False)"

definition segments :: "string \<Rightarrow> string list" where
  "segments p = split_on (CHR ''/'') p"

text \<open>What a pattern captures of a path: a capture takes one segment that is not empty.\<close>

fun seg_captures :: "string list \<Rightarrow> string list \<Rightarrow> string list option" where
  "seg_captures [] [] = Some []"
| "seg_captures (p # ps) (s # ss) =
     (if is_capture p then if s = [] then None else map_option (Cons s) (seg_captures ps ss)
      else if p = s then seg_captures ps ss else None)"
| "seg_captures _ _ = None"

definition captures :: "string \<Rightarrow> string \<Rightarrow> string list option" where
  "captures pat path = seg_captures (segments pat) (segments path)"

fun prefers :: "string list \<Rightarrow> string list \<Rightarrow> bool" where
  "prefers (p # ps) (q # qs) \<longleftrightarrow> \<not> is_capture p \<and> is_capture q \<or> is_capture p = is_capture q \<and> prefers ps qs"
| "prefers _ _ \<longleftrightarrow> False"

text \<open>The documented laws of the router, for paths in which nothing is percent-encoded: it finds a
  pattern that matches if there is one, and none that another pattern with an earlier literal segment
  should have been preferred to.\<close>

definition routes_by_pattern :: "(string list \<Rightarrow> string \<Rightarrow> (string \<times> string list) option) \<Rightarrow> bool" where
  "routes_by_pattern route \<longleftrightarrow>
     (\<forall>pats path. CHR ''%'' \<notin> set path \<longrightarrow>
        (case route pats path of
           None \<Rightarrow> \<forall>p \<in> set pats. captures p path = None
         | Some (pat, as) \<Rightarrow> pat \<in> set pats \<and> captures pat path = Some as \<and>
             (\<forall>p \<in> set pats. captures p path \<noteq> None \<longrightarrow> \<not> prefers (segments p) (segments pat))))"

fun overlap :: "string list \<Rightarrow> string list \<Rightarrow> bool" where
  "overlap [] [] \<longleftrightarrow> True"
| "overlap (p # ps) (q # qs) \<longleftrightarrow> (is_capture p \<or> is_capture q \<or> p = q) \<and> overlap ps qs"
| "overlap _ _ \<longleftrightarrow> False"

lemma captures_overlap: "seg_captures ps ss \<noteq> None \<Longrightarrow> seg_captures qs ss \<noteq> None \<Longrightarrow> overlap ps qs"
proof (induction ps ss arbitrary: qs rule: seg_captures.induct)
  case (2 p ps s ss)
  then show ?case by (cases qs) (auto split: if_splits)
next
  case 1
  then show ?case by (cases qs) auto
qed auto

lemma captures_literal: "list_all (\<lambda>p. \<not> is_capture p) ps \<Longrightarrow> seg_captures ps ss \<noteq> None \<Longrightarrow> ss = ps"
  by (induction ps ss rule: seg_captures.induct) (auto split: if_splits)

lemma pattern_segments:
  "map segments route_patterns =
     [[[], ''v1'', ''nodes''], [[], ''v1'', ''kinds''], [[], ''v1'', ''resources'', '':kind''],
      [[], ''v1'', ''resources'', '':kind'', '':name''], [[], ''v1'', ''resources'', ''apply''],
      [[], ''v1'', ''dispatch'', '':kind'', '':name''], [[], ''v1'', ''logs'', '':kind'', '':name''],
      [[], ''v1'', ''logs'', ''search''], [[], ''v1'', ''instances''], [[], ''v1'', ''instances'', '':kind'', '':name''],
      [[], ''v1'', ''control'', '':kind'', '':name'', ''stop''], [[], ''v1'', ''control'', '':kind'', '':name'', ''restart''],
      [[], ''v1'', ''diag'', ''system''], [[], ''v1'', ''diag'', ''jetstream''], [[], ''v1'', ''schedules'', ''observed''],
      [[], ''v1'', ''health'', ''instances''], [[], ''v1'', ''find''], [[], ''v1'', ''logs-archive'', '':kind'', '':name''],
      [[], ''metrics''], [[], ''v1'', ''workflows'', ''observed''], [[], ''health'']]"
  by code_simp

lemma apply_segments: "segments ''/v1/resources/apply'' = [[], ''v1'', ''resources'', ''apply'']"
  "segments ''/v1/resources/:kind'' = [[], ''v1'', ''resources'', '':kind'']"
  by code_simp+

text \<open>The table has one pair of patterns that match a common path.\<close>

lemma routes_disjoint:
  "sorted_wrt (\<lambda>p q. overlap p q \<longrightarrow> {p, q} = {segments ''/v1/resources/:kind'', segments ''/v1/resources/apply''})
     (map segments route_patterns)"
  unfolding pattern_segments apply_segments by (simp add: is_capture_def)

lemma concat_split_on: "concat (map (Cons c) (split_on c s)) = c # s"
  by (induction s) (auto split: list.split)

lemma segments_inj: "segments p = segments q \<longleftrightarrow> p = q"
  using concat_split_on [of "CHR ''/''"] unfolding segments_def by (metis list.inject)

lemma overlap_sym: "overlap ps qs = overlap qs ps"
  by (induction ps qs rule: overlap.induct) auto

lemma routes_overlap:
  assumes "p \<in> set route_patterns" and "q \<in> set route_patterns" and "overlap (segments p) (segments q)"
  shows "p = q \<or> {p, q} = {''/v1/resources/:kind'', ''/v1/resources/apply''}"
proof -
  have pair: "{x, y} = {''/v1/resources/:kind'', ''/v1/resources/apply''}"
    if "i < j" "j < length route_patterns" "x = route_patterns ! i" "y = route_patterns ! j"
      "overlap (segments x) (segments y)" for i j x y
  proof -
    have "{segments x, segments y} = {segments ''/v1/resources/:kind'', segments ''/v1/resources/apply''}"
      using sorted_wrt_nth_less [OF routes_disjoint, of i j] that by simp
    then show ?thesis by (auto simp: doubleton_eq_iff segments_inj)
  qed
  obtain i j where "i < length route_patterns" "p = route_patterns ! i" "j < length route_patterns" "q = route_patterns ! j"
    using assms(1,2) by (metis in_set_conv_nth)
  moreover have "overlap (segments q) (segments p)" using assms(3) by (simp only: overlap_sym)
  ultimately show ?thesis
    using pair [of i j p q] pair [of j i q p] assms(3) by (metis insert_commute linorder_less_linear)
qed

lemma route_found:
  assumes "routes_by_pattern route" and "CHR ''%'' \<notin> set path" and "pat \<in> set route_patterns"
    and "captures pat path = Some as" and "pat = ''/v1/resources/:kind'' \<longrightarrow> as \<noteq> [''apply'']"
  shows "route route_patterns path = Some (pat, as)"
proof -
  have law: "case route route_patterns path of
      None \<Rightarrow> \<forall>p \<in> set route_patterns. captures p path = None
    | Some (p, as) \<Rightarrow> p \<in> set route_patterns \<and> captures p path = Some as \<and>
        (\<forall>q \<in> set route_patterns. captures q path \<noteq> None \<longrightarrow> \<not> prefers (segments q) (segments p))"
    using assms(1,2) unfolding routes_by_pattern_def by blast
  obtain p as' where p: "route route_patterns path = Some (p, as')" "p \<in> set route_patterns"
    "captures p path = Some as'" "\<not> prefers (segments pat) (segments p)"
    using law assms(3,4) by (cases "route route_patterns path") (auto split: prod.splits)
  have "overlap (segments pat) (segments p)"
    using captures_overlap p(3) assms(4) unfolding captures_def by force
  note cases = routes_overlap [OF assms(3) p(2) this, unfolded doubleton_eq_iff]
  show ?thesis
  proof (rule disjE [OF cases])
    assume "pat = p"
    with p assms(4) show ?thesis by simp
  next
    assume "pat = ''/v1/resources/:kind'' \<and> p = ''/v1/resources/apply'' \<or>
      pat = ''/v1/resources/apply'' \<and> p = ''/v1/resources/:kind''"
    then show ?thesis
    proof (elim disjE conjE)
      assume 2: "pat = ''/v1/resources/:kind''" "p = ''/v1/resources/apply''"
      have "segments path = [[], ''v1'', ''resources'', ''apply'']"
        using captures_literal [of "segments p" "segments path"] p(3) unfolding 2
        by (simp add: captures_def apply_segments is_capture_def)
      then have "as = [''apply'']"
        using assms(4) unfolding 2 by (simp add: captures_def apply_segments is_capture_def)
      with mp [OF assms(5) 2(1)] show ?thesis by contradiction
    next
      assume "pat = ''/v1/resources/apply''" "p = ''/v1/resources/:kind''"
      with p(4) show ?thesis by (simp only: apply_segments) (simp add: is_capture_def)
    qed
  qed
qed

text \<open>A pattern with its captures filled in.\<close>

fun fill_segs :: "string list \<Rightarrow> string list \<Rightarrow> string list" where
  "fill_segs [] as = []"
| "fill_segs (p # ps) as = (if is_capture p then hd as # fill_segs ps (tl as) else p # fill_segs ps as)"

definition fill_pattern :: "string \<Rightarrow> string list \<Rightarrow> string" where
  "fill_pattern pat as = show_path (fill_segs (tl (segments pat)) as)"

definition arity :: "string \<Rightarrow> nat" where
  "arity pat = length (filter is_capture (segments pat))"

text \<open>A text that is one segment of a path as it stands.\<close>

definition plain_segment :: "string \<Rightarrow> bool" where
  "plain_segment s \<longleftrightarrow> s \<noteq> [] \<and> list_all (\<lambda>c. is_ascii_alphanumeric c \<or> c \<in> {CHR ''-'', CHR ''_''}) s"

lemma plain_segment_chars:
  "plain_segment s \<Longrightarrow> s \<noteq> [] \<and> CHR ''/'' \<notin> set s \<and> CHR ''%'' \<notin> set s \<and> CHR ''?'' \<notin> set s"
  by (auto simp: plain_segment_def list_all_iff is_ascii_alphanumeric_def is_ascii_digit_def is_ascii_upper_def is_ascii_lower_def)

lemma seg_captures_fill:
  "length as = length (filter is_capture ps) \<Longrightarrow> [] \<notin> set as \<Longrightarrow> seg_captures ps (fill_segs ps as) = Some as"
proof (induction ps arbitrary: as)
  case (Cons p ps)
  then show ?case by (cases as) auto
qed simp

lemma segments_show_path: "list_all (\<lambda>s. CHR ''/'' \<notin> set s) ss \<Longrightarrow> segments (show_path ss) = [] # (if ss = [] then [] else ss)"
proof (induction ss)
  case (Cons s ss)
  have "split_on (CHR ''/'') (s @ show_path ss) = s # ss"
  proof (cases ss)
    case Nil
    then show ?thesis using Cons.prems by (simp add: show_path_def split_on_notin)
  next
    case (Cons t ts)
    then have "show_path ss = CHR ''/'' # t @ show_path ts" by (simp add: show_path_def)
    moreover have "split_on (CHR ''/'') (t @ show_path ts) = ss"
      using Cons.IH Cons.prems Cons by (simp add: segments_def show_path_def)
    ultimately show ?thesis using Cons.prems by (simp add: split_on_append)
  qed
  then show ?case by (simp add: segments_def show_path_def)
qed (simp add: segments_def show_path_def)

lemma fill_segs_chars:
  "list_all (\<lambda>s. c \<notin> set s) ps \<Longrightarrow> list_all (\<lambda>s. c \<notin> set s) as \<Longrightarrow> length as = length (filter is_capture ps) \<Longrightarrow>
     list_all (\<lambda>s. c \<notin> set s) (fill_segs ps as)"
proof (induction ps arbitrary: as)
  case (Cons p ps)
  then show ?case by (cases as) auto
qed simp

lemma pattern_chars:
  "list_all (\<lambda>pat. segments pat \<noteq> [[]] \<and> hd (segments pat) = [] \<and>
     list_all (\<lambda>s. CHR ''/'' \<notin> set s \<and> CHR ''%'' \<notin> set s \<and> CHR ''?'' \<notin> set s) (segments pat)) route_patterns"
proof -
  have "list_all (\<lambda>ss. ss \<noteq> [[]] \<and> hd ss = [] \<and>
      list_all (\<lambda>s. CHR ''/'' \<notin> set s \<and> CHR ''%'' \<notin> set s \<and> CHR ''?'' \<notin> set s) ss) (map segments route_patterns)"
    unfolding pattern_segments by simp
  then show ?thesis by (simp add: list.pred_map o_def)
qed

lemma captures_fill:
  assumes "pat \<in> set route_patterns" and "length as = arity pat" and "list_all plain_segment as"
  shows "captures pat (fill_pattern pat as) = Some as"
    and "CHR ''%'' \<notin> set (fill_pattern pat as)" and "CHR ''?'' \<notin> set (fill_pattern pat as)"
proof -
  obtain ss where ss: "segments pat = [] # ss" "ss \<noteq> []"
    using pattern_chars assms(1) by (cases "segments pat") (auto simp: list_all_iff segments_def)
  have chars: "list_all (\<lambda>s. CHR ''/'' \<notin> set s) ss" "list_all (\<lambda>s. CHR ''%'' \<notin> set s) ss" "list_all (\<lambda>s. CHR ''?'' \<notin> set s) ss"
    using bspec [OF pattern_chars [unfolded list_all_iff] assms(1)] ss by (auto simp: list_all_iff)
  have as: "list_all (\<lambda>s. CHR ''/'' \<notin> set s) as" "list_all (\<lambda>s. CHR ''%'' \<notin> set s) as" "list_all (\<lambda>s. CHR ''?'' \<notin> set s) as"
    "[] \<notin> set as"
    using assms(3) plain_segment_chars by (auto simp: list_all_iff)
  have len: "length as = length (filter is_capture ss)"
    using assms(2) ss by (simp add: arity_def is_capture_def)
  have "fill_segs ss as \<noteq> []" using ss by (cases ss) auto
  then show "captures pat (fill_pattern pat as) = Some as"
    using segments_show_path [OF fill_segs_chars [OF chars(1) as(1) len]] seg_captures_fill [OF len as(4)] ss
    by (simp add: captures_def fill_pattern_def is_capture_def)
  show "CHR ''%'' \<notin> set (fill_pattern pat as)" "CHR ''?'' \<notin> set (fill_pattern pat as)"
    using fill_segs_chars [OF chars(2) as(2) len] fill_segs_chars [OF chars(3) as(3) len] ss
    by (auto simp: fill_pattern_def show_path_def list_all_iff)
qed

subsection \<open>Who is let in\<close>

lemma route_law:
  "routes_by_pattern route \<Longrightarrow> CHR ''%'' \<notin> set path \<Longrightarrow> route pats path = Some (p, as) \<Longrightarrow> p \<in> set pats \<and> captures p path = Some as"
  unfolding routes_by_pattern_def by (elim allE [of _ pats] allE [of _ path]) simp

lemma route_health:
  assumes "routes_by_pattern route" and "CHR ''%'' \<notin> set path" and "route route_patterns path = Some (''/health'', as)"
  shows "path = ''/health''"
proof -
  have "captures ''/health'' path = Some as"
    using route_law [OF assms] by (rule conjunct2)
  moreover have "segments ''/health'' = [[], ''health'']" by code_simp
  ultimately have "segments path = segments ''/health''"
    using captures_literal [of "segments ''/health''" "segments path"] by (simp add: captures_def is_capture_def)
  then show ?thesis by (simp only: segments_inj)
qed


text \<open>Further: whatever is requested, with or without the token, a controller stays in its reachable
  states.\<close>

lemma run_endpoint_reachable: "reachable ext st \<Longrightarrow> reachable ext (snd (run_endpoint ext wx mode h as rq st))"
  using reachable_requests [of ext st] reachable_apply [of ext st]
  by (cases h) (simp_all add: with_query_def split_beta Let_def split: sum.split)

theorem serve_reachable: "reachable ext st \<Longrightarrow> reachable ext (snd (serve ext wx mode rq st))"
  using run_endpoint_reachable [of ext st]
  by (auto simp: serve_def run_method_def Let_def split: option.split auth_decision.split)

subsection \<open>Who answers\<close>

lemma distinct_routes: "distinct (map fst guarded_routes)"
  "list_all (\<lambda>p. map_of open_routes p = None) (map fst guarded_routes)"
  unfolding guarded_routes_def open_routes_def by simp_all

text \<open>Further: every route is served by its own handlers. A request with the token, a method the route
  has and plain segments in the places of the captures reaches exactly the handler the table names,
  with those segments as its arguments, and no other route takes it away; the one exception is
  listing resources of the kind \<open>apply\<close>, whose path is the one for applying.\<close>

theorem requests_served:
  assumes "routes_by_pattern (wx_route wx)" and "(pat, hs) \<in> set guarded_routes"
    and "method_handler hs (rq_verb rq) = Some h" and "rq_verb rq \<noteq> Verb_Options"
    and "list_all plain_segment as" and "length as = arity pat" and "pat = ''/v1/resources/:kind'' \<longrightarrow> as \<noteq> [''apply'']"
    and "rq_path rq = fill_pattern pat as" and "require_bearer mode (rq_auth rq) = Next"
  shows "serve ext wx mode rq st = run_endpoint ext wx mode h as rq st"
proof -
  have pat: "pat \<in> set route_patterns" "pat \<in> set (map fst guarded_routes)"
    using assms(2) by (force simp: route_patterns_def)+
  have "wx_route wx route_patterns (rq_path rq) = Some (pat, as)"
    using route_found [OF assms(1) _ pat(1) _ assms(7)] captures_fill [OF pat(1) assms(6,5)] assms(8) by simp
  moreover have "map_of open_routes pat = None"
    using distinct_routes(2) pat(2) by (simp add: list_all_iff del: set_map)
  moreover have "map_of guarded_routes pat = Some hs"
    using distinct_routes(1) assms(2) by simp
  ultimately show ?thesis using assms(3,4,9) by (simp add: serve_def run_method_def)
qed

subsection \<open>The clients and the routes\<close>

fun verb_of :: "request_method \<Rightarrow> verb" where
  "verb_of Req_Get = Verb_Get"
| "verb_of Req_Post = Verb_Post"
| "verb_of Req_Delete = Verb_Delete"

definition split_target :: "string \<Rightarrow> string \<times> string" where
  "split_target target = unwrap_or (split_once ''?'' target) (target, [])"

text \<open>The controller as the server the requests of the command line client meet; the text of a reply and
  of a status are arguments, and another address than the controller's does not answer.\<close>

definition controller_server ::
  "ctl_ext \<Rightarrow> web_ext \<Rightarrow> auth_mode \<Rightarrow> (reply \<Rightarrow> string) \<Rightarrow> (nat \<Rightarrow> string) \<Rightarrow> string \<Rightarrow> app_state \<Rightarrow> http_request \<Rightarrow> string + cli_answer" where
  "controller_server ext wx mode encode reason base st q =
     (case strip_prefix base (hq_url q) of
        None \<Rightarrow> Inl ''connection refused''
      | Some target \<Rightarrow>
          (let (path, query) = split_target target;
               re = fst (serve ext wx mode \<lparr>rq_verb = verb_of (hq_method q), rq_path = path, rq_query = query,
                                            rq_auth = hq_auth q, rq_body = unwrap_or (hq_body q) []\<rparr> st)
           in case reply_status re of
                None \<Rightarrow> Inl ''connection closed''
              | Some s \<Rightarrow> Inr \<lparr>hp_status = s, hp_status_text = reason s, hp_text = Inr (encode re)\<rparr>))"

lemma split_target_plain: "CHR ''?'' \<notin> set path \<Longrightarrow> split_target path = (path, [])"
proof -
  assume "CHR ''?'' \<notin> set path"
  then have "split_once ''?'' path = None" by (induction path) auto
  then show ?thesis by (simp add: split_target_def unwrap_or_def)
qed

text \<open>A request of the client on a route is answered by the handler of that route.\<close>

lemma client_request_served:
  assumes "routes_by_pattern (wx_route wx)" and "(pat, hs) \<in> set guarded_routes" and "method_handler hs (verb_of m) = Some h"
    and "list_all plain_segment as" and "length as = arity pat" and "pat = ''/v1/resources/:kind'' \<longrightarrow> as \<noteq> [''apply'']"
    and "http_headers (hw_header_ok w) ctx = Inr auth" and "require_bearer mode auth = Next"
    and "hw_server w = controller_server ext wx mode encode reason (cc_controller ctx) st"
    and "rq = \<lparr>rq_verb = verb_of m, rq_path = fill_pattern pat as, rq_query = [], rq_auth = auth, rq_body = unwrap_or body []\<rparr>"
    and "re = fst (run_endpoint ext wx mode h as rq st)"
  shows "http_send w ctx m (fill_pattern pat as) content body =
     (case reply_status re of
        None \<Rightarrow> Inl (Cli_Error (show_method m @ '' '' @ http_url ctx (fill_pattern pat as)))
      | Some s \<Rightarrow> Inr \<lparr>hp_status = s, hp_status_text = reason s, hp_text = Inr (encode re)\<rparr>)"
proof -
  have "pat \<in> set route_patterns" using assms(2) by (force simp: route_patterns_def)
  note fill = captures_fill [OF this assms(5,4)]
  have "verb_of m \<noteq> Verb_Options" by (cases m) simp_all
  then have "serve ext wx mode rq st = run_endpoint ext wx mode h as rq st"
    by (intro requests_served [OF assms(1,2) _ _ assms(4-6)]) (simp_all add: assms(3,8,10))
  moreover have "strip_prefix (cc_controller ctx) (cc_controller ctx @ p) = Some p" for p
    by (simp add: strip_prefix_iff)
  ultimately show ?thesis
    by (simp add: http_send_def assms(7,9,10,11) http_url_def controller_server_def split_target_plain [OF fill(3)] split: option.split)
qed

lemma filled_paths:
  "fill_pattern ''/v1/nodes'' [] = ''/v1/nodes''"
  "fill_pattern ''/v1/find'' [] = ''/v1/find''"
  "fill_pattern ''/v1/resources/apply'' [] = ''/v1/resources/apply''"
  "fill_pattern ''/v1/diag/system'' [] = ''/v1/diag/system''"
  "fill_pattern ''/v1/diag/jetstream'' [] = ''/v1/diag/jetstream''"
  "fill_pattern ''/v1/resources/:kind'' [k] = ''/v1/resources/'' @ k"
  "fill_pattern ''/v1/resources/:kind/:name'' [k, n] = ''/v1/resources/'' @ k @ ''/'' @ n"
  "fill_pattern ''/v1/dispatch/:kind/:name'' [k, n] = ''/v1/dispatch/'' @ k @ ''/'' @ n"
  "fill_pattern ''/v1/logs/:kind/:name'' [k, n] = ''/v1/logs/'' @ k @ ''/'' @ n"
  by (simp_all add: fill_pattern_def segments_def show_path_def is_capture_def)

lemma arities:
  "arity ''/v1/nodes'' = 0" "arity ''/v1/find'' = 0" "arity ''/v1/resources/apply'' = 0" "arity ''/v1/diag/system'' = 0"
  "arity ''/v1/diag/jetstream'' = 0" "arity ''/v1/resources/:kind'' = 1" "arity ''/v1/resources/:kind/:name'' = 2"
  "arity ''/v1/dispatch/:kind/:name'' = 2" "arity ''/v1/logs/:kind/:name'' = 2"
  by code_simp+

lemma resource_route: "(''/v1/resources/:kind/:name'', [(Verb_Get, H_get_resource), (Verb_Delete, H_delete_resource)]) \<in> set guarded_routes"
  unfolding guarded_routes_def by (simp only: list.set insert_iff simp_thms)


text \<open>What each tool of the tool server is for: the route, its arguments and its handler.\<close>

definition tool_target :: "string \<Rightarrow> string \<Rightarrow> string \<Rightarrow> (string \<times> string list \<times> endpoint) option" where
  "tool_target tool kind name = map_of
     [(''orion_list_nodes'', (''/v1/nodes'', [], H_list_nodes)),
      (''orion_list_services'', (''/v1/resources/:kind'', [''Service''], H_list_resources)),
      (''orion_list_tasks'', (''/v1/resources/:kind'', [''Task''], H_list_resources)),
      (''orion_list_queues'', (''/v1/resources/:kind'', [''Queue''], H_list_resources)),
      (''orion_doctor'', (''/v1/diag/system'', [], H_diag_system)),
      (''orion_diag_system'', (''/v1/diag/system'', [], H_diag_system)),
      (''orion_diag_jetstream'', (''/v1/diag/jetstream'', [], H_diag_jetstream)),
      (''orion_get_resource'', (''/v1/resources/:kind/:name'', [kind, name], H_get_resource)),
      (''orion_delete_resource'', (''/v1/resources/:kind/:name'', [kind, name], H_delete_resource)),
      (''orion_dispatch'', (''/v1/dispatch/:kind/:name'', [kind, name], H_dispatch_resource)),
      (''orion_logs'', (''/v1/logs/:kind/:name'', [kind, name], H_get_logs)),
      (''orion_apply_resource'', (''/v1/resources/apply'', [], H_apply_resource)),
      (''orion_find_capability'', (''/v1/find'', [], H_find_services))] tool"

fun tool_verb :: "http_method \<Rightarrow> verb" where
  "tool_verb GET = Verb_Get"
| "tool_verb POST = Verb_Post"
| "tool_verb DELETE = Verb_Delete"

definition text_arg :: "json \<Rightarrow> string \<Rightarrow> string" where
  "text_arg args key = (case arg_str args key of Inl _ \<Rightarrow> [] | Inr s \<Rightarrow> s)"

text \<open>A target is a route of the table with the right number of arguments.\<close>

definition target_ok :: "verb \<Rightarrow> string \<times> string list \<times> endpoint \<Rightarrow> bool" where
  "target_ok v = (\<lambda>(pat, as, h). length as = arity pat \<and> (pat = ''/v1/resources/:kind'' \<longrightarrow> as \<noteq> [''apply'']) \<and>
     (case map_of guarded_routes pat of None \<Rightarrow> False | Some hs \<Rightarrow> method_handler hs v = Some h))"

lemma fixed_targets:
  "target_ok Verb_Get (''/v1/nodes'', [], H_list_nodes)" "target_ok Verb_Get (''/v1/resources/:kind'', [''Service''], H_list_resources)"
  "target_ok Verb_Get (''/v1/resources/:kind'', [''Task''], H_list_resources)"
  "target_ok Verb_Get (''/v1/resources/:kind'', [''Queue''], H_list_resources)"
  "target_ok Verb_Get (''/v1/diag/system'', [], H_diag_system)" "target_ok Verb_Get (''/v1/diag/jetstream'', [], H_diag_jetstream)"
  "target_ok Verb_Post (''/v1/resources/apply'', [], H_apply_resource)" "target_ok Verb_Post (''/v1/find'', [], H_find_services)"
  by code_simp+

lemma named_targets:
  "target_ok Verb_Get (''/v1/resources/:kind/:name'', [k, n], H_get_resource)"
  "target_ok Verb_Delete (''/v1/resources/:kind/:name'', [k, n], H_delete_resource)"
  "target_ok Verb_Post (''/v1/dispatch/:kind/:name'', [k, n], H_dispatch_resource)"
  "target_ok Verb_Get (''/v1/logs/:kind/:name'', [k, n], H_get_logs)"
  unfolding target_ok_def guarded_routes_def prod.case by (simp_all add: arities method_handler_def)

lemma with_kind_name_iff:
  "with_kind_name args f = Inr x \<longleftrightarrow>
     (\<exists>k n. arg_str args ''kind'' = Inr k \<and> arg_str args ''name'' = Inr n \<and> x = f k n)"
  by (auto simp: with_kind_name_def split: sum.split)

definition reaches :: "string \<Rightarrow> json \<Rightarrow> string \<Rightarrow> http_method \<Rightarrow> string \<Rightarrow> bool" where
  "reaches tool args base m url \<longleftrightarrow>
     (\<exists>pat as h. tool_target tool (text_arg args ''kind'') (text_arg args ''name'') = Some (pat, as, h) \<and>
        url = base @ fill_pattern pat as \<and> target_ok (tool_verb m) (pat, as, h) \<and>
        (set as \<subseteq> {''Service'', ''Task'', ''Queue''} \<or>
          (\<exists>k n. as = [k, n] \<and> arg_str args ''kind'' = Inr k \<and> arg_str args ''name'' = Inr n)))"

lemma reachesI:
  assumes "tool_target tool (text_arg args ''kind'') (text_arg args ''name'') = Some (pat, as, h)"
    and "url = base @ fill_pattern pat as" and "target_ok (tool_verb m) (pat, as, h)"
    and "set as \<subseteq> {''Service'', ''Task'', ''Queue''} \<or>
       (\<exists>k n. as = [k, n] \<and> arg_str args ''kind'' = Inr k \<and> arg_str args ''name'' = Inr n)"
  shows "reaches tool args base m url"
  using assms unfolding reaches_def by blast

lemma tool_target_fixed:
  assumes "tool \<in> {''orion_list_nodes'', ''orion_list_services'', ''orion_list_tasks'', ''orion_list_queues'',
      ''orion_doctor'', ''orion_diag_system'', ''orion_diag_jetstream''}"
    and "tool_route base tool args = Inr (m, url, body)"
  shows "reaches tool args base m url"
  using assms(1) unfolding insert_iff empty_iff
  by (elim disjE; use assms(2) in \<open>simp add: tool_route_def\<close>)
    (rule reachesI, simp add: tool_target_def, simp add: filled_paths, simp add: fixed_targets, simp)+

lemma tool_target_named:
  assumes "tool \<in> {''orion_get_resource'', ''orion_delete_resource'', ''orion_dispatch'', ''orion_logs''}"
    and "tool_route base tool args = Inr (m, url, body)"
  shows "reaches tool args base m url"
  using assms(1) unfolding insert_iff empty_iff
  by (elim disjE; use assms(2) in \<open>simp add: tool_route_def with_kind_name_iff\<close>; elim exE conjE)
    (rule reachesI, simp add: tool_target_def text_arg_def, simp add: filled_paths text_arg_def, simp add: named_targets, simp)+

lemma tool_target_body:
  assumes "tool \<in> {''orion_apply_resource'', ''orion_find_capability''}" and "tool_route base tool args = Inr (m, url, body)"
  shows "reaches tool args base m url"
  using assms(1) unfolding insert_iff empty_iff
  by (elim disjE; use assms(2) in \<open>simp add: tool_route_def split: sum.split_asm option.split_asm\<close>)
    (rule reachesI, simp add: tool_target_def, simp add: filled_paths, simp add: fixed_targets, simp)+

lemma tool_reaches:
  assumes "tool_route base tool args = Inr (m, url, body)"
  shows "reaches tool args base m url"
proof -
  have "tool \<in> fst ` set planned_tools"
  proof (rule ccontr)
    assume "tool \<notin> fst ` set planned_tools"
    then have "tool_route base tool args = Inl (''unknown tool '' @ [CHR 0x27] @ tool @ [CHR 0x27])"
      unfolding tool_route_def planned_tool_names insert_iff empty_iff de_Morgan_disj by (simp only: if_False simp_thms)
    with assms show False by simp
  qed
  then show ?thesis
    unfolding planned_tool_groups
  proof (elim UnE)
    assume "tool \<in> {''orion_apply_resource''}"
    then show ?thesis by (intro tool_target_body [OF _ assms]) (simp only: insert_iff empty_iff simp_thms)
  next
    assume "tool \<in> {''orion_find_capability''}"
    then show ?thesis by (intro tool_target_body [OF _ assms]) (simp only: insert_iff empty_iff simp_thms)
  qed (erule tool_target_fixed [OF _ assms] tool_target_named [OF _ assms])+
qed

lemma kinds_plain: "set as \<subseteq> {''Service'', ''Task'', ''Queue''} \<Longrightarrow> list_all plain_segment as"
proof -
  have "list_all plain_segment [''Service'', ''Task'', ''Queue'']" by code_simp
  then show "set as \<subseteq> {''Service'', ''Task'', ''Queue''} \<Longrightarrow> list_all plain_segment as" by (auto simp: list_all_iff)
qed

text \<open>C26: the tools do what they are named for. Every request of the tool server is a path below
  the controller's address which, with the token and a plain kind and name, is answered by the
  handler of the tool, on the kind and name of the call.\<close>

theorem tools_reach_handlers:
  assumes "routes_by_pattern (wx_route wx)" and "tool_route base tool args = Inr (m, base @ rq_path rq, body)"
    and "rq_verb rq = tool_verb m" and "require_bearer mode (rq_auth rq) = Next"
    and "\<forall>s. arg_str args ''kind'' = Inr s \<or> arg_str args ''name'' = Inr s \<longrightarrow> plain_segment s"
  shows "\<exists>pat as h. tool_target tool (text_arg args ''kind'') (text_arg args ''name'') = Some (pat, as, h) \<and>
     serve ext wx mode rq st = run_endpoint ext wx mode h as rq st"
proof -
  obtain pat as h where t: "tool_target tool (text_arg args ''kind'') (text_arg args ''name'') = Some (pat, as, h)"
    "rq_path rq = fill_pattern pat as" "target_ok (tool_verb m) (pat, as, h)"
    "set as \<subseteq> {''Service'', ''Task'', ''Queue''} \<or>
       (\<exists>k n. as = [k, n] \<and> arg_str args ''kind'' = Inr k \<and> arg_str args ''name'' = Inr n)"
    using tool_reaches [OF assms(2)] unfolding reaches_def by auto
  obtain hs where hs: "(pat, hs) \<in> set guarded_routes" "method_handler hs (rq_verb rq) = Some h" "length as = arity pat"
    "pat = ''/v1/resources/:kind'' \<longrightarrow> as \<noteq> [''apply'']"
    using t(3) assms(3) map_of_SomeD by (fastforce simp: target_ok_def split: option.split_asm)
  have "rq_verb rq \<noteq> Verb_Options" using assms(3) by (cases m) simp_all
  moreover have "list_all plain_segment as" using t(4) kinds_plain assms(5) by auto
  ultimately show ?thesis
    using requests_served [OF assms(1) hs(1,2) _ _ hs(3,4) t(2) assms(4)] t(1) by blast
qed

subsection \<open>Witnesses\<close>

text \<open>A router with the laws: of the patterns that match, the one whose captures come last.\<close>

definition lexical_route :: "string list \<Rightarrow> string \<Rightarrow> (string \<times> string list) option" where
  "lexical_route pats path =
     (case sort_key (\<lambda>p. map is_capture (segments p)) (filter (\<lambda>p. captures p path \<noteq> None) pats) of
        [] \<Rightarrow> None
      | p # _ \<Rightarrow> Some (p, the (captures p path)))"

lemma prefers_less: "prefers ps qs \<Longrightarrow> map is_capture ps < map is_capture qs"
  by (induction ps qs rule: prefers.induct) auto

lemma lexical_route_law: "routes_by_pattern lexical_route"
  unfolding routes_by_pattern_def
proof (intro allI impI)
  fix pats path
  let ?key = "\<lambda>p. map is_capture (segments p)"
  let ?ms = "sort_key ?key (filter (\<lambda>p. captures p path \<noteq> None) pats)"
  show "case lexical_route pats path of
      None \<Rightarrow> \<forall>p \<in> set pats. captures p path = None
    | Some (pat, as) \<Rightarrow> pat \<in> set pats \<and> captures pat path = Some as \<and>
        (\<forall>p \<in> set pats. captures p path \<noteq> None \<longrightarrow> \<not> prefers (segments p) (segments pat))"
  proof (cases ?ms)
    case Nil
    then have "set ?ms = {}" by (simp only: list.set)
    moreover have "lexical_route pats path = None" unfolding lexical_route_def Nil by simp
    ultimately show ?thesis by auto
  next
    case (Cons p ps)
    have mem: "set (p # ps) = {q \<in> set pats. captures q path \<noteq> None}" unfolding Cons [symmetric] by auto
    have "sorted (map ?key (p # ps))" unfolding Cons [symmetric] by (rule sorted_sort_key)
    then have "?key p \<le> ?key q" if "q \<in> set (p # ps)" for q using that by auto
    then have "\<not> prefers (segments q) (segments p)" if "q \<in> set (p # ps)" for q
      using that prefers_less by (metis leD)
    moreover have "p \<in> set pats \<and> captures p path \<noteq> None" using mem by auto
    moreover have "lexical_route pats path = Some (p, the (captures p path))" unfolding lexical_route_def Cons by simp
    ultimately show ?thesis using mem by auto
  qed
qed

definition demo_web :: web_ext where
  "demo_web = \<lparr>wx_route = lexical_route, wx_apply_query = \<lambda>_. Inr None, wx_logs_query = \<lambda>_. Inr None,
     wx_search_query = \<lambda>_. Inl [], wx_archive_query = \<lambda>_. Inl [], wx_varz = \<lambda>_. Inl [], wx_jsz = \<lambda>_. Inl [],
     wx_uuid_text = \<lambda>_. [], wx_now = 2, wx_later = 3\<rparr>"


theorem tools_reach_handlers_witness:
  "serve demo_ctl demo_web (Enforce ''s'')
     \<lparr>rq_verb = Verb_Get, rq_path = ''/v1/logs/Task/backup'', rq_query = [], rq_auth = Some ''Bearer s'', rq_body = []\<rparr> demo_state =
   (Re_Logs (get_logs ''Task'' ''backup'' None demo_state), demo_state)"
proof -
  let ?args = "JObject [(''kind'', JString ''Task''), (''name'', JString ''backup'')]"
  let ?rq = "\<lparr>rq_verb = Verb_Get, rq_path = ''/v1/logs/Task/backup'', rq_query = [], rq_auth = Some ''Bearer s'', rq_body = []\<rparr>"
  have "tool_route ''http://c'' ''orion_logs'' ?args = Inr (GET, ''http://c'' @ rq_path ?rq, No_Body)"
    "require_bearer (Enforce ''s'') (rq_auth ?rq) = Next" "rq_verb ?rq = tool_verb GET"
    by code_simp+
  moreover have "\<forall>s. arg_str ?args ''kind'' = Inr s \<or> arg_str ?args ''name'' = Inr s \<longrightarrow> plain_segment s"
  proof -
    have "arg_str ?args ''kind'' = Inr ''Task''" "arg_str ?args ''name'' = Inr ''backup''" "plain_segment ''Task''" "plain_segment ''backup''"
      by code_simp+
    then show ?thesis by (metis sum.inject(2))
  qed
  moreover have "tool_target ''orion_logs'' (text_arg ?args ''kind'') (text_arg ?args ''name'') =
      Some (''/v1/logs/:kind/:name'', [''Task'', ''backup''], H_get_logs)" by code_simp
  moreover have "routes_by_pattern (wx_route demo_web)" by (simp add: demo_web_def lexical_route_law)
  ultimately show ?thesis
    using tools_reach_handlers [of demo_web "''http://c''" "''orion_logs''" ?args GET ?rq No_Body "Enforce ''s''" demo_ctl demo_state]
    by (simp add: with_query_def demo_web_def)
qed


end
