(* ===== verification/Connector_Startup.thy ===== *)
theory Connector_Startup
  imports Polling Bus_Client Cli_Generate Auth
begin

text \<open>
  How the connectors start (\<^verbatim>\<open>main\<close> of \<^verbatim>\<open>orion-file-watcher\<close>, \<^verbatim>\<open>-kafka-bridge\<close>, \<^verbatim>\<open>-opensearch-sink\<close>,
  \<^verbatim>\<open>-prom-scrape\<close>, \<^verbatim>\<open>-sidecar\<close>, \<^verbatim>\<open>-sqlite-tap\<close> and \<^verbatim>\<open>-webhook\<close>): the variables each requires, the values
  it falls back to, and what it asks of the broker before its loop begins. The environment is a
  function; what the broker, the database and the compiler of regular expressions answer is a
  parameter. Parsing of the command line is clap's; its result is an argument. The row of the SQLite
  tap, column by column, is here too.
\<close>

subsection \<open>The environment\<close>

definition env_or :: "environ \<Rightarrow> string \<Rightarrow> string \<Rightarrow> string" where
  "env_or env k d = unwrap_or (env k) d"

definition env_required :: "environ \<Rightarrow> string \<Rightarrow> string \<Rightarrow> string + string" where
  "env_required env k context = (case env k of None \<Rightarrow> Inl context | Some v \<Rightarrow> Inr v)"

definition env_u64 :: "environ \<Rightarrow> string \<Rightarrow> u64 \<Rightarrow> u64" where
  "env_u64 env k d = unwrap_or (Option.bind (env k) parse_u64) d"

text \<open>The waits between two rounds are at least a second.\<close>

definition tick_seconds :: "u64 \<Rightarrow> u64" where
  "tick_seconds interval = max interval 1"

definition comma_list :: "string \<Rightarrow> string list" where
  "comma_list s = filter (\<lambda>w. w \<noteq> []) (map str_trim (split_on (CHR '','') s))"

definition default_nats_url :: string where
  "default_nats_url = ''nats://127.0.0.1:4222''"

definition default_controller_url :: string where
  "default_controller_url = ''http://127.0.0.1:7878''"

text \<open>What a connector asks of the broker: an address with a token, and a stream with its subjects.\<close>

record bus_config =
  bg_nats_url :: string
  bg_token :: "string option"
  bg_stream :: string
  bg_subjects :: "string list"

text \<open>The connection fails the start; the stream is created if possible and its failure ignored.\<close>

definition bus_open ::
  "(connect_options \<Rightarrow> string \<Rightarrow> string + 'c) \<Rightarrow> ('c \<Rightarrow> string \<Rightarrow> string list \<Rightarrow> string option) \<Rightarrow> bus_config \<Rightarrow>
     client_error + 'c \<times> (string \<times> string list) list" where
  "bus_open dial ensure b =
     (case client_connect dial (bg_nats_url b) (bg_token b) of
        Inl e \<Rightarrow> Inl e
      | Inr c \<Rightarrow>
          Inr (c, case ensure c (bg_stream b) (bg_subjects b) of Some _ \<Rightarrow> [] | None \<Rightarrow> [(bg_stream b, bg_subjects b)]))"

subsection \<open>The connectors\<close>

text \<open>The file watcher: its paths from the command line, or else from a variable.\<close>

definition watcher_paths :: "environ \<Rightarrow> string list \<Rightarrow> string + string list" where
  "watcher_paths env given =
     (let paths = (if given = [] then (case env ''WATCH_PATHS'' of Some s \<Rightarrow> split_on (CHR '':'') s | None \<Rightarrow> []) else given)
      in if paths = [] then Inl ''no paths to watch  pass --path or set WATCH_PATHS'' else Inr paths)"

definition queue_bus ::
  "environ \<Rightarrow> string \<Rightarrow> string \<Rightarrow> (string \<Rightarrow> string list) \<Rightarrow> string + bus_config" where
  "queue_bus env subject_context stream_context subjects =
     (case env_required env ''ORION_QUEUE_SUBJECT'' subject_context of
        Inl e \<Rightarrow> Inl e
      | Inr subject \<Rightarrow>
          (case env_required env ''ORION_QUEUE_STREAM'' stream_context of
             Inl e \<Rightarrow> Inl e
           | Inr stream \<Rightarrow>
               Inr \<lparr>bg_nats_url = env_or env ''NATS_URL'' default_nats_url, bg_token = env ''ORION_CLUSTER_TOKEN'',
                    bg_stream = stream, bg_subjects = subjects subject\<rparr>))"

definition watcher_start :: "environ \<Rightarrow> string list \<Rightarrow> string + string list \<times> bus_config" where
  "watcher_start env given =
     (case watcher_paths env given of
        Inl e \<Rightarrow> Inl e
      | Inr paths \<Rightarrow>
          (case queue_bus env ''ORION_QUEUE_SUBJECT must be set (the agent populates it from the Service spec)''
                  ''ORION_QUEUE_STREAM must be set'' (\<lambda>s. [s]) of
             Inl e \<Rightarrow> Inl e
           | Inr b \<Rightarrow> Inr (paths, b)))"

record kafka_config =
  kc_direction :: direction
  kc_brokers :: string
  kc_topic :: string
  kc_bus :: bus_config

definition kafka_start :: "environ \<Rightarrow> string \<Rightarrow> string + kafka_config" where
  "kafka_start env dir =
     (case direction_parse dir of
        None \<Rightarrow> Inl (''unknown direction: '' @ debug_str dir @ '' (expected orion->kafka or kafka->orion)'')
      | Some d \<Rightarrow>
          (case env_required env ''KAFKA_BROKERS'' ''KAFKA_BROKERS'' of
             Inl e \<Rightarrow> Inl e
           | Inr brokers \<Rightarrow>
               (case env_required env ''KAFKA_TOPIC'' ''KAFKA_TOPIC'' of
                  Inl e \<Rightarrow> Inl e
                | Inr topic \<Rightarrow>
                    (case queue_bus env ''ORION_QUEUE_SUBJECT'' ''ORION_QUEUE_STREAM'' (\<lambda>s. [s]) of
                       Inl e \<Rightarrow> Inl e
                     | Inr b \<Rightarrow> Inr \<lparr>kc_direction = d, kc_brokers = brokers, kc_topic = topic, kc_bus = b\<rparr>))))"

text \<open>The consumer group is asked for after the stream exists, and only in the one direction.\<close>

definition kafka_group :: "environ \<Rightarrow> kafka_config \<Rightarrow> string + string option" where
  "kafka_group env c =
     (case kc_direction c of
        OrionToKafka \<Rightarrow> Inr None
      | KafkaToOrion \<Rightarrow> (case env_required env ''KAFKA_GROUP'' ''KAFKA_GROUP'' of Inl e \<Rightarrow> Inl e | Inr g \<Rightarrow> Inr (Some g)))"

record sink_config =
  nk_controller :: string
  nk_token :: "string option"
  nk_endpoint :: string
  nk_index :: string
  nk_user :: "string option"
  nk_pass :: "string option"
  nk_kind :: string
  nk_names :: "string list"
  nk_interval :: u64

definition sink_start :: "environ \<Rightarrow> string + sink_config" where
  "sink_start env =
     (case env_required env ''OPENSEARCH_URL'' ''OPENSEARCH_URL'' of
        Inl e \<Rightarrow> Inl e
      | Inr endpoint \<Rightarrow>
          (case env_required env ''LOG_SOURCE_NAMES'' ''LOG_SOURCE_NAMES (comma-separated workload names)'' of
             Inl e \<Rightarrow> Inl e
           | Inr names \<Rightarrow>
               Inr \<lparr>nk_controller = env_or env ''ORION_CONTROLLER_URL'' default_controller_url,
                    nk_token = env ''ORION_CLUSTER_TOKEN'', nk_endpoint = endpoint,
                    nk_index = env_or env ''OPENSEARCH_INDEX'' ''orion-logs'', nk_user = env ''OPENSEARCH_USERNAME'',
                    nk_pass = env ''OPENSEARCH_PASSWORD'', nk_kind = env_or env ''LOG_SOURCE_KIND'' ''Service'',
                    nk_names = comma_list names, nk_interval = tick_seconds (env_u64 env ''SINK_INTERVAL_SECONDS'' 10)\<rparr>))"

datatype scrape_mode = Scrape_Targets "string list" u64 | Alert_Receiver string

definition scrape_bus :: "environ \<Rightarrow> string + bus_config" where
  "scrape_bus env = queue_bus env ''ORION_QUEUE_SUBJECT'' ''ORION_QUEUE_STREAM'' (\<lambda>s. [s])"

text \<open>The mode is looked at after the stream exists.\<close>

definition scrape_start :: "environ \<Rightarrow> string \<Rightarrow> string + scrape_mode" where
  "scrape_start env m =
     (if m = ''scrape'' then
        (case env_required env ''SCRAPE_TARGETS'' ''SCRAPE_TARGETS'' of
           Inl e \<Rightarrow> Inl e
         | Inr ts \<Rightarrow> Inr (Scrape_Targets (comma_list ts) (tick_seconds (env_u64 env ''SCRAPE_INTERVAL_SECONDS'' 15))))
      else if m = ''alertmanager'' then Inr (Alert_Receiver (env_or env ''BIND'' ''0.0.0.0:9090''))
      else Inl (''unknown mode: '' @ m))"

record 're sidecar_config =
  sx_controller :: string
  sx_source :: string
  sx_interval :: u64
  sx_filter :: "'re option"
  sx_bus :: bus_config

definition sidecar_start :: "(string \<Rightarrow> string + 're) \<Rightarrow> environ \<Rightarrow> string + 're sidecar_config" where
  "sidecar_start compile env =
     (case env_required env ''SIDECAR_SOURCE_SERVICE'' ''SIDECAR_SOURCE_SERVICE must be set'' of
        Inl e \<Rightarrow> Inl e
      | Inr source \<Rightarrow>
          (case queue_bus env ''ORION_QUEUE_SUBJECT must be set'' ''ORION_QUEUE_STREAM must be set'' (\<lambda>s. [s]) of
             Inl e \<Rightarrow> Inl e
           | Inr b \<Rightarrow>
               (case (case env ''SIDECAR_FILTER_REGEX'' of
                        Some s \<Rightarrow> if s \<noteq> [] then map_sum id Some (compile s) else Inr None
                      | None \<Rightarrow> Inr None) of
                  Inl e \<Rightarrow> Inl e
                | Inr flt \<Rightarrow>
                    Inr \<lparr>sx_controller = env_or env ''ORION_CONTROLLER_URL'' default_controller_url, sx_source = source,
                         sx_interval = tick_seconds (env_u64 env ''SIDECAR_INTERVAL_SECONDS'' 5), sx_filter = flt,
                         sx_bus = b\<rparr>)))"

record tap_config =
  tc_db_url :: string
  tc_table :: string
  tc_from_zero :: bool
  tc_interval :: u64
  tc_bus :: bus_config

definition tap_start_config :: "environ \<Rightarrow> string + tap_config" where
  "tap_start_config env =
     (case env_required env ''SQLITE_URL'' ''SQLITE_URL (e.g. sqlite:///tmp/app.db)'' of
        Inl e \<Rightarrow> Inl e
      | Inr db_url \<Rightarrow>
          (case env_required env ''SQLITE_TABLE'' ''SQLITE_TABLE'' of
             Inl e \<Rightarrow> Inl e
           | Inr table \<Rightarrow>
               (case queue_bus env ''ORION_QUEUE_SUBJECT'' ''ORION_QUEUE_STREAM'' (\<lambda>s. [s]) of
                  Inl e \<Rightarrow> Inl e
                | Inr b \<Rightarrow>
                    Inr \<lparr>tc_db_url = db_url, tc_table = table,
                         tc_from_zero = (case env ''TAP_FROM_ZERO'' of Some v \<Rightarrow> v = ''1'' \<or> v = ''true'' | None \<Rightarrow> False),
                         tc_interval = tick_seconds (env_u64 env ''TAP_INTERVAL_SECONDS'' 2), tc_bus = b\<rparr>)))"

text \<open>The webhook receiver also stores what arrives below its subject.\<close>

definition webhook_start :: "environ \<Rightarrow> string + webhook_state \<times> bus_config" where
  "webhook_start env =
     (case queue_bus env ''ORION_QUEUE_SUBJECT must be set'' ''ORION_QUEUE_STREAM must be set'' (\<lambda>s. [s, s @ ''.>'']) of
        Inl e \<Rightarrow> Inl e
      | Inr b \<Rightarrow> Inr (\<lparr>wb_subject = hd (bg_subjects b), wb_secret = env ''WEBHOOK_SECRET''\<rparr>, b))"
subsection \<open>A row of the tap (\<^verbatim>\<open>orion-sqlite-tap/src/main.rs\<close>)\<close>

text \<open>A column as the driver decodes it: its name and what reading it as each of the four types gives;
  a double that is not finite has no number.\<close>

record sql_column =
  sc_name :: string
  sc_i64 :: "i64 option"
  sc_f64 :: "rat option option"
  sc_string :: "string option"
  sc_opt_string :: "string option option"

definition number_of_i64 :: "i64 \<Rightarrow> json" where
  "number_of_i64 w = JNumber (if 0 \<le> sint w then PosInt (ucast w) else NegInt (sint w))"

definition column_to_json :: "sql_column \<Rightarrow> json" where
  "column_to_json c =
     (case sc_i64 c of
        Some v \<Rightarrow> number_of_i64 v
      | None \<Rightarrow>
          (case sc_f64 c of
             Some v \<Rightarrow> (case v of Some q \<Rightarrow> JNumber (Float q) | None \<Rightarrow> JNull)
           | None \<Rightarrow>
               (case sc_string c of
                  Some s \<Rightarrow> JString s
                | None \<Rightarrow> (case sc_opt_string c of Some (Some s) \<Rightarrow> JString s | _ \<Rightarrow> JNull))))"

definition tap_row :: "sql_column list \<Rightarrow> json" where
  "tap_row cols =
     JObject (fold (\<lambda>c obj. if sc_name c = ''_orion_rowid'' then obj else bt_insert (sc_name c) (column_to_json c) obj) cols [])"

lemma tap_row_get:
  "json_get (tap_row cols) k =
     (if k = ''_orion_rowid'' then None
      else map_option column_to_json (List.find (\<lambda>c. sc_name c = k) (rev cols)))"
proof -
  have "bt_get (fold (\<lambda>c obj. if sc_name c = rid then obj else bt_insert (sc_name c) (column_to_json c) obj) cols obj) k =
      (if k = rid then bt_get obj k
       else case List.find (\<lambda>c. sc_name c = k) (rev cols) of Some c \<Rightarrow> Some (column_to_json c) | None \<Rightarrow> bt_get obj k)" for obj rid
  proof (induction cols arbitrary: obj)
    case (Cons c cols)
    have find_snoc: "List.find P (xs @ [x]) = (case List.find P xs of Some y \<Rightarrow> Some y | None \<Rightarrow> if P x then Some x else None)"
      for P and xs :: "sql_column list" and x
      by (induction xs) auto
    show ?case using Cons by (auto simp: find_snoc split: option.split)
  qed simp
  then show ?thesis
    unfolding tap_row_def json_get_object by (simp add: bt_get_def split: option.split)
qed

text \<open>Further: a row is sent whole: its object has the name of every column but the row identifier the
  statement added, each with the value of the last column of that name.\<close>

theorem tap_row_whole:
  assumes "c \<in> set cols" and "sc_name c \<noteq> ''_orion_rowid''"
  shows "\<exists>d \<in> set cols. sc_name d = sc_name c \<and> json_get (tap_row cols) (sc_name c) = Some (column_to_json d)"
    and "json_get (tap_row cols) ''_orion_rowid'' = None"
proof -
  obtain d where d: "List.find (\<lambda>d. sc_name d = sc_name c) (rev cols) = Some d"
    using assms(1) by (cases "List.find (\<lambda>d. sc_name d = sc_name c) (rev cols)") (auto simp: find_None_iff)
  moreover from d have "d \<in> set cols" "sc_name d = sc_name c"
    by (auto simp: find_Some_iff in_set_conv_nth) (metis d find_Some_iff in_set_conv_nth set_rev)
  ultimately show "\<exists>d \<in> set cols. sc_name d = sc_name c \<and> json_get (tap_row cols) (sc_name c) = Some (column_to_json d)"
    using assms(2) by (auto simp: tap_row_get)
qed (simp add: tap_row_get)

subsection \<open>Starting on a queue\<close>

text \<open>A connector starts exactly when the subject and the stream of its queue are set; the broker's
  address has a default and the token is optional.\<close>

lemma queue_bus_ok:
  "queue_bus env e1 e2 f = Inr b \<longleftrightarrow>
     (\<exists>subject stream. env ''ORION_QUEUE_SUBJECT'' = Some subject \<and> env ''ORION_QUEUE_STREAM'' = Some stream \<and>
        b = \<lparr>bg_nats_url = env_or env ''NATS_URL'' default_nats_url, bg_token = env ''ORION_CLUSTER_TOKEN'',
             bg_stream = stream, bg_subjects = f subject\<rparr>)"
  by (auto simp: queue_bus_def env_required_def split: option.splits sum.splits)

text \<open>The variables a document gives its process, over those of the agent.\<close>

definition document_env :: "environ \<Rightarrow> json \<Rightarrow> environ" where
  "document_env inherited doc k =
     (case json_at doc [''spec'', ''runtime'', ''env'', k] of Some (JString v) \<Rightarrow> Some v | _ \<Rightarrow> inherited k)"

text \<open>Further: a connector run as the generated processor of a queue the controller knows asks the
  broker for exactly the stream and the subject of that queue, at the address the client was given,
  with the token of the agent it runs under.\<close>

theorem processor_connects:
  assumes "\<forall>k \<in> {''NATS_URL'', ''ORION_QUEUE_SUBJECT'', ''ORION_QUEUE_STREAM'', ''ORION_CLUSTER_TOKEN''}. kv_get (pa_env a) k = None"
  shows "queue_bus (document_env inherited (build_processor url (Some q) a)) e1 e2 (\<lambda>s. [s]) =
     Inr \<lparr>bg_nats_url = unwrap_or url default_nats_url, bg_token = inherited ''ORION_CLUSTER_TOKEN'',
          bg_stream = sg_name (snd (queue_stream_config (pa_queue a) q)),
          bg_subjects = sg_subjects (snd (queue_stream_config (pa_queue a) q))\<rparr>"
proof -
  let ?doc = "build_processor url (Some q) a"
  have env: "document_env inherited ?doc ''ORION_QUEUE_SUBJECT'' = Some (fst (queue_stream_config (pa_queue a) q))"
    "document_env inherited ?doc ''ORION_QUEUE_STREAM'' = Some (sg_name (snd (queue_stream_config (pa_queue a) q)))"
    "document_env inherited ?doc ''NATS_URL'' = Some (unwrap_or url ''nats://127.0.0.1:4222'')"
    "document_env inherited ?doc ''ORION_CLUSTER_TOKEN'' = inherited ''ORION_CLUSTER_TOKEN''"
    using assms unfolding document_env_def build_processor_env processor_env_get
    by (simp_all add: split_beta Let_def ym_opt_def unwrap_or_def)
  have "sg_subjects (snd (queue_stream_config n q)) = [fst (queue_stream_config n q)]" for n
    by (simp add: queue_stream_config_def Let_def)
  with env show ?thesis
    unfolding queue_bus_ok by (intro exI conjI) (simp_all add: env_or_def unwrap_or_def default_nats_url_def)
qed
lemma parse_u64_show_u32: "parse_u64 (show_nat (unat (n :: u32))) = Some (ucast n)"
  using unat_lt_u32 [of n] by (simp add: parse_u64_show of_nat_unat)

text \<open>Further: the generated sidecar starts exactly when its filter, if it has one that is not empty,
  compiles: it then follows the service it was generated for, at the interval asked for but at least
  once a second.\<close>

theorem sidecar_connects:
  assumes "sa_filter s = None \<longrightarrow> inherited ''SIDECAR_FILTER_REGEX'' = None"
  shows "(\<exists>c. sidecar_start compile (document_env inherited (build_sidecar s)) = Inr c) \<longleftrightarrow>
       (\<forall>f. sa_filter s = Some f \<and> f \<noteq> [] \<longrightarrow> (\<exists>re. compile f = Inr re))"
    and "sidecar_start compile (document_env inherited (build_sidecar s)) = Inr c \<Longrightarrow>
       sx_source c = sa_source s \<and> sx_interval c = max (ucast (sa_interval_seconds s)) 1 \<and>
       bg_subjects (sx_bus c) = [default_queue_subject (sa_queue s)]"
proof -
  let ?env = "document_env inherited (build_sidecar s)"
  have env: "?env ''SIDECAR_SOURCE_SERVICE'' = Some (sa_source s)"
    "?env ''ORION_QUEUE_SUBJECT'' = Some (default_queue_subject (sa_queue s))"
    "?env ''ORION_QUEUE_STREAM'' = Some (default_queue_stream (sa_queue s))"
    "?env ''SIDECAR_INTERVAL_SECONDS'' = Some (show_nat (unat (sa_interval_seconds s)))"
    "?env ''SIDECAR_FILTER_REGEX'' = sa_filter s"
    unfolding document_env_def build_sidecar_env sidecar_env_def using assms
    by (cases "sa_filter s"; simp add: ym_opt_def)+
  have bus: "queue_bus ?env e1 e2 f = Inr \<lparr>bg_nats_url = env_or ?env ''NATS_URL'' default_nats_url,
      bg_token = ?env ''ORION_CLUSTER_TOKEN'', bg_stream = default_queue_stream (sa_queue s),
      bg_subjects = f (default_queue_subject (sa_queue s))\<rparr>" for e1 e2 f
    unfolding queue_bus_ok using env by blast
  show "(\<exists>c. sidecar_start compile ?env = Inr c) \<longleftrightarrow> (\<forall>f. sa_filter s = Some f \<and> f \<noteq> [] \<longrightarrow> (\<exists>re. compile f = Inr re))"
    unfolding sidecar_start_def bus env_required_def env
    by (cases "sa_filter s"; cases "compile (the (sa_filter s))") auto
  assume "sidecar_start compile ?env = Inr c"
  then show "sx_source c = sa_source s \<and> sx_interval c = max (ucast (sa_interval_seconds s)) 1 \<and>
       bg_subjects (sx_bus c) = [default_queue_subject (sa_queue s)]"
    unfolding sidecar_start_def bus env_required_def env
    by (auto simp: env_u64_def env parse_u64_show_u32 tick_seconds_def unwrap_or_def split: sum.splits option.splits if_splits)
qed

text \<open>Further: every event of the webhook receiver is stored, with and without a route: the subject it
  publishes to is one its stream was asked to hold.\<close>

theorem webhook_stream_covers:
  assumes "gt_matching matches" and "\<forall>p. matches p p" and "webhook_start env = Inr (st, b)"
    and "CHR ''*'' \<notin> set (wb_subject st)" and "CHR ''>'' \<notin> set (wb_subject st)" and "route \<noteq> Some []"
  shows "\<exists>p \<in> set (bg_subjects b).
     matches p (case route of Some r \<Rightarrow> wb_subject st @ ''.'' @ r | None \<Rightarrow> wb_subject st)"
proof -
  have "bg_subjects b = [wb_subject st, wb_subject st @ ''.>'']"
    using assms(3) by (auto simp: webhook_start_def queue_bus_ok split: sum.splits)
  with assms show ?thesis
    by (cases route) (auto simp: gt_matching_def)
qed

text \<open>Further: a connector whose stream cannot be created starts all the same, and a stream that
  exists is left as it is.\<close>

theorem bus_open_connects:
  "(\<exists>r. bus_open dial ensure b = Inr r) \<longleftrightarrow> (\<exists>c. dial (client_options (bg_token b)) (bg_nats_url b) = Inr c)"
  by (auto simp: bus_open_def client_connect_def split: sum.splits)

text \<open>Further: the watcher refuses to start without a path, but a variable that is set and empty
  counts as one path, the empty one.\<close>

theorem watcher_empty_variable:
  "watcher_paths env given = Inl e \<Longrightarrow> given = [] \<and> env ''WATCH_PATHS'' = None"
  "env ''WATCH_PATHS'' = Some [] \<Longrightarrow> watcher_paths env [] = Inr [[]]"
  by (auto simp: watcher_paths_def Let_def split: option.splits if_splits)

end
