(* ===== verification/Processor_Template.thy ===== *)
theory Processor_Template
  imports Cli_Stack Connector_Startup Agent
begin

text \<open>
  The queue processors a scaffold writes (the Java and Rust programs in
  \<^verbatim>\<open>crates/orion-cli/src/cmd/init.rs\<close>), as programs: the configuration each reads from its environment
  and its loop over the messages of the queue. They are joined with the documents that start them
  (\<open>Cli_Generate\<close>, \<open>Cli_Stack\<close>) and with the variables the agent adds to every replica (\<open>Agent\<close>): which
  stream and which durable consumer each replica of a processor binds to. What the broker delivers,
  which acknowledgements fail and what the handler of the user does are parameters; JSON text is too.
\<close>

subsection \<open>Configuration\<close>

record processor_config =
  pc_nats_url :: string
  pc_queue :: string
  pc_subject :: string
  pc_stream :: string
  pc_group :: string
  pc_label :: string

text \<open>The two programs read a variable differently: for Java an empty one counts as unset.\<close>

definition java_env :: "environ \<Rightarrow> string \<Rightarrow> string \<Rightarrow> string" where
  "java_env env k d = (case env k of None \<Rightarrow> d | Some v \<Rightarrow> if v = [] then d else v)"

definition template_stream :: "string \<Rightarrow> string" where
  "template_stream queue = ''ORION_QUEUE_'' @ map (\<lambda>c. if c = CHR ''-'' then CHR ''_'' else c) (to_uppercase queue)"

definition template_group :: "string \<Rightarrow> string \<Rightarrow> string \<Rightarrow> string" where
  "template_group qtype base replica = (if qtype = ''work'' then base else base @ ''-r'' @ replica)"

definition template_config :: "(string \<Rightarrow> string \<Rightarrow> string) \<Rightarrow> processor_config" where
  "template_config get =
     (let queue = get ''ORION_QUEUE_NAME'' ''unnamed''; replica = get ''ORION_REPLICA_INDEX'' ''0''
      in \<lparr>pc_nats_url = get ''NATS_URL'' ''nats://127.0.0.1:4222'', pc_queue = queue,
          pc_subject = get ''ORION_QUEUE_SUBJECT'' (''orion.queue.'' @ queue),
          pc_stream = get ''ORION_QUEUE_STREAM'' (template_stream queue),
          pc_group = template_group (get ''ORION_QUEUE_TYPE'' ''work'') (get ''ORION_QUEUE_GROUP'' (queue @ ''-workers'')) replica,
          pc_label = queue @ ''#r'' @ replica\<rparr>)"

definition rust_config :: "environ \<Rightarrow> processor_config" where
  "rust_config env = template_config (env_or env)"

definition java_config :: "environ \<Rightarrow> processor_config" where
  "java_config env = template_config (java_env env)"

subsection \<open>The loops\<close>

record queue_message =
  qm_subject :: string
  qm_payload :: string

text \<open>The Rust program: a payload that is no JSON is handled as null, an acknowledgement that fails is
  ignored, and an error of the delivery ends the program. The result is what it printed and what it
  acknowledged, and the error.\<close>

definition rust_handle :: "(json \<Rightarrow> string) \<Rightarrow> string \<Rightarrow> string \<Rightarrow> json \<Rightarrow> string" where
  "rust_handle print label subject row =
     (let s = print row; trimmed = (if 200 < length s then take 200 s else s)
      in ''['' @ label @ ''] processed '' @ subject @ '': '' @ trimmed)"

fun rust_loop ::
  "(string \<Rightarrow> json option) \<Rightarrow> (json \<Rightarrow> string) \<Rightarrow> string \<Rightarrow> (string + queue_message) list \<Rightarrow>
     string list \<times> queue_message list \<times> string option" where
  "rust_loop parse print label [] = ([], [], None)"
| "rust_loop parse print label (Inl e # ms) = ([], [], Some e)"
| "rust_loop parse print label (Inr m # ms) =
     (let (out, acked, fin) = rust_loop parse print label ms
      in (rust_handle print label (qm_subject m) (unwrap_or (parse (qm_payload m)) JNull) # out, m # acked, fin))"

text \<open>The Java program: a message whose handler or acknowledgement throws is given back.\<close>

datatype settled = Acked queue_message | Naked queue_message

definition java_handle :: "string \<Rightarrow> queue_message \<Rightarrow> string" where
  "java_handle label m =
     ''['' @ label @ ''] processed '' @ qm_subject m @ '': '' @
     (if 200 < length (qm_payload m) then take 200 (qm_payload m) @ ''...'' else qm_payload m)"

definition java_settle :: "(queue_message \<Rightarrow> bool) \<Rightarrow> queue_message \<Rightarrow> settled" where
  "java_settle throws m = (if throws m then Naked m else Acked m)"

definition java_fetch :: "(queue_message \<Rightarrow> bool) \<Rightarrow> queue_message list list \<Rightarrow> settled list" where
  "java_fetch throws batches = map (java_settle throws) (concat batches)"

subsection \<open>The files of the projects\<close>

text \<open>The project files of the three languages; a dash that is not ASCII is left out.\<close>

definition python_requirements :: string where
  "python_requirements = concat (map text_line [''nats-py>=2.7,<3'', ''debugpy>=1.8''])"

definition python_setup :: "string \<Rightarrow> string" where
  "python_setup name = concat (map text_line
     [''#!/usr/bin/env bash'',
      ''set -euo pipefail'',
      ''cd '' @ dquoted (''$(dirname '' @ dquoted ''$0'' @ '')''),
      ''if ['' @ ''[ ! -d .venv ]'' @ '']; then python3 -m venv .venv; fi'',
      ''. .venv/bin/activate'',
      ''pip install --quiet --upgrade pip'',
      ''pip install --quiet -r requirements.txt'',
      ''echo '' @ dquoted (''ok: '' @ name @ '' ready apply '' @ name @ ''.yaml + dispatch'')])"

definition java_pom :: "string \<Rightarrow> string" where
  "java_pom name = concat (map text_line
     [''<?xml version='' @ dquoted ''1.0'' @ '' encoding='' @ dquoted ''UTF-8'' @ ''?>'',
      ''<project xmlns='' @ dquoted ''http://maven.apache.org/POM/4.0.0'' @ ''>'',
      ''  <modelVersion>4.0.0</modelVersion>'',
      ''  <groupId>io.orionmesh.processor</groupId>'',
      ''  <artifactId>'' @ name @ ''</artifactId>'',
      ''  <version>0.1.0</version>'',
      ''  <packaging>jar</packaging>'',
      ''  <properties>'',
      ''    <maven.compiler.source>17</maven.compiler.source>'',
      ''    <maven.compiler.target>17</maven.compiler.target>'',
      ''  </properties>'',
      ''  <dependencies>'',
      ''    <dependency>'',
      ''      <groupId>io.nats</groupId>'',
      ''      <artifactId>jnats</artifactId>'',
      ''      <version>2.20.4</version>'',
      ''    </dependency>'',
      ''  </dependencies>'',
      ''  <build>'',
      ''    <finalName>'' @ name @ ''</finalName>'',
      ''    <plugins>'',
      ''      <plugin>'',
      ''        <groupId>org.apache.maven.plugins</groupId>'',
      ''        <artifactId>maven-shade-plugin</artifactId>'',
      ''        <version>3.5.0</version>'',
      ''        <executions><execution><phase>package</phase><goals><goal>shade</goal></goals>'',
      ''          <configuration><transformers>'',
      ''            <transformer implementation='' @ dquoted ''org.apache.maven.plugins.shade.resource.ManifestResourceTransformer'' @ ''>'',
      ''              <mainClass>io.orionmesh.processor.Processor</mainClass>'',
      ''            </transformer>'',
      ''          </transformers></configuration>'',
      ''        </execution></executions>'',
      ''      </plugin>'',
      ''    </plugins>'',
      ''  </build>'',
      ''</project>''])"

definition java_setup :: "string \<Rightarrow> string" where
  "java_setup name = concat (map text_line
     [''#!/usr/bin/env bash'',
      ''set -euo pipefail'',
      ''cd '' @ dquoted (''$(dirname '' @ dquoted ''$0'' @ '')''),
      ''mvn -q package'',
      ''echo '' @ dquoted (''ok: target/'' @ name @ ''.jar ready'')])"

definition rust_cargo :: "string \<Rightarrow> string" where
  "rust_cargo name = concat (map text_line
     [''[package]'',
      ''name = '' @ dquoted name,
      ''version = '' @ dquoted ''0.1.0'',
      ''edition = '' @ dquoted ''2021'',
      [],
      ''[dependencies]'',
      ''tokio = { version = '' @ dquoted ''1'' @ '', features = ['' @ dquoted ''macros'' @ '', '' @ dquoted ''rt-multi-thread'' @ '', '' @ dquoted ''time'' @ '', '' @ dquoted ''signal'' @ ''] }'',
      ''async-nats = '' @ dquoted ''0.38'',
      ''futures = '' @ dquoted ''0.3'',
      ''serde = { version = '' @ dquoted ''1'' @ '', features = ['' @ dquoted ''derive'' @ ''] }'',
      ''serde_json = '' @ dquoted ''1'',
      ''anyhow = '' @ dquoted ''1''])"

text \<open>The templates of the scaffold; the texts of the three programs are arguments.\<close>

definition project_templates :: "string \<Rightarrow> string \<Rightarrow> string \<Rightarrow> templates" where
  "project_templates py java rust =
     \<lparr>tp_requirements = python_requirements, tp_python_setup = python_setup, tp_python = py, tp_java_pom = java_pom,
      tp_java_setup = java_setup, tp_java = java, tp_cargo = rust_cargo, tp_rust = rust\<rparr>"
subsection \<open>Which consumer a replica binds to\<close>

text \<open>The environment of a process: the variables of its runtime over those of the agent.\<close>

fun process_env :: "environ \<Rightarrow> runtime \<Rightarrow> environ" where
  "process_env inherited (Runtime_Native exec args vars) k = (case bt_get vars k of Some v \<Rightarrow> Some v | None \<Rightarrow> inherited k)"
| "process_env inherited rt k = inherited k"

text \<open>The variables of a runtime are those a document gives it.\<close>

definition env_decoded :: "json \<Rightarrow> labels \<Rightarrow> bool" where
  "env_decoded doc vars \<longleftrightarrow>
     (\<forall>k. bt_get vars k = (case json_at doc [''spec'', ''runtime'', ''env'', k] of Some (JString v) \<Rightarrow> Some v | _ \<Rightarrow> None))"

definition queue_vars :: "string list" where
  "queue_vars = [''NATS_URL'', ''ORION_QUEUE_NAME'', ''ORION_QUEUE_SUBJECT'', ''ORION_QUEUE_STREAM'', ''ORION_QUEUE_TYPE'', ''ORION_QUEUE_GROUP'']"

lemma java_env_nonempty: "env k \<noteq> Some [] \<Longrightarrow> java_env env k d = env_or env k d"
  by (auto simp: java_env_def env_or_def unwrap_or_def split: option.split)

text \<open>Further: the two programs bind to the same consumer unless a variable is set and empty.\<close>

theorem java_rust_agree:
  assumes "\<forall>k \<in> set (''ORION_REPLICA_INDEX'' # queue_vars). env k \<noteq> Some []"
  shows "java_config env = rust_config env"
  using assms unfolding java_config_def rust_config_def template_config_def queue_vars_def
  by (simp add: java_env_nonempty)

lemma processor_vars:
  assumes "env_decoded (build_processor url (Some q) a) vars" and "\<forall>k \<in> set queue_vars. kv_get (pa_env a) k = None"
  shows "bt_get vars ''ORION_QUEUE_NAME'' = Some (pa_queue a)"
    "bt_get vars ''ORION_QUEUE_SUBJECT'' = Some (fst (queue_stream_config (pa_queue a) q))"
    "bt_get vars ''ORION_QUEUE_STREAM'' = Some (sg_name (snd (queue_stream_config (pa_queue a) q)))"
    "bt_get vars ''ORION_QUEUE_TYPE'' = Some (queue_type_text (qs_queue_type q))"
    "bt_get vars ''ORION_QUEUE_GROUP'' = Some (processor_group a (qs_queue_type q))"
    "bt_get vars ''NATS_URL'' = Some (unwrap_or url default_nats_url)"
  using assms unfolding env_decoded_def build_processor_env processor_env_get queue_vars_def
  by (simp_all add: split_beta Let_def ym_opt_def unwrap_or_def default_nats_url_def)

text \<open>What the program of replica \<open>i\<close> of \<open>n\<close> reads, when the agent starts it.\<close>

definition replica_program :: "environ \<Rightarrow> string \<Rightarrow> string list \<Rightarrow> labels \<Rightarrow> u32 \<Rightarrow> u32 \<Rightarrow> processor_config" where
  "replica_program inherited exec args vars n i =
     rust_config (process_env inherited (inject_replica_env i n (Runtime_Native exec args vars)))"

lemma replica_config:
  assumes "env_decoded (build_processor url (Some q) a) vars" and "\<forall>k \<in> set queue_vars. kv_get (pa_env a) k = None"
  shows "replica_program inherited exec args vars n i =
     \<lparr>pc_nats_url = unwrap_or url default_nats_url, pc_queue = pa_queue a,
      pc_subject = fst (queue_stream_config (pa_queue a) q), pc_stream = sg_name (snd (queue_stream_config (pa_queue a) q)),
      pc_group = processor_group a (qs_queue_type q) @
        (case qs_queue_type q of Work_Queue \<Rightarrow> [] | Topic_Queue \<Rightarrow> ''-r'' @ show_nat (unat i)),
      pc_label = pa_queue a @ ''#r'' @ show_nat (unat i)\<rparr>"
  unfolding replica_program_def rust_config_def template_config_def env_or_def
  by (cases "qs_queue_type q")
    (simp_all add: processor_vars [OF assms] template_group_def queue_type_text_def unwrap_or_def Let_def)

lemma show_nat_inj: "show_nat m = show_nat n \<longleftrightarrow> m = n"
  using read_show_nat by (metis option.inject)

lemma show_index_inj: "show_nat (unat (i :: u32)) = show_nat (unat j) \<longleftrightarrow> i = j"
  by (simp add: show_nat_inj word_unat_eq_iff)


subsection \<open>Defaults and loops\<close>

lemma template_stream_char:
  "(if to_ascii_uppercase c = CHR ''-'' then CHR ''_'' else to_ascii_uppercase c) = queue_stream_char c \<longleftrightarrow>
     is_ascii_alphanumeric c \<or> c \<in> {CHR ''-'', CHR ''_''}"
proof (cases "is_ascii_alphanumeric c")
  case True
  have "of_char (to_ascii_uppercase c) \<noteq> (45 :: nat)"
    using True by (auto simp: to_ascii_uppercase_def is_ascii_alphanumeric_def is_ascii_digit_def is_ascii_upper_def
        is_ascii_lower_def)
  then have "to_ascii_uppercase c \<noteq> CHR ''-''" by auto
  with True show ?thesis by (simp add: queue_stream_char_def)
next
  case False
  then have "to_ascii_uppercase c = c"
    by (simp add: to_ascii_uppercase_def is_ascii_alphanumeric_def)
  with False show ?thesis by (auto simp: queue_stream_char_def)
qed

text \<open>Further: without its variables a program falls back to the subject of its queue, but to its stream
  only when the name of the queue has no character outside letters, digits, dash and underscore: the
  programs replace dashes where the controller replaces everything else.\<close>

theorem template_defaults:
  assumes "env ''ORION_QUEUE_NAME'' = Some queue" and "env ''ORION_QUEUE_SUBJECT'' = None" and "env ''ORION_QUEUE_STREAM'' = None"
  shows "pc_subject (rust_config env) = default_queue_subject queue"
    and "pc_stream (rust_config env) = default_queue_stream queue \<longleftrightarrow>
       (\<forall>c \<in> set queue. is_ascii_alphanumeric c \<or> c \<in> {CHR ''-'', CHR ''_''})"
proof -
  show "pc_subject (rust_config env) = default_queue_subject queue"
    using assms by (simp add: rust_config_def template_config_def env_or_def unwrap_or_def Let_def default_queue_subject_def)
  have "pc_stream (rust_config env) = template_stream queue"
    using assms by (simp add: rust_config_def template_config_def env_or_def unwrap_or_def Let_def)
  then show "pc_stream (rust_config env) = default_queue_stream queue \<longleftrightarrow>
       (\<forall>c \<in> set queue. is_ascii_alphanumeric c \<or> c \<in> {CHR ''-'', CHR ''_''})"
    unfolding template_stream_char [symmetric] by (simp add: template_stream_def default_queue_stream_def to_uppercase_def)
qed

lemma rust_loop_settles:
  "rust_loop parse print label ms = (out, acked, fin) \<Longrightarrow>
     \<exists>rest. ms = map Inr acked @ rest \<and> (case fin of None \<Rightarrow> rest = [] | Some e \<Rightarrow> rest \<noteq> [] \<and> hd rest = Inl e)"
  by (induction parse print label ms arbitrary: out acked fin rule: rust_loop.induct)
    (auto split: prod.splits)

lemma rust_loop_printed:
  "rust_loop parse print label ms = (out, acked, fin) \<Longrightarrow>
     out = map (\<lambda>m. rust_handle print label (qm_subject m) (unwrap_or (parse (qm_payload m)) JNull)) acked"
  by (induction parse print label ms arbitrary: out acked fin rule: rust_loop.induct)
    (auto split: prod.splits)

text \<open>Further: the Rust program handles and acknowledges, in order, every message it gets before an
  error of the delivery, also one that is no JSON, whose text it drops for null; the Java program gives
  back exactly the messages its handler fails on.\<close>

theorem template_settles:
  "case rust_loop parse print label ms of (out, acked, fin) \<Rightarrow>
     (\<exists>rest. ms = map Inr acked @ rest \<and> (case fin of None \<Rightarrow> rest = [] | Some e \<Rightarrow> rest \<noteq> [] \<and> hd rest = Inl e)) \<and>
     out = map (\<lambda>m. rust_handle print label (qm_subject m) (unwrap_or (parse (qm_payload m)) JNull)) acked"
  "Naked m \<in> set (java_fetch throws batches) \<longleftrightarrow> throws m \<and> (\<exists>b \<in> set batches. m \<in> set b)"
  by (auto simp: rust_loop_settles rust_loop_printed java_fetch_def java_settle_def image_iff split: prod.split if_splits)

subsection \<open>Witness\<close>

text \<open>The variables of a document whose variables are all texts.\<close>

definition text_vars :: "(string \<times> json) list \<Rightarrow> labels" where
  "text_vars m = List.map_filter (\<lambda>(k, v). map_option (Pair k) (as_str v)) m"

lemma text_vars_get: "list_all (\<lambda>(k, v). as_str v \<noteq> None) m \<Longrightarrow> map_of (text_vars m) k = Option.bind (map_of m k) as_str"
  by (induction m) (auto simp: text_vars_def List.map_filter_simps split: option.split)

lemma env_decoded_text:
  assumes "json_at doc [''spec'', ''runtime'', ''env''] = Some (JObject m)" and "list_all (\<lambda>(k, v). as_str v \<noteq> None) m"
  shows "env_decoded doc (text_vars m)"
proof -
  have step: "json_at doc ([''spec'', ''runtime'', ''env''] @ [k]) = map_of m k" for k
    unfolding json_at_def fold_append using assms(1) [unfolded json_at_def] by (simp add: json_get_def bt_get_def)
  have "bt_get (text_vars m) k = (case map_of m k of Some (JString v) \<Rightarrow> Some v | _ \<Rightarrow> None)" for k
    using text_vars_get [OF assms(2), of k] by (simp add: bt_get_def as_str_def split: option.split json.split)
  with step show ?thesis unfolding env_decoded_def by simp
qed

definition demo_processor :: processor_args where
  "demo_processor = \<lparr>pa_name = ''p'', pa_queue = ''rows'', pa_lang = ''rust'', pa_group = None, pa_replicas = 2, pa_debug = False,
     pa_debug_port = None, pa_debug_suspend = False, pa_template = None, pa_env = []\<rparr>"

definition demo_vars :: labels where
  "demo_vars = (case json_at (build_processor None (Some (default_queue_spec\<lparr>qs_queue_type := Topic_Queue\<rparr>)) demo_processor)
       [''spec'', ''runtime'', ''env''] of Some (JObject m) \<Rightarrow> text_vars m | _ \<Rightarrow> [])"


end
