(* ===== verification/Cli_Draw.thy ===== *)
theory Cli_Draw
  imports Cli_Stack
begin

text \<open>
  What the dashboard shows (\<^verbatim>\<open>crates/orion-cli/src/cmd/tui.rs\<close>) and the page of the web UI
  (\<^verbatim>\<open>crates/orion-ui/src/main.rs\<close>). A frame is a list of widgets with their texts; placing them on the
  screen, their colours and borders are ratatui's. The keys, the refreshing and the rows are in
  \<open>Cli_Stack\<close>. The terminal around the loop is a state of its own, with its two modes. Characters outside
  ASCII are left out of the texts.
\<close>

subsection \<open>The frame\<close>

datatype column_width = Width nat | Width_Min nat

datatype widget =
    Tabs_Bar string "string list" nat
  | Text_Block string "string list"
  | Data_Table string "string list" "column_width list" "string list list"
  | Status_Line string

fun tab_label :: "tui_tab \<Rightarrow> string" where
  "tab_label Tab_Overview = ''Overview''"
| "tab_label Tab_Nodes = ''Nodes''"
| "tab_label Tab_Services = ''Services''"
| "tab_label Tab_Queues = ''Queues''"

definition all_tabs :: "tui_tab list" where
  "all_tabs = [Tab_Overview, Tab_Nodes, Tab_Services, Tab_Queues]"

fun tab_index :: "tui_tab \<Rightarrow> nat" where
  "tab_index Tab_Overview = 0"
| "tab_index Tab_Nodes = 1"
| "tab_index Tab_Services = 2"
| "tab_index Tab_Queues = 3"

definition draw_overview :: "tui_snapshot \<Rightarrow> widget" where
  "draw_overview snap =
     (let s = overview_summary snap
      in Text_Block ''Overview''
           [''agents:    '' @ show_nat (ov_agents s), ''services:  '' @ show_nat (ov_services s),
            ''queues:    '' @ show_nat (ov_queues s), ''instances: '' @ show_nat (unat (ov_instances_total s)),
            ''log buffer: '' @ show_nat (unat (ov_log_lines s)) @ '' lines'',
            ''uptime:     '' @ show_nat (unat (ov_uptime_seconds s)) @ ''s''])"

definition draw_nodes :: "tui_snapshot \<Rightarrow> widget" where
  "draw_nodes snap =
     Data_Table ''Nodes'' [''NODE'', ''ARCH'', ''OS'', ''LAST SEEN''] [Width 20, Width 10, Width 10, Width_Min 20]
       (node_rows (tn_nodes snap))"

definition draw_services :: "(json \<Rightarrow> string) \<Rightarrow> tui_snapshot \<Rightarrow> widget" where
  "draw_services print snap =
     Data_Table ''Services'' [''NAME'', ''REPLICAS'', ''RUNTIME'', ''RESTART''] [Width 30, Width 10, Width 15, Width 15]
       (service_rows print (tn_services snap))"

definition draw_queues :: "(json \<Rightarrow> string) \<Rightarrow> tui_snapshot \<Rightarrow> widget" where
  "draw_queues print snap =
     Data_Table ''Queues'' [''NAME'', ''TYPE'', ''MAX_AGE''] [Width 30, Width 10, Width 15]
       (queue_rows print (tn_queues snap))"

text \<open>A frame: the tabs, the body of the current one, and the status; the time of day as text is an
  argument.\<close>

definition draw_frame :: "(json \<Rightarrow> string) \<Rightarrow> (datetime \<Rightarrow> string) \<Rightarrow> tui_snapshot \<Rightarrow> tui_tab \<Rightarrow> widget list" where
  "draw_frame print hms snap tab =
     [Tabs_Bar ''OrionMesh'' (map tab_label all_tabs) (tab_index tab),
      (case tab of
         Tab_Overview \<Rightarrow> draw_overview snap
       | Tab_Nodes \<Rightarrow> draw_nodes snap
       | Tab_Services \<Rightarrow> draw_services print snap
       | Tab_Queues \<Rightarrow> draw_queues print snap),
      Status_Line ('' refresh: '' @ unwrap_or (map_option hms (tn_last_refresh snap)) [] @
        ''    keys: q quit  r refresh  tabs  1-4 jump '')]"

subsection \<open>The terminal\<close>

record terminal =
  tm_raw :: bool
  tm_alternate :: bool

text \<open>Which of the calls on the terminal fail.\<close>

record terminal_faults =
  tf_raw :: bool
  tf_enter :: bool
  tf_backend :: bool
  tf_unraw :: bool
  tf_leave :: bool

definition run_dashboard :: "terminal_faults \<Rightarrow> cli_error + unit \<Rightarrow> terminal \<Rightarrow> (cli_error + unit) \<times> terminal" where
  "run_dashboard tf loop t =
     (if tf_raw tf then (Inl (Cli_Error ''raw mode''), t)
      else let t1 = t\<lparr>tm_raw := True\<rparr>
        in if tf_enter tf then (Inl (Cli_Error ''alternate screen''), t1)
        else let t2 = t1\<lparr>tm_alternate := True\<rparr>
          in if tf_backend tf then (Inl (Cli_Error ''terminal''), t2)
          else let t3 = (if tf_unraw tf then t2 else t2\<lparr>tm_raw := False\<rparr>);
                   t4 = (if tf_leave tf then t3 else t3\<lparr>tm_alternate := False\<rparr>)
            in (loop, t4))"

subsection \<open>The page of the web UI\<close>

text \<open>\<^verbatim>\<open>str::replace\<close> with a pattern that is not empty.\<close>

definition str_replace :: "string \<Rightarrow> string \<Rightarrow> string \<Rightarrow> string" where
  "str_replace p r s =
     (case split_text (length s) p [] s of [] \<Rightarrow> [] | w # ws \<Rightarrow> w @ concat (map (\<lambda>v. r @ v) ws))"

definition url_placeholder :: string where
  "url_placeholder = ''__CONTROLLER_URL__''"

text \<open>The one route of the server; the template is an argument.\<close>

definition ui_page :: "string \<Rightarrow> string \<Rightarrow> string \<Rightarrow> string option" where
  "ui_page index_template controller_url route =
     (if route = ''/'' then Some (str_replace url_placeholder controller_url index_template) else None)"

subsection \<open>What is shown\<close>

text \<open>Every row of a table has a cell for each heading, and every heading a width.\<close>

fun widget_wf :: "widget \<Rightarrow> bool" where
  "widget_wf (Data_Table title headers widths rows) \<longleftrightarrow>
     length widths = length headers \<and> list_all (\<lambda>r. length r = length headers) rows"
| "widget_wf (Tabs_Bar title labels k) \<longleftrightarrow> k < length labels"
| "widget_wf _ \<longleftrightarrow> True"

fun widget_title :: "widget \<Rightarrow> string" where
  "widget_title (Data_Table title headers widths rows) = title"
| "widget_title (Text_Block title ls) = title"
| "widget_title (Tabs_Bar title labels k) = labels ! k"
| "widget_title (Status_Line s) = s"

lemma rows_of_length: "(\<And>v. length (row v) = n) \<Longrightarrow> list_all (\<lambda>r. length r = n) (rows_of row v)"
  by (auto simp: rows_of_def list_all_iff split: option.split)

text \<open>Further: every frame is well formed, whatever the controller answered: the tables have as many
  cells as headings in every row, and the highlighted tab is the one whose body is shown.\<close>

theorem frame_well_formed:
  "list_all widget_wf (draw_frame print hms snap tab) \<and>
   widget_title (draw_frame print hms snap tab ! 0) = tab_label tab \<and>
   widget_title (draw_frame print hms snap tab ! 1) = tab_label tab"
  by (cases tab)
    (simp_all add: draw_frame_def draw_overview_def draw_nodes_def draw_services_def draw_queues_def all_tabs_def
      node_rows_def service_rows_def queue_rows_def rows_of_length Let_def)

text \<open>Further: the dashboard gives the terminal back as it found it once its loop has run, whether the
  loop fails or not, unless the terminal refuses; but a terminal that refuses the alternate screen is
  left in raw mode, and one that cannot be opened in both.\<close>

theorem dashboard_restores:
  assumes "t = \<lparr>tm_raw = False, tm_alternate = False\<rparr>" and "\<not> tf_raw tf"
  shows "\<not> tf_enter tf \<and> \<not> tf_backend tf \<and> \<not> tf_unraw tf \<and> \<not> tf_leave tf \<Longrightarrow> run_dashboard tf loop t = (loop, t)"
    and "tf_enter tf \<Longrightarrow> tm_raw (snd (run_dashboard tf loop t))"
    and "\<not> tf_enter tf \<and> tf_backend tf \<Longrightarrow> snd (run_dashboard tf loop t) = \<lparr>tm_raw = True, tm_alternate = True\<rparr>"
  using assms by (simp_all add: run_dashboard_def Let_def)

lemma split_text_first:
  assumes "sep \<noteq> []"
  shows "\<forall>k < length a. \<not> prefix sep (drop k (a @ sep @ b)) \<Longrightarrow> length (a @ sep @ b) \<le> n \<Longrightarrow>
    split_text n sep acc (a @ sep @ b) = (rev acc @ a) # split_text (length b) sep [] b"
proof (induction a arbitrary: n acc)
  case Nil
  obtain c cs where sep: "sep = c # cs" using assms by (cases sep) auto
  obtain m where n: "n = Suc m" using Nil(2) sep by (cases n) auto
  have "length b \<le> m" using Nil(2) sep n by simp
  then show ?case using split_text_fuel [of b m "length b" sep "[]"] by (simp add: n sep)
next
  case (Cons x a)
  obtain m where n: "n = Suc m" using Cons.prems(2) by (cases n) auto
  have no: "\<not> prefix sep (x # a @ sep @ b)" using Cons.prems(1) by force
  have "\<forall>k < length a. \<not> prefix sep (drop k (a @ sep @ b))" using Cons.prems(1) by force
  with Cons.IH [of m "x # acc"] Cons.prems(2) no show ?case by (simp add: n)
qed

lemma split_text_none:
  "\<forall>k < length s. \<not> prefix sep (drop k s) \<Longrightarrow> length s \<le> n \<Longrightarrow> split_text n sep acc s = [rev acc @ s]"
proof (induction s arbitrary: n acc)
  case Nil
  then show ?case by (cases n) simp_all
next
  case (Cons x s)
  obtain m where n: "n = Suc m" using Cons.prems(2) by (cases n) auto
  have "\<forall>k < length s. \<not> prefix sep (drop k s)" using Cons.prems(1) by force
  moreover have "\<not> prefix sep (x # s)" using Cons.prems(1) by force
  ultimately show ?case using Cons.IH [of m "x # acc"] Cons.prems(2) by (simp add: n)
qed

text \<open>The first occurrence of a text is after \<open>a\<close>, and there is none in \<open>s\<close>.\<close>

definition first_after :: "string \<Rightarrow> string \<Rightarrow> string \<Rightarrow> bool" where
  "first_after p a b \<longleftrightarrow> (\<forall>k < length a. \<not> prefix p (drop k (a @ p @ b)))"

definition not_in :: "string \<Rightarrow> string \<Rightarrow> bool" where
  "not_in p s \<longleftrightarrow> (\<forall>k < length s. \<not> prefix p (drop k s))"

lemma split_text_cons: "\<exists>w ws. split_text n sep acc s = w # ws"
  by (induction n sep acc s rule: split_text.induct) auto

lemma str_replace_first: "p \<noteq> [] \<Longrightarrow> first_after p a b \<Longrightarrow> str_replace p r (a @ p @ b) = a @ r @ str_replace p r b"
  using split_text_first [of p a b "length (a @ p @ b)" "[]"] split_text_cons [of "length b" p "[]" b]
  by (auto simp: str_replace_def first_after_def)

lemma str_replace_none: "not_in p s \<Longrightarrow> str_replace p r s = s"
  using split_text_none [of s p "length s" "[]"] by (simp add: str_replace_def not_in_def)

text \<open>Further: the page of the web UI is its template with the address of the controller at every
  place that asks for it, from the first to the last, and the template itself between them; every
  other route is unknown.\<close>

theorem ui_page_filled:
  assumes "first_after url_placeholder a b"
  shows "ui_page (a @ url_placeholder @ b) url ''/'' = map_option (\<lambda>rest. a @ url @ rest) (ui_page b url ''/'')"
    and "not_in url_placeholder s \<Longrightarrow> ui_page s url ''/'' = Some s"
    and "route \<noteq> ''/'' \<Longrightarrow> ui_page s url route = None"
  using str_replace_first [OF _ assms] by (simp_all add: ui_page_def url_placeholder_def str_replace_none)

end
