(* ===== verification/Spec2Isabelle.thy ===== *)
theory Spec2Isabelle
  imports Mesh Wasm Http_Routes Processor_Template Cli_Draw
begin

text \<open>
  OrionMesh is a small workload orchestrator. A controller keeps the desired state (resources such as
  services, tasks, workflows, schedules) in a SQLite store, offers an HTTP API, and tells one agent per
  node over a NATS bus what to run; the agents start processes or containers, forward their output and
  exits, probe their health and report the node's hardware. This library models the program's own
  logic and proves what makes it correct. All paths below are under \<^verbatim>\<open>src/crates\<close>.

  \<^bold>\<open>Theories and the code they model.\<close>
  \<^item> \<open>Orion_Prelude\<close>: scalar types, hash maps and ordered maps (the locale \<open>map_impl\<close> with its
    interpretations \<open>hm\<close> and \<open>bt\<close>), saturating arithmetic, the standard library's number and string
    functions the code calls, and \<open>invariant_machine\<close>, the locale of the state machines below.
  \<^item> \<open>Orion_Json\<close>, \<open>Orion_Types\<close>: JSON values; every resource of \<^verbatim>\<open>orion-types\<close> with its validation.
  \<^item> \<open>Capability_Match\<close>: capability selectors and their JSON form (\<^verbatim>\<open>orion-types/src/capability.rs\<close>,
    \<^verbatim>\<open>orion-controller/src/decisions.rs\<close>); a match means that every selector is met.
  \<^item> \<open>Scheduler\<close>: placement (\<^verbatim>\<open>orion-scheduler\<close>), refined to "a best admissible node".
  \<^item> \<open>Reconciler\<close>, \<open>Workflow\<close>: \<^verbatim>\<open>decide_reconcile\<close>, \<^verbatim>\<open>advance_workflow\<close> and
    \<^verbatim>\<open>plan_all_workflows\<close> of \<^verbatim>\<open>decisions.rs\<close>: refinement of a slot specification, settling,
    dependency order, monotone progress, and that acyclic workflows finish.
  \<^item> \<open>Bus\<close>: subjects, messages, envelopes and queue streams (\<^verbatim>\<open>orion-bus\<close>); \<open>Bus_Client\<close>: connecting and
    publishing (\<^verbatim>\<open>orion-bus/src/client.rs\<close>) and the publisher and subscriber of the demo
    (\<^verbatim>\<open>orion-demo-bins\<close>).
  \<^item> \<open>Store\<close>: the resource, node and log tables (\<^verbatim>\<open>orion-store\<close>), with the two statements of an upsert
    as separate steps.
  \<^item> \<open>Registries\<close>, \<open>Controller\<close>, \<open>Control_Loops\<close>, \<open>Http_Api\<close>: \<^verbatim>\<open>orion-controller/src/main.rs\<close>: the
    in-memory registries and log rings, the shared state with subscribers and dispatch, the
    reconcile, workflow and schedule ticks, and the HTTP handlers. \<open>Controller_Machine\<close> joins them
    into one state machine; its locale \<open>ctl_preserved\<close> lifts a property of the elementary changes to
    every handler. \<open>Http_Routes\<close>: the routes of the API with the bearer check in front of them, and the
    requests of the clients from their path to the handler.
  \<^item> \<open>Auth\<close>: cluster tokens and the bearer check (\<^verbatim>\<open>orion-auth\<close>).
  \<^item> \<open>Runtimes\<close>: adapter registry, native and docker adapters, secrets (\<^verbatim>\<open>orion-runtime\<close>); the locale
    \<open>runtime_adapter\<close> is the contract both adapters satisfy. \<open>Wasm\<close>: the WebAssembly adapter of the same
    crate, a third instance of the contract, and the race between the end of a module and the filing
    of its handle.
  \<^item> \<open>Hardware\<close>, \<open>Agent\<close>: GPU detection and the agent (\<^verbatim>\<open>orion-agent/src/main.rs\<close>); \<open>Agent_Machine\<close> is
    its state machine.
  \<^item> \<open>Mesh\<close>: the controller, any number of agents and the bus between them, as one step relation.
  \<^item> \<open>Connectors\<close>: the metrics scraper with the alert receiver (\<^verbatim>\<open>orion-prom-scrape\<close>), the Kafka bridge, the
    webhook receiver and the client of the developer portal (\<^verbatim>\<open>orion-kafka-bridge\<close>, \<^verbatim>\<open>-webhook\<close>,
    \<^verbatim>\<open>-devportal\<close>).
  \<^item> \<open>Polling\<close>: the connectors that follow a growing source with a cursor (\<^verbatim>\<open>orion-sqlite-tap\<close>,
    \<^verbatim>\<open>-file-watcher\<close>, \<^verbatim>\<open>-sidecar\<close>, \<^verbatim>\<open>-opensearch-sink\<close>). The locales \<open>followed_source\<close> and \<open>eager_source\<close>
    say what following means, that every item is sent once, in order and without a gap; the tap, the
    sidecar and the watcher are interpretations. \<open>Connector_Startup\<close>: what each connector reads from its
    environment and asks of the broker before its loop, joined with the documents the client
    generates; the row of the tap.
  \<^item> \<open>Mcp\<close>: the tool server (\<^verbatim>\<open>orion-mcp\<close>): its tools, their schemas and the answer to every line.
  \<^item> \<open>Cli_Text\<close>, \<open>Cli_Generate\<close>, \<open>Cli_Commands\<close>, \<open>Cli_Stack\<close>: the command line client (\<^verbatim>\<open>orion-cli\<close>): its text
    functions (tables, text to records, shell quoting, durations, selectors); the documents it generates;
    the commands, as compositions of the controller's handlers (applying, running, executing, queues,
    following logs, snapshots, the token it sends); and the tools of a developer's machine (health
    report, local stack, benchmark, dashboard, scaffold). Following a log is one more interpretation of
    \<open>eager_source\<close>, named \<open>follower\<close>. \<open>Cli_Requests\<close>: the requests as they go over the wire, how answers are
    read, and the commands that only read; \<open>Cli_Bench\<close>: the run of the benchmark; \<open>Cli_Draw\<close>: the frames of
    the dashboard, the modes of its terminal, and the page of \<^verbatim>\<open>orion-ui\<close>; \<open>Cli_Main\<close>: every command with its
    effect on a controller. \<open>Processor_Template\<close>: the programs a scaffold writes, from the generated
    document over the agent to the consumer each replica reads.
  \<^item> This theory: the properties of the controller as a whole and of the mesh.

  \<^bold>\<open>How code becomes definitions.\<close> A struct is a record, an enum a datatype, an operation on shared
  state a function from state to state with the same branches and early returns; errors are the left
  values of a sum. Fixed-width integers are words, so wrapping and saturation are the code's own.
  A \<^verbatim>\<open>HashMap\<close> is an association list with distinct keys whose order is arbitrary, a \<^verbatim>\<open>BTreeMap\<close> a
  sorted one. A registry behind a mutex is one component of the state and each locked section one
  step. A spawned task is not hidden: each of its steps between two waits is an operation of its own
  (\<open>native_take\<close>, \<open>native_reap\<close>, \<open>wasm_leave\<close>, \<open>run_archive_task\<close>, \<open>forward_exit\<close>, \<open>probe_tick\<close>), so the machines
  cover every interleaving with the other operations.

  \<^bold>\<open>Parameters.\<close> What other packages, services or the operating system compute is a field of an
  extension record: \<open>store_ext\<close> and \<open>ctl_ext\<close> (serde and YAML codecs, RFC 3339 text, cron, identifiers
  drawn, the outcome of each publish), \<open>host_ext\<close> and \<open>agent_ext\<close> (spawning, killing, process
  identifiers, what docker answers), \<open>mesh_ext\<close> (subject matching, encoding of control messages),
  \<open>connector_ext\<close>, \<open>webhook_ext\<close> and \<open>mcp_ext\<close> (JSON text, hashing, which publications fail),
  \<open>wasm_ext\<close> (compiling a module), \<open>web_ext\<close> (matching a path, decoding a query), \<open>cli_world\<close>, \<open>http_world\<close>, \<open>demo_bus\<close>, \<open>demo_feed\<close> and \<open>bench_world\<close> (what servers and
  the broker answer).
  Assumptions about them, such as that decoding inverts encoding or what a wildcard in a subject
  means, are hypotheses of the theorems that need them, and the witnesses discharge them on concrete
  functions.

  \<^bold>\<open>Simplifications.\<close> All clock readings within one handler are one argument. The database answers
  every statement or fails with the fault in its state, which may appear and disappear at any time.
  Text is taken to be ASCII, so bytes and characters coincide. Floating point is exact where it occurs:
  \<open>Hardware\<close> rounds to 53 bits as the hardware does, and the load average is passed through. Log output
  of the programs themselves is left out; \<open>Cli_Stack\<close> rounds the products of the percentiles to 53 bits too.
  One definition has fuel: \<open>split_text\<close> counts down the length of its text, which is enough because every
  step consumes a character. Every other loop that is modelled as recursion is structural or has its
  measure, and the endless loops are one round per step.

  \<^bold>\<open>What is shown.\<close> Per component: invariants under every operation, the exact outcome of each operation
  on every branch, refinements of short specifications, round trips, and bounds. For the whole: the
  controller never publishes two runs with one identifier; it records only exits that happened; a
  node runs only what the controller asked it to; and a dispatched workload's exit code comes back. For
  the client with the controller: a snapshot restored elsewhere gives the same resources, the controller
  accepts the client's token, a follower prints every line once, an executed task is cleaned up, no
  command takes the controller out of its reachable states, and without the token nothing but the
  health endpoint answers. Where
  the code does something else than its documentation or purpose, a theorem states what it does
  (for example \<open>native_stop_race\<close>, \<open>partial_dispatch_phantom\<close>, \<open>log_line_delivery\<close>).

  \<^bold>\<open>Not modelled.\<close> Where ratatui places the widgets of the dashboard; the page of the web UI and the
  Python program, which are files of their own; start-up code of the controller, the agent and the
  tool server that parses arguments, opens connections and sets up logging; clap's parsing of command
  lines everywhere; SQLite, NATS, Kafka, OpenSearch, wasmtime, axum and docker themselves.
\<close>

subsection \<open>Properties across the components\<close>



text \<open>Further: a log line shows up at once as the newest line of its workload, filed under the kind the
  registry knows for the name; a line of a workload the registry has never seen, such as a task
  just fired by a schedule, is filed under the service of that name, and its instance is
  registered as a service.\<close>

theorem log_line_filed:
  assumes "reachable ext st"
    and "kind = unwrap_or (kind_for_name (as_instances st) (ll_service (en_payload env))) ''Service''"
  shows "last (lv_entries (get_logs kind (ll_service (en_payload env)) None (on_log_line ext (Some env) st))) =
           \<lparr>le_at = en_at env, le_node_id = ll_node_id (en_payload env),
            le_stream = log_stream_str (ll_stream (en_payload env)), le_line = ll_line (en_payload env)\<rparr> \<and>
         (\<forall>i. ll_instance_id (en_payload env) = Some i \<and> hm_get (by_id (as_instances st)) i = None \<and>
            kind_for_name (as_instances st) (ll_service (en_payload env)) = None \<longrightarrow>
            (\<exists>r. hm_get (by_id (as_instances (on_log_line ext (Some env) st))) i = Some r \<and> ir_kind r = ''Service''))"
proof -
  have len: "length (ring_of (as_logs st) key) \<le> LOG_RING_CAPACITY" for key
    using reachable_inv [OF assms(1)] by (cases key) (simp add: ctl_inv_def rings_bounded_def)
  let ?e = "\<lparr>le_at = en_at env, le_node_id = ll_node_id (en_payload env),
      le_stream = log_stream_str (ll_stream (en_payload env)), le_line = ll_line (en_payload env)\<rparr>"
  have logs: "as_logs (on_log_line ext (Some env) st) = lb_push kind (ll_service (en_payload env)) ?e (as_logs st)"
    by (simp add: on_log_line_def Let_def assms(2))
  have "last (ring_of (lb_push kind (ll_service (en_payload env)) ?e (as_logs st)) (kind, ll_service (en_payload env))) = ?e"
    using len by (simp add: lb_push_def ring_of_def Let_def)
  then show ?thesis
    using assms(2) by (auto simp: get_logs_def lb_snapshot_eq Let_def logs) (auto simp: on_log_line_def note_line_def Let_def)
qed

theorem log_line_filed_witness:
  "last (lv_entries (get_logs ''Service'' ''inline-task'' None (on_log_line demo_ctl (Some (envelope_new 1 5 None
      \<lparr>ll_node_id = ''mini'', ll_service = ''inline-task'', ll_instance_id = Some 4, ll_replica_index = 0,
       ll_stream = Stdout, ll_line = ''hi''\<rparr>)) demo_state))) =
   \<lparr>le_at = 5, le_node_id = ''mini'', le_stream = ''stdout'', le_line = ''hi''\<rparr>"
proof -
  have "reachable demo_ctl demo_state" unfolding demo_state_def by (rule reachable.start)
  moreover have "kind_for_name (as_instances demo_state) ''inline-task'' = None"
    by (simp add: demo_state_def app_state_new_def instance_registry_default_def kind_for_name_def hm_values_def)
  ultimately show ?thesis
    using log_line_filed [of demo_ctl demo_state "''Service''" "envelope_new 1 5 None
      \<lparr>ll_node_id = ''mini'', ll_service = ''inline-task'', ll_instance_id = Some 4, ll_replica_index = 0,
       ll_stream = Stdout, ll_line = ''hi''\<rparr>"]
    by (simp add: envelope_new_def log_stream_str_def)
qed

subsection \<open>The mesh\<close>

text \<open>C1: the controller never records an exit that did not happen. In every state a mesh of one
  controller and any number of nodes without docker can reach, whatever messages were lost, delayed,
  repeated or reordered, an exit code in the controller's registry (other than minus one, which stands
  for a missing code) is the code with which a process of that instance ended on some node.\<close>

theorem mesh_exits_happened:
  assumes "mesh_reachable ext m" and "\<forall>k. \<not> fst (docker_available (gx_host (mx_agent ext k)) host_new)"
    and "hm_get (by_id (as_instances (ms_ctl m))) i = Some r" and "ir_exit_code r = Some c" and "c \<noteq> - 1"
  shows "\<exists>a \<in> set (ms_agents m). \<exists>p \<in> set (nh_procs (ag_host a)). pr_instance p = i \<and>
           (\<exists>s. pr_status p = Some s \<and> es_code s = Some c)"
  using mesh_exits_reachable [OF assms(1,2)] assms(3-5)
  unfolding mesh_exits_def exits_within_def mesh_ended_def ended_def by blast

theorem mesh_exits_happened_witness:
  "\<exists>p \<in> set (nh_procs (ag_host wire_ended)). pr_instance p = 0 \<and> (\<exists>s. pr_status p = Some s \<and> es_code s = Some 3)"
proof -
  let ?m = "\<lparr>ms_ctl = deliver_to_controller demo_wire 5 (last (ag_sent wire_ended)) wire_dispatched, ms_agents = [wire_ended]\<rparr>"
  have "mesh_reachable demo_wire ?m"
    using mesh_one_agent(3) [OF wire_ended_reachable] wire_event by fastforce
  with mesh_exits_happened [of demo_wire ?m 0 _ 3] wire_record wire_start(6) show ?thesis
    by (auto simp: demo_wire_def)
qed

text \<open>C2: nodes run only what they were asked to run. In every reachable mesh, each instance an agent
  knows is a slot of a \<open>ControlRun\<close> message the controller sent to that node, with its kind and
  name, and each process on a node was started with the command of such a message and told the
  index of one of its slots.\<close>

theorem mesh_runs_requested:
  assumes "mesh_reachable ext m" and "runs_decoded ext (ms_ctl m)" and "a \<in> set (ms_agents m)"
  shows "(\<forall>i meta. agent_get a i = Some meta \<longrightarrow>
            (\<exists>env. (for_node Topic_ControlRun (ag_node_id a), Msg_Run env) \<in> set (as_sent (ms_ctl m)) \<and>
               cr_kind (en_payload env) = im_kind meta \<and> cr_name (en_payload env) = im_name meta \<and>
               im_replica_index meta \<in> set (run_slots (en_payload env)))) \<and>
         (\<forall>p \<in> set (nh_procs (ag_host a)).
            (\<exists>env vars idx. (for_node Topic_ControlRun (ag_node_id a), Msg_Run env) \<in> set (as_sent (ms_ctl m)) \<and>
               cr_runtime (en_payload env) = Runtime_Native (pr_exec p) (pr_args p) vars \<and>
               idx \<in> set (run_slots (en_payload env)) \<and>
               bt_get (pr_env p) ''ORION_REPLICA_INDEX'' = Some (show_nat (unat idx))))"
proof -
  have acc: "accounted (asked (ms_ctl m) (ag_node_id a)) a"
    using mesh_asked_reachable [OF assms(1)] assms(2,3) by (simp add: mesh_asked_def)
  show ?thesis
  proof (intro conjI allI impI ballI)
    fix i meta assume "agent_get a i = Some meta"
    with acc show "\<exists>env. (for_node Topic_ControlRun (ag_node_id a), Msg_Run env) \<in> set (as_sent (ms_ctl m)) \<and>
        cr_kind (en_payload env) = im_kind meta \<and> cr_name (en_payload env) = im_name meta \<and>
        im_replica_index meta \<in> set (run_slots (en_payload env))"
      unfolding accounted_def asked_def slot_of_def by blast
  next
    fix p assume "p \<in> set (nh_procs (ag_host a))"
    with acc show "\<exists>env vars idx. (for_node Topic_ControlRun (ag_node_id a), Msg_Run env) \<in> set (as_sent (ms_ctl m)) \<and>
        cr_runtime (en_payload env) = Runtime_Native (pr_exec p) (pr_args p) vars \<and>
        idx \<in> set (run_slots (en_payload env)) \<and> bt_get (pr_env p) ''ORION_REPLICA_INDEX'' = Some (show_nat (unat idx))"
      unfolding accounted_def asked_def process_of_def by blast
  qed
qed

theorem mesh_runs_requested_witness:
  "nh_procs (ag_host wire_running) \<noteq> [] \<and> pr_exec (nh_procs (ag_host wire_running) ! 0) = ''/bin/backup''"
proof -
  have "runs_decoded demo_wire (ms_ctl \<lparr>ms_ctl = wire_dispatched, ms_agents = [wire_running]\<rparr>)"
    by (auto simp: runs_decoded_def wire_dispatched_sent demo_wire_def wire_faultless)
  moreover have "nh_procs (ag_host wire_running) ! 0 \<in> set (nh_procs (ag_host wire_running))"
    using wire_running_procs by simp
  ultimately have "pr_exec (nh_procs (ag_host wire_running) ! 0) = ''/bin/backup''"
    using mesh_runs_requested [OF wire_running_reachable, of wire_running]
    by (fastforce simp: wire_dispatched_sent wire_run_payload)
  then show ?thesis using wire_running_procs by auto
qed

text \<open>C8: the life of a native workload, end to end. The controller dispatches it and registers the
  instance; the agent of the chosen node gets the message and starts the process; the process ends,
  the wait task reaps it, and the agent's event reaches the controller. Then the controller's record
  of that instance carries the time, the exit code of the process (minus one when it has none) and
  whether it succeeded.\<close>

theorem workload_exit_comes_back:
  assumes "dispatch_workload (mx_ctl ext) now wk name (Runtime_Native exec args vars) g 1 st = (Inr (node, i), st1)"
    and "st2 = register_dispatch now (workload_kind_str wk) name (Inr (node, i), st1)"
    and "hm_get (by_id (as_instances st)) i = None"
    and "registry_get (ag_registry a) ''native'' = Some Adapter_Native" and "nh_exits (ag_host a) = []"
    and "hx_spawn_error (gx_host ax) (nh_spawns (ag_host a)) = None" and "\<forall>k. gx_publish_error ax k = None"
    and "\<And>env. snd (last (as_sent st2)) = Msg_Run env \<Longrightarrow> gx_decode_run ax (mx_encode_run ext env) = Inr env"
    and "subject_matching (mx_matches ext)"
    and "w = length (nh_waits (ag_host a))" and "p = length (nh_procs (ag_host a))"
    and "a1 = snd (dispatch_control ax now1 (fst (last (as_sent st2))) (control_payload ext (snd (last (as_sent st2)))) a)"
    and "a2 = on_host (\<lambda>h. native_reap w None (process_exit p s (native_take w h))) a1"
    and "st3 = deliver_to_controller ext now3 (last (ag_sent (forward_exit ax now2 a2))) st2"
  shows "\<exists>r. hm_get (by_id (as_instances st3)) i = Some r \<and> ir_kind r = workload_kind_str wk \<and> ir_name r = name \<and>
           ir_node r = Some node \<and> ir_exited_at r = Some now3 \<and> ir_exit_code r = Some (unwrap_or (es_code s) (- 1)) \<and>
           ir_exit_kind r = Some (if es_code s = Some 0 then ''succeeded'' else ''failed'')"
proof -
  obtain env where env: "as_sent st1 = as_sent st @ [(for_node Topic_ControlRun node, Msg_Run env)]"
    "cr_instance_id (en_payload env) = i" "cr_runtime (en_payload env) = Runtime_Native exec args vars"
    "cr_replicas (en_payload env) = 1" "cr_slot_indices (en_payload env) = []" "as_instances st1 = as_instances st"
    using dispatched_message [OF assms(1) [unfolded dispatch_workload_def]] by blast
  have sent: "last (as_sent st2) = (for_node Topic_ControlRun node, Msg_Run env)"
    using env(1) by (simp add: assms(2) register_dispatch_def del: for_node.simps)
  have partial: "partial_mode (en_payload env) = False" using env(5) by (simp add: partial_mode_def)
  have a1: "a1 = snd (dispatch_control ax now1 (for_node Topic_ControlRun node) (mx_encode_run ext env) a)"
    by (simp add: assms(12) sent control_payload_def del: for_node.simps)
  obtain id where event: "last (ag_sent (forward_exit ax now2 a2)) = (topic_as_str Topic_TaskEvents,
      Am_Event (envelope_new id now2 (Some (ag_node_id a)) \<lparr>te_task_id = i, te_node_id = ag_node_id a,
        te_outcome = exit_outcome (native_notice i (Inr s))\<rparr>))"
    using exit_roundtrip_agent [OF partial env(4,3) assms(4-7) _ refl assms(10,11) a1 assms(13), of now2] assms(8) [of env] sent env(2)
    by auto
  obtain r where r: "hm_get (by_id (as_instances st2)) i = Some r" "ir_kind r = workload_kind_str wk" "ir_name r = name"
    "ir_node r = Some node"
    using env(6) assms(3) by (simp add: assms(2) register_dispatch_def record_dispatch_def Let_def)
  have code: "task_exit_of (exit_outcome (native_notice i (Inr s))) =
      Some (unwrap_or (es_code s) (- 1), if es_code s = Some 0 then ''succeeded'' else ''failed'')"
    by (auto simp: exit_outcome_def native_notice_def task_exit_of_def split: option.split)
  have "st3 = on_task_event now3 (Some (envelope_new id now2 (Some (ag_node_id a)) \<lparr>te_task_id = i, te_node_id = ag_node_id a,
        te_outcome = exit_outcome (native_notice i (Inr s))\<rparr>)) st2"
    using task_events_match [OF assms(9)] by (simp add: assms(14) event deliver_to_controller_def del: topic_as_str.simps)
  with r code show ?thesis by (simp add: on_task_event_def record_exit_def envelope_new_def Let_def)
qed

theorem workload_exit_comes_back_witness:
  "\<exists>r. hm_get (by_id (as_instances (deliver_to_controller demo_wire 5 (last (ag_sent wire_ended)) wire_dispatched))) 0 = Some r \<and>
       ir_name r = ''backup'' \<and> ir_exit_code r = Some 3 \<and> ir_exit_kind r = Some ''failed''"
proof -
  have d: "dispatch_workload (mx_ctl demo_wire) 2 WK_Task ''backup'' (Runtime_Native ''/bin/backup'' [] []) 1 1 demo_state =
      (Inr (''mini'', 0), demo_state\<lparr>as_drawn := 2, as_publishes := 1, as_sent := [(for_node Topic_ControlRun ''mini'', Msg_Run wire_run)]\<rparr>)"
    using wire_dispatch by (simp add: demo_wire_def del: for_node.simps)
  have st2: "wire_dispatched = register_dispatch 2 (workload_kind_str WK_Task) ''backup'' (Inr (''mini'', 0),
      demo_state\<lparr>as_drawn := 2, as_publishes := 1, as_sent := [(for_node Topic_ControlRun ''mini'', Msg_Run wire_run)]\<rparr>)"
    by (simp add: wire_dispatched_def workload_kind_str_def del: for_node.simps)
  have running: "wire_running = snd (dispatch_control wire_agent 3 (fst (last (as_sent wire_dispatched)))
      (control_payload demo_wire (snd (last (as_sent wire_dispatched)))) (agent_start wire_agent ''mini''))"
    by (simp add: wire_running_def wire_dispatched_sent control_payload_def demo_wire_def del: for_node.simps)
  have "hm_get (by_id (as_instances demo_state)) 0 = None"
    by (simp add: demo_state_def app_state_new_def instance_registry_default_def)
  then show ?thesis
    using workload_exit_comes_back [OF d st2 _ wire_start(1,2) wire_faultless(1) _ _ _ refl refl running refl refl,
        where s = exit_three and ?now2.0 = 4 and ?now3.0 = 5]
      token_matching
    by (auto simp: wire_faultless wire_dispatched_sent wire_start demo_wire_def exit_three_def wire_ended_def)
qed

text \<open>Further: an agent's inventory makes its node a placement candidate for thirty seconds. After the
  controller stored an inventory, the node is among the candidates exactly once, with the
  architecture, operating system and GPUs the agent detected, up to thirty seconds after it
  arrived and not at all later.\<close>

theorem inventory_makes_candidate:
  assumes "query db_observed_node (as_store st) = Inr rows" and "hm_wf rows"
    and "cx_encode_inventory (mx_ctl ext) (build_inventory ax sys a) = Some s"
    and "cx_decode_inventory (mx_ctl ext) s = Some (build_inventory ax sys a)"
    and "ex_parse_rfc3339 (cx_store (mx_ctl ext)) (ex_to_rfc3339 (cx_store (mx_ctl ext)) now) = Some now"
    and "subject_matching (mx_matches ext)" and "\<forall>k. gx_publish_error ax k = None"
    and "st' = deliver_to_controller ext now (last (ag_sent (publish_inventory ax t sys a))) st"
    and "own = filter (\<lambda>c. cn_node_id c = ag_node_id a) (live_candidates (mx_ctl ext) later st')"
  shows "own = (if later \<le> now + NODE_TIMEOUT
      then [\<lparr>cn_node_id = ag_node_id a, cn_arch = hw_arch (si_hardware sys), cn_os = hw_os (si_hardware sys),
             cn_gpus = detect_gpus (si_hardware sys), cn_roles = [], cn_labels = []\<rparr>] else [])"
proof -
  let ?cx = "mx_ctl ext" let ?nv = "build_inventory ax sys a"
  have match: "mx_matches ext (topic_as_str Topic_NodeInventory) (topic_as_str Topic_NodeInventory)"
    using assms(6) by (simp add: subject_matching_def)
  obtain i where st': "st' = on_inventory ?cx now (Some (envelope_new i t (Some (ag_node_id a)) ?nv)) st"
    using match by (simp add: assms(8) publish_inventory_def agent_send_sent [OF spec [OF assms(7)]] deliver_to_controller_def
        del: topic_as_str.simps)
  obtain rows' where rows': "query db_observed_node (as_store st') = Inr rows'" "hm_wf rows'"
    "hm_get rows' (ag_node_id a) = Some \<lparr>nd_agent_version = iv_agent_version ?nv, nd_inventory = Some s,
       nd_last_seen_at = ex_to_rfc3339 (cx_store ?cx) now\<rparr>" (is "_ = Some ?row")
    using inventory_row [OF assms(1,2) assms(3) st'] by (auto simp: build_inventory_def Let_def)
  have "filter (\<lambda>x. fst x = ag_node_id a) rows' = [(ag_node_id a, ?row)]"
    using rows'(2,3) by (rule hm_filter_key)
  then have sorted: "filter (\<lambda>x. fst x = ag_node_id a) (sort_key fst rows') = [(ag_node_id a, ?row)]"
    by (simp add: filter_sort)
  have own_filter: "filter (\<lambda>c. cn_node_id c = n) (List.map_filter (candidate_of ?cx cut) (map (observed_of_row x later) xs)) =
      List.map_filter (candidate_of ?cx cut) (map (observed_of_row x later) (filter (\<lambda>x. fst x = n) xs))" for n cut x xs
    by (induction xs) (auto simp: List.map_filter_simps observed_of_row_def candidate_of_def split: option.splits if_splits)
  have "own = List.map_filter (candidate_of ?cx (later - NODE_TIMEOUT)) (map (observed_of_row (cx_store ?cx) later) [(ag_node_id a, ?row)])"
    by (simp only: assms(9) live_candidates_def observed_nodes_def list_nodes_def rows'(1) sum.case own_filter sorted)
  then show ?thesis
    using assms(5) assms(4)
    by (auto simp: observed_of_row_def candidate_of_def List.map_filter_simps build_inventory_def Let_def)
qed

definition demo_sys :: sys_info where
  "demo_sys = \<lparr>si_uptime_seconds = 1, si_load_one = 0, si_used_memory = 0, si_cpus = 4,
     si_hardware = \<lparr>hw_arch = X86_64, hw_os = Linux, hw_total_memory = 0, hw_sysctl = Inl [], hw_profiler = Inl [],
       hw_json = \<lambda>_. None, hw_nvidia = Inl [], hw_lspci = Inl []\<rparr>\<rparr>"

theorem inventory_makes_candidate_witness:
  "filter (\<lambda>c. cn_node_id c = ''pi'') (live_candidates
     (wire_ctl\<lparr>cx_decode_inventory := \<lambda>_. Some (build_inventory demo_agent demo_sys (agent_start demo_agent ''pi''))\<rparr>) 9
     (deliver_to_controller (demo_wire\<lparr>mx_ctl := wire_ctl\<lparr>cx_decode_inventory :=
        \<lambda>_. Some (build_inventory demo_agent demo_sys (agent_start demo_agent ''pi''))\<rparr>\<rparr>) 5
        (last (ag_sent (publish_inventory demo_agent 4 demo_sys (agent_start demo_agent ''pi'')))) demo_state)) =
   [\<lparr>cn_node_id = ''pi'', cn_arch = X86_64, cn_os = Linux, cn_gpus = [], cn_roles = [], cn_labels = []\<rparr>]"
proof -
  let ?a = "agent_start demo_agent ''pi''"
  let ?cx = "wire_ctl\<lparr>cx_decode_inventory := \<lambda>_. Some (build_inventory demo_agent demo_sys ?a)\<rparr>"
  let ?ext = "demo_wire\<lparr>mx_ctl := ?cx\<rparr>"
  have "query db_observed_node (as_store demo_state) = Inr [(''mini'', \<lparr>nd_agent_version = ''1'', nd_inventory = Some ''inv'', nd_last_seen_at = ''a''\<rparr>)]"
    by (simp add: query_def demo_state_def app_state_new_def demo_mesh_def)
  moreover have "hm_wf [(''mini'', \<lparr>nd_agent_version = ''1'', nd_inventory = Some ''inv'', nd_last_seen_at = ''a''\<rparr>)]"
    by (simp add: hm_wf_def)
  moreover have "subject_matching (mx_matches ?ext)" by (simp add: demo_wire_def token_matching)
  moreover have "ex_parse_rfc3339 (cx_store (mx_ctl ?ext)) (ex_to_rfc3339 (cx_store (mx_ctl ?ext)) 5) = Some 5"
    "cx_encode_inventory (mx_ctl ?ext) (build_inventory demo_agent demo_sys ?a) = Some ''inv''"
    "cx_decode_inventory (mx_ctl ?ext) ''inv'' = Some (build_inventory demo_agent demo_sys ?a)"
    "\<forall>k. gx_publish_error demo_agent k = None" "ag_node_id ?a = ''pi''"
    by (simp_all add: wire_ctl_def demo_ctl_def demo_ext_def demo_agent_def agent_start_def Let_def split_beta)
  ultimately show ?thesis
    using inventory_makes_candidate [of demo_state _ ?ext demo_agent demo_sys ?a "''inv''" 5 _ 4 _ 9]
    by (simp add: NODE_TIMEOUT_def demo_sys_def detect_gpus_def detect_gpus_linux_def succeeded_def)
qed

text \<open>Further: an output line reaches the controller exactly when the node's name is a single token. The
  agent publishes the line with the service, instance and slot it belongs to on the subject of its
  node; the controller's subscription covers one token, so every line of a node whose name contains
  a dot, such as a host name with a domain, is lost.\<close>

theorem log_line_delivery:
  assumes "subject_matching (mx_matches ext)" and "agent_get a i = Some meta"
    and "nh_logs (ag_host a) = (i, stream, line) # rest" and "\<forall>k. gx_publish_error ax k = None"
    and "a1 = forward_log ax now a"
  shows "\<exists>env. last (ag_sent a1) = (for_node Topic_Logs (ag_node_id a), Am_Log env) \<and>
     ll_service (en_payload env) = im_name meta \<and> ll_replica_index (en_payload env) = im_replica_index meta \<and>
     ll_instance_id (en_payload env) = Some i \<and> ll_line (en_payload env) = line \<and>
     deliver_to_controller ext now' (last (ag_sent a1)) st =
       (if ag_node_id a \<noteq> [] \<and> CHR ''.'' \<notin> set (ag_node_id a) then on_log_line (mx_ctl ext) (Some env) st else st)"
proof -
  let ?env = "envelope_new (gx_new_uuid ax (ag_drawn a)) now (Some (ag_node_id a))
    \<lparr>ll_node_id = ag_node_id a, ll_service = im_name meta, ll_instance_id = Some i,
     ll_replica_index = im_replica_index meta, ll_stream = stream_of stream, ll_line = line\<rparr>"
  have a1: "a1 = agent_send ax now (for_node Topic_Logs (ag_node_id a)) Am_Log (en_payload ?env)
      (a\<lparr>ag_host := (ag_host a)\<lparr>nh_logs := rest\<rparr>\<rparr>)"
    using assms(2,3) by (simp add: assms(5) forward_log_def Let_def envelope_new_def del: for_node.simps)
  have sent: "last (ag_sent a1) = (for_node Topic_Logs (ag_node_id a), Am_Log ?env)"
    unfolding a1 agent_send_sent [OF spec [OF assms(4)]] by (simp add: envelope_new_def del: for_node.simps)
  have "mx_matches ext (''orion.logs'' @ ''.*'') (''orion.logs'' @ ''.'' @ n) \<longleftrightarrow> n \<noteq> [] \<and> CHR ''.'' \<notin> set n" for n
    by (rule subject_matching_star [OF assms(1)]) simp_all
  then have "mx_matches ext (topic_as_str Topic_Logs) (for_node Topic_Logs n) \<longleftrightarrow> n \<noteq> [] \<and> CHR ''.'' \<notin> set n" for n
    by simp
  then show ?thesis
    unfolding sent by (intro exI [of _ ?env]) (simp add: deliver_to_controller_def envelope_new_def del: for_node.simps topic_as_str.simps)
qed

definition dotted_agent :: agent_state where
  "dotted_agent = (agent_start demo_agent ''mac.local'')
     \<lparr>ag_instances := [(7, \<lparr>im_kind = WK_Service, im_name = ''web'', im_replica_index = 0, im_started_at = 0\<rparr>)],
      ag_host := host_new\<lparr>nh_logs := [(7, Out_Stdout, ''ready'')]\<rparr>\<rparr>"

theorem log_line_delivery_witness:
  "deliver_to_controller demo_wire 6 (last (ag_sent (forward_log demo_agent 5 dotted_agent))) demo_state = demo_state"
proof -
  have "agent_get dotted_agent 7 \<noteq> None" "nh_logs (ag_host dotted_agent) = [(7, Out_Stdout, ''ready'')]"
    "ag_node_id dotted_agent = ''mac.local''" "\<forall>k. gx_publish_error demo_agent k = None"
    by (simp_all add: dotted_agent_def agent_get_def hm_get_def demo_agent_def agent_start_def Let_def split_beta)
  moreover have "subject_matching (mx_matches demo_wire)" by (simp add: demo_wire_def token_matching)
  ultimately show ?thesis
    using log_line_delivery [of demo_wire dotted_agent 7 _ Out_Stdout "''ready''" "[]" demo_agent _ 5] by fastforce
qed

text \<open>C28: a partial relaunch registers an instance that exists nowhere. The controller registers the
  identifier it drew as a live replica in slot zero, but the agent gives each listed slot a fresh
  identifier: afterwards neither its registry nor any of its processes has the registered one, so no
  line and no exit will ever be reported for it.\<close>

theorem partial_dispatch_phantom:
  assumes "dispatch_workload_with_slots (mx_ctl ext) now wk name rt g reps slots st = (Inr (node, i), st1)" and "slots \<noteq> []"
    and "st2 = register_dispatch now (workload_kind_str wk) name (Inr (node, i), st1)"
    and "hm_get (by_id (as_instances st)) i = None"
    and "\<And>env. snd (last (as_sent st2)) = Msg_Run env \<Longrightarrow> gx_decode_run ax (mx_encode_run ext env) = Inr env"
    and "agent_get a i = None" and "\<forall>p \<in> set (nh_procs (ag_host a)). pr_instance p \<noteq> i" and "\<forall>n. gx_new_uuid ax n \<noteq> i"
    and "a1 = snd (dispatch_control ax now1 (fst (last (as_sent st2))) (control_payload ext (snd (last (as_sent st2)))) a)"
  shows "(\<exists>r. hm_get (by_id (as_instances st2)) i = Some r \<and> ir_replica_index r = 0 \<and> ir_exited_at r = None) \<and>
         agent_get a1 i = None \<and> (\<forall>p \<in> set (nh_procs (ag_host a1)). pr_instance p \<noteq> i)"
proof -
  obtain env where env: "as_sent st1 = as_sent st @ [(for_node Topic_ControlRun node, Msg_Run env)]"
    "cr_slot_indices (en_payload env) = slots" "as_instances st1 = as_instances st"
    using dispatched_message [OF assms(1)] by blast
  have sent: "last (as_sent st2) = (for_node Topic_ControlRun node, Msg_Run env)"
    using env(1) by (simp add: assms(3) register_dispatch_def del: for_node.simps)
  have a1: "a1 = snd (dispatch_control ax now1 (for_node Topic_ControlRun node) (mx_encode_run ext env) a)"
    by (simp add: assms(9) sent control_payload_def del: for_node.simps)
  have "partial_mode (en_payload env)" using assms(2) env(2) by (simp add: partial_mode_def)
  then have "unknown_to a1 i"
    using launch_slots_unknown [of "en_payload env" ax i a now1] assms(5) [of env] sent assms(6-8)
    by (auto simp: a1 unknown_to_def dispatch_control_def suffix_control Let_def simp del: for_node.simps split: option.split)
  then show ?thesis
    using assms(4) env(3) by (simp add: unknown_to_def assms(3) register_dispatch_def record_dispatch_def Let_def)
qed

definition partial_agent :: agent_ext where
  "partial_agent = wire_agent\<lparr>gx_new_uuid := \<lambda>_. 9,
     gx_decode_run := \<lambda>_. Inr (wire_run\<lparr>en_payload := (en_payload wire_run)\<lparr>cr_slot_indices := [1]\<rparr>\<rparr>)\<rparr>"

theorem partial_dispatch_phantom_witness:
  "agent_get (snd (dispatch_control partial_agent 3 (for_node Topic_ControlRun ''mini'') ''task''
     (agent_start wire_agent ''mini''))) 0 = None"
proof -
  have "agent_get (agent_start wire_agent ''mini'') 0 = None"
    by (simp add: agent_get_def agent_start_def Let_def split_beta)
  moreover have "hm_get (by_id (as_instances demo_state)) 0 = None"
    by (simp add: demo_state_def app_state_new_def instance_registry_default_def)
  moreover have "dispatch_workload_with_slots (mx_ctl demo_wire) 2 WK_Task ''backup'' (Runtime_Native ''/bin/backup'' [] []) 1 1 [1] demo_state =
      (Inr (''mini'', 0), demo_state\<lparr>as_drawn := 2, as_publishes := 1, as_sent := [(for_node Topic_ControlRun ''mini'',
        Msg_Run (wire_run\<lparr>en_payload := (en_payload wire_run)\<lparr>cr_slot_indices := [1]\<rparr>\<rparr>))]\<rparr>)"
    using wire_dispatch_slots [of "[1]"] by (simp add: demo_wire_def del: for_node.simps)
  note phantom = partial_dispatch_phantom [OF this _ refl _ _ _ _ _ refl, of partial_agent "agent_start wire_agent ''mini''" 3]
  ultimately show ?thesis
    using phantom
    by (simp add: demo_wire_def partial_agent_def wire_start register_dispatch_def control_payload_def del: for_node.simps)
qed

end
